(* ===== verification/Prelude.thy ===== *)
theory Prelude
  imports Main "HOL-Library.Sublist"
begin

text \<open>
  Shared vocabulary of the development: the outcomes of Go functions (a value, an error or
  a panic), the error values of the API machinery that the code tells apart, Go slices that
  may be nil, the functions of Go's packages \<open>strings\<close>, \<open>path\<close> and
  \<open>path/filepath\<close> that the code calls, and the list lemmas the components share.

  A Go string is a list of bytes (\<open>string\<close>). \<open>ToLower\<close> maps the ASCII letters only and
  \<open>quoted\<close> (the verb \<open>%q\<close>) escapes quotes and backslashes only: the names of the API are ASCII.
\<close>

named_theorems cond_simps \<open>how the condition operations act on the conditions of a definition\<close>
named_theorems frame_simps \<open>fields an operation leaves alone\<close>

section \<open>Outcomes and errors\<close>

text \<open>
  The errors of \<open>k8s.io/apimachinery/pkg/api/errors\<close> that the code tells apart with
  \<open>IsNotFound\<close>, \<open>IsConflict\<close> and \<open>IsAlreadyExists\<close> or builds with the \<open>New...\<close> functions;
  \<open>PlainErr\<close> is any other error, with its message.
\<close>

datatype go_error =
    NotFound string
  | Conflict string
  | AlreadyExists string
  | BadRequest string
  | InternalError string
  | MethodNotSupported string
  | TooLargeResourceVersion
  | PlainErr string

fun IsNotFound :: "go_error \<Rightarrow> bool" where
  "IsNotFound (NotFound _) = True"
| "IsNotFound _ = False"

fun IsConflict :: "go_error \<Rightarrow> bool" where
  "IsConflict (Conflict _) = True"
| "IsConflict _ = False"

fun IsAlreadyExists :: "go_error \<Rightarrow> bool" where
  "IsAlreadyExists (AlreadyExists _) = True"
| "IsAlreadyExists _ = False"

text \<open>A Go function returns a value, returns an error, or panics.\<close>

datatype 'a outcome = Ret 'a | Err go_error | Panic

fun bind_outcome :: "'a outcome \<Rightarrow> ('a \<Rightarrow> 'b outcome) \<Rightarrow> 'b outcome" where
  "bind_outcome (Ret x) f = f x"
| "bind_outcome (Err e) f = Err e"
| "bind_outcome Panic f = Panic"

lemma bind_outcome_Ret_iff:
  "bind_outcome m f = Ret y \<longleftrightarrow> (\<exists>x. m = Ret x \<and> f x = Ret y)"
  by (cases m) auto

section \<open>Slices, sets and first-match updates\<close>

text \<open>
  \<open>reflect.DeepEqual\<close> tells a nil slice from an empty one, so a slice that the code compares
  that way is an \<open>option\<close>: \<open>None\<close> is nil. \<open>elems\<close> is what \<open>range\<close> and \<open>len\<close> see.
\<close>

type_synonym 'a slice = "'a list option"

definition elems :: "'a slice \<Rightarrow> 'a list" where
  "elems s = (case s of None \<Rightarrow> [] | Some xs \<Rightarrow> xs)"

lemma elems_simps [simp]: "elems None = []" "elems (Some xs) = xs"
  by (simp_all add: elems_def)

text \<open>Writing through a pointer to the first element of a slice that satisfies \<open>P\<close>.\<close>

fun upd_first :: "('a \<Rightarrow> bool) \<Rightarrow> ('a \<Rightarrow> 'a) \<Rightarrow> 'a list \<Rightarrow> 'a list" where
  "upd_first P f [] = []"
| "upd_first P f (x # xs) = (if P x then f x # xs else x # upd_first P f xs)"

lemma find_upd_first_same:
  "(\<And>x. P x \<Longrightarrow> P (f x)) \<Longrightarrow> List.find P (upd_first P f xs) = map_option f (List.find P xs)"
  by (induction xs) auto

lemma find_upd_first_other:
  assumes "\<And>x. P x \<Longrightarrow> \<not> Q x" and "\<And>x. P x \<Longrightarrow> \<not> Q (f x)"
  shows "List.find Q (upd_first P f xs) = List.find Q xs"
  using assms by (induction xs) auto

lemma map_upd_first: "(\<And>x. g (f x) = g x) \<Longrightarrow> map g (upd_first P f xs) = map g xs"
  by (induction xs) auto

lemma find_snoc:
  "List.find P (xs @ [x]) =
    (case List.find P xs of Some y \<Rightarrow> Some y | None \<Rightarrow> if P x then Some x else None)"
  by (induction xs) auto

lemma find_filter_out:
  "(\<And>x. Q x \<Longrightarrow> P x) \<Longrightarrow> List.find Q (filter P xs) = List.find Q xs"
  by (induction xs) auto

lemma find_filter_none: "(\<And>x. Q x \<Longrightarrow> \<not> P x) \<Longrightarrow> List.find Q (filter P xs) = None"
  by (induction xs) auto

lemma find_SomeD: "List.find P xs = Some x \<Longrightarrow> x \<in> set xs \<and> P x"
  by (induction xs) (auto split: if_splits)

lemma find_NoneD: "List.find P xs = None \<Longrightarrow> x \<in> set xs \<Longrightarrow> \<not> P x"
  by (induction xs) (auto split: if_splits)

lemma find_map: "List.find P (map f xs) = map_option f (List.find (P \<circ> f) xs)"
  by (induction xs) auto

section \<open>Package strings\<close>

definition HasPrefix :: "string \<Rightarrow> string \<Rightarrow> bool" where
  "HasPrefix s p = (take (length p) s = p)"

definition HasSuffix :: "string \<Rightarrow> string \<Rightarrow> bool" where
  "HasSuffix s p = (length p \<le> length s \<and> drop (length s - length p) s = p)"

lemma HasPrefix_iff: "HasPrefix s p \<longleftrightarrow> (\<exists>r. s = p @ r)"
  unfolding HasPrefix_def by (metis append_eq_conv_conj append_take_drop_id)

lemma HasSuffix_iff: "HasSuffix s p \<longleftrightarrow> (\<exists>r. s = r @ p)"
proof
  assume "HasSuffix s p"
  then show "\<exists>r. s = r @ p"
    unfolding HasSuffix_def by (metis append_take_drop_id)
next
  assume "\<exists>r. s = r @ p"
  then show "HasSuffix s p" by (auto simp: HasSuffix_def)
qed

definition TrimPrefix :: "string \<Rightarrow> string \<Rightarrow> string" where
  "TrimPrefix s p = (if HasPrefix s p then drop (length p) s else s)"

definition to_lower_char :: "char \<Rightarrow> char" where
  "to_lower_char c =
    (let n = of_char c :: nat in if 65 \<le> n \<and> n \<le> 90 then char_of (n + 32) else c)"

definition ToLower :: "string \<Rightarrow> string" where
  "ToLower s = map to_lower_char s"

lemma ToLower_empty_iff [simp]: "ToLower s = [] \<longleftrightarrow> s = []"
  by (simp add: ToLower_def)

fun split_on :: "char \<Rightarrow> string \<Rightarrow> string list" where
  "split_on c [] = [[]]"
| "split_on c (x # xs) =
    (if x = c then [] # split_on c xs
     else (case split_on c xs of [] \<Rightarrow> [[x]] | y # ys \<Rightarrow> (x # y) # ys))"

fun join_with :: "string \<Rightarrow> string list \<Rightarrow> string" where
  "join_with sep [] = []"
| "join_with sep [x] = x"
| "join_with sep (x # y # ys) = x @ sep @ join_with sep (y # ys)"

lemma split_on_nonempty [simp]: "split_on c s \<noteq> []"
  by (induction s) (auto split: list.splits)

lemma join_split_on: "join_with [c] (split_on c s) = s"
proof (induction s)
  case Nil
  show ?case by simp
next
  case (Cons x xs)
  obtain y ys where ys: "split_on c xs = y # ys" by (cases "split_on c xs") auto
  show ?case using Cons ys by (cases ys) auto
qed

lemma split_on_no_sep: "p \<in> set (split_on c s) \<Longrightarrow> c \<notin> set p"
proof (induction s arbitrary: p)
  case (Cons x xs)
  then show ?case by (cases "split_on c xs") (auto split: if_splits)
qed simp

lemma split_on_id: "c \<notin> set s \<Longrightarrow> split_on c s = [s]"
  by (induction s) auto

lemma split_on_append: "c \<notin> set s \<Longrightarrow> split_on c (s @ c # t) = s # split_on c t"
  by (induction s) auto

lemma split_join_with:
  assumes "ps \<noteq> []" and "\<forall>p \<in> set ps. c \<notin> set p"
  shows "split_on c (join_with [c] ps) = ps"
  using assms
proof (induction "[c]" ps rule: join_with.induct)
  case (3 x y ys)
  then show ?case by (simp add: split_on_append)
qed (auto simp: split_on_id)

text \<open>\<open>SplitN(s, sep, 2)\<close> with a one-byte separator: cut at the first occurrence.\<close>

definition SplitN2 :: "string \<Rightarrow> char \<Rightarrow> string list" where
  "SplitN2 s c =
    (if c \<in> set s
     then [takeWhile (\<lambda>x. x \<noteq> c) s, tl (dropWhile (\<lambda>x. x \<noteq> c) s)]
     else [s])"

lemma SplitN2_no_sep: "c \<notin> set s \<Longrightarrow> SplitN2 s c = [s]"
  by (simp add: SplitN2_def)

lemma SplitN2_append: "c \<notin> set p \<Longrightarrow> SplitN2 (p @ c # g) c = [p, g]"
  by (induction p) (auto simp: SplitN2_def)

definition Trim :: "string \<Rightarrow> char \<Rightarrow> string" where
  "Trim s c = rev (dropWhile (\<lambda>x. x = c) (rev (dropWhile (\<lambda>x. x = c) s)))"

text \<open>\<open>strings.Replace(s, old, "", 1)\<close>: drop the first occurrence of a non-empty \<open>old\<close>.\<close>

fun remove_first :: "string \<Rightarrow> string \<Rightarrow> string" where
  "remove_first [] old = []"
| "remove_first (x # xs) old =
    (if HasPrefix (x # xs) old then drop (length old) (x # xs) else x # remove_first xs old)"

lemma remove_first_prefix: "remove_first (old @ s) old = s"
proof (cases "old @ s")
  case (Cons a t)
  moreover have "HasPrefix (old @ s) old" by (simp add: HasPrefix_def)
  moreover have "drop (length old) (old @ s) = s" by simp
  ultimately show ?thesis by (metis remove_first.simps(2))
qed simp

definition quoted :: "string \<Rightarrow> string" where
  "quoted s = ''\"'' @ concat (map (\<lambda>c.
      if c = CHR ''\"'' \<or> c = CHR 0x5C then [CHR 0x5C, c] else [c]) s) @ ''\"''"

section \<open>Packages path and path/filepath\<close>

text \<open>
  \<open>Clean\<close> by its documented rules: drop empty and \<open>.\<close> elements, let \<open>..\<close> eliminate the
  element before it, drop \<open>..\<close> at the beginning of a rooted path, give \<open>.\<close> for nothing.
\<close>

fun clean_elems :: "bool \<Rightarrow> string list \<Rightarrow> string list \<Rightarrow> string list" where
  "clean_elems rooted acc [] = rev acc"
| "clean_elems rooted acc (e # es) =
    (if e = [] \<or> e = ''.'' then clean_elems rooted acc es
     else if e = ''..''
       then (case acc of
               [] \<Rightarrow> clean_elems rooted (if rooted then [] else [''..'']) es
             | a # as \<Rightarrow> clean_elems rooted (if a = ''..'' then e # acc else as) es)
     else clean_elems rooted (e # acc) es)"

definition Clean :: "string \<Rightarrow> string" where
  "Clean p =
    (let rooted = HasPrefix p ''/'';
         body = join_with ''/'' (clean_elems rooted [] (split_on CHR ''/'' p))
     in if rooted then CHR ''/'' # body else if body = [] then ''.'' else body)"

definition path_join :: "string list \<Rightarrow> string" where
  "path_join es =
    (case filter (\<lambda>e. e \<noteq> []) es of [] \<Rightarrow> [] | es' \<Rightarrow> Clean (join_with ''/'' es'))"

text \<open>\<open>Dir\<close>: the path up to its last slash, cleaned.\<close>

definition Dir :: "string \<Rightarrow> string" where
  "Dir p = Clean (rev (dropWhile (\<lambda>c. c \<noteq> CHR ''/'') (rev p)))"

text \<open>A path element that \<open>Clean\<close> keeps.\<close>

definition plain_elem :: "string \<Rightarrow> bool" where
  "plain_elem e \<longleftrightarrow> e \<noteq> [] \<and> e \<noteq> ''.'' \<and> e \<noteq> ''..'' \<and> CHR ''/'' \<notin> set e"

lemma clean_elems_plain:
  "list_all plain_elem es \<Longrightarrow> clean_elems r acc es = rev acc @ es"
  by (induction es arbitrary: acc) (auto simp: plain_elem_def)

text \<open>A rooted path made of plain elements, such as \<open>/tmp/grafana/dashboards/default/a\<close>.\<close>

definition rooted_path :: "string list \<Rightarrow> string" where
  "rooted_path es = CHR ''/'' # join_with ''/'' es"

lemma split_rooted_path:
  assumes "es \<noteq> []" and "list_all plain_elem es"
  shows "split_on CHR ''/'' (rooted_path es) = [] # es"
  using assms split_join_with [of es "CHR ''/''"]
  by (auto simp: rooted_path_def list_all_iff plain_elem_def)

lemma Clean_rooted_path:
  assumes "es \<noteq> []" and "list_all plain_elem es"
  shows "Clean (rooted_path es) = rooted_path es"
  using assms clean_elems_plain [of es True "[]"]
  by (simp add: Clean_def Let_def split_rooted_path) (simp add: rooted_path_def HasPrefix_def)

lemma join_with_snoc:
  "ps \<noteq> [] \<Longrightarrow> join_with s (ps @ [p]) = join_with s ps @ s @ p"
  by (induction s ps rule: join_with.induct) auto

lemma rooted_path_snoc:
  "es \<noteq> [] \<Longrightarrow> rooted_path (es @ [e]) = rooted_path es @ ''/'' @ e"
  by (simp add: rooted_path_def join_with_snoc)

lemma dropWhile_append_stop:
  "\<forall>x \<in> set xs. P x \<Longrightarrow> \<not> P y \<Longrightarrow> dropWhile P (xs @ y # ys) = y # ys"
  by (induction xs) auto

lemma Dir_rooted_path:
  assumes es: "es \<noteq> []" "list_all plain_elem es" and e: "CHR ''/'' \<notin> set e"
  shows "Dir (rooted_path (es @ [e])) = rooted_path es"
proof -
  have "dropWhile (\<lambda>c. c \<noteq> CHR ''/'') (rev (rooted_path (es @ [e]))) = CHR ''/'' # rev (rooted_path es)"
  proof -
    have "\<forall>x \<in> set (rev e). x \<noteq> CHR ''/''" using e by auto
    then show ?thesis using es by (simp add: rooted_path_snoc dropWhile_append_stop)
  qed
  then have "Dir (rooted_path (es @ [e])) = Clean (rooted_path es @ ''/'')"
    by (simp add: Dir_def)
  moreover have "split_on CHR ''/'' (rooted_path es @ ''/'') = [] # es @ [[]]"
  proof -
    have "rooted_path es @ ''/'' = rooted_path (es @ [[]])"
      using es by (simp add: rooted_path_snoc)
    then show ?thesis
      using es split_join_with [of "es @ [[]]" "CHR ''/''"]
      by (auto simp: rooted_path_def list_all_iff plain_elem_def)
  qed
  moreover have "clean_elems True [] ([] # es @ [[]]) = es"
  proof -
    have "clean_elems True acc (es @ [[]]) = rev acc @ es" for acc
      using es(2) by (induction es arbitrary: acc) (auto simp: plain_elem_def)
    then show ?thesis by simp
  qed
  moreover have "HasPrefix (rooted_path es @ ''/'') ''/''"
    by (simp add: HasPrefix_def rooted_path_def)
  ultimately show ?thesis by (simp add: Clean_def Let_def rooted_path_def)
qed

text \<open>A cleaned path is a run of \<open>..\<close> (none when rooted) and then plain elements; cleaning it again changes nothing.\<close>

definition clean_shape :: "bool \<Rightarrow> string list \<Rightarrow> bool" where
  "clean_shape r es \<longleftrightarrow> (\<exists>n ps. es = replicate n ''..'' @ ps \<and> list_all plain_elem ps \<and> (r \<longrightarrow> n = 0))"

lemma plain_not_dotdot: "\<not> plain_elem ''..''"
  by (simp add: plain_elem_def)

lemma clean_shape_snoc: "clean_shape r es \<Longrightarrow> plain_elem e \<Longrightarrow> clean_shape r (es @ [e])"
proof -
  assume "clean_shape r es" and e: "plain_elem e"
  then obtain n ps where "es = replicate n ''..'' @ ps" "list_all plain_elem ps" "r \<longrightarrow> n = 0"
    by (auto simp: clean_shape_def)
  then show ?thesis
    using e unfolding clean_shape_def by (intro exI [of _ n] exI [of _ "ps @ [e]"]) simp
qed

lemma clean_shape_dotdot: "clean_shape r (es @ [''..'']) \<Longrightarrow> clean_shape r (es @ [''..'', ''..''])"
proof -
  assume "clean_shape r (es @ [''..''])"
  then obtain n ps where n: "es @ [''..''] = replicate n ''..'' @ ps" "list_all plain_elem ps" "r \<longrightarrow> n = 0"
    by (auto simp: clean_shape_def)
  have "ps = []"
  proof (rule ccontr)
    assume "ps \<noteq> []"
    then have "last ps = ''..''" using n(1) by (metis last_appendR last_snoc)
    then show False using n(2) \<open>ps \<noteq> []\<close> plain_not_dotdot by (metis last_in_set list_all_iff)
  qed
  then have es: "es @ [''..''] = replicate n ''..''" using n(1) by simp
  then have "n \<noteq> 0" by (metis replicate_0 snoc_eq_iff_butlast)
  have "es @ [''..'', ''..''] = (es @ [''..'']) @ [''..'']" by simp
  also have "\<dots> = replicate (Suc n) ''..'' @ []"
    unfolding es by (simp add: replicate_append_same)
  finally show ?thesis
    using n(3) \<open>n \<noteq> 0\<close> unfolding clean_shape_def by (intro exI [of _ "Suc n"] exI [of _ "[]"]) simp
qed

lemma clean_shape_butlast: "clean_shape r (es @ [e]) \<Longrightarrow> clean_shape r es"
proof -
  assume "clean_shape r (es @ [e])"
  then obtain n ps where n: "es @ [e] = replicate n ''..'' @ ps" "list_all plain_elem ps" "r \<longrightarrow> n = 0"
    by (auto simp: clean_shape_def)
  show ?thesis
  proof (cases ps rule: rev_cases)
    case Nil
    then have r: "es @ [e] = replicate n ''..''" using n(1) by simp
    then obtain m where m: "n = Suc m" by (cases n) auto
    then have "es @ [e] = replicate m ''..'' @ [''..'']" using r by (simp add: replicate_append_same)
    then have "es = replicate m ''..''" by simp
    then show ?thesis
      using n(3) m unfolding clean_shape_def by (intro exI [of _ m] exI [of _ "[]"]) simp
  next
    case (snoc qs x)
    then have "es = replicate n ''..'' @ qs" "list_all plain_elem qs" using n(1,2) by auto
    then show ?thesis using n(3) by (auto simp: clean_shape_def)
  qed
qed

lemma clean_elems_shape:
  assumes "clean_shape r (rev acc)" and "\<forall>e \<in> set es. CHR ''/'' \<notin> set e"
  shows "clean_shape r (clean_elems r acc es)"
  using assms
proof (induction es arbitrary: acc)
  case (Cons e es)
  consider "e = [] \<or> e = ''.''" | "e = ''..''" "acc = []" | a as where "e = ''..''" "acc = a # as" "a = ''..''"
    | a as where "e = ''..''" "acc = a # as" "a \<noteq> ''..''" | "plain_elem e"
    using Cons.prems(2) by (cases acc) (auto simp: plain_elem_def)
  then show ?case
  proof cases
    case 1
    then show ?thesis using Cons by auto
  next
    case 2
    have "clean_shape r (rev (if r then [] else [''..'']))"
      by (auto simp: clean_shape_def intro!: exI [of _ "Suc 0"] exI [of _ "[]"])
    from Cons.IH [OF this] 2 Cons.prems(2) show ?thesis by (auto split: if_splits)
  next
    case (3 a as)
    then have "clean_shape r (rev (e # acc))" using Cons.prems(1) clean_shape_dotdot [of r "rev as"] by simp
    from Cons.IH [OF this] 3 Cons.prems(2) show ?thesis by simp
  next
    case (4 a as)
    then have "clean_shape r (rev as)" using Cons.prems(1) clean_shape_butlast [of r "rev as"] by simp
    from Cons.IH [OF this] 4 Cons.prems(2) show ?thesis by simp
  next
    case 5
    then have "clean_shape r (rev (e # acc))" using Cons.prems(1) clean_shape_snoc by simp
    from Cons.IH [OF this] 5 Cons.prems(2) show ?thesis by (auto simp: plain_elem_def)
  qed
qed simp

lemma clean_elems_replicate:
  "clean_elems False (replicate m ''..'') (replicate n ''..'' @ es) = clean_elems False (replicate (n + m) ''..'') es"
proof (induction n arbitrary: m)
  case (Suc n)
  show ?case
  proof (cases m)
    case 0
    then show ?thesis using Suc [of 1] by simp
  next
    case (Suc k)
    then show ?thesis using Suc.IH [of "Suc m"] by (simp add: replicate_app_Cons_same)
  qed
qed simp

lemma clean_elems_id: "clean_shape r es \<Longrightarrow> clean_elems r [] es = es"
proof -
  assume "clean_shape r es"
  then obtain n ps where n: "es = replicate n ''..'' @ ps" "list_all plain_elem ps" "r \<longrightarrow> n = 0"
    by (auto simp: clean_shape_def)
  show ?thesis
  proof (cases r)
    case True
    then show ?thesis using n clean_elems_plain [of ps True "[]"] by simp
  next
    case False
    then show ?thesis
      using n clean_elems_replicate [of 0 n ps] clean_elems_plain [of ps False "replicate n ''..''"] by simp
  qed
qed

lemma clean_shape_no_slash: "clean_shape r es \<Longrightarrow> e \<in> set es \<Longrightarrow> CHR ''/'' \<notin> set e \<and> e \<noteq> []"
proof -
  assume "clean_shape r es" and e: "e \<in> set es"
  then obtain n ps where "es = replicate n ''..'' @ ps" "list_all plain_elem ps"
    by (auto simp: clean_shape_def)
  then have "e = ''..'' \<or> plain_elem e" using e by (auto simp: list_all_iff)
  then show ?thesis by (auto simp: plain_elem_def)
qed

lemma Clean_Clean: "Clean (Clean p) = Clean p"
proof -
  let ?r = "HasPrefix p ''/''"
  let ?es = "clean_elems ?r [] (split_on CHR ''/'' p)"
  have shape: "clean_shape ?r ?es"
    by (rule clean_elems_shape) (use split_on_no_sep in \<open>auto simp: clean_shape_def\<close>)
  have split: "?es \<noteq> [] \<Longrightarrow> split_on CHR ''/'' (join_with ''/'' ?es) = ?es"
    using split_join_with [of ?es "CHR ''/''"] clean_shape_no_slash [OF shape] by auto
  have first: "?es \<noteq> [] \<Longrightarrow> join_with ''/'' ?es \<noteq> [] \<and> hd (join_with ''/'' ?es) \<noteq> CHR ''/''"
  proof -
    assume ne: "?es \<noteq> []"
    then obtain e es where e: "?es = e # es" by (cases ?es) auto
    then have "e \<noteq> [] \<and> CHR ''/'' \<notin> set e" using clean_shape_no_slash [OF shape, of e] by auto
    then show ?thesis unfolding e by (cases es; cases e) auto
  qed
  show ?thesis
  proof (cases ?r)
    case True
    then have c: "Clean p = CHR ''/'' # join_with ''/'' ?es" by (simp add: Clean_def Let_def)
    have "clean_elems True [] (split_on CHR ''/'' (CHR ''/'' # join_with ''/'' ?es)) = ?es"
      using clean_elems_id [OF shape] True split by (cases "?es = []") simp_all
    then show ?thesis unfolding c
      by (simp add: Clean_def Let_def HasPrefix_def del: split_on.simps)
  next
    case False
    show ?thesis
    proof (cases "?es = []")
      case True
      then have "Clean p = ''.''" using False by (simp add: Clean_def Let_def)
      then show ?thesis by (simp add: Clean_def HasPrefix_def)
    next
      case ne: False
      then have c: "Clean p = join_with ''/'' ?es" using False first by (simp add: Clean_def Let_def)
      have "\<not> HasPrefix (join_with ''/'' ?es) ''/''"
        using first [OF ne] by (cases "join_with ''/'' ?es") (auto simp: HasPrefix_def)
      then show ?thesis unfolding c
        using clean_elems_id [OF shape] False split [OF ne] first [OF ne] by (simp add: Clean_def Let_def)
    qed
  qed
qed
section \<open>Package sort\<close>

text \<open>\<open>sort.Slice\<close> as an insertion sort: Go fixes the order only up to ties. Strings compare bytewise.\<close>

fun insert_by :: "('a \<Rightarrow> 'a \<Rightarrow> bool) \<Rightarrow> 'a \<Rightarrow> 'a list \<Rightarrow> 'a list" where
  "insert_by lt x [] = [x]"
| "insert_by lt x (y # ys) = (if lt y x then y # insert_by lt x ys else x # y # ys)"

definition sort_slice :: "('a \<Rightarrow> 'a \<Rightarrow> bool) \<Rightarrow> 'a list \<Rightarrow> 'a list" where
  "sort_slice lt xs = foldr (insert_by lt) xs []"

fun string_less :: "string \<Rightarrow> string \<Rightarrow> bool" where
  "string_less [] [] = False"
| "string_less [] (_ # _) = True"
| "string_less (_ # _) [] = False"
| "string_less (a # s) (b # t) =
    (if a = b then string_less s t else (of_char a :: nat) < of_char b)"

lemma set_insert_by [simp]: "set (insert_by lt x ys) = insert x (set ys)"
  by (induction ys) auto

lemma set_sort_slice [simp]: "set (sort_slice lt xs) = set xs"
  by (induction xs) (auto simp: sort_slice_def)

lemma length_insert_by [simp]: "length (insert_by lt x ys) = Suc (length ys)"
  by (induction ys) auto

lemma length_sort_slice [simp]: "length (sort_slice lt xs) = length xs"
  by (induction xs) (auto simp: sort_slice_def)

lemma sort_slice_empty_iff [simp]: "sort_slice lt xs = [] \<longleftrightarrow> xs = []"
  by (metis length_0_conv length_sort_slice)

text \<open>A strict weak order, by a rank, sorts.\<close>

lemma sorted_sort_slice:
  assumes "\<And>a b c. \<not> lt b a \<Longrightarrow> \<not> lt c b \<Longrightarrow> \<not> lt c a" and "\<And>a b. lt a b \<Longrightarrow> \<not> lt b a"
  shows "sorted_wrt (\<lambda>a b. \<not> lt b a) (sort_slice lt xs)"
proof (induction xs)
  case Nil
  show ?case by (simp add: sort_slice_def)
next
  case (Cons x xs)
  have ins: "sorted_wrt (\<lambda>a b. \<not> lt b a) ys \<Longrightarrow> sorted_wrt (\<lambda>a b. \<not> lt b a) (insert_by lt x ys)" for ys
  proof (induction ys)
    case (Cons y ys)
    show ?case
    proof (cases "lt y x")
      case True
      then show ?thesis using Cons assms(2) by auto
    next
      case False
      then show ?thesis using Cons.prems assms(1) by auto
    qed
  qed simp
  show ?case using ins [OF Cons] by (simp add: sort_slice_def)
qed

end
