(* ===== verification/Kinds.thy ===== *)
theory Kinds
  imports Prelude
begin

text \<open>
  The data model: \<open>pkg/apis/kinds/types.go\<close> (the internal version) and
  \<open>pkg/apis/kinds/v1/types.go\<close> (the served version). The two files declare the same structs
  but for the spec, so one record stands for both copies of a struct (the generated conversion
  casts pointers between them), and \<open>'spec GrafanaResourceDefinition\<close> is instantiated with
  either spec. A pointer is an \<open>option\<close>, an empty struct is \<open>unit\<close>, a Go string enum is a
  \<open>string\<close> with its constants, a time is an \<open>int\<close> whose zero is Go's zero time. The names
  keep nil and empty slices apart (\<open>'a slice\<close>) because \<open>reflect.DeepEqual\<close> does.

  Of \<open>metav1.ObjectMeta\<close> the model keeps the fields the code reads or writes. \<open>TypeMeta\<close> is left
  out: no modelled code reads it.
\<close>

type_synonym time = int

definition IsZero :: "time \<Rightarrow> bool" where
  "IsZero t \<longleftrightarrow> t = 0"

section \<open>Object metadata\<close>

record ObjectMeta =
  mName :: string
  mNamespace :: string
  mUID :: string
  mResourceVersion :: string
  mGeneration :: int
  mCreationTimestamp :: time
  mDeletionTimestamp :: "time option"
  mLabels :: "(string \<times> string) list"
  mAnnotations :: "(string \<times> string) list"
  mFinalizers :: "string list"

text \<open>\<open>(*metav1.Time).IsZero\<close>: a nil pointer is zero too.\<close>

definition deletion_is_zero :: "ObjectMeta \<Rightarrow> bool" where
  "deletion_is_zero m = (case mDeletionTimestamp m of None \<Rightarrow> True | Some t \<Rightarrow> IsZero t)"

text \<open>Reading a missing key of a Go \<open>map[string]string\<close> gives the empty string.\<close>

definition map_get :: "(string \<times> string) list \<Rightarrow> string \<Rightarrow> string" where
  "map_get m k = (case map_of m k of None \<Rightarrow> [] | Some v \<Rightarrow> v)"

section \<open>Names, subresources and versions\<close>

record GrafanaResourceDefinitionNames =
  Plural :: string
  Singular :: string
  ShortNames :: "string slice"
  Kind :: string
  ListKind :: string
  Categories :: "string slice"

type_synonym kinds_GrafanaResourceDefinitionNames = GrafanaResourceDefinitionNames

record GrafanaResourceSubresourceScale =
  SpecReplicasPath :: string
  StatusReplicasPath :: string
  LabelSelectorPath :: "string option"

record GrafanaResourceSubresources =
  subStatus :: "unit option"
  subScale :: "GrafanaResourceSubresourceScale option"
  subHistory :: "unit option"
  subRef :: "unit option"

type_synonym kinds_GrafanaResourceSubresourceScale = GrafanaResourceSubresourceScale
type_synonym kinds_GrafanaResourceSubresources = GrafanaResourceSubresources

record GrafanaResourceDefinitionVersion =
  vName :: string
  vServed :: bool
  vStorage :: bool
  vDeprecated :: bool
  vDeprecationWarning :: "string option"
  vSubresources :: "GrafanaResourceSubresources option"

type_synonym kinds_GrafanaResourceDefinitionVersion = GrafanaResourceDefinitionVersion

section \<open>Specs of the two API versions\<close>

definition ClusterScoped :: string where "ClusterScoped = ''Cluster''"
definition NamespaceScoped :: string where "NamespaceScoped = ''Namespaced''"

record GrafanaResourceDefinitionSpec =
  sGroup :: string
  sNames :: GrafanaResourceDefinitionNames
  sScope :: string
  sVersions :: "GrafanaResourceDefinitionVersion list"
  sPreserveUnknownFields :: bool

record kinds_GrafanaResourceDefinitionSpec =
  kGroup :: string
  kVersion :: string
  kNames :: GrafanaResourceDefinitionNames
  kScope :: string
  kSubresources :: "GrafanaResourceSubresources option"
  kVersions :: "GrafanaResourceDefinitionVersion list"
  kPreserveUnknownFields :: "bool option"

section \<open>Conditions and status\<close>

text \<open>The constants of the string enums, spelled out where they are used.\<close>

abbreviation ConditionTrue :: string where "ConditionTrue \<equiv> ''True''"
abbreviation ConditionFalse :: string where "ConditionFalse \<equiv> ''False''"
abbreviation ConditionUnknown :: string where "ConditionUnknown \<equiv> ''Unknown''"

abbreviation Established :: string where "Established \<equiv> ''Established''"
abbreviation NamesAccepted :: string where "NamesAccepted \<equiv> ''NamesAccepted''"
abbreviation Terminating :: string where "Terminating \<equiv> ''Terminating''"
abbreviation KubernetesAPIApprovalPolicyConformant :: string where
  "KubernetesAPIApprovalPolicyConformant \<equiv> ''KubernetesAPIApprovalPolicyConformant''"

definition KubeAPIApprovedAnnotation :: string where
  "KubeAPIApprovedAnnotation = ''api-approved.kubernetes.io''"

definition GrafanaResourceCleanupFinalizer :: string where
  "GrafanaResourceCleanupFinalizer = ''cleanup.kinds.grafana.com''"

record GrafanaResourceDefinitionCondition =
  cType :: string
  cStatus :: string
  cLastTransitionTime :: time
  cReason :: string
  cMessage :: string

type_synonym kinds_GrafanaResourceDefinitionCondition = GrafanaResourceDefinitionCondition

text \<open>A composite literal that sets every field but \<open>LastTransitionTime\<close>.\<close>

definition mk_cond :: "string \<Rightarrow> string \<Rightarrow> string \<Rightarrow> string \<Rightarrow> GrafanaResourceDefinitionCondition" where
  "mk_cond t st r m =
    \<lparr>cType = t, cStatus = st, cLastTransitionTime = 0, cReason = r, cMessage = m\<rparr>"

lemma mk_cond_sel [simp]:
  "cType (mk_cond t st r m) = t" "cStatus (mk_cond t st r m) = st"
  "cReason (mk_cond t st r m) = r" "cMessage (mk_cond t st r m) = m"
  "cLastTransitionTime (mk_cond t st r m) = 0"
  by (simp_all add: mk_cond_def)

record GrafanaResourceDefinitionStatus =
  stConditions :: "GrafanaResourceDefinitionCondition list"
  stAcceptedNames :: GrafanaResourceDefinitionNames
  stStoredVersions :: "string list"

type_synonym kinds_GrafanaResourceDefinitionStatus = GrafanaResourceDefinitionStatus

definition empty_names :: GrafanaResourceDefinitionNames where
  "empty_names = \<lparr>Plural = [], Singular = [], ShortNames = None, Kind = [], ListKind = [],
                  Categories = None\<rparr>"

text \<open>The zero value \<open>GrafanaResourceDefinitionStatus{}\<close>.\<close>

definition empty_status :: GrafanaResourceDefinitionStatus where
  "empty_status = \<lparr>stConditions = [], stAcceptedNames = empty_names, stStoredVersions = []\<rparr>"

section \<open>Definitions\<close>

record 'spec GrafanaResourceDefinition =
  gMeta :: ObjectMeta
  gSpec :: 'spec
  gStatus :: GrafanaResourceDefinitionStatus

type_synonym GRD = "GrafanaResourceDefinitionSpec GrafanaResourceDefinition"
type_synonym kinds_GRD = "kinds_GrafanaResourceDefinitionSpec GrafanaResourceDefinition"

record 'spec GrafanaResourceDefinitionList =
  lResourceVersion :: string
  lItems :: "'spec GrafanaResourceDefinition slice"

abbreviation grd_name :: "'s GrafanaResourceDefinition \<Rightarrow> string" where
  "grd_name g \<equiv> mName (gMeta g)"

abbreviation conditions :: "'s GrafanaResourceDefinition \<Rightarrow> GrafanaResourceDefinitionCondition list" where
  "conditions g \<equiv> stConditions (gStatus g)"

abbreviation accepted :: "'s GrafanaResourceDefinition \<Rightarrow> GrafanaResourceDefinitionNames" where
  "accepted g \<equiv> stAcceptedNames (gStatus g)"

definition set_conditions ::
  "GrafanaResourceDefinitionCondition list \<Rightarrow> 's GrafanaResourceDefinition \<Rightarrow> 's GrafanaResourceDefinition" where
  "set_conditions cs g = g\<lparr>gStatus := (gStatus g)\<lparr>stConditions := cs\<rparr>\<rparr>"

lemma set_conditions_sel [simp, frame_simps]:
  "conditions (set_conditions cs g) = cs"
  "gMeta (set_conditions cs g) = gMeta g"
  "gSpec (set_conditions cs g) = gSpec g"
  "accepted (set_conditions cs g) = accepted g"
  "stStoredVersions (gStatus (set_conditions cs g)) = stStoredVersions (gStatus g)"
  by (simp_all add: set_conditions_def)

lemma set_conditions_same [simp]: "set_conditions (conditions g) g = g"
  by (simp add: set_conditions_def)

lemma set_conditions_set_conditions [simp]:
  "set_conditions cs (set_conditions ds g) = set_conditions cs g"
  by (simp add: set_conditions_def)

end
