(* ===== verification/GrdHelpers.thy ===== *)
theory GrdHelpers
  imports Kinds
begin

text \<open>
  \<open>pkg/apihelpers/helpers.go\<close> and its twin \<open>pkg/apis/kinds/helpers.go\<close>: the operations on
  the conditions, finalizers and versions of a definition. \<open>time.Now()\<close> is the argument
  \<open>now\<close>. A pointer into the conditions is the condition it points to where the code only reads
  it; \<open>SetGRDCondition\<close> writes through it, which is \<open>upd_first\<close>.

  The locale \<open>condition_store\<close> states what the controllers rely on; both twins interpret it.
\<close>

section \<open>pkg/apihelpers/helpers.go\<close>

definition FindGRDCondition ::
  "'s GrafanaResourceDefinition \<Rightarrow> string \<Rightarrow> GrafanaResourceDefinitionCondition option" where
  "FindGRDCondition grd t = List.find (\<lambda>c. cType c = t) (conditions grd)"

definition SetGRDCondition ::
  "time \<Rightarrow> 's GrafanaResourceDefinition \<Rightarrow> GrafanaResourceDefinitionCondition \<Rightarrow>
   's GrafanaResourceDefinition" where
  "SetGRDCondition now grd newCondition0 =
    (let newCondition = newCondition0\<lparr>cLastTransitionTime := now\<rparr> in
     case FindGRDCondition grd (cType newCondition) of
       None \<Rightarrow> set_conditions (conditions grd @ [newCondition]) grd
     | Some existingCondition \<Rightarrow>
         let time =
           (if cStatus existingCondition \<noteq> cStatus newCondition \<or>
               IsZero (cLastTransitionTime existingCondition)
            then cLastTransitionTime newCondition
            else cLastTransitionTime existingCondition)
         in set_conditions
              (upd_first (\<lambda>c. cType c = cType newCondition)
                 (\<lambda>c. c\<lparr>cStatus := cStatus newCondition, cLastTransitionTime := time,
                        cReason := cReason newCondition, cMessage := cMessage newCondition\<rparr>)
                 (conditions grd)) grd)"

definition RemoveGRDCondition ::
  "'s GrafanaResourceDefinition \<Rightarrow> string \<Rightarrow> 's GrafanaResourceDefinition" where
  "RemoveGRDCondition grd t = set_conditions (filter (\<lambda>c. cType c \<noteq> t) (conditions grd)) grd"

definition IsGRDConditionPresentAndEqual ::
  "'s GrafanaResourceDefinition \<Rightarrow> string \<Rightarrow> string \<Rightarrow> bool" where
  "IsGRDConditionPresentAndEqual grd t status =
    (case List.find (\<lambda>c. cType c = t) (conditions grd) of
       None \<Rightarrow> False | Some condition \<Rightarrow> cStatus condition = status)"

definition IsGRDConditionTrue :: "'s GrafanaResourceDefinition \<Rightarrow> string \<Rightarrow> bool" where
  "IsGRDConditionTrue grd t = IsGRDConditionPresentAndEqual grd t ConditionTrue"

definition IsGRDConditionFalse :: "'s GrafanaResourceDefinition \<Rightarrow> string \<Rightarrow> bool" where
  "IsGRDConditionFalse grd t = IsGRDConditionPresentAndEqual grd t ConditionFalse"

fun IsGRDConditionEquivalent ::
  "GrafanaResourceDefinitionCondition option \<Rightarrow> GrafanaResourceDefinitionCondition option \<Rightarrow> bool" where
  "IsGRDConditionEquivalent None None = True"
| "IsGRDConditionEquivalent (Some lhs) (Some rhs) =
    (cMessage lhs = cMessage rhs \<and> cReason lhs = cReason rhs \<and>
     cStatus lhs = cStatus rhs \<and> cType lhs = cType rhs)"
| "IsGRDConditionEquivalent _ _ = False"

definition GRDHasFinalizer :: "'s GrafanaResourceDefinition \<Rightarrow> string \<Rightarrow> bool" where
  "GRDHasFinalizer grd needle = list_ex (\<lambda>f. f = needle) (mFinalizers (gMeta grd))"

definition GRDRemoveFinalizer ::
  "'s GrafanaResourceDefinition \<Rightarrow> string \<Rightarrow> 's GrafanaResourceDefinition" where
  "GRDRemoveFinalizer grd needle =
    grd\<lparr>gMeta := (gMeta grd)\<lparr>mFinalizers := filter (\<lambda>f. f \<noteq> needle) (mFinalizers (gMeta grd))\<rparr>\<rparr>"

text \<open>The first version of that name decides, whatever the later ones say.\<close>

definition HasServedGRDVersion :: "GRD \<Rightarrow> string \<Rightarrow> bool" where
  "HasServedGRDVersion grd version =
    (case List.find (\<lambda>v. vName v = version) (sVersions (gSpec grd)) of
       None \<Rightarrow> False | Some v \<Rightarrow> vServed v)"

definition no_storage_version :: go_error where
  "no_storage_version = PlainErr ''invalid GrafanaResourceDefinition, no storage version''"

definition GetGRDStorageVersion :: "GRD \<Rightarrow> go_error + string" where
  "GetGRDStorageVersion grd =
    (case List.find vStorage (sVersions (gSpec grd)) of
       Some v \<Rightarrow> Inr (vName v) | None \<Rightarrow> Inl no_storage_version)"

definition IsStoredVersion :: "'s GrafanaResourceDefinition \<Rightarrow> string \<Rightarrow> bool" where
  "IsStoredVersion grd version = list_ex (\<lambda>v. version = v) (stStoredVersions (gStatus grd))"

definition version_not_found :: "string \<Rightarrow> string \<Rightarrow> go_error" where
  "version_not_found version name = PlainErr (''version '' @ version @ '' not found in '' @ name)"

definition GetSubresourcesForVersion ::
  "GRD \<Rightarrow> string \<Rightarrow> go_error + GrafanaResourceSubresources option" where
  "GetSubresourcesForVersion grd version =
    (case List.find (\<lambda>v. version = vName v) (sVersions (gSpec grd)) of
       Some v \<Rightarrow> Inr (vSubresources v)
     | None \<Rightarrow> Inl (version_not_found version (grd_name grd)))"

definition HasPerVersionSchema :: "GrafanaResourceDefinitionVersion list \<Rightarrow> bool" where
  "HasPerVersionSchema versions = False"

definition HasPerVersionSubresources :: "GrafanaResourceDefinitionVersion list \<Rightarrow> bool" where
  "HasPerVersionSubresources versions = list_ex (\<lambda>v. vSubresources v \<noteq> None) versions"

definition HasPerVersionColumns :: "GrafanaResourceDefinitionVersion list \<Rightarrow> bool" where
  "HasPerVersionColumns versions = False"

text \<open>Unlike \<open>HasServedGRDVersion\<close>, any served version of that name will do.\<close>

definition HasVersionServed :: "GRD \<Rightarrow> string \<Rightarrow> bool" where
  "HasVersionServed grd version =
    list_ex (\<lambda>v. vServed v \<and> vName v = version) (sVersions (gSpec grd))"

section \<open>pkg/apis/kinds/helpers.go\<close>

fun kinds_FindGRDCondition_loop ::
  "GrafanaResourceDefinitionCondition list \<Rightarrow> string \<Rightarrow> GrafanaResourceDefinitionCondition option" where
  "kinds_FindGRDCondition_loop [] t = None"
| "kinds_FindGRDCondition_loop (c # cs) t =
    (if cType c = t then Some c else kinds_FindGRDCondition_loop cs t)"

definition kinds_FindGRDCondition ::
  "kinds_GRD \<Rightarrow> string \<Rightarrow> GrafanaResourceDefinitionCondition option" where
  "kinds_FindGRDCondition grd t = kinds_FindGRDCondition_loop (conditions grd) t"

definition kinds_SetGRDCondition ::
  "time \<Rightarrow> kinds_GRD \<Rightarrow> GrafanaResourceDefinitionCondition \<Rightarrow> kinds_GRD" where
  "kinds_SetGRDCondition now grd newCondition0 =
    (let newCondition = newCondition0\<lparr>cLastTransitionTime := now\<rparr> in
     case kinds_FindGRDCondition grd (cType newCondition) of
       None \<Rightarrow> set_conditions (conditions grd @ [newCondition]) grd
     | Some existingCondition \<Rightarrow>
         let time =
           (if cStatus existingCondition \<noteq> cStatus newCondition \<or>
               IsZero (cLastTransitionTime existingCondition)
            then cLastTransitionTime newCondition
            else cLastTransitionTime existingCondition)
         in set_conditions
              (upd_first (\<lambda>c. cType c = cType newCondition)
                 (\<lambda>c. c\<lparr>cStatus := cStatus newCondition, cLastTransitionTime := time,
                        cReason := cReason newCondition, cMessage := cMessage newCondition\<rparr>)
                 (conditions grd)) grd)"

definition kinds_RemoveGRDCondition :: "kinds_GRD \<Rightarrow> string \<Rightarrow> kinds_GRD" where
  "kinds_RemoveGRDCondition grd t =
    set_conditions (filter (\<lambda>c. cType c \<noteq> t) (conditions grd)) grd"

definition kinds_GRDHasFinalizer :: "kinds_GRD \<Rightarrow> string \<Rightarrow> bool" where
  "kinds_GRDHasFinalizer grd needle = list_ex (\<lambda>f. f = needle) (mFinalizers (gMeta grd))"

definition kinds_IsStoredVersion :: "kinds_GRD \<Rightarrow> string \<Rightarrow> bool" where
  "kinds_IsStoredVersion grd version = list_ex (\<lambda>v. version = v) (stStoredVersions (gStatus grd))"

definition kinds_GetSubresourcesForVersion ::
  "kinds_GRD \<Rightarrow> string \<Rightarrow> go_error + GrafanaResourceSubresources option" where
  "kinds_GetSubresourcesForVersion grd version =
    (if \<not> HasPerVersionSubresources (kVersions (gSpec grd)) then Inr (kSubresources (gSpec grd))
     else if kSubresources (gSpec grd) \<noteq> None
       then Inl (PlainErr (''malformed GrafanaResourceDefinition '' @ grd_name grd @ '' version '' @ version))
     else (case List.find (\<lambda>v. version = vName v) (kVersions (gSpec grd)) of
             Some v \<Rightarrow> Inr (vSubresources v)
           | None \<Rightarrow> Inl (version_not_found version (grd_name grd))))"

fun kinds_first_condition :: "GrafanaResourceDefinitionCondition list \<Rightarrow> string \<Rightarrow> string \<Rightarrow> bool" where
  "kinds_first_condition [] t status = False"
| "kinds_first_condition (c # cs) t status =
    (if cType c = t then cStatus c = status else kinds_first_condition cs t status)"

definition kinds_IsGRDConditionPresentAndEqual :: "kinds_GRD \<Rightarrow> string \<Rightarrow> string \<Rightarrow> bool" where
  "kinds_IsGRDConditionPresentAndEqual grd t status = kinds_first_condition (conditions grd) t status"

definition kinds_IsGRDConditionTrue :: "kinds_GRD \<Rightarrow> string \<Rightarrow> bool" where
  "kinds_IsGRDConditionTrue grd t = kinds_IsGRDConditionPresentAndEqual grd t ConditionTrue"

definition kinds_IsGRDConditionFalse :: "kinds_GRD \<Rightarrow> string \<Rightarrow> bool" where
  "kinds_IsGRDConditionFalse grd t = kinds_IsGRDConditionPresentAndEqual grd t ConditionFalse"

fun kinds_IsGRDConditionEquivalent ::
  "GrafanaResourceDefinitionCondition option \<Rightarrow> GrafanaResourceDefinitionCondition option \<Rightarrow> bool" where
  "kinds_IsGRDConditionEquivalent None None = True"
| "kinds_IsGRDConditionEquivalent (Some lhs) (Some rhs) =
    (cMessage lhs = cMessage rhs \<and> cReason lhs = cReason rhs \<and> cStatus lhs = cStatus rhs \<and> cType lhs = cType rhs)"
| "kinds_IsGRDConditionEquivalent _ _ = False"

definition kinds_GRDRemoveFinalizer :: "kinds_GRD \<Rightarrow> string \<Rightarrow> kinds_GRD" where
  "kinds_GRDRemoveFinalizer grd needle =
    grd\<lparr>gMeta := (gMeta grd)\<lparr>mFinalizers := filter (\<lambda>f. f \<noteq> needle) (mFinalizers (gMeta grd))\<rparr>\<rparr>"

fun first_named :: "GrafanaResourceDefinitionVersion list \<Rightarrow> string \<Rightarrow> bool" where
  "first_named [] version = False"
| "first_named (v # vs) version = (if vName v = version then vServed v else first_named vs version)"

definition kinds_HasServedGRDVersion :: "kinds_GRD \<Rightarrow> string \<Rightarrow> bool" where
  "kinds_HasServedGRDVersion grd version = first_named (kVersions (gSpec grd)) version"

fun first_storage :: "GrafanaResourceDefinitionVersion list \<Rightarrow> go_error + string" where
  "first_storage [] = Inl no_storage_version"
| "first_storage (v # vs) = (if vStorage v then Inr (vName v) else first_storage vs)"

definition kinds_GetGRDStorageVersion :: "kinds_GRD \<Rightarrow> go_error + string" where
  "kinds_GetGRDStorageVersion grd = first_storage (kVersions (gSpec grd))"

fun some_served :: "GrafanaResourceDefinitionVersion list \<Rightarrow> string \<Rightarrow> bool" where
  "some_served [] version = False"
| "some_served (v # vs) version =
    (if \<not> vServed v \<or> vName v \<noteq> version then some_served vs version else True)"

definition kinds_HasVersionServed :: "kinds_GRD \<Rightarrow> string \<Rightarrow> bool" where
  "kinds_HasVersionServed grd version = some_served (kVersions (gSpec grd)) version"

definition kinds_HasPerVersionSubresources :: "GrafanaResourceDefinitionVersion list \<Rightarrow> bool" where
  "kinds_HasPerVersionSubresources versions = list_ex (\<lambda>v. vSubresources v \<noteq> None) versions"

definition kinds_HasPerVersionSchema :: "GrafanaResourceDefinitionVersion list \<Rightarrow> bool" where
  "kinds_HasPerVersionSchema versions = False"

definition kinds_HasPerVersionColumns :: "GrafanaResourceDefinitionVersion list \<Rightarrow> bool" where
  "kinds_HasPerVersionColumns versions = False"

text \<open>The loops are the searches of the v1 helpers.\<close>

lemma kinds_first_condition_find:
  "kinds_first_condition cs t status =
    (case List.find (\<lambda>c. cType c = t) cs of None \<Rightarrow> False | Some c \<Rightarrow> cStatus c = status)"
  by (induction cs) auto

lemma first_named_find:
  "first_named vs version = (case List.find (\<lambda>v. vName v = version) vs of None \<Rightarrow> False | Some v \<Rightarrow> vServed v)"
  by (induction vs) auto

lemma first_storage_find:
  "first_storage vs = (case List.find vStorage vs of Some v \<Rightarrow> Inr (vName v) | None \<Rightarrow> Inl no_storage_version)"
  by (induction vs) auto

lemma some_served_ex: "some_served vs version = list_ex (\<lambda>v. vServed v \<and> vName v = version) vs"
  by (induction vs) auto

lemmas helper_loops = kinds_first_condition_find first_named_find first_storage_find some_served_ex

section \<open>The contract of the condition operations\<close>

text \<open>
  What \<open>SetGRDCondition\<close> leaves in the slot of the condition's type: the new condition, with
  the old transition time kept when the status did not change.
\<close>

definition merge_condition ::
  "time \<Rightarrow> GrafanaResourceDefinitionCondition option \<Rightarrow> GrafanaResourceDefinitionCondition \<Rightarrow>
   GrafanaResourceDefinitionCondition" where
  "merge_condition now old c =
    (case old of
       None \<Rightarrow> c\<lparr>cLastTransitionTime := now\<rparr>
     | Some b \<Rightarrow>
         c\<lparr>cLastTransitionTime :=
             (if cStatus b \<noteq> cStatus c \<or> IsZero (cLastTransitionTime b)
              then now else cLastTransitionTime b)\<rparr>)"

lemma merge_condition_sel [simp]:
  "cType (merge_condition now old c) = cType c"
  "cStatus (merge_condition now old c) = cStatus c"
  "cReason (merge_condition now old c) = cReason c"
  "cMessage (merge_condition now old c) = cMessage c"
  by (simp_all add: merge_condition_def split: option.split)

locale condition_store =
  fixes findc :: "'g \<Rightarrow> string \<Rightarrow> GrafanaResourceDefinitionCondition option"
    and setc :: "time \<Rightarrow> 'g \<Rightarrow> GrafanaResourceDefinitionCondition \<Rightarrow> 'g"
    and removec :: "'g \<Rightarrow> string \<Rightarrow> 'g"
  assumes find_type: "findc g t = Some c \<Longrightarrow> cType c = t"
    and find_set: "findc (setc now g c) t =
      (if t = cType c then Some (merge_condition now (findc g t) c) else findc g t)"
    and find_remove: "findc (removec g t') t = (if t = t' then None else findc g t)"
begin

lemma set_status: "map_option cStatus (findc (setc now g c) (cType c)) = Some (cStatus c)"
  by (simp add: find_set)

lemma set_keeps_time:
  assumes "findc g (cType c) = Some b" and "cStatus b = cStatus c"
    and "\<not> IsZero (cLastTransitionTime b)"
  shows "findc (setc now g c) (cType c) = Some (c\<lparr>cLastTransitionTime := cLastTransitionTime b\<rparr>)"
  using assms by (simp add: find_set merge_condition_def)

lemma set_again:
  assumes "\<not> IsZero now"
  shows "findc (setc now' (setc now g c) c) t = findc (setc now g c) t"
  using assms by (auto simp: find_set merge_condition_def IsZero_def split: option.splits)

lemma set_commute:
  assumes "cType c \<noteq> cType d"
  shows "findc (setc now' (setc now g c) d) t = findc (setc now (setc now' g d) c) t"
  using assms by (simp add: find_set)

lemma remove_set: "findc (removec (setc now g c) (cType c)) t = findc (removec g (cType c)) t"
  by (simp add: find_set find_remove)

end

lemma FindGRDCondition_type: "FindGRDCondition g t = Some c \<Longrightarrow> cType c = t"
  by (auto simp: FindGRDCondition_def dest: find_SomeD)

lemma FindGRDCondition_SetGRDCondition:
  "FindGRDCondition (SetGRDCondition now g c) t =
    (if t = cType c then Some (merge_condition now (FindGRDCondition g t) c)
     else FindGRDCondition g t)"
proof (cases "List.find (\<lambda>b. cType b = cType c) (conditions g)")
  case None
  then show ?thesis
    by (auto simp: SetGRDCondition_def FindGRDCondition_def Let_def find_snoc merge_condition_def
        split: option.splits)
next
  case (Some b)
  then have "cType b = cType c" by (auto dest: find_SomeD)
  with Some show ?thesis
    by (auto simp: SetGRDCondition_def FindGRDCondition_def Let_def merge_condition_def
        find_upd_first_same find_upd_first_other)
qed

interpretation v1_conds: condition_store FindGRDCondition SetGRDCondition RemoveGRDCondition
proof
  show "FindGRDCondition (RemoveGRDCondition g t') t =
      (if t = t' then None else FindGRDCondition g t)" for g :: "'a GrafanaResourceDefinition" and t t'
    by (auto simp: FindGRDCondition_def RemoveGRDCondition_def intro!: find_filter_out find_filter_none)
qed (auto simp: FindGRDCondition_SetGRDCondition dest: FindGRDCondition_type)

lemma kinds_FindGRDCondition_loop_eq:
  "kinds_FindGRDCondition_loop cs t = List.find (\<lambda>c. cType c = t) cs"
  by (induction cs) auto

lemma kinds_helpers_eq:
  "kinds_FindGRDCondition = FindGRDCondition"
  "kinds_SetGRDCondition = SetGRDCondition"
  "kinds_RemoveGRDCondition = RemoveGRDCondition"
  "kinds_GRDHasFinalizer = GRDHasFinalizer"
  "kinds_IsStoredVersion = IsStoredVersion"
  by (auto intro!: ext simp: kinds_FindGRDCondition_def kinds_FindGRDCondition_loop_eq
      FindGRDCondition_def kinds_SetGRDCondition_def SetGRDCondition_def
      kinds_RemoveGRDCondition_def RemoveGRDCondition_def kinds_GRDHasFinalizer_def
      GRDHasFinalizer_def kinds_IsStoredVersion_def IsStoredVersion_def)

interpretation kinds_conds:
  condition_store kinds_FindGRDCondition kinds_SetGRDCondition kinds_RemoveGRDCondition
  by unfold_locales
    (auto simp: kinds_helpers_eq v1_conds.find_set v1_conds.find_remove dest: v1_conds.find_type)

section \<open>Lemmas for the controllers\<close>

lemma present_and_equal_find:
  "IsGRDConditionPresentAndEqual g t st \<longleftrightarrow> map_option cStatus (FindGRDCondition g t) = Some st"
  by (auto simp: IsGRDConditionPresentAndEqual_def FindGRDCondition_def split: option.split)

lemma IsGRDConditionTrue_find:
  "IsGRDConditionTrue g t \<longleftrightarrow> map_option cStatus (FindGRDCondition g t) = Some ConditionTrue"
  by (simp add: IsGRDConditionTrue_def present_and_equal_find)

lemma IsGRDConditionTrue_Set [cond_simps]:
  "IsGRDConditionTrue (SetGRDCondition now g c) t =
    (if t = cType c then cStatus c = ConditionTrue else IsGRDConditionTrue g t)"
  by (simp add: IsGRDConditionTrue_find v1_conds.find_set)

lemma SetGRDCondition_frame [simp, frame_simps]:
  "gMeta (SetGRDCondition now g c) = gMeta g"
  "gSpec (SetGRDCondition now g c) = gSpec g"
  "accepted (SetGRDCondition now g c) = accepted g"
  "stStoredVersions (gStatus (SetGRDCondition now g c)) = stStoredVersions (gStatus g)"
  by (simp_all add: SetGRDCondition_def Let_def split: option.split)

lemma RemoveGRDCondition_frame [simp, frame_simps]:
  "gMeta (RemoveGRDCondition g t) = gMeta g"
  "gSpec (RemoveGRDCondition g t) = gSpec g"
  "accepted (RemoveGRDCondition g t) = accepted g"
  by (simp_all add: RemoveGRDCondition_def)

lemma GRDRemoveFinalizer_frame [simp, frame_simps]:
  "gSpec (GRDRemoveFinalizer g f) = gSpec g"
  "gStatus (GRDRemoveFinalizer g f) = gStatus g"
  "FindGRDCondition (GRDRemoveFinalizer g f) t = FindGRDCondition g t"
  "IsGRDConditionTrue (GRDRemoveFinalizer g f) t = IsGRDConditionTrue g t"
  by (simp_all add: GRDRemoveFinalizer_def FindGRDCondition_def IsGRDConditionTrue_def
      IsGRDConditionPresentAndEqual_def)

lemma GRDHasFinalizer_iff: "GRDHasFinalizer g f \<longleftrightarrow> f \<in> set (mFinalizers (gMeta g))"
  by (auto simp: GRDHasFinalizer_def list_ex_iff)

lemma GRDHasFinalizer_frame [simp]:
  "GRDHasFinalizer (SetGRDCondition now g c) f = GRDHasFinalizer g f"
  by (simp add: GRDHasFinalizer_iff)

text \<open>The condition types of a definition stay a set: \<open>listMapKey=type\<close> in \<open>types.go\<close>.\<close>

definition unique_conditions :: "'s GrafanaResourceDefinition \<Rightarrow> bool" where
  "unique_conditions g \<longleftrightarrow> distinct (map cType (conditions g))"

lemma unique_conditions_Set: "unique_conditions g \<Longrightarrow> unique_conditions (SetGRDCondition now g c)"
proof (cases "FindGRDCondition g (cType c)")
  case None
  then have "cType c \<notin> cType ` set (conditions g)"
    by (force simp: FindGRDCondition_def dest: find_NoneD)
  moreover assume "unique_conditions g"
  ultimately show ?thesis
    using None by (simp add: unique_conditions_def SetGRDCondition_def Let_def)
next
  case (Some b)
  moreover assume "unique_conditions g"
  ultimately show ?thesis
    by (simp add: unique_conditions_def SetGRDCondition_def Let_def map_upd_first)
qed

lemma unique_conditions_Remove: "unique_conditions g \<Longrightarrow> unique_conditions (RemoveGRDCondition g t)"
  by (simp add: unique_conditions_def RemoveGRDCondition_def distinct_map_filter)

lemma upd_first_same: "List.find P xs = Some x \<Longrightarrow> f x = x \<Longrightarrow> upd_first P f xs = xs"
  by (induction xs) (auto split: if_splits)

text \<open>Setting a condition that is already there, status, reason and message, changes nothing.\<close>

lemma SetGRDCondition_idem:
  assumes "FindGRDCondition g (cType c) = Some b" and "\<not> IsZero (cLastTransitionTime b)"
    and "cStatus b = cStatus c" and "cReason b = cReason c" and "cMessage b = cMessage c"
  shows "SetGRDCondition now g c = g"
proof -
  have "upd_first (\<lambda>d. cType d = cType c)
      (\<lambda>d. d\<lparr>cStatus := cStatus c, cLastTransitionTime := cLastTransitionTime b,
             cReason := cReason c, cMessage := cMessage c\<rparr>) (conditions g) = conditions g"
  proof (rule upd_first_same)
    show "List.find (\<lambda>d. cType d = cType c) (conditions g) = Some b"
      using assms(1) by (simp add: FindGRDCondition_def)
    show "b\<lparr>cStatus := cStatus c, cLastTransitionTime := cLastTransitionTime b,
             cReason := cReason c, cMessage := cMessage c\<rparr> = b"
      using assms(3-5) [symmetric] by simp
  qed
  then show ?thesis using assms by (simp add: SetGRDCondition_def Let_def)
qed

section \<open>Lemmas on versions\<close>

lemma find_name_distinct:
  "distinct (map vName vs) \<Longrightarrow> v \<in> set vs \<Longrightarrow> List.find (\<lambda>w. vName w = vName v) vs = Some v"
  by (induction vs) force+

section \<open>Properties\<close>

text \<open>
  \<open>SetGRDCondition\<close> writes exactly the slot of the condition's type: looking that type up
  afterwards gives the new status, reason and message, with the transition time of the old
  condition kept exactly when the status is unchanged (and the old time is set); every other
  condition, the metadata, the spec, the accepted names and the stored versions are untouched.
\<close>

theorem SetGRDCondition_spec:
  "FindGRDCondition (SetGRDCondition now g c) t =
     (if t = cType c then Some (merge_condition now (FindGRDCondition g t) c)
      else FindGRDCondition g t) \<and>
   gMeta (SetGRDCondition now g c) = gMeta g \<and>
   gSpec (SetGRDCondition now g c) = gSpec g \<and>
   accepted (SetGRDCondition now g c) = accepted g"
  by (simp add: v1_conds.find_set)

text \<open>
  C30. No operation on conditions ever duplicates a condition type, and setting the same
  condition again (with a non-zero clock) changes nothing that a lookup sees.
\<close>

theorem conditions_stay_a_map:
  assumes "unique_conditions g" and "\<not> IsZero now"
  shows "unique_conditions (SetGRDCondition now g c) \<and>
    unique_conditions (RemoveGRDCondition g t) \<and>
    FindGRDCondition (SetGRDCondition now' (SetGRDCondition now g c) c) t
      = FindGRDCondition (SetGRDCondition now g c) t"
  using assms unique_conditions_Set unique_conditions_Remove v1_conds.set_again by blast+

text \<open>Definitions of resources on which the witnesses evaluate the properties.\<close>

definition sample_meta :: "string \<Rightarrow> ObjectMeta" where
  "sample_meta n = \<lparr>mName = n, mNamespace = [], mUID = ''uid-'' @ n, mResourceVersion = ''1'',
     mGeneration = 1, mCreationTimestamp = 1, mDeletionTimestamp = None, mLabels = [],
     mAnnotations = [], mFinalizers = []\<rparr>"

definition sample_names :: "string \<Rightarrow> string \<Rightarrow> GrafanaResourceDefinitionNames" where
  "sample_names p k = \<lparr>Plural = p, Singular = k, ShortNames = None, Kind = k,
     ListKind = k @ ''List'', Categories = None\<rparr>"

definition sample_version :: "string \<Rightarrow> bool \<Rightarrow> bool \<Rightarrow> GrafanaResourceDefinitionVersion" where
  "sample_version n sv st = \<lparr>vName = n, vServed = sv, vStorage = st, vDeprecated = False,
     vDeprecationWarning = None, vSubresources = None\<rparr>"

definition sample_grd :: "string \<Rightarrow> string \<Rightarrow> string \<Rightarrow> GRD" where
  "sample_grd p k grp = \<lparr>gMeta = sample_meta (p @ ''.'' @ grp),
     gSpec = \<lparr>sGroup = grp, sNames = sample_names p k, sScope = NamespaceScoped,
              sVersions = [sample_version ''v1'' True True], sPreserveUnknownFields = False\<rparr>,
     gStatus = empty_status\<rparr>"

theorem conditions_stay_a_map_witness:
  "unique_conditions (SetGRDCondition 7 (sample_grd ''ds'' ''D'' ''g.io'')
     (mk_cond Established ConditionTrue ''r'' ''m''))"
  by (rule conditions_stay_a_map [THEN conjunct1])
    (simp_all add: unique_conditions_def sample_grd_def empty_status_def IsZero_def)

text \<open>
  The condition, finalizer and stored-version helpers of \<open>pkg/apis/kinds\<close> and of
  \<open>pkg/apihelpers\<close> are the same functions, although they are separate copies of the code.
\<close>

theorem helper_twins_agree:
  "kinds_FindGRDCondition kg t = FindGRDCondition kg t \<and>
   kinds_SetGRDCondition now kg c = SetGRDCondition now kg c \<and>
   kinds_RemoveGRDCondition kg t = RemoveGRDCondition kg t \<and>
   kinds_GRDHasFinalizer kg f = GRDHasFinalizer kg f \<and>
   kinds_IsStoredVersion kg v = IsStoredVersion kg v"
  by (simp add: kinds_helpers_eq)

text \<open>
  The two served-version tests, \<open>HasServedGRDVersion\<close>, which looks at the first version of
  a name only, and \<open>HasVersionServed\<close>, which looks at all of them, agree when the version names
  are distinct.
\<close>

theorem served_tests_agree:
  assumes "distinct (map vName (sVersions (gSpec g)))"
  shows "HasServedGRDVersion g v = HasVersionServed g v"
proof -
  have "HasServedGRDVersion g v = (\<exists>w \<in> set (sVersions (gSpec g)). vServed w \<and> vName w = v)"
  proof (cases "List.find (\<lambda>w. vName w = v) (sVersions (gSpec g))")
    case None
    then show ?thesis by (auto simp: HasServedGRDVersion_def dest: find_NoneD)
  next
    case (Some w)
    have "List.find (\<lambda>y. vName y = v) (sVersions (gSpec g)) = Some y"
      if "y \<in> set (sVersions (gSpec g))" "vName y = v" for y
      using find_name_distinct [OF assms that(1)] that(2) by simp
    with Some show ?thesis by (auto simp: HasServedGRDVersion_def dest: find_SomeD)
  qed
  then show ?thesis by (auto simp: HasVersionServed_def list_ex_iff)
qed

theorem served_tests_agree_witness:
  "HasServedGRDVersion (sample_grd ''ds'' ''D'' ''g.io'') ''v1'' =
   HasVersionServed (sample_grd ''ds'' ''D'' ''g.io'') ''v1''"
  by (rule served_tests_agree) (simp add: sample_grd_def)

end
