(* ===== verification/Controllers.thy ===== *)
theory Controllers
  imports GrdHelpers
begin

text \<open>
  What the controllers under \<open>pkg/controller\<close> share: the lister they read definitions from,
  the client they write the status with, the operations they issue on their work queue, the
  object a delete event carries, and the loop body \<open>processNextWorkItem\<close>, which every controller
  repeats word for word.

  The informer cache, the API client and the work queue are client-go's. The cache is a
  \<open>lister\<close> (the two answers the code reads), the client is a function from the request to the
  server's answer, and the queue is the list of operations issued on it.
\<close>

record lister =
  lister_get :: "string \<Rightarrow> go_error + GRD"
  lister_list :: "go_error + GRD list"

datatype 'k queue_op = QAdd 'k | QAddAfter 'k int | QAddRateLimited 'k | QForget 'k | QDone 'k

text \<open>What a sync does to the world, in order.\<close>

datatype grd_effect =
    UpdateStatus GRD
  | Mutation GRD
  | Enqueue string

text \<open>
  One pass of \<open>processNextWorkItem\<close>: \<open>None\<close> is the answer of a queue that was shut down.
  The result says whether the worker goes on, and lists the queue operations; \<open>Done\<close> is
  deferred, so it is last and also happens when the sync panics.
\<close>

definition process_next :: "('k \<Rightarrow> unit outcome) \<Rightarrow> 'k option \<Rightarrow> bool outcome \<times> 'k queue_op list" where
  "process_next syncFn next =
    (case next of
       None \<Rightarrow> (Ret False, [])
     | Some key \<Rightarrow>
         (case syncFn key of
            Ret _ \<Rightarrow> (Ret True, [QForget key, QDone key])
          | Err e \<Rightarrow> (Ret True, [QAddRateLimited key, QDone key])
          | Panic \<Rightarrow> (Panic, [QDone key])))"

text \<open>The argument of a delete handler: a definition, a tombstone, or anything else.\<close>

datatype deleted_obj = Deleted GRD | Tombstone "GRD option" | OtherObj

fun deleted_grd :: "deleted_obj \<Rightarrow> GRD option" where
  "deleted_grd (Deleted g) = Some g"
| "deleted_grd (Tombstone g) = g"
| "deleted_grd OtherObj = None"

text \<open>\<open>enqueue\<close>: the key function is client-go's, a parameter; its errors are only logged.\<close>

definition enqueue_key :: "(GRD \<Rightarrow> go_error + string) \<Rightarrow> GRD \<Rightarrow> string queue_op list" where
  "enqueue_key keyFunc obj = (case keyFunc obj of Inl _ \<Rightarrow> [] | Inr key \<Rightarrow> [QAdd key])"

text \<open>The requests that a list of effects sends to the server.\<close>

definition status_updates :: "grd_effect list \<Rightarrow> GRD list" where
  "status_updates effs = concat (map (\<lambda>e. case e of UpdateStatus g \<Rightarrow> [g] | _ \<Rightarrow> []) effs)"

lemma status_updates_simps [simp]:
  "status_updates [] = []"
  "status_updates (UpdateStatus g # es) = g # status_updates es"
  "status_updates (Mutation g # es) = status_updates es"
  "status_updates (Enqueue n # es) = status_updates es"
  "status_updates (map Enqueue ns) = []"
  by (simp_all add: status_updates_def)

lemma process_next_done:
  "key \<in> {k. next = Some k} \<Longrightarrow> last (snd (process_next f next)) = QDone key"
  by (auto simp: process_next_def split: outcome.split)

end
