(* ===== verification/Naming.thy ===== *)
theory Naming
  imports Controllers
begin

text \<open>
  The naming controller, \<open>pkg/controller/status/naming_controller.go\<close>: it grants the names a
  definition asks for when no other definition of its group holds them. The lister, the
  mutation cache, the client, the clock, \<open>equality.Semantic.DeepEqual\<close> and the message of an
  aggregated error are the fields of \<open>naming_env\<close>.
\<close>

record naming_env =
  ne_lister :: lister
  ne_mutation :: "string \<Rightarrow> GRD option"
  ne_update :: "GRD \<Rightarrow> go_error + GRD"
  ne_clock :: "nat \<Rightarrow> time"
  ne_semantic_equal :: "GrafanaResourceDefinitionNames \<Rightarrow> GrafanaResourceDefinitionNames \<Rightarrow> bool"
  ne_aggregate :: "string list \<Rightarrow> string"

section \<open>Names in use\<close>

definition resource_names :: "GrafanaResourceDefinitionNames \<Rightarrow> string list" where
  "resource_names n = Plural n # Singular n # elems (ShortNames n)"

definition kind_names :: "GrafanaResourceDefinitionNames \<Rightarrow> string list" where
  "kind_names n = [Kind n, ListKind n]"

text \<open>The object of the mutation cache, when it has one, is more recent than the lister's.\<close>

definition cached_item :: "(string \<Rightarrow> GRD option) \<Rightarrow> GRD \<Rightarrow> GRD" where
  "cached_item mutation cur =
    (case mutation (grd_name cur) of Some obj \<Rightarrow> obj | None \<Rightarrow> cur)"

fun collect_names ::
  "(string \<Rightarrow> GRD option) \<Rightarrow> string \<Rightarrow> GRD list \<Rightarrow> string set \<times> string set \<Rightarrow> string set \<times> string set" where
  "collect_names mutation grp [] acc = acc"
| "collect_names mutation grp (cur # rest) (allResources, allKinds) =
    (if sGroup (gSpec cur) \<noteq> grp then collect_names mutation grp rest (allResources, allKinds)
     else let names = accepted (cached_item mutation cur)
          in collect_names mutation grp rest
               (allResources \<union> set (resource_names names), allKinds \<union> set (kind_names names)))"

text \<open>A failing lister makes the code panic.\<close>

definition getAcceptedNamesForGroup :: "naming_env \<Rightarrow> string \<Rightarrow> (string set \<times> string set) outcome" where
  "getAcceptedNamesForGroup env grp =
    (case lister_list (ne_lister env) of
       Inl _ \<Rightarrow> Panic
     | Inr list \<Rightarrow> Ret (collect_names (ne_mutation env) grp list ({}, {})))"

section \<open>Deciding the names\<close>

definition equalToAcceptedOrFresh :: "string \<Rightarrow> string \<Rightarrow> string set \<Rightarrow> string option" where
  "equalToAcceptedOrFresh requestedName acceptedName usedNames =
    (if requestedName = acceptedName then None
     else if requestedName \<notin> usedNames then None
     else Some (quoted requestedName @ '' is already in use''))"

definition conflict ::
  "string \<Rightarrow> string \<Rightarrow> GrafanaResourceDefinitionCondition \<Rightarrow> GrafanaResourceDefinitionCondition" where
  "conflict reason message c =
    c\<lparr>cStatus := ConditionFalse, cReason := reason, cMessage := message\<rparr>"

text \<open>One of the four blocks for a single name: on a conflict the old name stays.\<close>

definition claim_name ::
  "string \<Rightarrow> string \<Rightarrow> string set \<Rightarrow> string \<Rightarrow>
   (GrafanaResourceDefinitionNames \<Rightarrow> GrafanaResourceDefinitionNames) \<Rightarrow>
   GrafanaResourceDefinitionNames \<times> GrafanaResourceDefinitionCondition \<Rightarrow>
   GrafanaResourceDefinitionNames \<times> GrafanaResourceDefinitionCondition" where
  "claim_name requested acc used reason take_it st =
    (case equalToAcceptedOrFresh requested acc used of
       Some err \<Rightarrow> (fst st, conflict reason err (snd st))
     | None \<Rightarrow> (take_it (fst st), snd st))"

text \<open>The short names are granted all together or not at all.\<close>

definition short_name_errors :: "string list \<Rightarrow> string list \<Rightarrow> string set \<Rightarrow> string list" where
  "short_name_errors requested existing used =
    concat (map (\<lambda>s. if s \<in> set existing then []
                     else (case equalToAcceptedOrFresh s [] used of None \<Rightarrow> [] | Some e \<Rightarrow> [e]))
              requested)"

definition claim_short_names ::
  "(string list \<Rightarrow> string) \<Rightarrow> string slice \<Rightarrow> string slice \<Rightarrow> string set \<Rightarrow>
   GrafanaResourceDefinitionNames \<times> GrafanaResourceDefinitionCondition \<Rightarrow>
   GrafanaResourceDefinitionNames \<times> GrafanaResourceDefinitionCondition" where
  "claim_short_names aggregate requested acc used st =
    (if requested = acc then st
     else let errs = short_name_errors (elems requested) (elems acc) used
          in if errs \<noteq> [] then (fst st, conflict ''ShortNamesConflict'' (aggregate errs) (snd st))
             else ((fst st)\<lparr>ShortNames := requested\<rparr>, snd st))"

definition decide_names ::
  "(string list \<Rightarrow> string) \<Rightarrow> GrafanaResourceDefinitionNames \<Rightarrow> GrafanaResourceDefinitionNames \<Rightarrow>
   string set \<Rightarrow> string set \<Rightarrow> GrafanaResourceDefinitionNames \<times> GrafanaResourceDefinitionCondition" where
  "decide_names aggregate requested acc allResources allKinds =
    (let st0 = (acc, mk_cond NamesAccepted ConditionUnknown [] []);
         st1 = claim_name (Plural requested) (Plural acc) allResources ''PluralConflict''
                 (\<lambda>n. n\<lparr>Plural := Plural requested\<rparr>) st0;
         st2 = claim_name (Singular requested) (Singular acc) allResources ''SingularConflict''
                 (\<lambda>n. n\<lparr>Singular := Singular requested\<rparr>) st1;
         st3 = claim_short_names aggregate (ShortNames requested) (ShortNames acc) allResources st2;
         st4 = claim_name (Kind requested) (Kind acc) allKinds ''KindConflict''
                 (\<lambda>n. n\<lparr>Kind := Kind requested\<rparr>) st3;
         st5 = claim_name (ListKind requested) (ListKind acc) allKinds ''ListKindConflict''
                 (\<lambda>n. n\<lparr>ListKind := ListKind requested\<rparr>) st4;
         newNames = (fst st5)\<lparr>Categories := Categories requested\<rparr>;
         cond = snd st5
     in (newNames,
         if cStatus cond = ConditionUnknown
         then cond\<lparr>cStatus := ConditionTrue, cReason := ''NoConflicts'',
                   cMessage := ''no conflicts found''\<rparr>
         else cond))"

definition decide_established ::
  "GrafanaResourceDefinitionCondition option \<Rightarrow> GrafanaResourceDefinitionCondition \<Rightarrow>
   GrafanaResourceDefinitionCondition" where
  "decide_established old namesAcceptedCondition =
    (let established0 = mk_cond Established ConditionFalse ''NotAccepted'' ''not all names are accepted'';
         established1 = (case old of Some c \<Rightarrow> c | None \<Rightarrow> established0)
     in if cStatus established1 \<noteq> ConditionTrue \<and> cStatus namesAcceptedCondition = ConditionTrue
        then mk_cond Established ConditionFalse ''Installing'' ''the initial names have been accepted''
        else established1)"

definition calculateNamesAndConditions ::
  "naming_env \<Rightarrow> GRD \<Rightarrow> (GrafanaResourceDefinitionNames \<times> GrafanaResourceDefinitionCondition \<times>
                        GrafanaResourceDefinitionCondition) outcome" where
  "calculateNamesAndConditions env inp =
    bind_outcome (getAcceptedNamesForGroup env (sGroup (gSpec inp)))
      (\<lambda>(allResources, allKinds).
         let (newNames, namesAcceptedCondition) =
               decide_names (ne_aggregate env) (sNames (gSpec inp)) (accepted inp) allResources allKinds
         in Ret (newNames, namesAcceptedCondition,
                 decide_established (FindGRDCondition inp Established) namesAcceptedCondition))"

section \<open>Syncing a definition\<close>

text \<open>
  \<open>pluralGroup[1]\<close> is evaluated for each listed definition: a key without a dot makes the code
  panic as soon as there is one.
\<close>

definition requeueAllOtherGroupGRDs :: "lister \<Rightarrow> string \<Rightarrow> string list outcome" where
  "requeueAllOtherGroupGRDs lister name =
    (case lister_list lister of
       Inl e \<Rightarrow> Err e
     | Inr list \<Rightarrow>
         (case SplitN2 name CHR ''.'' of
            [plural, grp] \<Rightarrow>
              Ret (map (\<lambda>cur. grd_name cur)
                     (filter (\<lambda>cur. sGroup (gSpec cur) = grp \<and> grd_name cur \<noteq> name) list))
          | _ \<Rightarrow> if list = [] then Ret [] else Panic))"

definition set_accepted :: "GrafanaResourceDefinitionNames \<Rightarrow> GRD \<Rightarrow> GRD" where
  "set_accepted n grd = grd\<lparr>gStatus := (gStatus grd)\<lparr>stAcceptedNames := n\<rparr>\<rparr>"

definition requeue_effects :: "grd_effect list \<Rightarrow> string list outcome \<Rightarrow> grd_effect list \<times> unit outcome" where
  "requeue_effects effs r =
    (case r of Ret names \<Rightarrow> (effs @ map Enqueue names, Ret ()) | Err e \<Rightarrow> (effs, Err e) | Panic \<Rightarrow> (effs, Panic))"

definition naming_sync :: "naming_env \<Rightarrow> string \<Rightarrow> grd_effect list \<times> unit outcome" where
  "naming_sync env key =
    (case lister_get (ne_lister env) key of
       Inl err \<Rightarrow>
         if IsNotFound err
         then requeue_effects [] (requeueAllOtherGroupGRDs (ne_lister env) key)
         else ([], Err err)
     | Inr inp \<Rightarrow>
         if ne_semantic_equal env (sNames (gSpec inp)) (accepted inp) then ([], Ret ())
         else
           (case calculateNamesAndConditions env inp of
              Panic \<Rightarrow> ([], Panic)
            | Err e \<Rightarrow> ([], Err e)
            | Ret (acceptedNames, namingCondition, establishedCondition) \<Rightarrow>
                if accepted inp = acceptedNames \<and>
                   IsGRDConditionEquivalent (Some namingCondition) (FindGRDCondition inp NamesAccepted)
                then ([], Ret ())
                else
                  let grd0 = set_accepted acceptedNames inp;
                      grd1 = SetGRDCondition (ne_clock env 0) grd0 namingCondition;
                      grd = SetGRDCondition (ne_clock env 1) grd1 establishedCondition
                  in (case ne_update env grd of
                        Inl err \<Rightarrow>
                          if IsNotFound err \<or> IsConflict err then ([UpdateStatus grd], Ret ())
                          else ([UpdateStatus grd], Err err)
                      | Inr updatedObj \<Rightarrow>
                          requeue_effects [UpdateStatus grd, Mutation updatedObj]
                            (requeueAllOtherGroupGRDs (ne_lister env) key))))"

definition naming_processNextWorkItem ::
  "naming_env \<Rightarrow> string option \<Rightarrow> bool outcome \<times> string queue_op list" where
  "naming_processNextWorkItem env next = process_next (\<lambda>key. snd (naming_sync env key)) next"

text \<open>The informer's event handlers. The update handler enqueues its first argument, the old object.\<close>

definition naming_addGrafanaResourceDefinition ::
  "(GRD \<Rightarrow> go_error + string) \<Rightarrow> GRD \<Rightarrow> string queue_op list" where
  "naming_addGrafanaResourceDefinition keyFunc obj = enqueue_key keyFunc obj"

definition naming_updateGrafanaResourceDefinition ::
  "(GRD \<Rightarrow> go_error + string) \<Rightarrow> GRD \<Rightarrow> GRD \<Rightarrow> string queue_op list" where
  "naming_updateGrafanaResourceDefinition keyFunc obj other = enqueue_key keyFunc obj"

definition naming_deleteGrafanaResourceDefinition ::
  "(GRD \<Rightarrow> go_error + string) \<Rightarrow> deleted_obj \<Rightarrow> string queue_op list" where
  "naming_deleteGrafanaResourceDefinition keyFunc obj =
    (case deleted_grd obj of None \<Rightarrow> [] | Some castObj \<Rightarrow> enqueue_key keyFunc castObj)"


section \<open>Lemmas\<close>

lemma set_accepted_sel [simp]:
  "accepted (set_accepted n g) = n" "gMeta (set_accepted n g) = gMeta g"
  "gSpec (set_accepted n g) = gSpec g" "conditions (set_accepted n g) = conditions g"
  by (simp_all add: set_accepted_def)

lemma FindGRDCondition_set_accepted [simp]:
  "FindGRDCondition (set_accepted n g) t = FindGRDCondition g t"
  by (simp add: FindGRDCondition_def)

text \<open>The names a list of definitions uses in a group.\<close>

definition used_resources :: "(string \<Rightarrow> GRD option) \<Rightarrow> string \<Rightarrow> GRD list \<Rightarrow> string set" where
  "used_resources mutation grp gs =
    (\<Union>g \<in> {g \<in> set gs. sGroup (gSpec g) = grp}.
       set (resource_names (accepted (cached_item mutation g))))"

definition used_kinds :: "(string \<Rightarrow> GRD option) \<Rightarrow> string \<Rightarrow> GRD list \<Rightarrow> string set" where
  "used_kinds mutation grp gs =
    (\<Union>g \<in> {g \<in> set gs. sGroup (gSpec g) = grp}.
       set (kind_names (accepted (cached_item mutation g))))"

lemma used_Cons:
  "used_resources m grp (g # gs) =
    (if sGroup (gSpec g) = grp then set (resource_names (accepted (cached_item m g))) else {})
      \<union> used_resources m grp gs"
  "used_kinds m grp (g # gs) =
    (if sGroup (gSpec g) = grp then set (kind_names (accepted (cached_item m g))) else {})
      \<union> used_kinds m grp gs"
  by (auto simp: used_resources_def used_kinds_def)

lemma collect_names_eq:
  "collect_names m grp gs (R, K) = (R \<union> used_resources m grp gs, K \<union> used_kinds m grp gs)"
proof (induction gs arbitrary: R K)
  case Nil
  show ?case by (simp add: used_resources_def used_kinds_def)
next
  case (Cons g gs)
  then show ?case by (simp add: used_Cons Let_def Un_assoc)
qed

lemma equalToAcceptedOrFresh_None:
  "equalToAcceptedOrFresh r a used = None \<longleftrightarrow> r = a \<or> r \<notin> used"
  by (simp add: equalToAcceptedOrFresh_def)

lemma short_name_errors_Nil:
  "short_name_errors req ex used = [] \<longleftrightarrow> (\<forall>s \<in> set req. s \<in> set ex \<or> s = [] \<or> s \<notin> used)"
proof (induction req)
  case Nil
  show ?case by (simp add: short_name_errors_def)
next
  case (Cons s req)
  have "short_name_errors (s # req) ex used =
      (if s \<in> set ex then [] else (case equalToAcceptedOrFresh s [] used of None \<Rightarrow> [] | Some e \<Rightarrow> [e]))
        @ short_name_errors req ex used"
    by (simp add: short_name_errors_def)
  then show ?case
    using Cons equalToAcceptedOrFresh_None [of s "[]" used] by (auto split: option.split)
qed

text \<open>Whether each of the five claims of a definition is granted.\<close>

definition all_granted ::
  "GrafanaResourceDefinitionNames \<Rightarrow> GrafanaResourceDefinitionNames \<Rightarrow> string set \<Rightarrow> string set \<Rightarrow> bool" where
  "all_granted requested acc allResources allKinds \<longleftrightarrow>
    equalToAcceptedOrFresh (Plural requested) (Plural acc) allResources = None \<and>
    equalToAcceptedOrFresh (Singular requested) (Singular acc) allResources = None \<and>
    (ShortNames requested = ShortNames acc \<or>
     short_name_errors (elems (ShortNames requested)) (elems (ShortNames acc)) allResources = []) \<and>
    equalToAcceptedOrFresh (Kind requested) (Kind acc) allKinds = None \<and>
    equalToAcceptedOrFresh (ListKind requested) (ListKind acc) allKinds = None"

lemma claim_name_sel:
  "snd (claim_name r a used reason f st) =
    (case equalToAcceptedOrFresh r a used of None \<Rightarrow> snd st | Some e \<Rightarrow> conflict reason e (snd st))"
  "fst (claim_name r a used reason f st) =
    (if equalToAcceptedOrFresh r a used = None then f (fst st) else fst st)"
  by (auto simp: claim_name_def split: option.split)

lemma claim_short_names_sel:
  "snd (claim_short_names agg r a used st) =
    (if r = a \<or> short_name_errors (elems r) (elems a) used = [] then snd st
     else conflict ''ShortNamesConflict'' (agg (short_name_errors (elems r) (elems a) used)) (snd st))"
  "fst (claim_short_names agg r a used st) =
    (if r = a \<or> short_name_errors (elems r) (elems a) used \<noteq> [] then fst st
     else (fst st)\<lparr>ShortNames := r\<rparr>)"
  by (auto simp: claim_short_names_def Let_def)

lemma conflict_sel [simp]:
  "cStatus (conflict r m c) = ConditionFalse" "cType (conflict r m c) = cType c"
  by (simp_all add: conflict_def)

lemma decide_names_type: "cType (snd (decide_names agg r a R K)) = NamesAccepted"
  by (auto simp: decide_names_def Let_def claim_name_sel claim_short_names_sel split: option.split)

lemma decide_names_status:
  "cStatus (snd (decide_names agg r a R K)) =
    (if all_granted r a R K then ConditionTrue else ConditionFalse)"
  by (auto simp: decide_names_def Let_def claim_name_sel claim_short_names_sel all_granted_def
      split: option.split)

lemma decide_names_fields:
  "Plural (fst (decide_names agg r a R K)) =
    (if equalToAcceptedOrFresh (Plural r) (Plural a) R = None then Plural r else Plural a)"
  "Singular (fst (decide_names agg r a R K)) =
    (if equalToAcceptedOrFresh (Singular r) (Singular a) R = None then Singular r else Singular a)"
  "ShortNames (fst (decide_names agg r a R K)) =
    (if short_name_errors (elems (ShortNames r)) (elems (ShortNames a)) R = [] then ShortNames r
     else ShortNames a) \<or> ShortNames r = ShortNames a \<and> ShortNames (fst (decide_names agg r a R K)) = ShortNames r"
  "Kind (fst (decide_names agg r a R K)) =
    (if equalToAcceptedOrFresh (Kind r) (Kind a) K = None then Kind r else Kind a)"
  "ListKind (fst (decide_names agg r a R K)) =
    (if equalToAcceptedOrFresh (ListKind r) (ListKind a) K = None then ListKind r else ListKind a)"
  "Categories (fst (decide_names agg r a R K)) = Categories r"
  by (auto simp: decide_names_def Let_def claim_name_sel claim_short_names_sel)

lemma decide_names_all_granted:
  assumes "all_granted r a R K"
  shows "fst (decide_names agg r a R K) = r"
proof (rule GrafanaResourceDefinitionNames.equality)
  show "ShortNames (fst (decide_names agg r a R K)) = ShortNames r"
    using assms decide_names_fields(3) [of agg r a R K] by (auto simp: all_granted_def)
qed (use assms in \<open>simp_all add: decide_names_fields all_granted_def\<close>)

text \<open>Every resource name granted is one the definition had, a fresh one, or empty; so for kinds.\<close>

lemma decide_names_safe:
  assumes "x \<in> set (resource_names (fst (decide_names agg r a R K)))" and "x \<noteq> []" and "x \<in> R"
  shows "x \<in> set (resource_names a)"
proof -
  from assms(1) consider
      "x = Plural (fst (decide_names agg r a R K))" | "x = Singular (fst (decide_names agg r a R K))"
    | "x \<in> set (elems (ShortNames (fst (decide_names agg r a R K))))"
    by (auto simp: resource_names_def)
  then show ?thesis
  proof cases
    case 3
    then show ?thesis
      using decide_names_fields(3) [of agg r a R K] assms(2,3)
      by (auto simp: resource_names_def short_name_errors_Nil split: if_splits)
  qed (use assms(3) in \<open>auto simp: decide_names_fields resource_names_def
        equalToAcceptedOrFresh_None split: if_splits\<close>)
qed

lemma decide_names_safe_kinds:
  assumes "x \<in> set (kind_names (fst (decide_names agg r a R K)))" and "x \<in> K"
  shows "x \<in> set (kind_names a)"
  using assms by (auto simp: kind_names_def decide_names_fields equalToAcceptedOrFresh_None
      split: if_splits)

lemma decide_established_type:
  "(\<And>c. old = Some c \<Longrightarrow> cType c = Established) \<Longrightarrow> cType (decide_established old nc) = Established"
  by (auto simp: decide_established_def Let_def split: option.split)

lemma decide_established_status:
  "cStatus (decide_established old nc) = ConditionTrue \<longleftrightarrow>
    map_option cStatus old = Some ConditionTrue"
  by (auto simp: decide_established_def Let_def split: option.split)

text \<open>The one status update that a sync can send.\<close>

definition naming_update ::
  "naming_env \<Rightarrow> GRD \<Rightarrow> string set \<Rightarrow> string set \<Rightarrow> GRD" where
  "naming_update env inp R K =
    (let (names, nc) = decide_names (ne_aggregate env) (sNames (gSpec inp)) (accepted inp) R K
     in SetGRDCondition (ne_clock env 1) (SetGRDCondition (ne_clock env 0) (set_accepted names inp) nc)
          (decide_established (FindGRDCondition inp Established) nc))"

lemma status_updates_requeue [simp]:
  "status_updates (fst (requeue_effects effs r)) = status_updates effs"
  by (auto simp: requeue_effects_def status_updates_def split: outcome.split)

lemma naming_sync_update:
  assumes "grd \<in> set (status_updates (fst (naming_sync env key)))"
  obtains inp gs R K where "lister_get (ne_lister env) key = Inr inp"
    and "lister_list (ne_lister env) = Inr gs"
    and "R = used_resources (ne_mutation env) (sGroup (gSpec inp)) gs"
    and "K = used_kinds (ne_mutation env) (sGroup (gSpec inp)) gs"
    and "grd = naming_update env inp R K"
  using assms
  by (fastforce simp: naming_sync_def calculateNamesAndConditions_def getAcceptedNamesForGroup_def
      collect_names_eq naming_update_def Let_def split: sum.splits outcome.splits prod.splits if_splits)

lemma naming_update_sel:
  "accepted (naming_update env inp R K) =
    fst (decide_names (ne_aggregate env) (sNames (gSpec inp)) (accepted inp) R K)"
  "gSpec (naming_update env inp R K) = gSpec inp"
  "gMeta (naming_update env inp R K) = gMeta inp"
  by (simp_all add: naming_update_def Let_def split: prod.split)

lemma naming_update_eq:
  "naming_update env inp R K =
    (let d = decide_names (ne_aggregate env) (sNames (gSpec inp)) (accepted inp) R K in
     SetGRDCondition (ne_clock env 1) (SetGRDCondition (ne_clock env 0) (set_accepted (fst d) inp) (snd d))
       (decide_established (FindGRDCondition inp Established) (snd d)))"
  by (simp add: naming_update_def Let_def split: prod.split)

lemma naming_update_conditions:
  "IsGRDConditionTrue (naming_update env inp R K) t =
    (if t = Established then IsGRDConditionTrue inp Established
     else if t = NamesAccepted then all_granted (sNames (gSpec inp)) (accepted inp) R K
     else IsGRDConditionTrue inp t)"
proof -
  have e: "cType (decide_established (FindGRDCondition inp Established) nc) = Established" for nc
    by (rule decide_established_type) (rule v1_conds.find_type)
  have est: "cStatus (decide_established (FindGRDCondition inp Established) nc) = ConditionTrue \<longleftrightarrow>
      IsGRDConditionTrue inp Established" for nc
    by (simp only: decide_established_status IsGRDConditionTrue_find)
  have acc: "IsGRDConditionTrue (set_accepted n inp) t = IsGRDConditionTrue inp t" for n t
    by (simp add: IsGRDConditionTrue_find)
  show ?thesis
    by (simp add: naming_update_eq Let_def cond_simps e est acc decide_names_type decide_names_status)
qed

section \<open>Reservation of names across a cluster\<close>

text \<open>
  The definitions stored in a cluster by name, and what happens to their accepted names:
  users create definitions (the strategy clears the status), users and the other controllers
  update them without touching the accepted names or the group, definitions are deleted, and
  the naming controller syncs. Its sync reads the current object (the server refuses a status
  update of a stale one), and lister and mutation cache together show the accepted names of
  every stored definition; the lister may lag behind in everything else.
\<close>

definition view_covers :: "naming_env \<Rightarrow> (string \<rightharpoonup> GRD) \<Rightarrow> bool" where
  "view_covers env s \<longleftrightarrow>
    (\<exists>gs. lister_list (ne_lister env) = Inr gs \<and>
      (\<forall>n g. s n = Some g \<longrightarrow>
        (\<exists>cur \<in> set gs. sGroup (gSpec cur) = sGroup (gSpec g) \<and>
           accepted (cached_item (ne_mutation env) cur) = accepted g)))"

inductive naming_step :: "(string \<rightharpoonup> GRD) \<Rightarrow> (string \<rightharpoonup> GRD) \<Rightarrow> bool" where
  create: "s n = None \<Longrightarrow> accepted g = empty_names \<Longrightarrow> naming_step s (s(n \<mapsto> g))"
| update: "s n = Some g \<Longrightarrow> accepted g' = accepted g \<Longrightarrow>
    sGroup (gSpec g') = sGroup (gSpec g) \<Longrightarrow> naming_step s (s(n \<mapsto> g'))"
| delete: "naming_step s (s(n := None))"
| sync: "s n = Some inp \<Longrightarrow> lister_get (ne_lister env) n = Inr inp \<Longrightarrow> view_covers env s \<Longrightarrow>
    grd \<in> set (status_updates (fst (naming_sync env n))) \<Longrightarrow> naming_step s (s(n \<mapsto> grd))"

inductive naming_reachable :: "(string \<rightharpoonup> GRD) \<Rightarrow> bool" where
  start: "naming_reachable Map.empty"
| step: "naming_reachable s \<Longrightarrow> naming_step s t \<Longrightarrow> naming_reachable t"

text \<open>Two definitions of one group never hold the same resource name or the same kind.\<close>

definition names_apart :: "GRD \<Rightarrow> GRD \<Rightarrow> bool" where
  "names_apart g h \<longleftrightarrow> sGroup (gSpec g) = sGroup (gSpec h) \<longrightarrow>
    set (resource_names (accepted g)) \<inter> set (resource_names (accepted h)) \<subseteq> {[]} \<and>
    set (kind_names (accepted g)) \<inter> set (kind_names (accepted h)) \<subseteq> {[]}"

definition names_disjoint :: "(string \<rightharpoonup> GRD) \<Rightarrow> bool" where
  "names_disjoint s \<longleftrightarrow>
    (\<forall>m n g h. m \<noteq> n \<longrightarrow> s m = Some g \<longrightarrow> s n = Some h \<longrightarrow> names_apart g h)"

lemma names_apart_sym: "names_apart g h \<Longrightarrow> names_apart h g"
  by (auto simp: names_apart_def)

lemma names_apart_cong:
  "accepted g' = accepted g \<Longrightarrow> sGroup (gSpec g') = sGroup (gSpec g) \<Longrightarrow>
    names_apart g' h = names_apart g h"
  by (simp add: names_apart_def)

lemma names_apart_empty: "accepted g = empty_names \<Longrightarrow> names_apart g h"
  by (auto simp: names_apart_def empty_names_def resource_names_def kind_names_def)

lemma names_disjoint_upd:
  assumes "names_disjoint s" and "\<And>n h. n \<noteq> m \<Longrightarrow> s n = Some h \<Longrightarrow> names_apart g h"
  shows "names_disjoint (s(m \<mapsto> g))"
  unfolding names_disjoint_def
proof (intro allI impI)
  fix k n a b
  assume "k \<noteq> n" "(s(m \<mapsto> g)) k = Some a" "(s(m \<mapsto> g)) n = Some b"
  then show "names_apart a b"
    using assms names_apart_sym by (cases "k = m"; cases "n = m") (auto simp: names_disjoint_def)
qed

lemma naming_sync_apart:
  assumes disj: "names_apart inp h" and cover: "view_covers env s"
    and get: "lister_get (ne_lister env) m = Inr inp" and h: "s n = Some h"
    and upd: "grd \<in> set (status_updates (fst (naming_sync env m)))"
  shows "names_apart grd h"
proof (cases "sGroup (gSpec inp) = sGroup (gSpec h)")
  case True
  from naming_sync_update [OF upd] get obtain gs R K where
    gs: "lister_list (ne_lister env) = Inr gs"
    and R: "R = used_resources (ne_mutation env) (sGroup (gSpec inp)) gs"
    and K: "K = used_kinds (ne_mutation env) (sGroup (gSpec inp)) gs"
    and grd: "grd = naming_update env inp R K" by (metis sum.inject(2))
  obtain cur where cur: "cur \<in> set gs" "sGroup (gSpec cur) = sGroup (gSpec h)"
      "accepted (cached_item (ne_mutation env) cur) = accepted h"
    using cover h gs by (fastforce simp: view_covers_def)
  have "set (resource_names (accepted h)) \<subseteq> R" "set (kind_names (accepted h)) \<subseteq> K"
    using cur True by (force simp: R used_resources_def, force simp: K used_kinds_def)
  then show ?thesis
    using disj True decide_names_safe decide_names_safe_kinds
    by (fastforce simp: names_apart_def grd naming_update_sel)
next
  case False
  from naming_sync_update [OF upd] get have "gSpec grd = gSpec inp"
    by (metis naming_update_sel(2) sum.inject(2))
  with False show ?thesis by (simp add: names_apart_def)
qed

lemma naming_step_disjoint: "naming_step s t \<Longrightarrow> names_disjoint s \<Longrightarrow> names_disjoint t"
proof (induction rule: naming_step.induct)
  case (create s n g)
  then show ?case by (intro names_disjoint_upd) (simp_all add: names_apart_empty)
next
  case (update s n g g')
  show ?case
  proof (rule names_disjoint_upd [OF update.prems])
    fix k h assume k: "k \<noteq> n" "s k = Some h"
    then have "names_apart g h"
      using update.prems update.hyps(1) unfolding names_disjoint_def by metis
    then show "names_apart g' h"
      unfolding names_apart_cong [OF update.hyps(2,3)] .
  qed
next
  case (delete s n)
  then show ?case by (auto simp: names_disjoint_def)
next
  case (sync s n inp env grd)
  show ?case
  proof (rule names_disjoint_upd [OF sync.prems])
    fix k h assume k: "k \<noteq> n" "s k = Some h"
    then have "names_apart inp h"
      using sync.prems sync.hyps(1) unfolding names_disjoint_def by metis
    then show "names_apart grd h"
      using sync.hyps(3,2) k(2) sync.hyps(4) by (rule naming_sync_apart)
  qed
qed

section \<open>Properties\<close>


definition sample_env :: "GRD list \<Rightarrow> naming_env" where
  "sample_env gs = \<lparr>ne_lister = \<lparr>
       lister_get = (\<lambda>n. case List.find (\<lambda>g. grd_name g = n) gs of Some g \<Rightarrow> Inr g | None \<Rightarrow> Inl (NotFound n)),
       lister_list = Inr gs\<rparr>,
     ne_mutation = (\<lambda>_. None), ne_update = Inr, ne_clock = (\<lambda>_. 5),
     ne_semantic_equal = (\<lambda>a b. a = b), ne_aggregate = concat\<rparr>"

definition accepted_sample :: GRD where
  "accepted_sample = naming_update (sample_env [sample_grd ''ds'' ''D'' ''g.io'']) (sample_grd ''ds'' ''D'' ''g.io'')
     {[]} {[]}"

lemma sync_sample:
  "accepted_sample \<in> set (status_updates (fst (naming_sync
     (sample_env [sample_grd ''ds'' ''D'' ''g.io'']) ''ds.g.io'')))"
  by (simp add: accepted_sample_def naming_sync_def sample_env_def calculateNamesAndConditions_def
      getAcceptedNamesForGroup_def naming_update_def decide_names_def claim_name_def
      claim_short_names_def equalToAcceptedOrFresh_def sample_grd_def sample_names_def sample_meta_def
      empty_status_def empty_names_def cached_item_def resource_names_def kind_names_def Let_def)

lemma reachable_sample: "naming_reachable [''ds.g.io'' \<mapsto> accepted_sample]"
proof -
  let ?g = "sample_grd ''ds'' ''D'' ''g.io''"
  have "naming_reachable [''ds.g.io'' \<mapsto> ?g]"
    by (rule naming_reachable.step [OF naming_reachable.start], rule naming_step.create)
      (simp_all add: sample_grd_def empty_status_def)
  moreover have "naming_step [''ds.g.io'' \<mapsto> ?g] ([''ds.g.io'' \<mapsto> ?g](''ds.g.io'' \<mapsto> accepted_sample))"
    by (rule naming_step.sync [where inp = ?g and env = "sample_env [?g]"])
      (use sync_sample in \<open>simp_all add: view_covers_def sample_env_def cached_item_def sample_grd_def
        sample_meta_def\<close>)
  ultimately show ?thesis using naming_reachable.step by fastforce
qed


text \<open>
  C19. A sync decides: the update it sends reports \<open>NamesAccepted\<close> True exactly when every
  requested name is already held by the definition or free in its group, and then the accepted
  names are the requested ones; otherwise each field is the requested or the old one. It never
  changes the spec or the metadata, and never sets or revokes \<open>Established\<close>.
\<close>

theorem naming_sync_decides:
  assumes "grd \<in> set (status_updates (fst (naming_sync env key)))"
    and "lister_get (ne_lister env) key = Inr inp" and "lister_list (ne_lister env) = Inr gs"
    and "granted = all_granted (sNames (gSpec inp)) (accepted inp)
      (used_resources (ne_mutation env) (sGroup (gSpec inp)) gs)
      (used_kinds (ne_mutation env) (sGroup (gSpec inp)) gs)"
  shows "IsGRDConditionTrue grd NamesAccepted = granted \<and>
    (granted \<longrightarrow> accepted grd = sNames (gSpec inp)) \<and>
    Plural (accepted grd) \<in> {Plural (sNames (gSpec inp)), Plural (accepted inp)} \<and>
    Kind (accepted grd) \<in> {Kind (sNames (gSpec inp)), Kind (accepted inp)} \<and>
    gSpec grd = gSpec inp \<and> gMeta grd = gMeta inp \<and>
    IsGRDConditionTrue grd Established = IsGRDConditionTrue inp Established"
proof -
  from naming_sync_update [OF assms(1)] assms(2,3)
  have "grd = naming_update env inp
      (used_resources (ne_mutation env) (sGroup (gSpec inp)) gs)
      (used_kinds (ne_mutation env) (sGroup (gSpec inp)) gs)"
    by (metis sum.inject(2))
  then show ?thesis
    by (simp add: naming_update_conditions naming_update_sel assms(4) decide_names_all_granted
        decide_names_fields)
qed

theorem naming_sync_decides_witness:
  "IsGRDConditionTrue accepted_sample Established = IsGRDConditionTrue (sample_grd ''ds'' ''D'' ''g.io'') Established"
  using naming_sync_decides [OF sync_sample, of "sample_grd ''ds'' ''D'' ''g.io''"
      "[sample_grd ''ds'' ''D'' ''g.io'']", OF _ _ refl]
  by (simp add: sample_env_def) (simp add: sample_grd_def sample_meta_def)

text \<open>
  Deleting a definition whose name has no dot crashes the server: the sync of the deleted
  key panics (index out of range in \<open>pluralGroup[1]\<close>) as soon as any definition is left, although
  validation accepts such names; with a name of the form plural.group it never panics and
  requeues exactly the other definitions of that group.
\<close>

theorem deleted_key_requeue:
  assumes "lister_get (ne_lister env) key = Inl (NotFound e)" and "lister_list (ne_lister env) = Inr gs"
  shows "(CHR ''.'' \<notin> set key \<and> gs \<noteq> [] \<longrightarrow> naming_sync env key = ([], Panic)) \<and>
    (\<forall>p g. key = p @ ''.'' @ g \<and> CHR ''.'' \<notin> set p \<longrightarrow>
       naming_sync env key =
         (map (\<lambda>c. Enqueue (grd_name c)) (filter (\<lambda>c. sGroup (gSpec c) = g \<and> grd_name c \<noteq> key) gs), Ret ()))"
  using assms
  by (auto simp: naming_sync_def requeueAllOtherGroupGRDs_def SplitN2_no_sep SplitN2_append
      requeue_effects_def comp_def)

theorem deleted_key_requeue_witness:
  "naming_sync (sample_env [sample_grd ''ds'' ''D'' ''g.io'']) ''nodot'' = ([], Panic)"
  using deleted_key_requeue [of "sample_env [sample_grd ''ds'' ''D'' ''g.io'']" "''nodot''" "''nodot''"
      "[sample_grd ''ds'' ''D'' ''g.io'']"]
  by (simp add: sample_env_def sample_grd_def sample_meta_def)

end
