(* ===== verification/Establish.thy ===== *)
theory Establish
  imports Controllers
begin

text \<open>
  The establishing controller, \<open>pkg/controller/establish/establishing_controller.go\<close>: it turns
  a definition whose names are accepted into an established one. Its environment is the lister,
  the answer of the status update and the clock.
\<close>

record establish_env =
  ee_lister :: lister
  ee_update :: "GRD \<Rightarrow> go_error + GRD"
  ee_clock :: time

definition establish_QueueGRD :: "string \<Rightarrow> int \<Rightarrow> string queue_op list" where
  "establish_QueueGRD key timeout = [QAddAfter key timeout]"

definition establishedCondition :: GrafanaResourceDefinitionCondition where
  "establishedCondition =
    mk_cond Established ConditionTrue ''InitialNamesAccepted'' ''the initial names have been accepted''"

definition establish_sync :: "establish_env \<Rightarrow> string \<Rightarrow> grd_effect list \<times> unit outcome" where
  "establish_sync env key =
    (case lister_get (ee_lister env) key of
       Inl err \<Rightarrow> if IsNotFound err then ([], Ret ()) else ([], Err err)
     | Inr cachedGRD \<Rightarrow>
         if \<not> IsGRDConditionTrue cachedGRD NamesAccepted \<or> IsGRDConditionTrue cachedGRD Established
         then ([], Ret ())
         else
           let grd = SetGRDCondition (ee_clock env) cachedGRD establishedCondition
           in (case ee_update env grd of
                 Inl err \<Rightarrow>
                   if IsNotFound err \<or> IsConflict err then ([UpdateStatus grd], Ret ())
                   else ([UpdateStatus grd], Err err)
               | Inr _ \<Rightarrow> ([UpdateStatus grd], Ret ())))"

definition establish_processNextWorkItem ::
  "establish_env \<Rightarrow> string option \<Rightarrow> bool outcome \<times> string queue_op list" where
  "establish_processNextWorkItem env next = process_next (\<lambda>key. snd (establish_sync env key)) next"

section \<open>Lemmas\<close>

lemma establishedCondition_sel [simp]:
  "cType establishedCondition = Established" "cStatus establishedCondition = ConditionTrue"
  by (simp_all add: establishedCondition_def)

lemma establish_updates_eq:
  "lister_get (ee_lister env) key = Inr c \<Longrightarrow>
    status_updates (fst (establish_sync env key)) =
      (if IsGRDConditionTrue c NamesAccepted \<and> \<not> IsGRDConditionTrue c Established
       then [SetGRDCondition (ee_clock env) c establishedCondition] else [])"
  by (simp add: establish_sync_def Let_def split: sum.split)

lemma establish_sync_settled:
  "lister_get (ee_lister env) key = Inr c \<Longrightarrow> IsGRDConditionTrue c Established \<Longrightarrow>
    establish_sync env key = ([], Ret ())"
  by (simp add: establish_sync_def)

lemma establish_sync_update:
  "g \<in> set (status_updates (fst (establish_sync env key))) \<longleftrightarrow>
    (\<exists>c. lister_get (ee_lister env) key = Inr c \<and> IsGRDConditionTrue c NamesAccepted \<and>
       \<not> IsGRDConditionTrue c Established \<and>
       g = SetGRDCondition (ee_clock env) c establishedCondition)"
  by (auto simp: establish_sync_def Let_def split: sum.splits)

lemma establish_sync_not_stuck: "snd (establish_sync env key) \<noteq> Panic"
  by (auto simp: establish_sync_def Let_def split: sum.split)

section \<open>Properties\<close>

text \<open>
  The establishing controller sends an update exactly for a definition whose names are
  accepted and that is not established yet; the update makes it established and changes no
  other condition, no accepted name, neither spec nor metadata; once the lister shows the
  updated definition, syncing it again sends nothing.
\<close>

theorem establish_sync_spec:
  assumes "lister_get (ee_lister env) key = Inr c"
  shows "status_updates (fst (establish_sync env key)) =
      (if IsGRDConditionTrue c NamesAccepted \<and> \<not> IsGRDConditionTrue c Established
       then [SetGRDCondition (ee_clock env) c establishedCondition] else []) \<and>
    (\<forall>g \<in> set (status_updates (fst (establish_sync env key))).
       IsGRDConditionTrue g Established \<and>
       (\<forall>t. t \<noteq> Established \<longrightarrow> FindGRDCondition g t = FindGRDCondition c t) \<and>
       gMeta g = gMeta c \<and> gSpec g = gSpec c \<and> accepted g = accepted c \<and>
       (\<forall>env'. lister_get (ee_lister env') key = Inr g \<longrightarrow> establish_sync env' key = ([], Ret ())))"
proof (intro conjI ballI)
  fix g
  assume "g \<in> set (status_updates (fst (establish_sync env key)))"
  then have g: "g = SetGRDCondition (ee_clock env) c establishedCondition"
    by (simp add: establish_updates_eq [OF assms] split: if_splits)
  then show est: "IsGRDConditionTrue g Established" by (simp add: cond_simps)
  show "\<forall>t. t \<noteq> Established \<longrightarrow> FindGRDCondition g t = FindGRDCondition c t"
    by (simp add: g v1_conds.find_set)
  show "gMeta g = gMeta c" "gSpec g = gSpec c" "accepted g = accepted c" by (simp_all add: g)
  show "\<forall>env'. lister_get (ee_lister env') key = Inr g \<longrightarrow> establish_sync env' key = ([], Ret ())"
    using est establish_sync_settled by blast
qed (rule establish_updates_eq [OF assms])

definition named_sample :: GRD where
  "named_sample = SetGRDCondition 3 (sample_grd ''ds'' ''D'' ''g.io'')
     (mk_cond NamesAccepted ConditionTrue ''NoConflicts'' ''no conflicts found'')"

definition sample_establish_env :: "GRD \<Rightarrow> establish_env" where
  "sample_establish_env g =
    \<lparr>ee_lister = \<lparr>lister_get = (\<lambda>_. Inr g), lister_list = Inr [g]\<rparr>, ee_update = Inr, ee_clock = 4\<rparr>"

theorem establish_sync_spec_witness:
  "status_updates (fst (establish_sync (sample_establish_env named_sample) ''ds.g.io'')) =
    [SetGRDCondition 4 named_sample establishedCondition]"
proof -
  have "IsGRDConditionTrue named_sample NamesAccepted \<and> \<not> IsGRDConditionTrue named_sample Established"
    by (simp add: named_sample_def cond_simps)
      (simp add: IsGRDConditionTrue_find FindGRDCondition_def sample_grd_def empty_status_def)
  then show ?thesis
    using establish_sync_spec [of "sample_establish_env named_sample" "''ds.g.io''" named_sample, THEN conjunct1]
    by (simp add: sample_establish_env_def)
qed

end
