(* ===== verification/ApiApproval.thy ===== *)
theory ApiApproval
  imports Controllers
begin

text \<open>
  The API approval controller, \<open>pkg/controller/apiapproval/apiapproval_controller.go\<close>, and the
  helpers it decides with (\<open>IsProtectedCommunityGroup\<close>, \<open>GetAPIApprovalState\<close> of
  \<open>pkg/apihelpers/helpers.go\<close>). The first section models what the code reads of the result of
  \<open>url.ParseRequestURI\<close> of Go's \<open>net/url\<close>: whether it fails, the scheme and whether there is
  a host (the host is kept undecoded, decoding never empties it).
\<close>

section \<open>Package net/url\<close>

definition is_alpha :: "char \<Rightarrow> bool" where
  "is_alpha c = (let n = of_char c :: nat in 65 \<le> n \<and> n \<le> 90 \<or> 97 \<le> n \<and> n \<le> 122)"

definition is_digit :: "char \<Rightarrow> bool" where
  "is_digit c = (let n = of_char c :: nat in 48 \<le> n \<and> n \<le> 57)"

definition is_hex :: "char \<Rightarrow> bool" where
  "is_hex c = (is_digit c \<or> (let n = of_char c :: nat in 65 \<le> n \<and> n \<le> 70 \<or> 97 \<le> n \<and> n \<le> 102))"

definition is_ctl :: "char \<Rightarrow> bool" where
  "is_ctl c = (let n = of_char c :: nat in n < 32 \<or> n = 127)"

text \<open>\<open>getScheme\<close>: \<open>None\<close> is an error, an empty scheme means there is none.\<close>

fun get_scheme :: "string \<Rightarrow> string \<Rightarrow> string \<Rightarrow> (string \<times> string) option" where
  "get_scheme all acc [] = Some ([], all)"
| "get_scheme all acc (c # cs) =
    (if is_alpha c then get_scheme all (acc @ [c]) cs
     else if is_digit c \<or> c \<in> set ''+-.'' then
       (if acc = [] then Some ([], all) else get_scheme all (acc @ [c]) cs)
     else if c = CHR '':'' then (if acc = [] then None else Some (acc, cs))
     else Some ([], all))"

text \<open>The characters \<open>unescape\<close> takes unchanged in a host; bytes from 0x80 up pass as well.\<close>

definition host_char :: "char \<Rightarrow> bool" where
  "host_char c = (is_alpha c \<or> is_digit c \<or> c \<in> set ''-_.~!$&()*+,;=:[]<>\"'' \<or> c = CHR 0x27
     \<or> (of_char c :: nat) \<ge> 128)"

fun unescape_ok :: "bool \<Rightarrow> string \<Rightarrow> bool" where
  "unescape_ok host [] = True"
| "unescape_ok host (c # cs) =
    (if c = CHR ''%'' then
       (case cs of
          x # y # rest \<Rightarrow>
            is_hex x \<and> is_hex y \<and>
            (host \<longrightarrow> (of_char x :: nat) \<ge> 56 \<or> (x = CHR ''2'' \<and> y = CHR ''5'')) \<and>
            unescape_ok host rest
        | _ \<Rightarrow> False)
     else (host \<longrightarrow> host_char c) \<and> unescape_ok host cs)"

definition valid_optional_port :: "string \<Rightarrow> bool" where
  "valid_optional_port p =
    (case p of [] \<Rightarrow> True | c # ds \<Rightarrow> c = CHR '':'' \<and> list_all is_digit ds)"

text \<open>Cut at the last occurrence.\<close>

definition after_last :: "char \<Rightarrow> string \<Rightarrow> string option" where
  "after_last c s = (if c \<in> set s then Some (rev (takeWhile (\<lambda>x. x \<noteq> c) (rev s))) else None)"

definition valid_userinfo_char :: "char \<Rightarrow> bool" where
  "valid_userinfo_char c =
    (is_alpha c \<or> is_digit c \<or> c \<in> set ''-._:~!$&()*+,;=%@'' \<or> c = CHR 0x27)"

text \<open>The zone of a bracketed host is checked with the rules of the host.\<close>

definition parse_host_ok :: "string \<Rightarrow> bool" where
  "parse_host_ok host =
    (if HasPrefix host ''['' then
       (case after_last CHR '']'' host of
          None \<Rightarrow> False
        | Some port \<Rightarrow> valid_optional_port port \<and> unescape_ok True host)
     else
       (case after_last CHR '':'' host of
          None \<Rightarrow> unescape_ok True host
        | Some port \<Rightarrow> list_all is_digit port \<and> unescape_ok True host))"

definition parse_authority :: "string \<Rightarrow> string option" where
  "parse_authority authority =
    (case after_last CHR ''@'' authority of
       None \<Rightarrow> if parse_host_ok authority then Some authority else None
     | Some host \<Rightarrow>
         let userinfo = take (length authority - length host - 1) authority
         in if parse_host_ok host \<and> list_all valid_userinfo_char userinfo \<and> unescape_ok False userinfo
            then Some host else None)"

definition ParseRequestURI :: "string \<Rightarrow> (string \<times> string) option" where
  "ParseRequestURI rawURL =
    (if rawURL = [] \<or> list_ex is_ctl rawURL then None
     else if rawURL = ''*'' then Some ([], [])
     else case get_scheme rawURL [] rawURL of
       None \<Rightarrow> None
     | Some (scheme, rest0) \<Rightarrow>
         let rest = takeWhile (\<lambda>c. c \<noteq> CHR ''?'') rest0
         in if \<not> HasPrefix rest ''/'' then (if scheme \<noteq> [] then Some (ToLower scheme, []) else None)
            else if scheme \<noteq> [] \<and> HasPrefix rest ''//'' then
              let authority = takeWhile (\<lambda>c. c \<noteq> CHR ''/'') (drop 2 rest);
                  path = dropWhile (\<lambda>c. c \<noteq> CHR ''/'') (drop 2 rest)
              in (case parse_authority authority of
                    None \<Rightarrow> None
                  | Some host \<Rightarrow> if unescape_ok False path then Some (ToLower scheme, host) else None)
            else if unescape_ok False rest then Some (ToLower scheme, []) else None)"

section \<open>Protected groups and approval\<close>

definition IsProtectedCommunityGroup :: "string \<Rightarrow> bool" where
  "IsProtectedCommunityGroup grp =
    (if grp = ''k8s.io'' \<or> HasSuffix grp ''.k8s.io'' then True
     else if grp = ''kubernetes.io'' \<or> HasSuffix grp ''.kubernetes.io'' then True
     else False)"

datatype APIApprovalState = APIApprovalInvalid | APIApproved | APIApprovalBypassed | APIApprovalMissing

definition GetAPIApprovalState :: "(string \<times> string) list \<Rightarrow> APIApprovalState \<times> string" where
  "GetAPIApprovalState annotations =
    (let annotation = map_get annotations KubeAPIApprovedAnnotation;
         url = ParseRequestURI annotation
     in if annotation = [] then
          (APIApprovalMissing, ''protected groups must have approval annotation '' @
             quoted KubeAPIApprovedAnnotation @
             '', see https://github.com/kubernetes/enhancements/pull/1111'')
        else if HasPrefix annotation ''unapproved'' then
          (APIApprovalBypassed, ''not approved: '' @ quoted annotation)
        else if (case url of None \<Rightarrow> False | Some (scheme, host) \<Rightarrow> host \<noteq> [] \<and> scheme \<noteq> []) then
          (APIApproved, ''approved in '' @ annotation)
        else
          (APIApprovalInvalid, ''protected groups must have approval annotation '' @
             quoted KubeAPIApprovedAnnotation @
             '' with either a URL or a reason starting with \"unapproved\", see https://github.com/kubernetes/enhancements/pull/1111''))"

section \<open>The controller\<close>

definition calculateCondition :: "GRD \<Rightarrow> GrafanaResourceDefinitionCondition option" where
  "calculateCondition grd =
    (if \<not> IsProtectedCommunityGroup (sGroup (gSpec grd)) then None
     else let (approvalState, reason) = GetAPIApprovalState (mAnnotations (gMeta grd)) in
       Some (case approvalState of
           APIApprovalInvalid \<Rightarrow>
             mk_cond KubernetesAPIApprovalPolicyConformant ConditionFalse ''InvalidAnnotation'' reason
         | APIApprovalMissing \<Rightarrow>
             mk_cond KubernetesAPIApprovalPolicyConformant ConditionFalse ''MissingAnnotation'' reason
         | APIApproved \<Rightarrow>
             mk_cond KubernetesAPIApprovalPolicyConformant ConditionTrue ''ApprovedAnnotation'' reason
         | APIApprovalBypassed \<Rightarrow>
             mk_cond KubernetesAPIApprovalPolicyConformant ConditionFalse ''UnapprovedAnnotation'' reason))"

record approval_env =
  ae_lister :: lister
  ae_update :: "GRD \<Rightarrow> go_error + GRD"
  ae_clock :: time

text \<open>The controller's own state is \<open>lastSeenProtectedAnnotation\<close>.\<close>

type_synonym last_seen = "string \<rightharpoonup> string"

definition approval_sync ::
  "approval_env \<Rightarrow> last_seen \<Rightarrow> string \<Rightarrow> grd_effect list \<times> last_seen \<times> unit outcome" where
  "approval_sync env seen key =
    (case lister_get (ae_lister env) key of
       Inl err \<Rightarrow> if IsNotFound err then ([], seen, Ret ()) else ([], seen, Err err)
     | Inr inp \<Rightarrow>
         let protectionAnnotationValue = map_get (mAnnotations (gMeta inp)) KubeAPIApprovedAnnotation
         in if seen (grd_name inp) = Some protectionAnnotationValue then ([], seen, Ret ())
            else case calculateCondition inp of
              None \<Rightarrow> ([], seen, Ret ())
            | Some cond \<Rightarrow>
                if (case FindGRDCondition inp KubernetesAPIApprovalPolicyConformant of
                      None \<Rightarrow> False
                    | Some old \<Rightarrow> cStatus old = cStatus cond \<and> cReason old = cReason cond \<and>
                                  cMessage old = cMessage cond)
                then ([], seen, Ret ())
                else
                  let grd = SetGRDCondition (ae_clock env) inp cond
                  in (case ae_update env grd of
                        Inl err \<Rightarrow>
                          if IsNotFound err \<or> IsConflict err then ([UpdateStatus grd], seen, Ret ())
                          else ([UpdateStatus grd], seen, Err err)
                      | Inr _ \<Rightarrow>
                          ([UpdateStatus grd], seen(grd_name grd \<mapsto> protectionAnnotationValue), Ret ())))"

definition approval_processNextWorkItem ::
  "approval_env \<Rightarrow> last_seen \<Rightarrow> string option \<Rightarrow> bool outcome \<times> string queue_op list" where
  "approval_processNextWorkItem env seen next =
    process_next (\<lambda>key. snd (snd (approval_sync env seen key))) next"

definition approval_addGrafanaResourceDefinition ::
  "(GRD \<Rightarrow> go_error + string) \<Rightarrow> GRD \<Rightarrow> string queue_op list" where
  "approval_addGrafanaResourceDefinition keyFunc obj = enqueue_key keyFunc obj"

definition approval_updateGrafanaResourceDefinition ::
  "(GRD \<Rightarrow> go_error + string) \<Rightarrow> GRD \<Rightarrow> GRD \<Rightarrow> string queue_op list" where
  "approval_updateGrafanaResourceDefinition keyFunc obj other = enqueue_key keyFunc obj"

definition approval_deleteGrafanaResourceDefinition :: "last_seen \<Rightarrow> deleted_obj \<Rightarrow> last_seen" where
  "approval_deleteGrafanaResourceDefinition seen obj =
    (case deleted_grd obj of None \<Rightarrow> seen | Some castObj \<Rightarrow> seen(grd_name castObj := None))"

section \<open>Lemmas\<close>

lemma calculateCondition_type: "calculateCondition g = Some c \<Longrightarrow> cType c = KubernetesAPIApprovalPolicyConformant"
  by (auto simp: calculateCondition_def Let_def split: prod.splits if_splits APIApprovalState.splits)

lemma approval_sync_update:
  assumes "lister_get (ae_lister env) key = Inr inp"
    and "g \<in> set (status_updates (fst (approval_sync env seen key)))"
  obtains cond where "calculateCondition inp = Some cond" and "g = SetGRDCondition (ae_clock env) inp cond"
  using assms by (force simp: approval_sync_def Let_def split: sum.splits option.splits if_splits)

lemma approval_sync_skip:
  assumes "lister_get (ae_lister env) key = Inr inp"
    and "seen (grd_name inp) = Some (map_get (mAnnotations (gMeta inp)) KubeAPIApprovedAnnotation)"
  shows "approval_sync env seen key = ([], seen, Ret ())"
  using assms by (simp add: approval_sync_def Let_def)

lemma approval_sync_seen:
  assumes "lister_get (ae_lister env) key = Inr inp"
  shows "fst (snd (approval_sync env seen key)) \<in>
    {seen, seen(grd_name inp \<mapsto> map_get (mAnnotations (gMeta inp)) KubeAPIApprovedAnnotation)}"
  using assms by (simp add: approval_sync_def Let_def split: sum.splits option.splits)

lemma approval_state_approved:
  "fst (GetAPIApprovalState ann) = APIApproved \<longleftrightarrow>
    (let a = map_get ann KubeAPIApprovedAnnotation in
     a \<noteq> [] \<and> \<not> HasPrefix a ''unapproved'' \<and>
     (\<exists>scheme host. ParseRequestURI a = Some (scheme, host) \<and> scheme \<noteq> [] \<and> host \<noteq> []))"
  by (simp add: GetAPIApprovalState_def Let_def split: option.split)

lemma calculateCondition_status:
  "calculateCondition g = Some c \<Longrightarrow>
    cStatus c = ConditionTrue \<longleftrightarrow> fst (GetAPIApprovalState (mAnnotations (gMeta g))) = APIApproved"
  by (auto simp: calculateCondition_def Let_def split: prod.splits if_splits APIApprovalState.splits)

lemma calculateCondition_protected:
  "calculateCondition g = Some c \<Longrightarrow> IsProtectedCommunityGroup (sGroup (gSpec g))"
  by (auto simp: calculateCondition_def split: if_splits)

section \<open>Properties\<close>

text \<open>
  The approval controller writes only to definitions of a protected community group, and
  the condition it writes is True exactly when the approval annotation is an absolute URL with
  a host and does not start with \<open>unapproved\<close>; it touches nothing but that condition.
\<close>

theorem approval_reports_annotation:
  assumes "lister_get (ae_lister env) key = Inr inp"
    and "g \<in> set (status_updates (fst (approval_sync env seen key)))"
    and "a = map_get (mAnnotations (gMeta inp)) KubeAPIApprovedAnnotation"
  shows "IsProtectedCommunityGroup (sGroup (gSpec inp)) \<and>
    IsGRDConditionTrue g KubernetesAPIApprovalPolicyConformant =
      (a \<noteq> [] \<and> \<not> HasPrefix a ''unapproved'' \<and>
       (\<exists>scheme host. ParseRequestURI a = Some (scheme, host) \<and> scheme \<noteq> [] \<and> host \<noteq> [])) \<and>
    (\<forall>t. t \<noteq> KubernetesAPIApprovalPolicyConformant \<longrightarrow> FindGRDCondition g t = FindGRDCondition inp t) \<and>
    gMeta g = gMeta inp \<and> gSpec g = gSpec inp \<and> accepted g = accepted inp"
proof -
  obtain cond where c: "calculateCondition inp = Some cond"
    and g: "g = SetGRDCondition (ae_clock env) inp cond"
    using approval_sync_update [OF assms(1,2)] .
  show ?thesis
    using calculateCondition_status [OF c] calculateCondition_protected [OF c]
      approval_state_approved [of "mAnnotations (gMeta inp)"]
    by (simp add: g assms(3) calculateCondition_type [OF c] cond_simps v1_conds.find_set Let_def)
qed

definition approval_sample :: "string \<Rightarrow> GRD" where
  "approval_sample a = (sample_grd ''ds'' ''D'' ''x.k8s.io'')
     \<lparr>gMeta := (sample_meta ''ds.x.k8s.io'')\<lparr>mAnnotations := [(KubeAPIApprovedAnnotation, a)]\<rparr>\<rparr>"

definition sample_approval_env :: "GRD \<Rightarrow> approval_env" where
  "sample_approval_env g =
    \<lparr>ae_lister = \<lparr>lister_get = (\<lambda>_. Inr g), lister_list = Inr [g]\<rparr>, ae_update = Inr, ae_clock = 4\<rparr>"

definition sample_url :: string where "sample_url = ''https://g.io/pull/1''"

lemma approval_sample_condition:
  "calculateCondition (approval_sample sample_url) =
    Some (mk_cond KubernetesAPIApprovalPolicyConformant ConditionTrue ''ApprovedAnnotation''
      (''approved in '' @ sample_url))"
proof -
  have "ParseRequestURI sample_url = Some (''https'', ''g.io'')"
    unfolding sample_url_def by code_simp
  moreover have "IsProtectedCommunityGroup ''x.k8s.io''" by code_simp
  moreover have "\<not> HasPrefix sample_url ''unapproved''" "sample_url \<noteq> []"
    unfolding sample_url_def by code_simp+
  ultimately show ?thesis
    by (simp add: calculateCondition_def GetAPIApprovalState_def approval_sample_def sample_grd_def
        map_get_def Let_def)
qed

lemma approval_sample_sync:
  "approval_sync (sample_approval_env (approval_sample sample_url)) Map.empty ''ds.x.k8s.io'' =
    ([UpdateStatus (SetGRDCondition 4 (approval_sample sample_url)
        (mk_cond KubernetesAPIApprovalPolicyConformant ConditionTrue ''ApprovedAnnotation''
          (''approved in '' @ sample_url)))], [''ds.x.k8s.io'' \<mapsto> sample_url], Ret ())"
  by (simp add: approval_sync_def sample_approval_env_def approval_sample_condition Let_def)
    (simp add: approval_sample_def FindGRDCondition_def sample_grd_def sample_meta_def
      empty_status_def map_get_def)

theorem approval_reports_annotation_witness:
  "IsGRDConditionTrue (SetGRDCondition 4 (approval_sample sample_url)
     (mk_cond KubernetesAPIApprovalPolicyConformant ConditionTrue ''ApprovedAnnotation''
       (''approved in '' @ sample_url))) KubernetesAPIApprovalPolicyConformant =
   (\<exists>scheme host. ParseRequestURI sample_url = Some (scheme, host) \<and> scheme \<noteq> [] \<and> host \<noteq> [])"
proof -
  let ?g = "SetGRDCondition 4 (approval_sample sample_url)
     (mk_cond KubernetesAPIApprovalPolicyConformant ConditionTrue ''ApprovedAnnotation''
       (''approved in '' @ sample_url))"
  have get: "lister_get (ae_lister (sample_approval_env (approval_sample sample_url))) ''ds.x.k8s.io'' =
      Inr (approval_sample sample_url)" by (simp add: sample_approval_env_def)
  have upd: "?g \<in> set (status_updates (fst (approval_sync
      (sample_approval_env (approval_sample sample_url)) Map.empty ''ds.x.k8s.io'')))"
    by (simp add: approval_sample_sync)
  have ann: "sample_url = map_get (mAnnotations (gMeta (approval_sample sample_url))) KubeAPIApprovedAnnotation"
    by (simp add: approval_sample_def map_get_def)
  have "\<not> HasPrefix sample_url ''unapproved''" "sample_url \<noteq> []"
    unfolding sample_url_def by code_simp+
  then show ?thesis
    using approval_reports_annotation [OF get upd ann, THEN conjunct2, THEN conjunct1] by simp
qed

text \<open>
  Servers do not fight over the approval condition: once a sync has written it, no sync of
  an object of that name writes again while the annotation is the same, whatever others do to
  the conditions; only the deletion of the definition, or a change of the annotation, ends
  that. A failed or conflicting write is not remembered, so it is tried again.
\<close>

theorem approval_written_once:
  assumes "lister_get (ae_lister env) key = Inr inp"
    and "approval_sync env seen key = (effs, seen', r)" and "seen' \<noteq> seen"
    and "lister_get (ae_lister env') key' = Inr inp'" and "grd_name inp' = grd_name inp"
    and "map_get (mAnnotations (gMeta inp')) KubeAPIApprovedAnnotation =
         map_get (mAnnotations (gMeta inp)) KubeAPIApprovedAnnotation"
  shows "approval_sync env' seen' key' = ([], seen', Ret ()) \<and>
    r = Ret () \<and> length (status_updates effs) = 1 \<and>
    approval_deleteGrafanaResourceDefinition seen' (Deleted inp') (grd_name inp) = None"
proof -
  have s: "seen' = seen(grd_name inp \<mapsto> map_get (mAnnotations (gMeta inp)) KubeAPIApprovedAnnotation)"
    using approval_sync_seen [OF assms(1), of seen] assms(2,3) by simp
  have "r = Ret () \<and> length (status_updates effs) = 1"
    using assms(1-3)
    by (auto simp: approval_sync_def Let_def split: sum.splits option.splits if_splits)
  then show ?thesis
    using approval_sync_skip [OF assms(4), of seen'] assms(5,6)
    by (simp add: s approval_deleteGrafanaResourceDefinition_def)
qed

theorem approval_written_once_witness:
  "approval_sync (sample_approval_env (approval_sample sample_url)) [''ds.x.k8s.io'' \<mapsto> sample_url]
     ''ds.x.k8s.io'' = ([], [''ds.x.k8s.io'' \<mapsto> sample_url], Ret ())"
proof -
  have "[''ds.x.k8s.io'' \<mapsto> sample_url] \<noteq> (Map.empty :: last_seen)" by simp
  from approval_written_once [OF _ approval_sample_sync this, of "approval_sample sample_url"
      "sample_approval_env (approval_sample sample_url)" "''ds.x.k8s.io''" "approval_sample sample_url"]
  show ?thesis by (simp add: sample_approval_env_def)
qed

end
