(* ===== verification/Finalizer.thy ===== *)
theory Finalizer
  imports Controllers
begin

text \<open>
  The finalizer controller, \<open>pkg/controller/finalizer/finalizer.go\<close>: it deletes the instances of
  a definition that is being deleted and then takes its cleanup finalizer away.

  The store of the instances belongs to the resource handler and the generic registry; here it
  is a state \<open>'w\<close> with the two operations of \<open>ListerCollectionDeleter\<close>. \<open>wait.PollImmediate\<close> is
  Kubernetes code: it evaluates its condition at once and again after each interval, in all
  \<open>fe_polls\<close> more times, and between two evaluations the store may change (\<open>fe_wait\<close>).
  The n-th status update of a sync is answered by \<open>fe_update n\<close>.
\<close>

record gr_item =
  giName :: string
  giNamespace :: string

record 'w gr_client =
  gcList :: "'w \<Rightarrow> go_error + gr_item list"
  gcDeleteCollection :: "string \<Rightarrow> 'w \<Rightarrow> go_error option \<times> 'w"

record 'w finalizer_env =
  fe_lister :: lister
  fe_update :: "nat \<Rightarrow> GRD \<Rightarrow> go_error + GRD"
  fe_clock :: "nat \<Rightarrow> time"
  fe_client :: "GRD \<Rightarrow> go_error + 'w gr_client"
  fe_wait :: "'w \<Rightarrow> 'w"
  fe_polls :: nat
  fe_aggregate :: "go_error list \<Rightarrow> go_error"
  fe_text :: "go_error \<Rightarrow> string"

definition OverlappingBuiltInResources :: "(string \<times> string) list" where
  "OverlappingBuiltInResources =
    [(''apiregistration.k8s.io'', ''apiservices''), (''kinds.k8s.io'', ''grafanaresourcedefinitions'')]"

definition terminating :: "string \<Rightarrow> string \<Rightarrow> string \<Rightarrow> GrafanaResourceDefinitionCondition" where
  "terminating status reason message = mk_cond Terminating status reason message"

section \<open>Deleting the instances\<close>

text \<open>The loop over the listed instances: one \<open>DeleteCollection\<close> per namespace.\<close>

fun delete_namespaces ::
  "'w gr_client \<Rightarrow> gr_item list \<Rightarrow> string set \<Rightarrow> go_error list \<Rightarrow> 'w \<Rightarrow> go_error list \<times> 'w" where
  "delete_namespaces crClient [] deletedNamespaces deleteErrors w = (deleteErrors, w)"
| "delete_namespaces crClient (item # items) deletedNamespaces deleteErrors w =
    (if giNamespace item \<in> deletedNamespaces
     then delete_namespaces crClient items deletedNamespaces deleteErrors w
     else case gcDeleteCollection crClient (giNamespace item) w of
       (Some err, w') \<Rightarrow>
         delete_namespaces crClient items (insert (giNamespace item) deletedNamespaces) (deleteErrors @ [err]) w'
     | (None, w') \<Rightarrow>
         delete_namespaces crClient items (insert (giNamespace item) deletedNamespaces) deleteErrors w')"

definition poll_timeout :: go_error where
  "poll_timeout = PlainErr ''timed out waiting for the condition''"

fun poll_until_empty :: "'w gr_client \<Rightarrow> ('w \<Rightarrow> 'w) \<Rightarrow> nat \<Rightarrow> 'w \<Rightarrow> go_error option \<times> 'w" where
  "poll_until_empty crClient wait n w =
    (case gcList crClient w of
       Inl err \<Rightarrow> (Some err, w)
     | Inr items \<Rightarrow>
         if items = [] then (None, w)
         else (case n of 0 \<Rightarrow> (Some poll_timeout, w)
               | Suc m \<Rightarrow> poll_until_empty crClient wait m (wait w)))"

declare poll_until_empty.simps [simp del]

definition deleteInstances ::
  "'w finalizer_env \<Rightarrow> GRD \<Rightarrow> 'w \<Rightarrow>
   (GrafanaResourceDefinitionCondition \<times> go_error option) \<times> 'w" where
  "deleteInstances env grd w =
    (case fe_client env grd of
       Inl err0 \<Rightarrow>
         let err = PlainErr (''unable to find a custom resource client for '' @ Plural (accepted grd) @
               ''.'' @ sGroup (gSpec grd) @ '': '' @ fe_text env err0)
         in ((terminating ConditionTrue ''InstanceDeletionFailed''
                (''could not list instances: '' @ fe_text env err), Some err), w)
     | Inr crClient \<Rightarrow>
         (case gcList crClient w of
            Inl err \<Rightarrow>
              ((terminating ConditionTrue ''InstanceDeletionFailed''
                  (''could not list instances: '' @ fe_text env err), Some err), w)
          | Inr allResources \<Rightarrow>
              (case delete_namespaces crClient allResources {} [] w of
                 (e # es, w1) \<Rightarrow>
                   let deleteError = fe_aggregate env (e # es)
                   in ((terminating ConditionTrue ''InstanceDeletionFailed''
                          (''could not issue all deletes: '' @ fe_text env deleteError), Some deleteError), w1)
               | ([], w1) \<Rightarrow>
                   (case poll_until_empty crClient (fe_wait env) (fe_polls env) w1 of
                      (Some err, w2) \<Rightarrow>
                        ((terminating ConditionTrue ''InstanceDeletionCheck''
                            (''could not confirm zero GrafanaResources remaining: '' @ fe_text env err), Some err), w2)
                    | (None, w2) \<Rightarrow>
                        ((terminating ConditionFalse ''InstanceDeletionCompleted'' ''removed all instances'', None), w2)))))"

section \<open>Syncing a definition\<close>

definition final_update ::
  "'w finalizer_env \<Rightarrow> GRD \<Rightarrow> GRD \<Rightarrow> 'w \<Rightarrow> grd_effect list \<times> 'w \<times> unit outcome" where
  "final_update env first grd w =
    (let done = GRDRemoveFinalizer grd GrafanaResourceCleanupFinalizer
     in ([UpdateStatus first, UpdateStatus done], w,
         (case fe_update env 1 done of
            Inl err \<Rightarrow> if IsNotFound err \<or> IsConflict err then Ret () else Err err
          | Inr _ \<Rightarrow> Ret ())))"

text \<open>The part of \<open>sync\<close> after the first update, on the object the server returned.\<close>

definition finalize_returned ::
  "'w finalizer_env \<Rightarrow> GRD \<Rightarrow> GRD \<Rightarrow> 'w \<Rightarrow> grd_effect list \<times> 'w \<times> unit outcome" where
  "finalize_returned env first grd w =
    (if (sGroup (gSpec grd), Plural (sNames (gSpec grd))) \<in> set OverlappingBuiltInResources then
       final_update env first
         (SetGRDCondition (fe_clock env 1) grd
            (terminating ConditionFalse ''OverlappingBuiltInResource''
               ''instances overlap with built-in resources in storage'')) w
     else if IsGRDConditionTrue grd Established then
       (case deleteInstances env grd w of
          ((cond, deleteErr), w') \<Rightarrow>
            let grd' = SetGRDCondition (fe_clock env 1) grd cond
            in (case deleteErr of
                  Some e \<Rightarrow> ([UpdateStatus first, UpdateStatus grd'], w', Err e)
                | None \<Rightarrow> final_update env first grd' w'))
     else
       final_update env first
         (SetGRDCondition (fe_clock env 1) grd
            (terminating ConditionFalse ''NeverEstablished'' ''resource was never established'')) w)"

definition finalizer_sync ::
  "'w finalizer_env \<Rightarrow> string \<Rightarrow> 'w \<Rightarrow> grd_effect list \<times> 'w \<times> unit outcome" where
  "finalizer_sync env key w =
    (case lister_get (fe_lister env) key of
       Inl err \<Rightarrow> if IsNotFound err then ([], w, Ret ()) else ([], w, Err err)
     | Inr cachedGRD \<Rightarrow>
         if deletion_is_zero (gMeta cachedGRD) \<or> \<not> GRDHasFinalizer cachedGRD GrafanaResourceCleanupFinalizer
         then ([], w, Ret ())
         else
           let first = SetGRDCondition (fe_clock env 0) cachedGRD
                 (terminating ConditionTrue ''InstanceDeletionInProgress'' ''GrafanaResource deletion is in progress'')
           in (case fe_update env 0 first of
                 Inl err \<Rightarrow>
                   if IsNotFound err \<or> IsConflict err then ([UpdateStatus first], w, Ret ())
                   else ([UpdateStatus first], w, Err err)
               | Inr grd \<Rightarrow> finalize_returned env first grd w))"

definition finalizer_processNextWorkItem ::
  "'w finalizer_env \<Rightarrow> 'w \<Rightarrow> string option \<Rightarrow> bool outcome \<times> string queue_op list" where
  "finalizer_processNextWorkItem env w next =
    process_next (\<lambda>key. snd (snd (finalizer_sync env key w))) next"

definition finalizer_addGrafanaResourceDefinition ::
  "(GRD \<Rightarrow> go_error + string) \<Rightarrow> GRD \<Rightarrow> string queue_op list" where
  "finalizer_addGrafanaResourceDefinition keyFunc castObj =
    (if \<not> deletion_is_zero (gMeta castObj) \<and> GRDHasFinalizer castObj GrafanaResourceCleanupFinalizer
     then enqueue_key keyFunc castObj else [])"

definition clear_resource_version :: "GRD \<Rightarrow> GRD" where
  "clear_resource_version g = g\<lparr>gMeta := (gMeta g)\<lparr>mResourceVersion := []\<rparr>\<rparr>"

definition finalizer_updateGrafanaResourceDefinition ::
  "(GRD \<Rightarrow> go_error + string) \<Rightarrow> GRD \<Rightarrow> GRD \<Rightarrow> string queue_op list" where
  "finalizer_updateGrafanaResourceDefinition keyFunc oldGRD newGRD =
    (if deletion_is_zero (gMeta newGRD) \<or> \<not> GRDHasFinalizer newGRD GrafanaResourceCleanupFinalizer then []
     else if mResourceVersion (gMeta oldGRD) = mResourceVersion (gMeta newGRD) then enqueue_key keyFunc newGRD
     else
       let oldCopy = RemoveGRDCondition (clear_resource_version oldGRD) Terminating;
           newCopy = RemoveGRDCondition (clear_resource_version newGRD) Terminating
       in if oldCopy \<noteq> newCopy then enqueue_key keyFunc newGRD else [])"

section \<open>Lemmas\<close>

lemma terminating_sel [simp]:
  "cType (terminating s r m) = Terminating" "cStatus (terminating s r m) = s"
  "cReason (terminating s r m) = r"
  by (simp_all add: terminating_def)

lemma poll_until_empty_None:
  "poll_until_empty crClient wait n w = (None, w') \<Longrightarrow> gcList crClient w' = Inr []"
proof (induction n arbitrary: w)
  case 0
  then show ?case by (auto simp: poll_until_empty.simps [of _ _ 0] split: sum.splits if_splits)
next
  case (Suc n)
  then show ?case by (auto simp: poll_until_empty.simps [of _ _ "Suc n"] split: sum.splits if_splits)
qed

lemma poll_until_empty_finds:
  assumes "\<And>w. \<exists>xs. gcList crClient w = Inr xs" and "k \<le> n" and "gcList crClient ((wait ^^ k) w) = Inr []"
  shows "\<exists>w'. poll_until_empty crClient wait n w = (None, w')"
  using assms(2,3)
proof (induction n arbitrary: w k)
  case 0
  then show ?case by (simp add: poll_until_empty.simps [of _ _ 0])
next
  case (Suc n)
  obtain xs where xs: "gcList crClient w = Inr xs" using assms(1) by blast
  show ?case
  proof (cases "xs = []")
    case True
    with xs show ?thesis by (simp add: poll_until_empty.simps [of _ _ "Suc n"])
  next
    case False
    with Suc.prems xs have "k \<noteq> 0" by (cases k) auto
    then obtain j where j: "k = Suc j" by (cases k) auto
    have "gcList crClient ((wait ^^ j) (wait w)) = Inr []"
      using Suc.prems(2) j by (simp add: funpow_swap1)
    then show ?thesis
      using Suc.IH [of j "wait w"] Suc.prems(1) j xs False
      by (simp add: poll_until_empty.simps [of _ _ "Suc n"])
  qed
qed

lemma deleteInstances_type: "cType (fst (fst (deleteInstances env grd w))) = Terminating"
  by (simp add: deleteInstances_def Let_def split: sum.split prod.split list.split option.split)

lemma deleteInstances_None:
  assumes "deleteInstances env grd w = ((cond, None), w')"
  obtains crClient where "fe_client env grd = Inr crClient" and "gcList crClient w' = Inr []"
    and "cond = terminating ConditionFalse ''InstanceDeletionCompleted'' ''removed all instances''"
  using assms
  by (auto simp: deleteInstances_def Let_def dest: poll_until_empty_None
      split: sum.splits prod.splits list.splits option.splits)

lemma GRDHasFinalizer_remove: "\<not> GRDHasFinalizer (GRDRemoveFinalizer g f) f"
  by (simp add: GRDHasFinalizer_iff GRDRemoveFinalizer_def)

text \<open>Namespaces in the order in which they are first seen.\<close>

definition first_seen :: "string list \<Rightarrow> string list" where
  "first_seen ns = rev (remdups (rev ns))"

lemma delete_namespaces_fold:
  "delete_namespaces crClient items seen errs w =
    fold (\<lambda>ns (es, w). case gcDeleteCollection crClient ns w of
            (Some e, w') \<Rightarrow> (es @ [e], w') | (None, w') \<Rightarrow> (es, w'))
      (filter (\<lambda>ns. ns \<notin> seen) (first_seen (map giNamespace items))) (errs, w)"
proof (induction items arbitrary: seen errs w)
  case Nil
  show ?case by (simp add: first_seen_def)
next
  case (Cons item items)
  have fs: "filter (\<lambda>ns. ns \<notin> S) (first_seen (a # ns)) =
      (if a \<in> S then [] else [a]) @ filter (\<lambda>n. n \<notin> insert a S) (first_seen ns)" for a ns S
  proof -
    have "remdups (rev ns @ [a]) = filter (\<lambda>n. n \<noteq> a) (remdups (rev ns)) @ [a]"
      by (induction ns rule: rev_induct) auto
    then show ?thesis by (simp add: first_seen_def rev_filter conj_commute)
  qed
  have ins: "a \<in> S \<Longrightarrow> insert a S = S" for a and S :: "string set" by (rule insert_absorb)
  show ?case
    by (cases "giNamespace item \<in> seen") (simp_all add: Cons fs ins split: prod.split option.split)
qed

lemma RemoveGRDCondition_Set:
  "RemoveGRDCondition (SetGRDCondition now g c) (cType c) = RemoveGRDCondition g (cType c)"
proof -
  have upd: "filter (\<lambda>d. cType d \<noteq> t) (upd_first (\<lambda>d. cType d = t) f ds) = filter (\<lambda>d. cType d \<noteq> t) ds"
    if "\<And>d. cType (f d) = cType d" for f :: "GrafanaResourceDefinitionCondition \<Rightarrow> _" and t ds
    by (induction ds) (simp_all add: that)
  show ?thesis
    by (simp add: RemoveGRDCondition_def SetGRDCondition_def Let_def upd split: option.split)
qed

lemma RemoveGRDCondition_Terminating:
  "RemoveGRDCondition (SetGRDCondition now g (terminating s r m)) Terminating =
    RemoveGRDCondition g Terminating"
  using RemoveGRDCondition_Set [of now g "terminating s r m"] by simp

lemma finalize_returned_first:
  "\<exists>g. fst (finalize_returned env first grd w) = [UpdateStatus first, UpdateStatus g]"
  by (auto simp: finalize_returned_def final_update_def Let_def split: prod.split option.split)

text \<open>A sync that sends two updates got an answer to the first one.\<close>

lemma finalizer_sync_second:
  assumes "finalizer_sync env key w = ([UpdateStatus first, UpdateStatus g], w', r)"
    and "fe_update env 0 first = Inr g1"
  shows "GRDHasFinalizer first GrafanaResourceCleanupFinalizer"
    and "finalize_returned env first g1 w = ([UpdateStatus first, UpdateStatus g], w', r)"
proof -
  obtain c where c: "lister_get (fe_lister env) key = Inr c" "\<not> deletion_is_zero (gMeta c)"
      "GRDHasFinalizer c GrafanaResourceCleanupFinalizer"
    using assms(1) by (auto simp: finalizer_sync_def split: sum.splits if_splits)
  define f where "f = SetGRDCondition (fe_clock env 0) c
     (terminating ConditionTrue ''InstanceDeletionInProgress'' ''GrafanaResource deletion is in progress'')"
  have "finalizer_sync env key w =
      (case fe_update env 0 f of
         Inl err \<Rightarrow> if IsNotFound err \<or> IsConflict err then ([UpdateStatus f], w, Ret ())
                    else ([UpdateStatus f], w, Err err)
       | Inr grd \<Rightarrow> finalize_returned env f grd w)"
    using c by (simp add: finalizer_sync_def Let_def flip: f_def)
  then obtain grd where grd: "fe_update env 0 f = Inr grd"
      "finalize_returned env f grd w = ([UpdateStatus first, UpdateStatus g], w', r)"
    using assms(1) by (auto split: sum.splits if_splits)
  then have "f = first" using finalize_returned_first [of env f grd w] by auto
  then show "finalize_returned env first g1 w = ([UpdateStatus first, UpdateStatus g], w', r)"
    and "GRDHasFinalizer first GrafanaResourceCleanupFinalizer"
    using grd assms(2) c by (auto simp: f_def)
qed

lemma finalize_returned_safe:
  assumes "finalize_returned env first g1 w = ([UpdateStatus first, UpdateStatus g], w', r)"
    and "GRDHasFinalizer g1 GrafanaResourceCleanupFinalizer"
    and "\<not> GRDHasFinalizer g GrafanaResourceCleanupFinalizer"
    and "(sGroup (gSpec g1), Plural (sNames (gSpec g1))) \<notin> set OverlappingBuiltInResources"
    and "IsGRDConditionTrue g1 Established"
  shows "\<exists>crClient. fe_client env g1 = Inr crClient \<and> gcList crClient w' = Inr []"
proof -
  obtain cond e w1 where d: "deleteInstances env g1 w = ((cond, e), w1)" by (metis prod.exhaust)
  show ?thesis
  proof (cases e)
    case None
    then have "w1 = w'" using assms(1,4,5) d by (simp add: finalize_returned_def final_update_def Let_def)
    then show ?thesis using d None by (auto elim!: deleteInstances_None)
  next
    case (Some e')
    then show ?thesis using assms d by (auto simp: finalize_returned_def Let_def)
  qed
qed

section \<open>Properties\<close>

text \<open>
  C10. The cleanup finalizer is taken away only when it is safe: if a sync sends an update
  without it, then the definition overlaps a built-in resource, or was never established, or
  the store of its instances answers an empty list at the end of the sync.
\<close>

theorem finalizer_removed_only_when_empty:
  assumes "finalizer_sync env key w = ([UpdateStatus first, UpdateStatus g], w', r)"
    and "fe_update env 0 first = Inr g1" and "mFinalizers (gMeta g1) = mFinalizers (gMeta first)"
    and "\<not> GRDHasFinalizer g GrafanaResourceCleanupFinalizer"
  shows "(sGroup (gSpec g1), Plural (sNames (gSpec g1))) \<in> set OverlappingBuiltInResources \<or>
    \<not> IsGRDConditionTrue g1 Established \<or>
    (\<exists>crClient. fe_client env g1 = Inr crClient \<and> gcList crClient w' = Inr [])"
proof -
  have "GRDHasFinalizer g1 GrafanaResourceCleanupFinalizer"
    using finalizer_sync_second(1) [OF assms(1,2)] assms(3) by (simp add: GRDHasFinalizer_iff)
  then show ?thesis
    using finalize_returned_safe [OF finalizer_sync_second(2) [OF assms(1,2)] _ assms(4)] by blast
qed

text \<open>A store that is the list of its instances, for the witnesses.\<close>

definition sample_gr_client :: "gr_item list gr_client" where
  "sample_gr_client = \<lparr>gcList = Inr,
     gcDeleteCollection = (\<lambda>ns w. (None, filter (\<lambda>i. giNamespace i \<noteq> ns) w))\<rparr>"

definition dying_sample :: GRD where
  "dying_sample = SetGRDCondition 3
     ((sample_grd ''ds'' ''D'' ''g.io'')\<lparr>gMeta := (sample_meta ''ds.g.io'')
        \<lparr>mDeletionTimestamp := Some 9, mFinalizers := [GrafanaResourceCleanupFinalizer]\<rparr>\<rparr>)
     (mk_cond Established ConditionTrue ''r'' ''m'')"

definition sample_finalizer_env :: "gr_item list finalizer_env" where
  "sample_finalizer_env = \<lparr>fe_lister = \<lparr>lister_get = (\<lambda>_. Inr dying_sample), lister_list = Inr [dying_sample]\<rparr>,
     fe_update = (\<lambda>_. Inr), fe_clock = (\<lambda>_. 5), fe_client = (\<lambda>_. Inr sample_gr_client),
     fe_wait = id, fe_polls = 12, fe_aggregate = hd, fe_text = (\<lambda>_. [])\<rparr>"

definition sample_items :: "gr_item list" where
  "sample_items = [\<lparr>giName = ''a'', giNamespace = ''n''\<rparr>, \<lparr>giName = ''b'', giNamespace = ''m''\<rparr>,
     \<lparr>giName = ''c'', giNamespace = ''n''\<rparr>]"

lemma dying_sample_sel:
  "deletion_is_zero (gMeta dying_sample) = False"
  "GRDHasFinalizer dying_sample GrafanaResourceCleanupFinalizer"
  "IsGRDConditionTrue dying_sample Established"
  "gSpec dying_sample = gSpec (sample_grd ''ds'' ''D'' ''g.io'')"
  by (simp_all add: dying_sample_def deletion_is_zero_def IsZero_def cond_simps)
    (simp add: GRDHasFinalizer_iff)

lemma sample_delete:
  "deleteInstances sample_finalizer_env g sample_items =
    ((terminating ConditionFalse ''InstanceDeletionCompleted'' ''removed all instances'', None), [])"
  by (simp add: deleteInstances_def sample_finalizer_env_def sample_gr_client_def sample_items_def
      poll_until_empty.simps)

definition dying_first :: GRD where
  "dying_first = SetGRDCondition 5 dying_sample
     (terminating ConditionTrue ''InstanceDeletionInProgress'' ''GrafanaResource deletion is in progress'')"

definition dying_done :: GRD where
  "dying_done = GRDRemoveFinalizer (SetGRDCondition 5 dying_first
     (terminating ConditionFalse ''InstanceDeletionCompleted'' ''removed all instances''))
     GrafanaResourceCleanupFinalizer"

lemma dying_first_sel:
  "IsGRDConditionTrue dying_first Established"
  "gSpec dying_first = gSpec (sample_grd ''ds'' ''D'' ''g.io'')"
  by (simp_all add: dying_first_def cond_simps dying_sample_sel)

lemma sample_finalizer_sync:
  "finalizer_sync sample_finalizer_env ''ds.g.io'' sample_items =
    ([UpdateStatus dying_first, UpdateStatus dying_done], [], Ret ())"
proof -
  have env: "fe_lister sample_finalizer_env = \<lparr>lister_get = (\<lambda>_. Inr dying_sample), lister_list = Inr [dying_sample]\<rparr>"
    "fe_update sample_finalizer_env = (\<lambda>_. Inr)" "fe_clock sample_finalizer_env = (\<lambda>_. 5)"
    by (simp_all add: sample_finalizer_env_def)
  have "(sGroup (gSpec dying_first), Plural (sNames (gSpec dying_first))) \<notin> set OverlappingBuiltInResources"
    by (simp add: dying_first_sel sample_grd_def sample_names_def OverlappingBuiltInResources_def)
  then show ?thesis
    by (simp add: finalizer_sync_def finalize_returned_def env dying_sample_sel dying_first_sel sample_delete final_update_def
        Let_def flip: dying_first_def) (simp add: dying_done_def)
qed

theorem finalizer_removed_only_when_empty_witness:
  "\<exists>crClient. fe_client sample_finalizer_env dying_first = Inr crClient \<and> gcList crClient [] = Inr []"
proof -
  have "\<not> GRDHasFinalizer dying_done GrafanaResourceCleanupFinalizer"
    by (simp add: dying_done_def GRDHasFinalizer_remove)
  moreover have "(sGroup (gSpec dying_first), Plural (sNames (gSpec dying_first))) \<notin> set OverlappingBuiltInResources"
    by (simp add: dying_first_sel sample_grd_def sample_names_def OverlappingBuiltInResources_def)
  moreover have "fe_update sample_finalizer_env 0 dying_first = Inr dying_first"
    by (simp add: sample_finalizer_env_def)
  ultimately show ?thesis
    using finalizer_removed_only_when_empty [OF sample_finalizer_sync] dying_first_sel(1) by blast
qed

text \<open>
  C11. Finalization finishes: for an established definition under deletion, when the server
  accepts the updates, the store answers every list, no delete fails and the instances are
  gone within the polls, the sync ends without error and its last update reports
  \<open>Terminating\<close> False and carries no cleanup finalizer.
\<close>

theorem finalizer_finishes:
  assumes "lister_get (fe_lister env) key = Inr c" and "\<not> deletion_is_zero (gMeta c)"
    and "GRDHasFinalizer c GrafanaResourceCleanupFinalizer" and "IsGRDConditionTrue c Established"
    and "(sGroup (gSpec c), Plural (sNames (gSpec c))) \<notin> set OverlappingBuiltInResources"
    and "\<And>n g. fe_update env n g = Inr g" and "\<And>g. fe_client env g = Inr crClient"
    and "\<And>w. \<exists>xs. gcList crClient w = Inr xs" and "gcList crClient w = Inr items"
    and "delete_namespaces crClient items {} [] w = ([], w1)"
    and "k \<le> fe_polls env" and "gcList crClient ((fe_wait env ^^ k) w1) = Inr []"
  shows "\<exists>first g w'. finalizer_sync env key w = ([UpdateStatus first, UpdateStatus g], w', Ret ()) \<and>
    \<not> GRDHasFinalizer g GrafanaResourceCleanupFinalizer \<and>
    map_option cStatus (FindGRDCondition g Terminating) = Some ConditionFalse \<and>
    gcList crClient w' = Inr []"
proof -
  obtain w2 where poll: "poll_until_empty crClient (fe_wait env) (fe_polls env) w1 = (None, w2)"
    using poll_until_empty_finds [OF assms(8) assms(11,12)] by blast
  have del: "deleteInstances env g w =
      ((terminating ConditionFalse ''InstanceDeletionCompleted'' ''removed all instances'', None), w2)" for g
    by (simp add: deleteInstances_def assms(7,9,10) poll)
  have "gcList crClient w2 = Inr []" by (rule poll_until_empty_None [OF poll])
  then show ?thesis
    using assms(1-6)
    by (simp add: finalizer_sync_def finalize_returned_def final_update_def del cond_simps Let_def GRDHasFinalizer_remove
        v1_conds.find_set)
qed

theorem finalizer_finishes_witness:
  "\<exists>first g w'. finalizer_sync sample_finalizer_env ''ds.g.io'' sample_items =
     ([UpdateStatus first, UpdateStatus g], w', Ret ()) \<and>
   \<not> GRDHasFinalizer g GrafanaResourceCleanupFinalizer \<and>
   map_option cStatus (FindGRDCondition g Terminating) = Some ConditionFalse \<and>
   gcList sample_gr_client w' = Inr []"
proof (rule finalizer_finishes [where c = dying_sample and items = sample_items and k = 0 and ?w1.0 = "[]"])
  show "(sGroup (gSpec dying_sample), Plural (sNames (gSpec dying_sample))) \<notin> set OverlappingBuiltInResources"
    by (simp add: dying_sample_sel sample_grd_def sample_names_def OverlappingBuiltInResources_def)
qed (simp_all add: dying_sample_sel sample_finalizer_env_def sample_gr_client_def sample_items_def)

text \<open>
  Deleting the instances issues one \<open>DeleteCollection\<close> per namespace, in the order in which
  the namespaces are first listed, and collects exactly the errors of these calls.
\<close>

theorem one_delete_per_namespace:
  "delete_namespaces crClient items {} [] w =
    fold (\<lambda>ns (es, w). case gcDeleteCollection crClient ns w of
            (Some e, w') \<Rightarrow> (es @ [e], w') | (None, w') \<Rightarrow> (es, w'))
      (first_seen (map giNamespace items)) ([], w) \<and>
   distinct (first_seen (map giNamespace items)) \<and>
   set (first_seen (map giNamespace items)) = giNamespace ` set items"
  by (simp add: delete_namespaces_fold first_seen_def)

text \<open>
  The finalizer does not requeue itself: an update event whose new object differs from
  the old one only by a \<open>Terminating\<close> condition and the resource version is ignored, while a
  terminating object with any other difference, and every resync, is queued.
\<close>

theorem finalizer_ignores_own_update:
  assumes "keyFunc g' = Inr key" and "\<not> deletion_is_zero (gMeta g')"
    and "GRDHasFinalizer g' GrafanaResourceCleanupFinalizer"
  shows "(mResourceVersion (gMeta g) \<noteq> mResourceVersion (gMeta g') \<and>
      clear_resource_version g' =
        SetGRDCondition now (clear_resource_version g) (terminating s r m) \<longrightarrow>
      finalizer_updateGrafanaResourceDefinition keyFunc g g' = []) \<and>
    (mResourceVersion (gMeta g) = mResourceVersion (gMeta g') \<or> gSpec g \<noteq> gSpec g' \<or>
      (\<exists>t. t \<noteq> Terminating \<and> FindGRDCondition g t \<noteq> FindGRDCondition g' t) \<longrightarrow>
      finalizer_updateGrafanaResourceDefinition keyFunc g g' = [QAdd key])"
proof -
  have same: "RemoveGRDCondition (clear_resource_version g) Terminating =
      RemoveGRDCondition (clear_resource_version g') Terminating \<Longrightarrow>
    gSpec g = gSpec g' \<and> (\<forall>t. t \<noteq> Terminating \<longrightarrow> FindGRDCondition g t = FindGRDCondition g' t)"
  proof -
    assume eq: "RemoveGRDCondition (clear_resource_version g) Terminating =
      RemoveGRDCondition (clear_resource_version g') Terminating"
    have crv: "FindGRDCondition (clear_resource_version h) t = FindGRDCondition h t" for h t
      by (simp add: clear_resource_version_def FindGRDCondition_def)
    have "gSpec g = gSpec g'"
      using arg_cong [OF eq, of gSpec] by (simp add: clear_resource_version_def)
    moreover have "FindGRDCondition g t = FindGRDCondition g' t" if "t \<noteq> Terminating" for t
      using arg_cong [OF eq, of "\<lambda>h. FindGRDCondition h t"] that
      by (simp add: v1_conds.find_remove crv)
    ultimately show ?thesis by blast
  qed
  then show ?thesis
    using assms
    by (auto simp: finalizer_updateGrafanaResourceDefinition_def enqueue_key_def Let_def
        RemoveGRDCondition_Terminating)
qed

theorem finalizer_ignores_own_update_witness:
  "finalizer_updateGrafanaResourceDefinition (\<lambda>g. Inr (grd_name g))
     (dying_sample\<lparr>gMeta := (gMeta dying_sample)\<lparr>mResourceVersion := ''0''\<rparr>\<rparr>) dying_first = []"
proof -
  let ?old = "dying_sample\<lparr>gMeta := (gMeta dying_sample)\<lparr>mResourceVersion := ''0''\<rparr>\<rparr>"
  have "clear_resource_version dying_first = SetGRDCondition 5 (clear_resource_version ?old)
      (terminating ConditionTrue ''InstanceDeletionInProgress'' ''GrafanaResource deletion is in progress'')"
    by (simp add: clear_resource_version_def dying_first_def dying_sample_def SetGRDCondition_def
        FindGRDCondition_def sample_grd_def empty_status_def set_conditions_def Let_def)
  moreover have "GRDHasFinalizer dying_first GrafanaResourceCleanupFinalizer"
    "gMeta dying_first = gMeta dying_sample" "mResourceVersion (gMeta dying_sample) = ''1''"
    using dying_sample_sel by (simp_all add: dying_first_def dying_sample_def sample_meta_def)
  ultimately show ?thesis
    using finalizer_ignores_own_update [of "\<lambda>g. Inr (grd_name g)" dying_first "grd_name dying_first" ?old]
      dying_sample_sel by simp
qed

text \<open>
  The guard against deleting definitions together with a definition of themselves misses
  its own group: \<open>grafanaresourcedefinitions\<close> is listed under \<open>kinds.k8s.io\<close>, the group the code was
  ported from, and not under \<open>kinds.grafana.com\<close>, so a terminating, established definition of that
  resource has its instances deleted.
\<close>

theorem overlap_guard_misses_own_group:
  assumes "lister_get (fe_lister env) key = Inr c" and "\<not> deletion_is_zero (gMeta c)"
    and "GRDHasFinalizer c GrafanaResourceCleanupFinalizer" and "IsGRDConditionTrue c Established"
    and "sGroup (gSpec c) = ''kinds.grafana.com''" and "Plural (sNames (gSpec c)) = ''grafanaresourcedefinitions''"
    and "\<And>g. fe_update env 0 g = Inr g"
  shows "\<exists>g. fst (snd (finalizer_sync env key w)) = snd (deleteInstances env g w) \<and> gSpec g = gSpec c"
proof -
  let ?first = "SetGRDCondition (fe_clock env 0) c (terminating ConditionTrue ''InstanceDeletionInProgress''
    ''GrafanaResource deletion is in progress'')"
  have "fst (snd (finalizer_sync env key w)) = snd (deleteInstances env ?first w)"
    using assms
    by (simp add: finalizer_sync_def finalize_returned_def final_update_def cond_simps OverlappingBuiltInResources_def Let_def
        split: prod.split option.split)
  then show ?thesis by (intro exI [of _ ?first]) simp
qed

definition own_group_sample :: GRD where
  "own_group_sample = SetGRDCondition 3
     ((sample_grd ''grafanaresourcedefinitions'' ''G'' ''kinds.grafana.com'')\<lparr>gMeta :=
        (sample_meta ''g'')\<lparr>mDeletionTimestamp := Some 9, mFinalizers := [GrafanaResourceCleanupFinalizer]\<rparr>\<rparr>)
     (mk_cond Established ConditionTrue ''r'' ''m'')"

theorem overlap_guard_misses_own_group_witness:
  "fst (snd (finalizer_sync (sample_finalizer_env\<lparr>fe_lister :=
      \<lparr>lister_get = (\<lambda>_. Inr own_group_sample), lister_list = Inr []\<rparr>\<rparr>) ''g'' sample_items)) = []"
proof -
  let ?env = "sample_finalizer_env\<lparr>fe_lister :=
      \<lparr>lister_get = (\<lambda>_. Inr own_group_sample), lister_list = Inr []\<rparr>\<rparr>"
  have "\<exists>g. fst (snd (finalizer_sync ?env ''g'' sample_items)) = snd (deleteInstances ?env g sample_items) \<and>
      gSpec g = gSpec own_group_sample"
    by (rule overlap_guard_misses_own_group)
      (simp_all add: own_group_sample_def sample_finalizer_env_def cond_simps deletion_is_zero_def
        IsZero_def GRDHasFinalizer_iff, simp_all add: sample_grd_def sample_names_def)
  moreover have "snd (deleteInstances ?env g sample_items) = []" for g
    by (simp add: deleteInstances_def sample_finalizer_env_def sample_gr_client_def sample_items_def
        poll_until_empty.simps)
  ultimately show ?thesis by metis
qed

end
