(* ===== verification/Discovery.thy ===== *)
theory Discovery
  imports Controllers
begin

text \<open>
  Discovery: the three HTTP handlers of \<open>pkg/apiserver/grafanaresource_discovery.go\<close> and the
  controller of \<open>pkg/apiserver/grafanaresource_discovery_controller.go\<close> that fills them. A
  version handler of \<open>k8s.io/apiserver\<close> is the resource list it was built from, a group handler
  is the API group. \<open>CompareKubeAwareVersionStrings\<close> and \<open>StorageVersionHash\<close> are Kubernetes
  functions, fields of \<open>discovery_env\<close>; the calls on the resource manager are listed in order.
\<close>

record APIResource =
  arName :: string
  arSingularName :: string
  arNamespaced :: bool
  arGroup :: string
  arVersion :: string
  arKind :: string
  arVerbs :: "string list"
  arShortNames :: "string slice"
  arCategories :: "string slice"
  arStorageVersionHash :: string

record GroupVersionForDiscovery =
  gvdGroupVersion :: string
  gvdVersion :: string

record APIGroup =
  agName :: string
  agVersions :: "GroupVersionForDiscovery list"
  agPreferredVersion :: GroupVersionForDiscovery

record APISubresourceDiscovery =
  asdSubresource :: string
  asdResponseKind :: "string \<times> string \<times> string"
  asdVerbs :: "string list"

record APIResourceDiscovery =
  ardResource :: string
  ardSingularResource :: string
  ardScope :: string
  ardResponseKind :: "string \<times> string \<times> string"
  ardVerbs :: "string list"
  ardShortNames :: "string slice"
  ardCategories :: "string slice"
  ardSubresources :: "APISubresourceDiscovery list"

datatype manager_op =
    RemoveGroup string
  | RemoveGroupVersion "string \<times> string"
  | AddGroupVersion string string "APIResourceDiscovery list"
  | SetGroupVersionPriority "string \<times> string" int int

section \<open>The handlers\<close>

definition splitPath :: "string \<Rightarrow> string list" where
  "splitPath path =
    (let p = Trim path CHR ''/'' in if p = [] then [] else split_on CHR ''/'' p)"

text \<open>What a handler does with a request: pass it on, or answer from discovery.\<close>

datatype 'h served = Delegate | Serve 'h

type_synonym version_handler = "string \<times> string \<rightharpoonup> APIResource list"
type_synonym group_handler = "string \<rightharpoonup> APIGroup"

definition rootDiscovery_ServeHTTP :: "'m option \<Rightarrow> string \<Rightarrow> 'm served" where
  "rootDiscovery_ServeHTTP disc path =
    (let pathParts = splitPath path in
     if length pathParts \<noteq> 1 \<or> pathParts ! 0 \<noteq> ''apis'' then Delegate
     else case disc of None \<Rightarrow> Delegate | Some d \<Rightarrow> Serve d)"

definition version_getDiscovery :: "version_handler \<Rightarrow> string \<times> string \<Rightarrow> APIResource list option" where
  "version_getDiscovery m gv = m gv"

definition version_setDiscovery :: "string \<times> string \<Rightarrow> APIResource list \<Rightarrow> version_handler \<Rightarrow> version_handler" where
  "version_setDiscovery gv d m = m(gv \<mapsto> d)"

definition version_unsetDiscovery :: "string \<times> string \<Rightarrow> version_handler \<Rightarrow> version_handler" where
  "version_unsetDiscovery gv m = m(gv := None)"

definition versionDiscovery_ServeHTTP :: "version_handler \<Rightarrow> string \<Rightarrow> APIResource list served" where
  "versionDiscovery_ServeHTTP m path =
    (let pathParts = splitPath path in
     if length pathParts \<noteq> 3 \<or> pathParts ! 0 \<noteq> ''apis'' then Delegate
     else case version_getDiscovery m (pathParts ! 1, pathParts ! 2) of
       None \<Rightarrow> Delegate | Some d \<Rightarrow> Serve d)"

definition group_getDiscovery :: "group_handler \<Rightarrow> string \<Rightarrow> APIGroup option" where
  "group_getDiscovery m grp = m grp"

definition group_setDiscovery :: "string \<Rightarrow> APIGroup \<Rightarrow> group_handler \<Rightarrow> group_handler" where
  "group_setDiscovery grp d m = m(grp \<mapsto> d)"

definition group_unsetDiscovery :: "string \<Rightarrow> group_handler \<Rightarrow> group_handler" where
  "group_unsetDiscovery grp m = m(grp := None)"

definition groupDiscovery_ServeHTTP :: "group_handler \<Rightarrow> string \<Rightarrow> APIGroup served" where
  "groupDiscovery_ServeHTTP m path =
    (let pathParts = splitPath path in
     if length pathParts \<noteq> 2 \<or> pathParts ! 0 \<noteq> ''apis'' then Delegate
     else case group_getDiscovery m (pathParts ! 1) of None \<Rightarrow> Delegate | Some d \<Rightarrow> Serve d)"

section \<open>The controller\<close>

record discovery_env =
  de_lister :: lister
  de_compare :: "string \<Rightarrow> string \<Rightarrow> int"
  de_hash :: "string \<Rightarrow> string \<Rightarrow> string \<Rightarrow> string"
  de_manager :: bool

definition sortGroupDiscoveryByKubeAwareVersion ::
  "(string \<Rightarrow> string \<Rightarrow> int) \<Rightarrow> GroupVersionForDiscovery list \<Rightarrow> GroupVersionForDiscovery list" where
  "sortGroupDiscoveryByKubeAwareVersion compare gd =
    sort_slice (\<lambda>a b. compare (gvdVersion a) (gvdVersion b) > 0) gd"

text \<open>
  The inner loop, over the versions of a definition. Its variables: \<open>versionsForDiscoveryMap\<close>,
  \<open>apiVersionsForDiscovery\<close>, \<open>foundGroup\<close>, \<open>foundThisVersion\<close>, \<open>storageVersionHash\<close>.
\<close>

fun version_loop ::
  "discovery_env \<Rightarrow> string \<Rightarrow> GRD \<Rightarrow> GrafanaResourceDefinitionVersion list \<Rightarrow>
   (string \<times> string) set \<times> GroupVersionForDiscovery list \<times> bool \<times> bool \<times> string \<Rightarrow>
   (string \<times> string) set \<times> GroupVersionForDiscovery list \<times> bool \<times> bool \<times> string" where
  "version_loop env ver grd [] st = st"
| "version_loop env ver grd (v # vs) (seen, vers, foundGroup, foundThis, hash) =
    (if \<not> vServed v then version_loop env ver grd vs (seen, vers, foundGroup, foundThis, hash)
     else
       let gv = (sGroup (gSpec grd), vName v);
           fresh = gv \<notin> seen
       in version_loop env ver grd vs
            ((if fresh then insert gv seen else seen),
             (if fresh then vers @ [\<lparr>gvdGroupVersion = fst gv @ ''/'' @ vName v, gvdVersion = vName v\<rparr>]
              else vers),
             True,
             (if vName v = ver then True else foundThis),
             (if vStorage v then de_hash env (fst gv) (snd gv) (Kind (sNames (gSpec grd))) else hash)))"

definition all_verbs :: "string list" where
  "all_verbs = [''delete'', ''deletecollection'', ''get'', ''list'', ''patch'', ''create'', ''update'', ''watch'']"

definition terminating_verbs :: "string list" where
  "terminating_verbs = [''delete'', ''deletecollection'', ''get'', ''list'', ''watch'']"

definition verbs_for :: "GRD \<Rightarrow> string list" where
  "verbs_for grd = (if IsGRDConditionTrue grd Terminating then terminating_verbs else all_verbs)"

definition is_namespaced :: "GRD \<Rightarrow> bool" where
  "is_namespaced grd = (sScope (gSpec grd) = NamespaceScoped)"

definition sub_resource :: "GRD \<Rightarrow> string \<Rightarrow> string list \<Rightarrow> APIResource" where
  "sub_resource grd sfx verbs =
    \<lparr>arName = Plural (accepted grd) @ sfx, arSingularName = [], arNamespaced = is_namespaced grd,
     arGroup = [], arVersion = [], arKind = Kind (accepted grd), arVerbs = verbs,
     arShortNames = None, arCategories = None, arStorageVersionHash = []\<rparr>"

definition has_sub :: "(GrafanaResourceSubresources \<Rightarrow> 'a option) \<Rightarrow> GrafanaResourceSubresources option \<Rightarrow> bool" where
  "has_sub f subs = (case subs of None \<Rightarrow> False | Some s \<Rightarrow> f s \<noteq> None)"

definition status_verbs :: "string list" where
  "status_verbs = [''get'', ''patch'', ''update'']"

definition main_resource :: "GRD \<Rightarrow> string \<Rightarrow> APIResource" where
  "main_resource grd hash =
    \<lparr>arName = Plural (accepted grd), arSingularName = Singular (accepted grd),
     arNamespaced = is_namespaced grd, arGroup = [], arVersion = [], arKind = Kind (accepted grd),
     arVerbs = verbs_for grd, arShortNames = ShortNames (accepted grd),
     arCategories = Categories (accepted grd), arStorageVersionHash = hash\<rparr>"

definition sub_resources :: "GRD \<Rightarrow> GrafanaResourceSubresources option \<Rightarrow> APIResource list" where
  "sub_resources grd subs =
    (if has_sub subRef subs then [sub_resource grd ''/ref'' [''get'']] else []) @
    (if has_sub subHistory subs then [sub_resource grd ''/history'' [''get'']] else []) @
    (if has_sub subStatus subs then [sub_resource grd ''/status'' status_verbs] else []) @
    (if has_sub subScale subs
     then [(sub_resource grd ''/scale'' status_verbs)
             \<lparr>arGroup := ''autoscaling'', arVersion := ''v1'', arKind := ''Scale''\<rparr>] else [])"

definition aggregated_resource ::
  "string \<times> string \<Rightarrow> GRD \<Rightarrow> GrafanaResourceSubresources option \<Rightarrow> APIResourceDiscovery" where
  "aggregated_resource version grd subs =
    (let kind = (fst version, snd version, Kind (accepted grd)) in
     \<lparr>ardResource = Plural (accepted grd), ardSingularResource = Singular (accepted grd),
      ardScope = (if is_namespaced grd then ''Namespaced'' else ''Cluster''),
      ardResponseKind = kind, ardVerbs = verbs_for grd,
      ardShortNames = ShortNames (accepted grd), ardCategories = Categories (accepted grd),
      ardSubresources =
        (if has_sub subRef subs then [\<lparr>asdSubresource = ''ref'', asdResponseKind = kind, asdVerbs = [''get'']\<rparr>] else []) @
        (if has_sub subHistory subs then [\<lparr>asdSubresource = ''history'', asdResponseKind = kind, asdVerbs = [''get'']\<rparr>] else []) @
        (if has_sub subStatus subs then [\<lparr>asdSubresource = ''status'', asdResponseKind = kind, asdVerbs = status_verbs\<rparr>] else []) @
        (if has_sub subScale subs
         then [\<lparr>asdSubresource = ''scale'', asdResponseKind = (''autoscaling'', ''v1'', ''Scale''), asdVerbs = status_verbs\<rparr>]
         else [])\<rparr>)"

record discovery_scan =
  dsSeen :: "(string \<times> string) set"
  dsVersions :: "GroupVersionForDiscovery list"
  dsFoundGroup :: bool
  dsFoundVersion :: bool
  dsResources :: "APIResource list"
  dsAggregated :: "APIResourceDiscovery list"

text \<open>The outer loop of \<open>sync\<close>, over the listed definitions.\<close>

fun grd_loop ::
  "discovery_env \<Rightarrow> string \<times> string \<Rightarrow> GRD list \<Rightarrow> discovery_scan \<Rightarrow> discovery_scan outcome" where
  "grd_loop env version [] ds = Ret ds"
| "grd_loop env version (grd # grds) ds =
    (if \<not> IsGRDConditionTrue grd Established then grd_loop env version grds ds
     else if sGroup (gSpec grd) \<noteq> fst version then grd_loop env version grds ds
     else
       (case version_loop env (snd version) grd (sVersions (gSpec grd))
              (dsSeen ds, dsVersions ds, dsFoundGroup ds, False, []) of
          (seen, vers, foundGroup, foundThisVersion, hash) \<Rightarrow>
            let ds1 = ds\<lparr>dsSeen := seen, dsVersions := vers, dsFoundGroup := foundGroup\<rparr> in
            if \<not> foundThisVersion then grd_loop env version grds ds1
            else
              (case GetSubresourcesForVersion grd (snd version) of
                 Inl err \<Rightarrow> Err err
               | Inr subs \<Rightarrow>
                   grd_loop env version grds
                     (ds1\<lparr>dsFoundVersion := True,
                          dsResources := dsResources ds1 @ main_resource grd hash # sub_resources grd subs,
                          dsAggregated := (if de_manager env
                            then dsAggregated ds1 @ [aggregated_resource version grd subs]
                            else dsAggregated ds1)\<rparr>))))"

record discovery_state =
  dVersion :: version_handler
  dGroup :: group_handler

definition empty_scan :: discovery_scan where
  "empty_scan = \<lparr>dsSeen = {}, dsVersions = [], dsFoundGroup = False, dsFoundVersion = False,
     dsResources = [], dsAggregated = []\<rparr>"

definition discovery_sync ::
  "discovery_env \<Rightarrow> string \<times> string \<Rightarrow> discovery_state \<Rightarrow>
   discovery_state \<times> manager_op list \<times> unit outcome" where
  "discovery_sync env version st =
    (case lister_list (de_lister env) of
       Inl err \<Rightarrow> (st, [], Err err)
     | Inr grds \<Rightarrow>
         (case grd_loop env version grds empty_scan of
            Panic \<Rightarrow> (st, [], Panic)
          | Err err \<Rightarrow> (st, [], Err err)
          | Ret ds \<Rightarrow>
              if \<not> dsFoundGroup ds then
                (st\<lparr>dVersion := version_unsetDiscovery version (dVersion st),
                    dGroup := group_unsetDiscovery (fst version) (dGroup st)\<rparr>,
                 (if de_manager env then [RemoveGroup (fst version)] else []), Ret ())
              else
                let vers = sortGroupDiscoveryByKubeAwareVersion (de_compare env) (dsVersions ds);
                    apiGroup = \<lparr>agName = fst version, agVersions = vers, agPreferredVersion = hd vers\<rparr>;
                    groups = group_setDiscovery (fst version) apiGroup (dGroup st)
                in if \<not> dsFoundVersion ds then
                     (st\<lparr>dVersion := version_unsetDiscovery version (dVersion st), dGroup := groups\<rparr>,
                      (if de_manager env then [RemoveGroupVersion version] else []), Ret ())
                   else
                     (st\<lparr>dVersion := version_setDiscovery version (dsResources ds) (dVersion st),
                         dGroup := groups\<rparr>,
                      (if de_manager env
                       then [AddGroupVersion (fst version) (snd version)
                               (sort_slice (\<lambda>a b. string_less (ardResource a) (ardResource b)) (dsAggregated ds)),
                             SetGroupVersionPriority version 1000 100]
                       else []), Ret ())))"

definition discovery_enqueue :: "GRD \<Rightarrow> (string \<times> string) queue_op list" where
  "discovery_enqueue obj = map (\<lambda>v. QAdd (sGroup (gSpec obj), vName v)) (sVersions (gSpec obj))"

definition discovery_addGrafanaResourceDefinition :: "GRD \<Rightarrow> (string \<times> string) queue_op list" where
  "discovery_addGrafanaResourceDefinition obj = discovery_enqueue obj"

definition discovery_updateGrafanaResourceDefinition :: "GRD \<Rightarrow> GRD \<Rightarrow> (string \<times> string) queue_op list" where
  "discovery_updateGrafanaResourceDefinition oldObj newObj =
    discovery_enqueue newObj @ discovery_enqueue oldObj"

definition discovery_deleteGrafanaResourceDefinition :: "deleted_obj \<Rightarrow> (string \<times> string) queue_op list" where
  "discovery_deleteGrafanaResourceDefinition obj =
    (case deleted_grd obj of None \<Rightarrow> [] | Some castObj \<Rightarrow> discovery_enqueue castObj)"

definition discovery_processNextWorkItem ::
  "discovery_env \<Rightarrow> discovery_state \<Rightarrow> (string \<times> string) option \<Rightarrow>
   bool outcome \<times> (string \<times> string) queue_op list" where
  "discovery_processNextWorkItem env st next =
    process_next (\<lambda>version. snd (snd (discovery_sync env version st))) next"

text \<open>
  One attempt of the initial sync of \<open>Run\<close>: every version of every definition in order, given up
  at the first failure (and then tried again from the start).
\<close>

fun initial_loop ::
  "discovery_env \<Rightarrow> (string \<times> string) list \<Rightarrow> discovery_state \<Rightarrow> discovery_state \<times> bool" where
  "initial_loop env [] st = (st, True)"
| "initial_loop env (gv # gvs) st =
    (case discovery_sync env gv st of
       (st', _, Ret _) \<Rightarrow> initial_loop env gvs st'
     | (st', _, _) \<Rightarrow> (st', False))"

definition discovery_initial_attempt ::
  "discovery_env \<Rightarrow> discovery_state \<Rightarrow> discovery_state \<times> bool" where
  "discovery_initial_attempt env st =
    (case lister_list (de_lister env) of
       Inl _ \<Rightarrow> (st, False)
     | Inr grds \<Rightarrow>
         initial_loop env
           (concat (map (\<lambda>grd. map (\<lambda>v. (sGroup (gSpec grd), vName v)) (sVersions (gSpec grd))) grds)) st)"

section \<open>The handlers as maps\<close>

text \<open>The two handlers keep their discovery in a map that the controller writes.\<close>

locale discovery_map =
  fixes getd :: "'s \<Rightarrow> 'k \<Rightarrow> 'h option" and setd :: "'k \<Rightarrow> 'h \<Rightarrow> 's \<Rightarrow> 's" and unsetd :: "'k \<Rightarrow> 's \<Rightarrow> 's"
  assumes get_set: "getd (setd k d s) k' = (if k' = k then Some d else getd s k')"
    and get_unset: "getd (unsetd k s) k' = (if k' = k then None else getd s k')"
begin

text \<open>Publishing or withdrawing, as a sync does: the last word on a key counts.\<close>

definition publish :: "'k \<Rightarrow> 'h option \<Rightarrow> 's \<Rightarrow> 's" where
  "publish k d s = (case d of None \<Rightarrow> unsetd k s | Some h \<Rightarrow> setd k h s)"

lemma get_publish: "getd (publish k d s) k' = (if k' = k then d else getd s k')"
  by (simp add: publish_def get_set get_unset split: option.split)

lemma get_publish_all:
  "getd (fold (\<lambda>k. publish k (f k)) ks s) k = (if k \<in> set ks then f k else getd s k)"
  by (induction ks arbitrary: s) (auto simp: get_publish)

end

interpretation version_map: discovery_map version_getDiscovery version_setDiscovery version_unsetDiscovery
  by unfold_locales
    (simp_all add: version_getDiscovery_def version_setDiscovery_def version_unsetDiscovery_def)

interpretation group_map: discovery_map group_getDiscovery group_setDiscovery group_unsetDiscovery
  by unfold_locales
    (simp_all add: group_getDiscovery_def group_setDiscovery_def group_unsetDiscovery_def)

section \<open>What a sync finds\<close>

definition discoverable :: "string \<Rightarrow> GRD list \<Rightarrow> GRD list" where
  "discoverable grp grds = filter (\<lambda>d. IsGRDConditionTrue d Established \<and> sGroup (gSpec d) = grp) grds"

definition served_names :: "GRD \<Rightarrow> string set" where
  "served_names d = vName ` {v \<in> set (sVersions (gSpec d)). vServed v}"

definition storage_hash :: "discovery_env \<Rightarrow> GRD \<Rightarrow> string" where
  "storage_hash env d =
    fold (\<lambda>v h. if vServed v \<and> vStorage v then de_hash env (sGroup (gSpec d)) (vName v) (Kind (sNames (gSpec d))) else h)
      (sVersions (gSpec d)) []"

definition subs_of :: "GRD \<Rightarrow> string \<Rightarrow> GrafanaResourceSubresources option" where
  "subs_of d ver = (case GetSubresourcesForVersion d ver of Inr s \<Rightarrow> s | Inl _ \<Rightarrow> None)"

definition resources_of :: "discovery_env \<Rightarrow> string \<Rightarrow> GRD \<Rightarrow> APIResource list" where
  "resources_of env ver d = main_resource d (storage_hash env d) # sub_resources d (subs_of d ver)"

text \<open>What the version handler should serve for a group version.\<close>

definition expected_version :: "discovery_env \<Rightarrow> GRD list \<Rightarrow> string \<times> string \<Rightarrow> APIResource list option" where
  "expected_version env grds gv =
    (let ds = filter (\<lambda>d. snd gv \<in> served_names d) (discoverable (fst gv) grds)
     in if ds = [] then None else Some (concat (map (resources_of env (snd gv)) ds)))"

lemma version_loop_eq:
  assumes "version_loop env ver d vs (seen, vers, fg, ft, h) = (seen', vers', fg', ft', h')"
  shows "fg' = (fg \<or> (\<exists>v \<in> set vs. vServed v)) \<and>
    ft' = (ft \<or> (\<exists>v \<in> set vs. vServed v \<and> vName v = ver)) \<and>
    h' = fold (\<lambda>v h. if vServed v \<and> vStorage v then de_hash env (sGroup (gSpec d)) (vName v) (Kind (sNames (gSpec d))) else h) vs h"
  using assms
proof (induction vs arbitrary: seen vers fg ft h)
  case (Cons v vs)
  then show ?case by (cases "vServed v") (fastforce simp: Let_def)+
qed auto

text \<open>The versions listed so far are those seen, each once.\<close>

definition versions_ok :: "string \<Rightarrow> (string \<times> string) set \<Rightarrow> GroupVersionForDiscovery list \<Rightarrow> bool" where
  "versions_ok grp seen vers \<longleftrightarrow>
    seen = (\<lambda>x. (grp, gvdVersion x)) ` set vers \<and> distinct (map gvdVersion vers) \<and>
    (\<forall>x \<in> set vers. gvdGroupVersion x = grp @ ''/'' @ gvdVersion x)"

lemma version_loop_versions:
  assumes "version_loop env ver d vs (seen, vers, fg, ft, h) = (seen', vers', fg', ft', h')"
    and "versions_ok (sGroup (gSpec d)) seen vers"
  shows "versions_ok (sGroup (gSpec d)) seen' vers' \<and>
    gvdVersion ` set vers' = gvdVersion ` set vers \<union> vName ` {v \<in> set vs. vServed v}"
  using assms
proof (induction vs arbitrary: seen vers fg ft h)
  case Nil
  then show ?case by simp
next
  case (Cons v vs)
  let ?g = "sGroup (gSpec d)"
  let ?new = "\<lparr>gvdGroupVersion = ?g @ ''/'' @ vName v, gvdVersion = vName v\<rparr>"
  have mem: "(?g, vName v) \<in> seen \<longleftrightarrow> vName v \<in> gvdVersion ` set vers"
    using Cons.prems(2) by (auto simp: versions_ok_def)
  show ?case
  proof (cases "vServed v \<and> (?g, vName v) \<notin> seen")
    case True
    have "versions_ok ?g (insert (?g, vName v) seen) (vers @ [?new])"
      using Cons.prems(2) True mem by (auto simp: versions_ok_def)
    from Cons.IH [OF _ this] True Cons.prems(1) show ?thesis by (auto simp: Let_def)
  next
    case False
    from Cons.IH [OF _ Cons.prems(2)] False Cons.prems(1) mem show ?thesis
      by (cases "vServed v") (auto simp: Let_def insert_absorb)
  qed
qed

lemma GetSubresourcesForVersion_served:
  assumes "ver \<in> served_names d"
  shows "GetSubresourcesForVersion d ver = Inr (subs_of d ver)"
proof (cases "List.find (\<lambda>v. ver = vName v) (sVersions (gSpec d))")
  case None
  then show ?thesis using assms by (auto simp: served_names_def dest: find_NoneD)
next
  case (Some v)
  then show ?thesis by (simp add: GetSubresourcesForVersion_def subs_of_def)
qed

text \<open>The outer loop never fails, and collects what the discoverable definitions ask for.\<close>

lemma grd_loop_result:
  assumes "versions_ok grp (dsSeen ds) (dsVersions ds)"
  shows "\<exists>ds'. grd_loop env (grp, ver) grds ds = Ret ds' \<and>
    versions_ok grp (dsSeen ds') (dsVersions ds') \<and>
    gvdVersion ` set (dsVersions ds') =
      gvdVersion ` set (dsVersions ds) \<union> (\<Union>d \<in> set (discoverable grp grds). served_names d) \<and>
    dsFoundGroup ds' = (dsFoundGroup ds \<or> (\<exists>d \<in> set (discoverable grp grds). served_names d \<noteq> {})) \<and>
    dsFoundVersion ds' = (dsFoundVersion ds \<or> (\<exists>d \<in> set (discoverable grp grds). ver \<in> served_names d)) \<and>
    dsResources ds' = dsResources ds @
      concat (map (resources_of env ver) (filter (\<lambda>d. ver \<in> served_names d) (discoverable grp grds))) \<and>
    dsAggregated ds' = dsAggregated ds @
      (if de_manager env
       then map (\<lambda>d. aggregated_resource (grp, ver) d (subs_of d ver))
              (filter (\<lambda>d. ver \<in> served_names d) (discoverable grp grds))
       else [])"
  using assms
proof (induction grds arbitrary: ds)
  case Nil
  then show ?case by (simp add: discoverable_def)
next
  case (Cons d grds)
  show ?case
  proof (cases "IsGRDConditionTrue d Established \<and> sGroup (gSpec d) = grp")
    case False
    then show ?thesis using Cons by (auto simp: discoverable_def)
  next
    case True
    obtain seen vers fg ft h where loop:
      "version_loop env ver d (sVersions (gSpec d)) (dsSeen ds, dsVersions ds, dsFoundGroup ds, False, []) =
        (seen, vers, fg, ft, h)" by (metis prod.exhaust)
    have fg: "fg = (dsFoundGroup ds \<or> served_names d \<noteq> {})"
      and ft: "ft = (ver \<in> served_names d)" and h: "h = storage_hash env d"
      using version_loop_eq [OF loop] by (auto simp: served_names_def storage_hash_def)
    have vers: "versions_ok grp seen vers"
      "gvdVersion ` set vers = gvdVersion ` set (dsVersions ds) \<union> served_names d"
      using version_loop_versions [OF loop] Cons.prems True by (simp_all add: served_names_def)
    let ?ds1 = "ds\<lparr>dsSeen := seen, dsVersions := vers, dsFoundGroup := fg\<rparr>"
    let ?ds2 = "?ds1\<lparr>dsFoundVersion := True,
      dsResources := dsResources ?ds1 @ main_resource d h # sub_resources d (subs_of d ver),
      dsAggregated := (if de_manager env then dsAggregated ?ds1 @ [aggregated_resource (grp, ver) d (subs_of d ver)]
                       else dsAggregated ?ds1)\<rparr>"
    have disc: "discoverable grp (d # grds) = d # discoverable grp grds"
      using True by (simp add: discoverable_def)
    show ?thesis
    proof (cases ft)
      case False
      have "grd_loop env (grp, ver) (d # grds) ds = grd_loop env (grp, ver) grds ?ds1"
        using True False loop by simp
      moreover note Cons.IH [of ?ds1]
      ultimately show ?thesis using vers False by (auto simp: disc fg ft)
    next
      case ftT: True
      have "grd_loop env (grp, ver) (d # grds) ds = grd_loop env (grp, ver) grds ?ds2"
        using True ftT loop ft GetSubresourcesForVersion_served [of ver d] by (simp add: Let_def)
      moreover note Cons.IH [of ?ds2]
      ultimately show ?thesis using vers ftT by (auto simp: disc fg ft h resources_of_def)
    qed
  qed
qed

lemma empty_scan_ok: "versions_ok grp (dsSeen empty_scan) (dsVersions empty_scan)"
  by (simp add: empty_scan_def versions_ok_def)

text \<open>The handlers after a sync.\<close>

lemma discovery_sync_result:
  assumes "lister_list (de_lister env) = Inr grds"
  shows "\<exists>vers. snd (snd (discovery_sync env (grp, ver) st)) = Ret () \<and>
    dVersion (fst (discovery_sync env (grp, ver) st)) = version_map.publish (grp, ver) (expected_version env grds (grp, ver)) (dVersion st) \<and>
    versions_ok grp ((\<lambda>v. (grp, v)) ` (\<Union>d \<in> set (discoverable grp grds). served_names d)) vers \<and>
    dGroup (fst (discovery_sync env (grp, ver) st)) = group_map.publish grp
      (let sorted = sortGroupDiscoveryByKubeAwareVersion (de_compare env) vers in
       if \<exists>d \<in> set (discoverable grp grds). served_names d \<noteq> {}
       then Some \<lparr>agName = grp, agVersions = sorted, agPreferredVersion = hd sorted\<rparr>
       else None) (dGroup st)"
proof -
  obtain ds where ds: "grd_loop env (grp, ver) grds empty_scan = Ret ds"
    and vers: "versions_ok grp (dsSeen ds) (dsVersions ds)"
    and names: "gvdVersion ` set (dsVersions ds) = (\<Union>d \<in> set (discoverable grp grds). served_names d)"
    and fg: "dsFoundGroup ds = (\<exists>d \<in> set (discoverable grp grds). served_names d \<noteq> {})"
    and fv: "dsFoundVersion ds = (\<exists>d \<in> set (discoverable grp grds). ver \<in> served_names d)"
    and res: "dsResources ds =
      concat (map (resources_of env ver) (filter (\<lambda>d. ver \<in> served_names d) (discoverable grp grds)))"
    using grd_loop_result [OF empty_scan_ok, of env grp ver grds] by (auto simp: empty_scan_def)
  have v: "versions_ok grp ((\<lambda>v. (grp, v)) ` (\<Union>d \<in> set (discoverable grp grds). served_names d)) (dsVersions ds)"
    using vers unfolding names [symmetric] by (auto simp: versions_ok_def image_image)
  have e: "expected_version env grds (grp, ver) = (if dsFoundVersion ds then Some (dsResources ds) else None)"
    by (auto simp: expected_version_def fv res Let_def filter_empty_conv)
  have fvfg: "dsFoundVersion ds \<Longrightarrow> dsFoundGroup ds" using fv fg by auto
  show ?thesis
    by (rule exI [of _ "dsVersions ds"])
      (use fvfg v in \<open>auto simp: discovery_sync_def assms ds e fg [symmetric] Let_def
        version_map.publish_def group_map.publish_def\<close>)
qed

section \<open>Paths\<close>

lemma Trim_rooted:
  assumes "p \<noteq> []" and "hd p \<noteq> c" and "last p \<noteq> c"
  shows "Trim (c # p) c = p"
proof -
  obtain x xs where p: "p = x # xs" using assms(1) by (cases p) auto
  have d: "dropWhile (\<lambda>x. x = c) (c # p) = p" using assms p by simp
  have "dropWhile (\<lambda>x. x = c) (rev p) = rev p"
    using assms(1,3) by (cases "rev p") (auto simp: hd_rev [symmetric])
  then show ?thesis unfolding Trim_def d by simp
qed

lemma join_with_first: "ps \<noteq> [] \<Longrightarrow> hd ps \<noteq> [] \<Longrightarrow> hd (join_with s ps) = hd (hd ps) \<and> join_with s ps \<noteq> []"
  by (induction s ps rule: join_with.induct) auto

lemma join_with_last:
  assumes "ps \<noteq> []" and "\<forall>p \<in> set ps. p \<noteq> []"
  shows "last (join_with s ps) = last (last ps)"
  using assms by (induction s ps rule: join_with.induct) (auto simp: join_with_first)

lemma splitPath_rooted:
  assumes "ps \<noteq> []" and "\<forall>p \<in> set ps. p \<noteq> [] \<and> CHR ''/'' \<notin> set p"
  shows "splitPath (rooted_path ps) = ps"
proof -
  have "hd ps \<in> set ps" "last ps \<in> set ps" using assms(1) by simp_all
  then have ends: "hd ps \<noteq> []" "hd (hd ps) \<noteq> CHR ''/''" "last (last ps) \<noteq> CHR ''/''"
    using assms(2) by (metis hd_in_set last_in_set)+
  have "Trim (rooted_path ps) CHR ''/'' = join_with ''/'' ps"
    unfolding rooted_path_def
    by (rule Trim_rooted)
      (use assms ends join_with_first [of ps "''/''"] join_with_last [of ps "''/''"] in auto)
  then show ?thesis
    using split_join_with [of ps "CHR ''/''"] assms join_with_first [of ps "''/''"] ends
    by (simp add: splitPath_def Let_def)
qed

section \<open>Properties\<close>

text \<open>
  C9. A discovery sync publishes what the definitions say: it never fails once the lister
  answers; the version handler then serves exactly the resources of the established
  definitions of the group that serve that version, or nothing when there is none; every other
  version is left alone; and the group is listed exactly when some established definition of it
  serves a version, with each served version once and the first one preferred.
\<close>

theorem discovery_sync_correct:
  assumes "lister_list (de_lister env) = Inr grds" and "discovery_sync env (grp, ver) st = (st', ops, r)"
  shows "r = Ret () \<and>
    (\<forall>gv. version_getDiscovery (dVersion st') gv =
       (if gv = (grp, ver) then expected_version env grds gv else version_getDiscovery (dVersion st) gv)) \<and>
    (\<forall>g. g \<noteq> grp \<longrightarrow> group_getDiscovery (dGroup st') g = group_getDiscovery (dGroup st) g) \<and>
    (case group_getDiscovery (dGroup st') grp of
       None \<Rightarrow> \<forall>d \<in> set (discoverable grp grds). served_names d = {}
     | Some a \<Rightarrow> agName a = grp \<and> agVersions a \<noteq> [] \<and> agPreferredVersion a = hd (agVersions a) \<and>
         gvdVersion ` set (agVersions a) = (\<Union>d \<in> set (discoverable grp grds). served_names d))"
proof -
  obtain vers where r: "r = Ret ()"
    and v: "dVersion st' = version_map.publish (grp, ver) (expected_version env grds (grp, ver)) (dVersion st)"
    and ok: "versions_ok grp ((\<lambda>v. (grp, v)) ` (\<Union>d \<in> set (discoverable grp grds). served_names d)) vers"
    and g: "dGroup st' = group_map.publish grp
      (let sorted = sortGroupDiscoveryByKubeAwareVersion (de_compare env) vers in
       if \<exists>d \<in> set (discoverable grp grds). served_names d \<noteq> {}
       then Some \<lparr>agName = grp, agVersions = sorted, agPreferredVersion = hd sorted\<rparr>
       else None) (dGroup st)"
    using discovery_sync_result [OF assms(1), of grp ver st] assms(2) by auto
  have names: "gvdVersion ` set vers = (\<Union>d \<in> set (discoverable grp grds). served_names d)"
  proof -
    have "snd ` ((\<lambda>v. (grp, v)) ` (\<Union>d \<in> set (discoverable grp grds). served_names d)) =
        snd ` (\<lambda>x. (grp, gvdVersion x)) ` set vers"
      using ok by (simp add: versions_ok_def)
    then show ?thesis by (simp add: image_image)
  qed
  have "gvdVersion ` set vers \<noteq> {} \<longleftrightarrow> (\<exists>d \<in> set (discoverable grp grds). served_names d \<noteq> {})"
    unfolding names by auto
  then have ne: "vers \<noteq> [] \<longleftrightarrow> (\<exists>d \<in> set (discoverable grp grds). served_names d \<noteq> {})" by simp
  show ?thesis
    using names ne
    by (auto simp: r v g version_map.get_publish group_map.get_publish Let_def
        sortGroupDiscoveryByKubeAwareVersion_def)
qed

definition established_sample :: "string \<Rightarrow> GRD" where
  "established_sample p = SetGRDCondition 3 ((sample_grd p ''D'' ''g.io'')\<lparr>gStatus :=
      empty_status\<lparr>stAcceptedNames := sample_names p ''D''\<rparr>\<rparr>) (mk_cond Established ConditionTrue ''r'' ''m'')"

lemma established_sample_sel [simp]:
  "IsGRDConditionTrue (established_sample p) Established"
  "\<not> IsGRDConditionTrue (established_sample p) Terminating"
  "sGroup (gSpec (established_sample p)) = ''g.io''"
  "served_names (established_sample p) = {''v1''}"
  "Plural (accepted (established_sample p)) = p"
  "sVersions (gSpec (established_sample p)) = [sample_version ''v1'' True True]"
proof -
  have "conditions (sample_grd p ''D'' ''g.io'') = []" by (simp add: sample_grd_def empty_status_def)
  then show "IsGRDConditionTrue (established_sample p) Established"
    "\<not> IsGRDConditionTrue (established_sample p) Terminating"
    by (simp_all add: established_sample_def cond_simps)
      (simp add: IsGRDConditionTrue_find FindGRDCondition_def empty_status_def)
  show "served_names (established_sample p) = {''v1''}"
    by (simp add: established_sample_def sample_grd_def served_names_def sample_version_def) force
  show "sVersions (gSpec (established_sample p)) = [sample_version ''v1'' True True]"
    by (simp add: established_sample_def sample_grd_def)
qed (simp_all add: established_sample_def sample_grd_def sample_names_def)

definition sample_discovery_env :: "GRD list \<Rightarrow> discovery_env" where
  "sample_discovery_env gs = \<lparr>de_lister = \<lparr>lister_get = (\<lambda>n. Inl (NotFound n)), lister_list = Inr gs\<rparr>,
     de_compare = (\<lambda>a b. int (length b) - int (length a)), de_hash = (\<lambda>_ _ _. ''h''), de_manager = True\<rparr>"

definition empty_discovery :: discovery_state where
  "empty_discovery = \<lparr>dVersion = Map.empty, dGroup = Map.empty\<rparr>"

theorem discovery_sync_correct_witness:
  "version_getDiscovery (dVersion (fst (discovery_sync (sample_discovery_env [established_sample ''ds''])
     (''g.io'', ''v1'') empty_discovery))) (''g.io'', ''v1'') \<noteq> None"
proof -
  obtain st' ops r where s: "discovery_sync (sample_discovery_env [established_sample ''ds''])
     (''g.io'', ''v1'') empty_discovery = (st', ops, r)" by (metis prod.exhaust)
  have l: "lister_list (de_lister (sample_discovery_env gs)) = Inr gs" for gs
    by (simp add: sample_discovery_env_def)
  show ?thesis
    using discovery_sync_correct [OF l s] by (simp add: s expected_version_def discoverable_def)
qed

text \<open>
  Discovery never offers \<open>create\<close> for a resource that must not be created: each published
  resource with that verb is the plural of an established definition of the group that serves
  the version and is not terminating.
\<close>

theorem create_only_offered_when_live:
  assumes "lister_list (de_lister env) = Inr grds"
    and "version_getDiscovery (dVersion (fst (discovery_sync env (grp, ver) st))) (grp, ver) = Some rs"
    and "r \<in> set rs" and "''create'' \<in> set (arVerbs r)"
  shows "\<exists>d \<in> set grds. IsGRDConditionTrue d Established \<and> \<not> IsGRDConditionTrue d Terminating \<and>
    sGroup (gSpec d) = grp \<and> ver \<in> served_names d \<and> arName r = Plural (accepted d)"
proof -
  have "expected_version env grds (grp, ver) = Some rs"
    using discovery_sync_result [OF assms(1), of grp ver st] assms(2) by (auto simp: version_map.get_publish)
  then obtain d where d: "d \<in> set grds" "IsGRDConditionTrue d Established" "sGroup (gSpec d) = grp"
      "ver \<in> served_names d" "r \<in> set (resources_of env ver d)"
    using assms(3) by (auto simp: expected_version_def Let_def discoverable_def split: if_splits)
  have "r = main_resource d (storage_hash env d)"
    using d(5) assms(4)
    by (auto simp: resources_of_def sub_resources_def sub_resource_def status_verbs_def split: if_splits)
  then show ?thesis
    using d(1-4) assms(4)
    by (auto simp: main_resource_def verbs_for_def terminating_verbs_def split: if_splits)
qed

theorem create_only_offered_when_live_witness:
  "\<exists>d \<in> set [established_sample ''ds'']. IsGRDConditionTrue d Established \<and>
    \<not> IsGRDConditionTrue d Terminating \<and> sGroup (gSpec d) = ''g.io'' \<and> ''v1'' \<in> served_names d \<and>
    arName (main_resource (established_sample ''ds'') ''h'') = Plural (accepted d)"
proof (rule create_only_offered_when_live)
  show "lister_list (de_lister (sample_discovery_env [established_sample ''ds''])) =
      Inr [established_sample ''ds'']"
    by (simp add: sample_discovery_env_def)
  then show "version_getDiscovery (dVersion (fst (discovery_sync (sample_discovery_env [established_sample ''ds''])
      (''g.io'', ''v1'') empty_discovery))) (''g.io'', ''v1'') =
      Some (main_resource (established_sample ''ds'') ''h'' #
        sub_resources (established_sample ''ds'') (subs_of (established_sample ''ds'') ''v1''))"
    using discovery_sync_result [of "sample_discovery_env [established_sample ''ds'']"
        "[established_sample ''ds'']" "''g.io''" "''v1''" empty_discovery]
    by (auto simp: version_map.get_publish expected_version_def discoverable_def resources_of_def
        storage_hash_def sample_version_def sample_discovery_env_def)
qed (simp_all add: main_resource_def verbs_for_def all_verbs_def)

text \<open>
  Routing: a request for \<open>/apis/<group>/<version>\<close> is answered by the version handler
  exactly when that version is in discovery, and by the group handler never; a request for
  \<open>/apis/<group>\<close> is answered by the group handler exactly when the group is in discovery, and by
  the version handler never; a longer path goes to the delegate of both.
\<close>

theorem discovery_routing:
  assumes "\<forall>p \<in> set (grp # ver # rest). p \<noteq> [] \<and> CHR ''/'' \<notin> set p"
  shows "versionDiscovery_ServeHTTP m (rooted_path [''apis'', grp, ver]) =
      (case version_getDiscovery m (grp, ver) of None \<Rightarrow> Delegate | Some d \<Rightarrow> Serve d) \<and>
    groupDiscovery_ServeHTTP gm (rooted_path [''apis'', grp, ver]) = Delegate \<and>
    groupDiscovery_ServeHTTP gm (rooted_path [''apis'', grp]) =
      (case group_getDiscovery gm grp of None \<Rightarrow> Delegate | Some d \<Rightarrow> Serve d) \<and>
    versionDiscovery_ServeHTTP m (rooted_path [''apis'', grp]) = Delegate \<and>
    (rest \<noteq> [] \<longrightarrow>
      versionDiscovery_ServeHTTP m (rooted_path (''apis'' # grp # ver # rest)) = Delegate \<and>
      groupDiscovery_ServeHTTP gm (rooted_path (''apis'' # grp # ver # rest)) = Delegate)"
proof -
  have "splitPath (rooted_path [''apis'', grp, ver]) = [''apis'', grp, ver]"
    "splitPath (rooted_path [''apis'', grp]) = [''apis'', grp]"
    "splitPath (rooted_path (''apis'' # grp # ver # rest)) = ''apis'' # grp # ver # rest"
    by (rule splitPath_rooted; use assms in simp)+
  then show ?thesis
    by (simp add: versionDiscovery_ServeHTTP_def groupDiscovery_ServeHTTP_def Let_def)
qed

theorem discovery_routing_witness:
  "versionDiscovery_ServeHTTP Map.empty (rooted_path [''apis'', ''g.io'', ''v1'']) = Delegate"
  using discovery_routing [of "''g.io''" "''v1''" "[]" Map.empty]
  by (simp add: version_getDiscovery_def)

lemma initial_loop_result:
  assumes "lister_list (de_lister env) = Inr grds"
  shows "snd (initial_loop env gvs st) \<and>
    dVersion (fst (initial_loop env gvs st)) =
      fold (\<lambda>gv. version_map.publish gv (expected_version env grds gv)) gvs (dVersion st)"
proof (induction gvs arbitrary: st)
  case (Cons gv gvs)
  obtain st' ops where s: "discovery_sync env gv st = (st', ops, Ret ())"
    and v: "dVersion st' = version_map.publish gv (expected_version env grds gv) (dVersion st)"
    using discovery_sync_result [OF assms, of "fst gv" "snd gv" st] by (cases "discovery_sync env gv st") auto
  then show ?case using Cons [of st'] by simp
qed simp

text \<open>
  Before the server reports ready, discovery is complete: an attempt of the initial sync
  with a lister that answers succeeds, and then every version of every definition is served as
  the definitions say.
\<close>

theorem initial_discovery_complete:
  assumes "lister_list (de_lister env) = Inr grds" and "d \<in> set grds" and "v \<in> set (sVersions (gSpec d))"
  shows "snd (discovery_initial_attempt env st) \<and>
    version_getDiscovery (dVersion (fst (discovery_initial_attempt env st))) (sGroup (gSpec d), vName v) =
      expected_version env grds (sGroup (gSpec d), vName v)"
proof -
  let ?gvs = "concat (map (\<lambda>grd. map (\<lambda>v. (sGroup (gSpec grd), vName v)) (sVersions (gSpec grd))) grds)"
  have "(sGroup (gSpec d), vName v) \<in> set ?gvs" using assms(2,3) by auto
  then show ?thesis
    using initial_loop_result [OF assms(1), of ?gvs st] version_map.get_publish_all
    by (simp add: discovery_initial_attempt_def assms(1))
qed

theorem initial_discovery_complete_witness:
  "version_getDiscovery (dVersion (fst (discovery_initial_attempt
     (sample_discovery_env [established_sample ''ds'']) empty_discovery))) (''g.io'', ''v1'') =
   expected_version (sample_discovery_env [established_sample ''ds'']) [established_sample ''ds''] (''g.io'', ''v1'')"
  using initial_discovery_complete [of "sample_discovery_env [established_sample ''ds'']"
      "[established_sample ''ds'']" "established_sample ''ds''" "sample_version ''v1'' True True" empty_discovery]
  by (simp add: sample_discovery_env_def) (simp add: sample_version_def)

end
