(* ===== verification/Handler.thy ===== *)
theory Handler
  imports Establish Discovery
begin

text \<open>
  The HTTP handler of the defined resources, \<open>pkg/apiserver/grafanaresource_handler.go\<close>: the
  routing of a request to an endpoint, the cache of serving infos (\<open>customStorage\<close>) that the
  informer events invalidate, and the deprecation warnings. The endpoints themselves
  (\<open>handlers.GetResource\<close> and so on) are Kubernetes code: the model says which one is chosen,
  with which storage.

  \<open>customStorage\<close> is an association list by UID, as Go ranges over it. \<open>tearDown\<close> runs in a
  goroutine; the model records the infos handed to it, in order. The field manager
  (\<open>scopeWithFieldManager\<close>), \<open>Semantic.DeepEqual\<close> and \<open>CompareKubeAwareVersionStrings\<close> are
  Kubernetes functions, fields of \<open>handler_env\<close>.
\<close>

section \<open>Serving infos\<close>

record resource_storage =
  rsResource :: string
  rsSingular :: string
  rsKind :: string
  rsListKind :: string
  rsNamespaced :: bool
  rsCategories :: "string slice"

record grdInfo =
  gi_spec :: GrafanaResourceDefinitionSpec
  gi_acceptedNames :: GrafanaResourceDefinitionNames
  gi_deprecated :: "string list"
  gi_warnings :: "(string \<times> string) list"
  gi_storages :: "(string \<times> resource_storage) list"
  gi_storageVersion :: string

record handler_env =
  he_lister :: lister
  he_spec_equal :: "GrafanaResourceDefinitionSpec \<Rightarrow> GrafanaResourceDefinitionSpec \<Rightarrow> bool"
  he_names_equal :: "GrafanaResourceDefinitionNames \<Rightarrow> GrafanaResourceDefinitionNames \<Rightarrow> bool"
  he_field_manager :: "GRD \<Rightarrow> string \<Rightarrow> go_error option"
  he_compare :: "string \<Rightarrow> string \<Rightarrow> int"
  he_masterCount :: int
  he_now :: time

record handler_state =
  customStorage :: "(string \<times> grdInfo) list"
  tearing :: "grdInfo list"

definition storage_clone :: "(string \<times> grdInfo) list \<Rightarrow> (string \<times> grdInfo) list" where
  "storage_clone m = map (\<lambda>(k, v). (k, v)) m"

definition removeStorage_locked :: "string \<Rightarrow> handler_state \<Rightarrow> handler_state" where
  "removeStorage_locked uid st =
    (case map_of (customStorage st) uid of
       None \<Rightarrow> st
     | Some oldInfo \<Rightarrow>
         st\<lparr>customStorage := filter (\<lambda>e. fst e \<noteq> uid) (storage_clone (customStorage st)),
            tearing := tearing st @ [oldInfo]\<rparr>)"

definition same_serving :: "handler_env \<Rightarrow> GRD \<Rightarrow> grdInfo \<Rightarrow> bool" where
  "same_serving env grd info \<longleftrightarrow>
    he_spec_equal env (gSpec grd) (gi_spec info) \<and> he_names_equal env (accepted grd) (gi_acceptedNames info)"

definition handler_createGrafanaResourceDefinition ::
  "handler_env \<Rightarrow> GRD \<Rightarrow> handler_state \<Rightarrow> handler_state" where
  "handler_createGrafanaResourceDefinition env grd st =
    (case map_of (customStorage st) (mUID (gMeta grd)) of
       None \<Rightarrow> st
     | Some oldInfo \<Rightarrow>
         if same_serving env grd oldInfo then st else removeStorage_locked (mUID (gMeta grd)) st)"

definition second :: int where "second = 1000000000"

definition handler_updateGrafanaResourceDefinition ::
  "handler_env \<Rightarrow> GRD \<Rightarrow> GRD \<Rightarrow> handler_state \<Rightarrow> handler_state \<times> string queue_op list" where
  "handler_updateGrafanaResourceDefinition env oldGRD newGRD st =
    (let queued =
           (if \<not> IsGRDConditionTrue newGRD Established \<and> IsGRDConditionTrue newGRD NamesAccepted
            then establish_QueueGRD (grd_name newGRD) (if he_masterCount env > 1 then 5 * second else 0)
            else []);
         st1 = (if mUID (gMeta oldGRD) \<noteq> mUID (gMeta newGRD)
                then removeStorage_locked (mUID (gMeta oldGRD)) st else st)
     in ((case map_of (customStorage st1) (mUID (gMeta newGRD)) of
            None \<Rightarrow> st1
          | Some oldInfo \<Rightarrow>
              if same_serving env newGRD oldInfo then st1
              else removeStorage_locked (mUID (gMeta newGRD)) st1),
         queued))"

definition removeDeadStorage :: "handler_env \<Rightarrow> handler_state \<Rightarrow> handler_state" where
  "removeDeadStorage env st =
    (case lister_list (he_lister env) of
       Inl _ \<Rightarrow> st
     | Inr allGrafanaResourceDefinitions \<Rightarrow>
         let uids = map (\<lambda>grd. mUID (gMeta grd)) allGrafanaResourceDefinitions
         in st\<lparr>customStorage := filter (\<lambda>e. fst e \<in> set uids) (customStorage st),
               tearing := tearing st @ map snd (filter (\<lambda>e. fst e \<notin> set uids) (customStorage st))\<rparr>)"

definition defaultDeprecationWarning ::
  "(string \<Rightarrow> string \<Rightarrow> int) \<Rightarrow> string \<Rightarrow> GrafanaResourceDefinitionSpec \<Rightarrow> string" where
  "defaultDeprecationWarning compare deprecatedVersion grd =
    (let msg = sGroup grd @ ''/'' @ deprecatedVersion @ '' '' @ Kind (sNames grd) @ '' is deprecated'';
         servedNonDeprecatedVersions =
           map vName (filter (\<lambda>v. vServed v \<and> \<not> vDeprecated v \<and> compare deprecatedVersion (vName v) < 0)
             (sVersions grd))
     in if servedNonDeprecatedVersions = [] then msg
        else msg @ ''; use '' @ sGroup grd @ ''/'' @
             hd (sort_slice (\<lambda>a b. compare a b > 0) servedNonDeprecatedVersions) @ '' '' @ Kind (sNames grd))"

definition new_storage :: "GRD \<Rightarrow> resource_storage" where
  "new_storage grd =
    \<lparr>rsResource = Plural (accepted grd), rsSingular = Singular (accepted grd), rsKind = Kind (accepted grd),
     rsListKind = ListKind (accepted grd), rsNamespaced = is_namespaced grd,
     rsCategories = Categories (accepted grd)\<rparr>"

text \<open>The loop over the versions that builds the info; it stops at the first error.\<close>

fun serving_loop ::
  "handler_env \<Rightarrow> GRD \<Rightarrow> GrafanaResourceDefinitionVersion list \<Rightarrow> grdInfo \<Rightarrow> go_error + grdInfo" where
  "serving_loop env grd [] info = Inr info"
| "serving_loop env grd (v # vs) info =
    (case GetSubresourcesForVersion grd (vName v) of
       Inl _ \<Rightarrow> Inl (PlainErr ''the server could not properly serve the CR subresources'')
     | Inr subresources \<Rightarrow>
         (case he_field_manager env grd [] of
            Some err \<Rightarrow> Inl err
          | None \<Rightarrow>
              (case (if has_sub subStatus subresources then he_field_manager env grd ''status'' else None) of
                 Some err \<Rightarrow> Inl err
               | None \<Rightarrow>
                   let info1 = info\<lparr>gi_storages := (vName v, new_storage grd) # gi_storages info\<rparr>;
                       w = (case vDeprecationWarning v of
                              Some warning \<Rightarrow> warning
                            | None \<Rightarrow> defaultDeprecationWarning (he_compare env) (vName v) (gSpec grd))
                   in serving_loop env grd vs
                        (if vDeprecated v
                         then info1\<lparr>gi_deprecated := vName v # gi_deprecated info1,
                                    gi_warnings := gi_warnings info1 @ [(vName v, w)]\<rparr>
                         else info1))))"

definition build_serving_info :: "handler_env \<Rightarrow> GRD \<Rightarrow> go_error + grdInfo" where
  "build_serving_info env grd =
    (case GetGRDStorageVersion grd of
       Inl err \<Rightarrow> Inl err
     | Inr storageVersion \<Rightarrow>
         serving_loop env grd (sVersions (gSpec grd))
           \<lparr>gi_spec = gSpec grd, gi_acceptedNames = accepted grd, gi_deprecated = [],
            gi_warnings = [], gi_storages = [], gi_storageVersion = storageVersion\<rparr>)"

definition getOrCreateServingInfoFor ::
  "handler_env \<Rightarrow> string \<Rightarrow> string \<Rightarrow> handler_state \<Rightarrow> (go_error + grdInfo) \<times> handler_state" where
  "getOrCreateServingInfoFor env uid name st =
    (case map_of (customStorage st) uid of
       Some ret \<Rightarrow> (Inr ret, st)
     | None \<Rightarrow>
         (case lister_get (he_lister env) name of
            Inl err \<Rightarrow> (Inl err, st)
          | Inr grd \<Rightarrow>
              (case map_of (customStorage st) (mUID (gMeta grd)) of
                 Some ret \<Rightarrow> (Inr ret, st)
               | None \<Rightarrow>
                   (case build_serving_info env grd of
                      Inl err \<Rightarrow> (Inl err, st)
                    | Inr ret \<Rightarrow>
                        (Inr ret, st\<lparr>customStorage := (mUID (gMeta grd), ret) # storage_clone (customStorage st)\<rparr>)))))"

definition GetGrafanaResourceListerCollectionDeleter ::
  "handler_env \<Rightarrow> GRD \<Rightarrow> handler_state \<Rightarrow> (go_error + resource_storage option) \<times> handler_state" where
  "GetGrafanaResourceListerCollectionDeleter env grd st =
    (case getOrCreateServingInfoFor env (mUID (gMeta grd)) (grd_name grd) st of
       (Inl err, st') \<Rightarrow> (Inl err, st')
     | (Inr info, st') \<Rightarrow> (Inr (map_of (gi_storages info) (gi_storageVersion info)), st'))"

section \<open>Routing\<close>

record RequestInfo =
  riIsResourceRequest :: bool
  riPath :: string
  riVerb :: string
  riAPIGroup :: string
  riAPIVersion :: string
  riNamespace :: string
  riResource :: string
  riSubresource :: string
  riName :: string

datatype storage_kind = MainStorage | StatusStorage | RefStorage | HistoryStorage

datatype endpoint =
    GetResource storage_kind
  | ListResource bool
  | CreateResource
  | UpdateResource storage_kind
  | PatchResource storage_kind
  | DeleteResource
  | DeleteCollection

datatype http_result =
    ToDelegate
  | ToVersionDiscovery
  | ToGroupDiscovery
  | HttpError go_error
  | Handle endpoint "string list"
  | HttpPanic

definition hasServedGRDVersion :: "GrafanaResourceDefinitionSpec \<Rightarrow> string \<Rightarrow> bool" where
  "hasServedGRDVersion spec version =
    (case List.find (\<lambda>v. vName v = version) (sVersions spec) of None \<Rightarrow> False | Some v \<Rightarrow> vServed v)"

definition verb_not_supported :: "RequestInfo \<Rightarrow> http_result" where
  "verb_not_supported ri = HttpError (MethodNotSupported (riVerb ri))"

text \<open>
  \<open>serveResource\<close>. For \<open>create\<close> the code reads a field of the \<open>Established\<close> condition without a nil
  test; whether it then sleeps does not change the answer.
\<close>

definition serveResource :: "RequestInfo \<Rightarrow> GRD \<Rightarrow> bool \<Rightarrow> string list \<Rightarrow> http_result" where
  "serveResource ri grd terminating ws =
    (if riVerb ri = ''get'' then Handle (GetResource MainStorage) ws
     else if riVerb ri = ''list'' then Handle (ListResource False) ws
     else if riVerb ri = ''watch'' then Handle (ListResource True) ws
     else if riVerb ri = ''create'' then
       (case FindGRDCondition grd Established of
          None \<Rightarrow> HttpPanic
        | Some _ \<Rightarrow> if terminating then verb_not_supported ri else Handle CreateResource ws)
     else if riVerb ri = ''update'' then Handle (UpdateResource MainStorage) ws
     else if riVerb ri = ''patch'' then Handle (PatchResource MainStorage) ws
     else if riVerb ri = ''delete'' then Handle DeleteResource ws
     else if riVerb ri = ''deletecollection'' then Handle DeleteCollection ws
     else verb_not_supported ri)"

definition serveStatus :: "RequestInfo \<Rightarrow> string list \<Rightarrow> http_result" where
  "serveStatus ri ws =
    (if riVerb ri = ''get'' then Handle (GetResource StatusStorage) ws
     else if riVerb ri = ''update'' then Handle (UpdateResource StatusStorage) ws
     else if riVerb ri = ''patch'' then Handle (PatchResource StatusStorage) ws
     else verb_not_supported ri)"

definition serveRef :: "RequestInfo \<Rightarrow> string list \<Rightarrow> http_result" where
  "serveRef ri ws =
    (if riVerb ri = ''get'' then Handle (GetResource RefStorage) ws else verb_not_supported ri)"

definition serveHistory :: "RequestInfo \<Rightarrow> string list \<Rightarrow> http_result" where
  "serveHistory ri ws =
    (if riVerb ri = ''get'' then Handle (GetResource HistoryStorage) ws else verb_not_supported ri)"

definition warnings_for :: "grdInfo \<Rightarrow> string \<Rightarrow> string list" where
  "warnings_for info version = map snd (filter (\<lambda>w. fst w = version) (gi_warnings info))"

text \<open>The choice of the endpoint once the serving info is known.\<close>

definition dispatch :: "RequestInfo \<Rightarrow> GRD \<Rightarrow> grdInfo \<Rightarrow> bool \<Rightarrow> http_result" where
  "dispatch ri grd info terminating =
    (let ws = warnings_for info (riAPIVersion ri) in
     case GetSubresourcesForVersion grd (riAPIVersion ri) of
       Inl _ \<Rightarrow> HttpError (InternalError ''could not properly serve the subresource'')
     | Inr subresources \<Rightarrow>
         if riSubresource ri = ''status'' \<and> has_sub subStatus subresources then serveStatus ri ws
         else if riSubresource ri = ''ref'' \<and> has_sub subRef subresources then serveRef ri ws
         else if riSubresource ri = ''history'' \<and> has_sub subHistory subresources then serveHistory ri ws
         else if riSubresource ri = [] then serveResource ri grd terminating ws
         else HttpError (NotFound (riName ri)))"

definition handler_ServeHTTP ::
  "handler_env \<Rightarrow> RequestInfo option \<Rightarrow> handler_state \<Rightarrow> http_result \<times> handler_state" where
  "handler_ServeHTTP env requestInfo st =
    (case requestInfo of
       None \<Rightarrow> (HttpError (InternalError ''no RequestInfo found in the context''), st)
     | Some ri \<Rightarrow>
         if \<not> riIsResourceRequest ri then
           (let pathParts = splitPath (riPath ri) in
            if length pathParts = 3 then (ToVersionDiscovery, st)
            else if length pathParts = 2 then (ToGroupDiscovery, st)
            else (ToDelegate, st))
         else
           (case lister_get (he_lister env) (riResource ri @ ''.'' @ riAPIGroup ri) of
              Inl err \<Rightarrow>
                if IsNotFound err then (ToDelegate, st)
                else (HttpError (InternalError ''error resolving resource''), st)
            | Inr grd \<Rightarrow>
                let namespacedGRD = is_namespaced grd; namespacedReq = (riNamespace ri \<noteq> []) in
                if \<not> namespacedGRD \<and> namespacedReq then (ToDelegate, st)
                else if namespacedGRD \<and> \<not> namespacedReq \<and> riVerb ri \<notin> {''list'', ''watch''} then (ToDelegate, st)
                else if \<not> HasServedGRDVersion grd (riAPIVersion ri) then (ToDelegate, st)
                else if \<not> IsGRDConditionTrue grd NamesAccepted \<and> \<not> IsGRDConditionTrue grd Established
                then (ToDelegate, st)
                else
                  (case getOrCreateServingInfoFor env (mUID (gMeta grd)) (grd_name grd) st of
                     (Inl err, st') \<Rightarrow>
                       if IsNotFound err then (ToDelegate, st')
                       else (HttpError (InternalError ''error resolving resource''), st')
                   | (Inr info, st') \<Rightarrow>
                       if \<not> hasServedGRDVersion (gi_spec info) (riAPIVersion ri) then (ToDelegate, st')
                       else (dispatch ri grd info (IsGRDConditionTrue grd Terminating), st'))))"

definition NewGrafanaResourceDefinitionHandler :: handler_state where
  "NewGrafanaResourceDefinitionHandler = \<lparr>customStorage = [], tearing = []\<rparr>"

text \<open>\<open>tearDown\<close> and \<open>destroy\<close> call \<open>DestroyFunc\<close> of the main storages.\<close>

definition tearDown :: "grdInfo \<Rightarrow> string list" where
  "tearDown oldInfo = remdups (map fst (gi_storages oldInfo))"

definition handler_destroy :: "handler_state \<Rightarrow> string list" where
  "handler_destroy st = concat (map (\<lambda>e. tearDown (snd e)) (customStorage st))"

section \<open>Lemmas on the cache\<close>

lemma storage_clone_id [simp]: "storage_clone m = m"
  by (simp add: storage_clone_def)

lemma map_of_filter_out: "map_of (filter (\<lambda>e. fst e \<noteq> u) m) k = (if k = u then None else map_of m k)"
  by (induction m) auto

lemma removeStorage_locked_map:
  "map_of (customStorage (removeStorage_locked u st)) k =
    (if k = u then None else map_of (customStorage st) k)"
  by (auto simp: removeStorage_locked_def map_of_filter_out split: option.split)

lemma handler_create_map:
  "map_of (customStorage (handler_createGrafanaResourceDefinition env g st)) k =
    (case map_of (customStorage st) k of
       None \<Rightarrow> None
     | Some i \<Rightarrow> if k = mUID (gMeta g) \<and> \<not> same_serving env g i then None else Some i)"
  by (auto simp: handler_createGrafanaResourceDefinition_def removeStorage_locked_map split: option.split)

lemma handler_update_map:
  "map_of (customStorage (fst (handler_updateGrafanaResourceDefinition env a b st))) k =
    (case map_of (customStorage st) k of
       None \<Rightarrow> None
     | Some i \<Rightarrow>
         if k = mUID (gMeta a) \<and> mUID (gMeta a) \<noteq> mUID (gMeta b) \<or> k = mUID (gMeta b) \<and> \<not> same_serving env b i
         then None else Some i)"
  by (auto simp: handler_updateGrafanaResourceDefinition_def Let_def removeStorage_locked_map
      split: option.split)

lemma map_of_filter_keys: "map_of (filter (\<lambda>e. fst e \<in> A) m) k = (if k \<in> A then map_of m k else None)"
  by (induction m) auto

lemma removeDeadStorage_map:
  assumes "lister_list (he_lister env) = Inr gs"
  shows "map_of (customStorage (removeDeadStorage env st)) k =
    (if k \<in> (\<lambda>g. mUID (gMeta g)) ` set gs then map_of (customStorage st) k else None)"
  by (simp add: removeDeadStorage_def assms Let_def map_of_filter_keys)

lemma serving_loop_sel:
  "serving_loop env g vs info = Inr ret \<Longrightarrow>
    gi_spec ret = gi_spec info \<and> gi_acceptedNames ret = gi_acceptedNames info \<and>
    gi_storageVersion ret = gi_storageVersion info \<and>
    map_of (gi_storages ret) = map_of (gi_storages info) ++ (\<lambda>k. if k \<in> vName ` set vs then Some (new_storage g) else None)"
proof (induction vs arbitrary: info)
  case Nil
  then show ?case by (auto simp: map_add_def)
next
  case (Cons v vs)
  then obtain info1 where "serving_loop env g vs info1 = Inr ret"
    "gi_spec info1 = gi_spec info" "gi_acceptedNames info1 = gi_acceptedNames info"
    "gi_storageVersion info1 = gi_storageVersion info"
    "gi_storages info1 = (vName v, new_storage g) # gi_storages info"
    by (auto simp: Let_def split: sum.splits option.splits if_splits)
  with Cons.IH show ?case by (auto simp: map_add_def fun_eq_iff split: option.split)
qed

lemma build_serving_info_sel:
  assumes "build_serving_info env g = Inr ret"
  shows "gi_spec ret = gSpec g \<and> gi_acceptedNames ret = accepted g \<and>
    GetGRDStorageVersion g = Inr (gi_storageVersion ret) \<and>
    map_of (gi_storages ret) = (\<lambda>k. if k \<in> vName ` set (sVersions (gSpec g)) then Some (new_storage g) else None)"
proof -
  obtain v where v: "GetGRDStorageVersion g = Inr v"
      "serving_loop env g (sVersions (gSpec g))
         \<lparr>gi_spec = gSpec g, gi_acceptedNames = accepted g, gi_deprecated = [],
          gi_warnings = [], gi_storages = [], gi_storageVersion = v\<rparr> = Inr ret"
    using assms by (auto simp: build_serving_info_def split: sum.splits)
  show ?thesis using serving_loop_sel [OF v(2)] v(1) by (simp add: map_add_def)
qed

text \<open>A serving info is cached already, or built from the current object of that name.\<close>

lemma getOrCreate_cases:
  assumes "getOrCreateServingInfoFor env u name st = (r, st')"
  obtains (error) e where "st' = st" and "r = Inl e"
  | (cached) k ret where "st' = st" and "r = Inr ret" and "map_of (customStorage st) k = Some ret"
  | (built) g ret where "lister_get (he_lister env) name = Inr g" and "r = Inr ret"
    and "map_of (customStorage st) (mUID (gMeta g)) = None" and "build_serving_info env g = Inr ret"
    and "st' = st\<lparr>customStorage := (mUID (gMeta g), ret) # customStorage st\<rparr>"
proof (cases "map_of (customStorage st) u")
  case (Some ret)
  then show ?thesis using assms cached by (auto simp: getOrCreateServingInfoFor_def)
next
  case None
  show ?thesis
  proof (cases "lister_get (he_lister env) name")
    case (Inl e)
    then show ?thesis using assms None error by (auto simp: getOrCreateServingInfoFor_def)
  next
    case g: (Inr g)
    show ?thesis
    proof (cases "map_of (customStorage st) (mUID (gMeta g))")
      case (Some ret)
      then show ?thesis using assms None g cached by (auto simp: getOrCreateServingInfoFor_def)
    next
      case n: None
      show ?thesis
      proof (cases "build_serving_info env g")
        case (Inl e)
        then have "getOrCreateServingInfoFor env u name st = (Inl e, st)"
          by (simp add: getOrCreateServingInfoFor_def None g n)
        then show ?thesis using assms error by simp
      next
        case (Inr ret)
        then have "getOrCreateServingInfoFor env u name st =
            (Inr ret, st\<lparr>customStorage := (mUID (gMeta g), ret) # customStorage st\<rparr>)"
          by (simp add: getOrCreateServingInfoFor_def None g n)
        then show ?thesis using assms built [OF g _ n Inr] by simp
      qed
    qed
  qed
qed

section \<open>The cache and the informer\<close>

text \<open>
  The definitions the informer shows (by name), the events it has not delivered yet, the
  handler, and the UIDs given out so far. The lister is updated before the event is delivered,
  and requests are served at any time in between.
\<close>

datatype informer_event = Added GRD | Updated GRD GRD | Removed

record cache_state =
  csObjects :: "string \<rightharpoonup> GRD"
  csPending :: "informer_event list"
  csHandler :: handler_state
  csUIDs :: "string set"

abbreviation uid :: "GRD \<Rightarrow> string" where "uid g \<equiv> mUID (gMeta g)"

definition lister_shows :: "lister \<Rightarrow> (string \<rightharpoonup> GRD) \<Rightarrow> bool" where
  "lister_shows l objs \<longleftrightarrow>
    (\<forall>n g. lister_get l n = Inr g \<longleftrightarrow> objs n = Some g) \<and> (\<exists>gs. lister_list l = Inr gs \<and> set gs = ran objs)"

fun deliver_event :: "handler_env \<Rightarrow> informer_event \<Rightarrow> handler_state \<Rightarrow> handler_state" where
  "deliver_event env (Added g) st = handler_createGrafanaResourceDefinition env g st"
| "deliver_event env (Updated a b) st = fst (handler_updateGrafanaResourceDefinition env a b st)"
| "deliver_event env Removed st = removeDeadStorage env st"

inductive cache_step :: "handler_env \<Rightarrow> cache_state \<Rightarrow> cache_state \<Rightarrow> bool" for env where
  cs_add: "csObjects s (grd_name g) = None \<Longrightarrow> uid g \<notin> csUIDs s \<Longrightarrow>
    cache_step env s (s\<lparr>csObjects := (csObjects s)(grd_name g \<mapsto> g), csPending := csPending s @ [Added g],
      csUIDs := insert (uid g) (csUIDs s)\<rparr>)"
| cs_update: "csObjects s (grd_name g') = Some g \<Longrightarrow> uid g' = uid g \<Longrightarrow>
    cache_step env s (s\<lparr>csObjects := (csObjects s)(grd_name g' \<mapsto> g'), csPending := csPending s @ [Updated g g']\<rparr>)"
| cs_replace: "csObjects s (grd_name g') = Some g \<Longrightarrow> uid g' \<notin> csUIDs s \<Longrightarrow>
    cache_step env s (s\<lparr>csObjects := (csObjects s)(grd_name g' \<mapsto> g'), csPending := csPending s @ [Updated g g'],
      csUIDs := insert (uid g') (csUIDs s)\<rparr>)"
| cs_delete: "cache_step env s (s\<lparr>csObjects := (csObjects s)(n := None), csPending := csPending s @ [Removed]\<rparr>)"
| cs_deliver: "csPending s = e # es \<Longrightarrow> lister_shows l (csObjects s) \<Longrightarrow>
    cache_step env s (s\<lparr>csPending := es, csHandler := deliver_event (env\<lparr>he_lister := l\<rparr>) e (csHandler s)\<rparr>)"
| cs_serve: "lister_shows l (csObjects s) \<Longrightarrow>
    cache_step env s (s\<lparr>csHandler := snd (getOrCreateServingInfoFor (env\<lparr>he_lister := l\<rparr>) u n (csHandler s))\<rparr>)"

inductive cache_reachable :: "handler_env \<Rightarrow> cache_state \<Rightarrow> bool" for env where
  cr_start: "cache_reachable env \<lparr>csObjects = Map.empty, csPending = [],
    csHandler = NewGrafanaResourceDefinitionHandler, csUIDs = {}\<rparr>"
| cr_step: "cache_reachable env s \<Longrightarrow> cache_step env s t \<Longrightarrow> cache_reachable env t"

text \<open>A cached info is right, or an event that will put it right is on its way.\<close>

definition brings :: "GRD \<Rightarrow> informer_event \<Rightarrow> bool" where
  "brings g e \<longleftrightarrow> e = Added g \<or> (\<exists>a. e = Updated a g)"

definition retires :: "string \<Rightarrow> informer_event \<Rightarrow> bool" where
  "retires u e \<longleftrightarrow> e = Removed \<or> (\<exists>a b. e = Updated a b \<and> uid a = u \<and> uid b \<noteq> u)"

definition info_ok :: "handler_env \<Rightarrow> cache_state \<Rightarrow> string \<Rightarrow> grdInfo \<Rightarrow> bool" where
  "info_ok env s u info \<longleftrightarrow>
    (\<exists>n g. csObjects s n = Some g \<and> uid g = u \<and>
       (same_serving env g info \<or> (\<exists>e \<in> set (csPending s). brings g e))) \<or>
    (u \<notin> uid ` ran (csObjects s) \<and> (\<exists>e \<in> set (csPending s). retires u e))"

definition cache_inv :: "handler_env \<Rightarrow> cache_state \<Rightarrow> bool" where
  "cache_inv env s \<longleftrightarrow>
    (\<forall>n g. csObjects s n = Some g \<longrightarrow> grd_name g = n \<and> uid g \<in> csUIDs s) \<and>
    (\<forall>m n g h. csObjects s m = Some g \<longrightarrow> csObjects s n = Some h \<longrightarrow> uid g = uid h \<longrightarrow> m = n) \<and>
    (\<forall>u info. map_of (customStorage (csHandler s)) u = Some info \<longrightarrow> u \<in> csUIDs s \<and> info_ok env s u info)"

lemma same_serving_lister [simp]: "same_serving (env\<lparr>he_lister := l\<rparr>) g i = same_serving env g i"
  by (simp add: same_serving_def)

lemma deliver_kept:
  assumes "lister_shows l objs"
    and "map_of (customStorage (deliver_event (env\<lparr>he_lister := l\<rparr>) e st)) u = Some info"
  shows "map_of (customStorage st) u = Some info \<and>
    (\<forall>g. brings g e \<longrightarrow> uid g = u \<longrightarrow> same_serving env g info) \<and> (retires u e \<longrightarrow> u \<in> uid ` ran objs)"
proof (cases e)
  case (Added g)
  then show ?thesis using assms(2)
    by (auto simp: handler_create_map brings_def retires_def split: option.splits if_splits)
next
  case (Updated a b)
  then show ?thesis using assms(2)
    by (auto simp: handler_update_map brings_def retires_def split: option.splits if_splits)
next
  case Removed
  obtain gs where "lister_list l = Inr gs" "set gs = ran objs"
    using assms(1) by (auto simp: lister_shows_def)
  with Removed show ?thesis using assms(2)
    by (auto simp: removeDeadStorage_map brings_def split: if_splits)
qed

lemma info_ok_deliver:
  assumes ok: "info_ok env s u info" and p: "csPending s = e # es" and l: "lister_shows l (csObjects s)"
    and kept: "map_of (customStorage (deliver_event (env\<lparr>he_lister := l\<rparr>) e (csHandler s))) u = Some info"
  shows "info_ok env (s\<lparr>csPending := es, csHandler := st\<rparr>) u info"
proof -
  note k = deliver_kept [OF l kept]
  from ok consider
      n g where "csObjects s n = Some g" "uid g = u" "same_serving env g info \<or> (\<exists>e' \<in> set (e # es). brings g e')"
    | e' where "u \<notin> uid ` ran (csObjects s)" "e' \<in> set (e # es)" "retires u e'"
    unfolding info_ok_def p by blast
  then show ?thesis
  proof cases
    case (1 n g)
    then have "same_serving env g info \<or> (\<exists>e' \<in> set es. brings g e')" using k by auto
    with 1(1,2) show ?thesis by (auto simp: info_ok_def)
  next
    case (2 e')
    then have "e' \<in> set es" using k by auto
    with 2 show ?thesis by (auto simp: info_ok_def)
  qed
qed

text \<open>Changing the object of a name: an info of the old object waits for the new event.\<close>

lemma info_ok_change:
  assumes ok: "info_ok env s u info" and inj: "\<And>m n g h. csObjects s m = Some g \<Longrightarrow>
      csObjects s n = Some h \<Longrightarrow> uid g = uid h \<Longrightarrow> m = n"
    and new: "\<And>g h. csObjects s n = Some g \<Longrightarrow> uid g = u \<Longrightarrow> x = Some h \<Longrightarrow> uid h = u \<Longrightarrow> brings h e"
    and gone: "\<And>g. csObjects s n = Some g \<Longrightarrow> uid g = u \<Longrightarrow> (\<And>h. x = Some h \<Longrightarrow> uid h \<noteq> u) \<Longrightarrow> retires u e"
    and fresh: "\<And>h. x = Some h \<Longrightarrow> uid h = u \<Longrightarrow> \<exists>g. csObjects s n = Some g \<and> uid g = u"
  shows "info_ok env (s\<lparr>csObjects := (csObjects s)(n := x), csPending := csPending s @ [e], csUIDs := us\<rparr>) u info"
proof (cases "\<exists>g. csObjects s n = Some g \<and> uid g = u")
  case True
  then obtain g where g: "csObjects s n = Some g" "uid g = u" by blast
  show ?thesis
  proof (cases "\<exists>h. x = Some h \<and> uid h = u")
    case True
    then obtain h where h: "x = Some h" "uid h = u" by blast
    then have "brings h e" using new g by blast
    then show ?thesis using h by (auto simp: info_ok_def intro!: exI [of _ n])
  next
    case False
    then have "retires u e" using gone [OF g] by blast
    moreover have "u \<notin> uid ` ran ((csObjects s)(n := x))"
      using False inj [OF g(1)] g(2) by (auto simp: ran_def split: if_splits)
    ultimately show ?thesis by (auto simp: info_ok_def)
  qed
next
  case False
  from ok consider
      k g where "csObjects s k = Some g" "uid g = u" "same_serving env g info \<or> (\<exists>e' \<in> set (csPending s). brings g e')"
    | e' where "u \<notin> uid ` ran (csObjects s)" "e' \<in> set (csPending s)" "retires u e'"
    unfolding info_ok_def by blast
  then show ?thesis
  proof cases
    case (1 k g)
    then have "k \<noteq> n" using False by auto
    with 1 show ?thesis by (auto simp: info_ok_def intro!: exI [of _ k])
  next
    case (2 e')
    moreover have "u \<notin> uid ` ran ((csObjects s)(n := x))"
      using 2(1) fresh False by (auto simp: ran_def split: if_splits)
    ultimately show ?thesis by (auto simp: info_ok_def)
  qed
qed

lemma cache_inv_objects: "cache_inv env s \<Longrightarrow> csObjects s n = Some g \<Longrightarrow> grd_name g = n \<and> uid g \<in> csUIDs s"
  by (simp add: cache_inv_def)

lemma cache_inv_inj:
  "cache_inv env s \<Longrightarrow> csObjects s m = Some g \<Longrightarrow> csObjects s n = Some h \<Longrightarrow> uid g = uid h \<Longrightarrow> m = n"
  unfolding cache_inv_def by blast

lemma cache_inv_infos:
  "cache_inv env s \<Longrightarrow> map_of (customStorage (csHandler s)) u = Some info \<Longrightarrow> u \<in> csUIDs s \<and> info_ok env s u info"
  unfolding cache_inv_def by blast

text \<open>The three changes of an object keep the invariant.\<close>

lemma cache_inv_change:
  assumes inv: "cache_inv env s" and us: "csUIDs s \<subseteq> us"
    and x: "\<And>h. x = Some h \<Longrightarrow> grd_name h = n \<and> uid h \<in> us \<and>
      (uid h \<in> csUIDs s \<longrightarrow> (\<exists>g. csObjects s n = Some g \<and> uid g = uid h))"
    and new: "\<And>g h. csObjects s n = Some g \<Longrightarrow> x = Some h \<Longrightarrow> uid h = uid g \<Longrightarrow> brings h e"
    and gone: "\<And>g. csObjects s n = Some g \<Longrightarrow> (\<And>h. x = Some h \<Longrightarrow> uid h \<noteq> uid g) \<Longrightarrow> retires (uid g) e"
  shows "cache_inv env (s\<lparr>csObjects := (csObjects s)(n := x), csPending := csPending s @ [e], csUIDs := us\<rparr>)"
  unfolding cache_inv_def
proof (intro conjI allI impI)
  fix m g
  assume "csObjects (s\<lparr>csObjects := (csObjects s)(n := x), csPending := csPending s @ [e], csUIDs := us\<rparr>) m = Some g"
  then show "grd_name g = m"
    and "uid g \<in> csUIDs (s\<lparr>csObjects := (csObjects s)(n := x), csPending := csPending s @ [e], csUIDs := us\<rparr>)"
    using x cache_inv_objects [OF inv, of m g] us by (auto split: if_splits)
next
  fix m k g h
  assume "csObjects (s\<lparr>csObjects := (csObjects s)(n := x), csPending := csPending s @ [e], csUIDs := us\<rparr>) m = Some g"
    "csObjects (s\<lparr>csObjects := (csObjects s)(n := x), csPending := csPending s @ [e], csUIDs := us\<rparr>) k = Some h"
    "uid g = uid h"
  then have g: "if m = n then x = Some g else csObjects s m = Some g"
    and h: "if k = n then x = Some h else csObjects s k = Some h" and gh: "uid g = uid h"
    by (auto split: if_splits)
  show "m = k"
  proof (rule ccontr)
    assume "m \<noteq> k"
    then consider "m = n" "k \<noteq> n" | "m \<noteq> n" "k = n" | "m \<noteq> n" "k \<noteq> n" by blast
    then show False
    proof cases
      case 1
      then have "uid g \<in> csUIDs s" using h gh cache_inv_objects [OF inv, of k h] by simp
      then show False using 1 g h gh x [of g] cache_inv_inj [OF inv] by fastforce
    next
      case 2
      then have "uid h \<in> csUIDs s" using g gh cache_inv_objects [OF inv, of m g] by simp
      then show False using 2 g h gh x [of h] cache_inv_inj [OF inv] by fastforce
    next
      case 3
      then show False using g h gh cache_inv_inj [OF inv] \<open>m \<noteq> k\<close> by metis
    qed
  qed
next
  fix u info
  assume "map_of (customStorage (csHandler (s\<lparr>csObjects := (csObjects s)(n := x), csPending := csPending s @ [e], csUIDs := us\<rparr>))) u = Some info"
  then have i: "u \<in> csUIDs s \<and> info_ok env s u info" using cache_inv_infos [OF inv] by simp
  then show "u \<in> csUIDs (s\<lparr>csObjects := (csObjects s)(n := x), csPending := csPending s @ [e], csUIDs := us\<rparr>)"
    using us by auto
  show "info_ok env (s\<lparr>csObjects := (csObjects s)(n := x), csPending := csPending s @ [e], csUIDs := us\<rparr>) u info"
  proof (rule info_ok_change)
    show "info_ok env s u info" using i by blast
    show "m = k" if "csObjects s m = Some g" "csObjects s k = Some h" "uid g = uid h" for m k g h
      using cache_inv_inj [OF inv that] .
    show "brings h e" if "csObjects s n = Some g" "uid g = u" "x = Some h" "uid h = u" for g h
      using new that by simp
    show "retires u e" if "csObjects s n = Some g" "uid g = u" "\<And>h. x = Some h \<Longrightarrow> uid h \<noteq> u" for g
      using gone that by blast
    show "\<exists>g. csObjects s n = Some g \<and> uid g = u" if "x = Some h" "uid h = u" for h
      using x [OF that(1)] that(2) i by blast
  qed
qed

lemma cache_inv_handler:
  assumes "cache_inv env s"
    and "\<And>u info. map_of (customStorage st) u = Some info \<Longrightarrow>
      u \<in> csUIDs s \<and> info_ok env (s\<lparr>csPending := es, csHandler := st\<rparr>) u info"
  shows "cache_inv env (s\<lparr>csPending := es, csHandler := st\<rparr>)"
  using assms(2) cache_inv_objects [OF assms(1)] cache_inv_inj [OF assms(1)]
  by (auto simp: cache_inv_def)

lemma cache_inv_step:
  assumes "cache_step env s t" and inv: "cache_inv env s"
    and refl: "\<And>x. he_spec_equal env x x" "\<And>x. he_names_equal env x x"
  shows "cache_inv env t"
  using assms(1)
proof cases
  case (cs_add g)
  show ?thesis unfolding cs_add(1)
    by (rule cache_inv_change [OF inv]) (use cs_add(2,3) in \<open>auto\<close>)
next
  case (cs_update g' g)
  have "cache_inv env (s\<lparr>csObjects := (csObjects s)(grd_name g' \<mapsto> g'), csPending := csPending s @ [Updated g g'],
      csUIDs := csUIDs s\<rparr>)"
    by (rule cache_inv_change [OF inv])
      (use cs_update(2,3) cache_inv_objects [OF inv] in \<open>auto simp: brings_def\<close>)
  then show ?thesis unfolding cs_update(1) by simp
next
  case (cs_replace g' g)
  show ?thesis unfolding cs_replace(1)
    by (rule cache_inv_change [OF inv])
      (use cs_replace(2,3) cache_inv_objects [OF inv] in \<open>auto simp: brings_def retires_def\<close>)
next
  case (cs_delete n)
  have "cache_inv env (s\<lparr>csObjects := (csObjects s)(n := None), csPending := csPending s @ [Removed],
      csUIDs := csUIDs s\<rparr>)"
    by (rule cache_inv_change [OF inv]) (auto simp: retires_def)
  then show ?thesis unfolding cs_delete by simp
next
  case (cs_deliver e es l)
  show ?thesis unfolding cs_deliver(1)
  proof (rule cache_inv_handler [OF inv])
    fix u info
    assume k: "map_of (customStorage (deliver_event (env\<lparr>he_lister := l\<rparr>) e (csHandler s))) u = Some info"
    then have "map_of (customStorage (csHandler s)) u = Some info"
      using deliver_kept [OF cs_deliver(3) k] by blast
    then show "u \<in> csUIDs s \<and> info_ok env (s\<lparr>csPending := es,
        csHandler := deliver_event (env\<lparr>he_lister := l\<rparr>) e (csHandler s)\<rparr>) u info"
      using cache_inv_infos [OF inv] info_ok_deliver [OF _ cs_deliver(2,3) k] by blast
  qed
next
  case (cs_serve l u n)
  obtain r st' where c: "getOrCreateServingInfoFor (env\<lparr>he_lister := l\<rparr>) u n (csHandler s) = (r, st')"
    by (metis prod.exhaust)
  have same: "info_ok env (s\<lparr>csPending := csPending s, csHandler := st'\<rparr>) k info = info_ok env s k info" for k info
    by (simp add: info_ok_def)
  have "cache_inv env (s\<lparr>csPending := csPending s, csHandler := st'\<rparr>)"
  proof (rule cache_inv_handler [OF inv])
    fix k info assume k: "map_of (customStorage st') k = Some info"
    show "k \<in> csUIDs s \<and> info_ok env (s\<lparr>csPending := csPending s, csHandler := st'\<rparr>) k info"
      using c
    proof (cases rule: getOrCreate_cases)
      case (built g ret)
      show ?thesis
      proof (cases "k = uid g \<and> info = ret")
        case True
        have g: "csObjects s n = Some g" using built(1) cs_serve(2) by (simp add: lister_shows_def)
        moreover have "same_serving env g ret"
          using build_serving_info_sel [OF built(4)] refl by (simp add: same_serving_def)
        ultimately show ?thesis
          using True cache_inv_objects [OF inv g] unfolding same by (auto simp: info_ok_def)
      next
        case False
        then have "map_of (customStorage (csHandler s)) k = Some info"
          using k built(5) by (auto split: if_splits)
        then show ?thesis using cache_inv_infos [OF inv] unfolding same by blast
      qed
    qed (use k cache_inv_infos [OF inv] same in auto)
  qed
  then show ?thesis unfolding cs_serve(1) c by simp
qed

lemma dispatch_Handle:
  assumes "dispatch ri g info terminating = Handle ep ws"
  shows "ep = CreateResource \<longrightarrow> \<not> terminating \<and> FindGRDCondition g Established \<noteq> None"
    and "riSubresource ri = [] \<or> (\<exists>subs. GetSubresourcesForVersion g (riAPIVersion ri) = Inr subs \<and>
      (riSubresource ri = ''status'' \<and> has_sub subStatus subs \<or>
       riSubresource ri = ''ref'' \<and> has_sub subRef subs \<or>
       riSubresource ri = ''history'' \<and> has_sub subHistory subs))"
  using assms
  by (auto simp: dispatch_def serveStatus_def serveRef_def serveHistory_def serveResource_def Let_def
      verb_not_supported_def split: sum.splits if_splits option.splits)

lemma dispatch_not_delegate: "dispatch ri g info terminating \<notin> {ToDelegate, ToVersionDiscovery, ToGroupDiscovery}"
  by (auto simp: dispatch_def serveStatus_def serveRef_def serveHistory_def serveResource_def Let_def
      verb_not_supported_def split: sum.split option.split)

text \<open>The requests that get as far as the choice of an endpoint.\<close>

definition admitted :: "RequestInfo \<Rightarrow> GRD \<Rightarrow> bool" where
  "admitted ri g \<longleftrightarrow>
    (if is_namespaced g then riNamespace ri \<noteq> [] \<or> riVerb ri \<in> {''list'', ''watch''} else riNamespace ri = []) \<and>
    HasServedGRDVersion g (riAPIVersion ri) \<and>
    (IsGRDConditionTrue g NamesAccepted \<or> IsGRDConditionTrue g Established)"

lemma handler_reaches_dispatch:
  assumes "handler_ServeHTTP env (Some ri) st = (res, st')" and "riIsResourceRequest ri"
    and "\<forall>e. res \<noteq> HttpError e" and "res \<noteq> ToDelegate"
  shows "\<exists>g info. lister_get (he_lister env) (riResource ri @ ''.'' @ riAPIGroup ri) = Inr g \<and> admitted ri g \<and>
    getOrCreateServingInfoFor env (mUID (gMeta g)) (grd_name g) st = (Inr info, st') \<and>
    hasServedGRDVersion (gi_spec info) (riAPIVersion ri) \<and>
    res = dispatch ri g info (IsGRDConditionTrue g Terminating)"
proof (cases "lister_get (he_lister env) (riResource ri @ ''.'' @ riAPIGroup ri)")
  case (Inl e)
  then show ?thesis using assms by (auto simp: handler_ServeHTTP_def split: if_splits)
next
  case (Inr g)
  obtain r s where c: "getOrCreateServingInfoFor env (mUID (gMeta g)) (grd_name g) st = (r, s)"
    by (metis prod.exhaust)
  show ?thesis
  proof (cases r)
    case (Inl e)
    then show ?thesis using assms Inr c by (auto simp: handler_ServeHTTP_def Let_def split: if_splits)
  next
    case (Inr info)
    then show ?thesis
      using assms \<open>lister_get (he_lister env) (riResource ri @ ''.'' @ riAPIGroup ri) = Inr g\<close> c
      by (auto simp: handler_ServeHTTP_def Let_def admitted_def split: if_splits)
  qed
qed

section \<open>Properties\<close>

text \<open>
  C3. No stale storage: in every state that informer events and requests can reach, once all
  pending events have been delivered, each cached serving info belongs to a definition that
  still exists and was built from its current spec and accepted names.
\<close>

theorem served_storage_is_current:
  assumes "cache_reachable env s" and "csPending s = []"
    and "map_of (customStorage (csHandler s)) u = Some info"
    and "\<And>x. he_spec_equal env x x" and "\<And>x. he_names_equal env x x"
  shows "\<exists>n g. csObjects s n = Some g \<and> uid g = u \<and> same_serving env g info"
proof -
  have "cache_inv env s"
    using assms(1)
  proof (induction rule: cache_reachable.induct)
    case cr_start
    show ?case by (simp add: cache_inv_def NewGrafanaResourceDefinitionHandler_def)
  next
    case (cr_step s t)
    show ?case by (rule cache_inv_step [OF cr_step(2,3) assms(4,5)])
  qed
  then have "info_ok env s u info" using assms(3) cache_inv_infos by blast
  then show ?thesis using assms(2) by (auto simp: info_ok_def)
qed

definition sample_handler_env :: "GRD list \<Rightarrow> handler_env" where
  "sample_handler_env gs = \<lparr>he_lister = \<lparr>
       lister_get = (\<lambda>n. case List.find (\<lambda>g. grd_name g = n) gs of Some g \<Rightarrow> Inr g | None \<Rightarrow> Inl (NotFound n)),
       lister_list = Inr gs\<rparr>,
     he_spec_equal = (=), he_names_equal = (=), he_field_manager = (\<lambda>_ _. None),
     he_compare = (\<lambda>a b. int (length b) - int (length a)), he_masterCount = 1, he_now = 0\<rparr>"

definition sample_info :: grdInfo where
  "sample_info = \<lparr>gi_spec = gSpec (established_sample ''ds''), gi_acceptedNames = accepted (established_sample ''ds''),
     gi_deprecated = [], gi_warnings = [], gi_storages = [(''v1'', new_storage (established_sample ''ds''))],
     gi_storageVersion = ''v1''\<rparr>"

lemma sample_build: "build_serving_info (sample_handler_env gs) (established_sample ''ds'') = Inr sample_info"
  by (simp add: build_serving_info_def GetGRDStorageVersion_def sample_version_def
      GetSubresourcesForVersion_def sample_handler_env_def has_sub_def sample_info_def)

lemma sample_name [simp]: "grd_name (established_sample p) = p @ ''.g.io''"
  "mUID (gMeta (established_sample p)) = ''uid-'' @ p @ ''.g.io''"
  by (simp_all add: established_sample_def sample_grd_def sample_meta_def)

lemma sample_get_or_create:
  "getOrCreateServingInfoFor (sample_handler_env [established_sample ''ds'']) ''uid-ds.g.io'' ''ds.g.io''
     NewGrafanaResourceDefinitionHandler =
    (Inr sample_info, \<lparr>customStorage = [(''uid-ds.g.io'', sample_info)], tearing = []\<rparr>)"
proof -
  have "lister_get (he_lister (sample_handler_env [established_sample ''ds''])) ''ds.g.io'' =
      Inr (established_sample ''ds'')"
    by (simp add: sample_handler_env_def)
  then show ?thesis
    by (simp add: getOrCreateServingInfoFor_def NewGrafanaResourceDefinitionHandler_def sample_build)
qed

definition sample_cache :: cache_state where
  "sample_cache = \<lparr>csObjects = [''ds.g.io'' \<mapsto> established_sample ''ds''], csPending = [],
     csHandler = \<lparr>customStorage = [(''uid-ds.g.io'', sample_info)], tearing = []\<rparr>, csUIDs = {''uid-ds.g.io''}\<rparr>"

lemma sample_cache_reachable: "cache_reachable (sample_handler_env [established_sample ''ds'']) sample_cache"
proof -
  let ?env = "sample_handler_env [established_sample ''ds'']"
  let ?g = "established_sample ''ds''"
  have shows_l: "lister_shows (he_lister ?env) [''ds.g.io'' \<mapsto> ?g]"
    by (auto simp: lister_shows_def sample_handler_env_def ran_def split: if_splits)
  have env: "?env\<lparr>he_lister := he_lister ?env\<rparr> = ?env" by simp
  define s1 where "s1 = \<lparr>csObjects = [''ds.g.io'' \<mapsto> ?g], csPending = [Added ?g],
      csHandler = NewGrafanaResourceDefinitionHandler, csUIDs = {''uid-ds.g.io''}\<rparr>"
  define s0 where "s0 = \<lparr>csObjects = Map.empty, csPending = [],
      csHandler = NewGrafanaResourceDefinitionHandler, csUIDs = {}\<rparr>"
  have "cache_step ?env s0 s1" using cs_add [of s0 ?g ?env] by (simp add: s0_def s1_def)
  then have "cache_reachable ?env s1"
    using cr_step [OF cr_start] by (simp add: s0_def)
  moreover have "cache_step ?env s1 (s1\<lparr>csPending := [], csHandler := NewGrafanaResourceDefinitionHandler\<rparr>)"
    using cs_deliver [of s1 "Added ?g" "[]" "he_lister ?env" ?env] shows_l
    by (simp add: s1_def handler_createGrafanaResourceDefinition_def NewGrafanaResourceDefinitionHandler_def)
  ultimately have "cache_reachable ?env (s1\<lparr>csPending := [], csHandler := NewGrafanaResourceDefinitionHandler\<rparr>)"
    by (rule cr_step)
  moreover have "cache_step ?env (s1\<lparr>csPending := [], csHandler := NewGrafanaResourceDefinitionHandler\<rparr>) sample_cache"
    using cs_serve [of "he_lister ?env" "s1\<lparr>csPending := [], csHandler := NewGrafanaResourceDefinitionHandler\<rparr>"
        ?env "''uid-ds.g.io''" "''ds.g.io''"] shows_l
    by (simp add: s1_def sample_cache_def sample_get_or_create)
  ultimately show ?thesis by (rule cr_step)
qed

theorem served_storage_is_current_witness:
  "\<exists>n g. csObjects sample_cache n = Some g \<and> uid g = ''uid-ds.g.io'' \<and>
    same_serving (sample_handler_env [established_sample ''ds'']) g sample_info"
  by (rule served_storage_is_current [OF sample_cache_reachable])
    (simp_all add: sample_cache_def sample_handler_env_def)

text \<open>
  C6. Nothing reaches a storage unless the definition allows it: when the handler answers a
  resource request with an endpoint, the definition exists, its scope fits the request, the
  version is served both by the definition and by the cached info, its names are accepted or it
  is established, a subresource is one the version declares, and \<open>create\<close> is not given to a
  terminating definition.
\<close>

theorem handler_guards_storage:
  assumes "handler_ServeHTTP env (Some ri) st = (Handle ep ws, st')"
  shows "\<exists>g info. lister_get (he_lister env) (riResource ri @ ''.'' @ riAPIGroup ri) = Inr g \<and> admitted ri g \<and>
    getOrCreateServingInfoFor env (uid g) (grd_name g) st = (Inr info, st') \<and>
    hasServedGRDVersion (gi_spec info) (riAPIVersion ri) \<and>
    (ep = CreateResource \<longrightarrow> \<not> IsGRDConditionTrue g Terminating) \<and>
    (riSubresource ri = [] \<or> (\<exists>subs. GetSubresourcesForVersion g (riAPIVersion ri) = Inr subs \<and>
      (riSubresource ri = ''status'' \<and> has_sub subStatus subs \<or>
       riSubresource ri = ''ref'' \<and> has_sub subRef subs \<or>
       riSubresource ri = ''history'' \<and> has_sub subHistory subs)))"
proof -
  have "riIsResourceRequest ri"
    using assms by (auto simp: handler_ServeHTTP_def Let_def split: if_splits)
  then obtain g info where g: "lister_get (he_lister env) (riResource ri @ ''.'' @ riAPIGroup ri) = Inr g"
      "admitted ri g" "getOrCreateServingInfoFor env (uid g) (grd_name g) st = (Inr info, st')"
      "hasServedGRDVersion (gi_spec info) (riAPIVersion ri)"
    and d: "dispatch ri g info (IsGRDConditionTrue g Terminating) = Handle ep ws"
    using handler_reaches_dispatch [OF assms] by auto
  show ?thesis
    by (rule exI [of _ g], rule exI [of _ info], intro conjI)
      (fact g | use dispatch_Handle [OF d] in blast)+
qed

definition sample_request :: "string \<Rightarrow> string \<Rightarrow> RequestInfo" where
  "sample_request verb sub = \<lparr>riIsResourceRequest = True, riPath = [], riVerb = verb, riAPIGroup = ''g.io'',
     riAPIVersion = ''v1'', riNamespace = ''default'', riResource = ''ds'', riSubresource = sub, riName = ''a''\<rparr>"

lemma sample_serve:
  "handler_ServeHTTP (sample_handler_env [established_sample ''ds'']) (Some (sample_request verb sub))
     NewGrafanaResourceDefinitionHandler =
   (dispatch (sample_request verb sub) (established_sample ''ds'') sample_info False,
    \<lparr>customStorage = [(''uid-ds.g.io'', sample_info)], tearing = []\<rparr>)"
proof -
  have g: "lister_get (he_lister (sample_handler_env [established_sample ''ds''])) ''ds.g.io'' =
      Inr (established_sample ''ds'')"
    by (simp add: sample_handler_env_def)
  have "HasServedGRDVersion (established_sample ''ds'') ''v1''"
    "hasServedGRDVersion (gi_spec sample_info) ''v1''"
    by (simp_all add: HasServedGRDVersion_def hasServedGRDVersion_def sample_info_def sample_version_def)
  moreover have "is_namespaced (established_sample ''ds'')"
    by (simp add: is_namespaced_def established_sample_def sample_grd_def)
  ultimately show ?thesis
    using g by (simp add: handler_ServeHTTP_def sample_request_def sample_get_or_create Let_def)
qed

theorem handler_guards_storage_witness:
  "\<exists>g. lister_get (he_lister (sample_handler_env [established_sample ''ds''])) ''ds.g.io'' = Inr g \<and>
    admitted (sample_request ''get'' []) g"
proof -
  have "handler_ServeHTTP (sample_handler_env [established_sample ''ds'']) (Some (sample_request ''get'' []))
      NewGrafanaResourceDefinitionHandler =
    (Handle (GetResource MainStorage) [], \<lparr>customStorage = [(''uid-ds.g.io'', sample_info)], tearing = []\<rparr>)"
    unfolding sample_serve
    by (simp add: dispatch_def GetSubresourcesForVersion_def sample_request_def sample_version_def
        serveResource_def warnings_for_def sample_info_def)
  from handler_guards_storage [OF this] show ?thesis
    unfolding sample_request_def by auto
qed

text \<open>
  A deprecation warning recommends well: it names a version to move to exactly when the
  definition serves a newer version that is not deprecated, and then the newest of these, for
  every total preorder of versions (\<open>CompareKubeAwareVersionStrings\<close>).
\<close>

theorem deprecation_warning_recommends_newest:
  assumes "\<And>a b c. compare b a \<le> 0 \<Longrightarrow> compare c b \<le> (0::int) \<Longrightarrow> compare c a \<le> 0"
    and "\<And>a b. compare a b > 0 \<Longrightarrow> compare b a \<le> 0"
    and "newer = {v \<in> set (sVersions spec). vServed v \<and> \<not> vDeprecated v \<and> compare dep (vName v) < 0}"
    and "msg = sGroup spec @ ''/'' @ dep @ '' '' @ Kind (sNames spec) @ '' is deprecated''"
  shows "(newer = {} \<longrightarrow> defaultDeprecationWarning compare dep spec = msg) \<and>
    (newer \<noteq> {} \<longrightarrow> (\<exists>best \<in> newer.
       defaultDeprecationWarning compare dep spec =
         msg @ ''; use '' @ sGroup spec @ ''/'' @ vName best @ '' '' @ Kind (sNames spec) \<and>
       (\<forall>v \<in> newer. compare (vName v) (vName best) \<le> 0)))"
proof -
  let ?ns = "map vName (filter (\<lambda>v. vServed v \<and> \<not> vDeprecated v \<and> compare dep (vName v) < 0) (sVersions spec))"
  have names: "set ?ns = vName ` newer" by (auto simp: assms(3))
  have sorted: "sorted_wrt (\<lambda>a b. \<not> compare b a > 0) (sort_slice (\<lambda>a b. compare a b > 0) ?ns)"
  proof (rule sorted_sort_slice)
    show "\<not> compare c a > 0" if "\<not> compare b a > 0" "\<not> compare c b > 0" for a b c
      using assms(1) [OF that [unfolded not_less]] by (rule leD)
    show "\<not> compare b a > 0" if "compare a b > 0" for a b
      using assms(2) [OF that] by (rule leD)
  qed
  have empty: "?ns = [] \<longleftrightarrow> newer = {}"
    unfolding set_empty [symmetric] names image_is_empty by (rule refl)
  have warn: "defaultDeprecationWarning compare dep spec =
      (if ?ns = [] then msg else msg @ ''; use '' @ sGroup spec @ ''/'' @
         hd (sort_slice (\<lambda>a b. compare a b > 0) ?ns) @ '' '' @ Kind (sNames spec))"
    unfolding defaultDeprecationWarning_def Let_def assms(4) by (rule refl)
  show ?thesis
  proof (cases "newer = {}")
    case True
    then have ne: "?ns = []" unfolding empty .
    show ?thesis unfolding warn if_P [OF ne] using True by blast
  next
    case False
    then have ne: "?ns \<noteq> []" unfolding empty .
    have "sort_slice (\<lambda>a b. compare a b > 0) ?ns \<noteq> []" using ne unfolding sort_slice_empty_iff .
    then obtain x xs where x: "sort_slice (\<lambda>a b. compare a b > 0) ?ns = x # xs"
      unfolding neq_Nil_conv by blast
    have members: "insert x (set xs) = vName ` newer"
      unfolding names [symmetric] set_sort_slice [of "\<lambda>a b. compare a b > 0" ?ns, symmetric] x by simp
    then obtain best where best: "best \<in> newer" "x = vName best" by blast
    have top: "compare (vName v) x \<le> 0" if "v \<in> newer" for v
    proof -
      have "vName v \<in> insert x (set xs)" using members that by blast
      moreover have "compare x x \<le> 0" using assms(2) [of x x] by linarith
      ultimately show ?thesis using sorted unfolding x by (auto simp: not_less)
    qed
    have "defaultDeprecationWarning compare dep spec =
        msg @ ''; use '' @ sGroup spec @ ''/'' @ vName best @ '' '' @ Kind (sNames spec)"
      unfolding warn if_not_P [OF ne] x best(2) list.sel(1) by (rule refl)
    then show ?thesis using False best top by blast
  qed
qed

definition deprecated_spec :: GrafanaResourceDefinitionSpec where
  "deprecated_spec = (gSpec (sample_grd ''ds'' ''D'' ''g.io''))\<lparr>sVersions :=
     [(sample_version ''v1'' True False)\<lparr>vDeprecated := True\<rparr>, sample_version ''v10'' True False,
      sample_version ''v100'' True True]\<rparr>"

theorem deprecation_warning_recommends_newest_witness:
  "\<exists>best \<in> {v \<in> set (sVersions deprecated_spec). vServed v \<and> \<not> vDeprecated v \<and>
       int (length ''v1'') - int (length (vName v)) < 0}. int (length ''v100'') - int (length (vName best)) \<le> 0"
proof -
  let ?newer = "{v \<in> set (sVersions deprecated_spec). vServed v \<and> \<not> vDeprecated v \<and>
    int (length ''v1'') - int (length (vName v)) < 0}"
  have m: "sample_version ''v100'' True True \<in> ?newer"
    by (simp add: deprecated_spec_def sample_version_def)
  then have "?newer \<noteq> {}" by blast
  then obtain best where "best \<in> ?newer" and
    "\<forall>v \<in> ?newer. int (length (vName v)) - int (length (vName best)) \<le> 0"
    using deprecation_warning_recommends_newest [of "\<lambda>a b. int (length a) - int (length b)" ?newer
        deprecated_spec "''v1''", OF _ _ refl refl]
    by fastforce
  with m show ?thesis by (fastforce simp: sample_version_def)
qed

text \<open>
  An update event that shows accepted names queues the definition for establishing, after
  five seconds when there are several servers and at once otherwise; an event that does not, or
  shows an established definition, never does.
\<close>

theorem accepted_names_queue_establishing:
  "snd (handler_updateGrafanaResourceDefinition env a b st) =
    (if IsGRDConditionTrue b NamesAccepted \<and> \<not> IsGRDConditionTrue b Established
     then [QAddAfter (grd_name b) (if he_masterCount env > 1 then 5000000000 else 0)] else [])"
  by (simp add: handler_updateGrafanaResourceDefinition_def establish_QueueGRD_def second_def Let_def)

end
