(* ===== verification/FilePathStorage.thy ===== *)
theory FilePathStorage
  imports Controllers "HOL-Library.Word"
begin

text \<open>
  The file storage, \<open>pkg/storage/filepath/storage.go\<close> with \<open>util.go\<close> and \<open>restoptions.go\<close>: it
  implements Kubernetes' \<open>storage.Interface\<close> with one JSON file per object.

  The file system is a map from cleaned paths to directories and files; the operating system
  can refuse any write or removal (\<open>seFault\<close>). The codec, the versioner, the attributes that a
  selection reads and the snowflake generator are parameters, fields of \<open>storage_env\<close> (the n-th
  resource version generated is \<open>seSnowflake n\<close>). Objects are of type \<open>'o\<close>; an object the caller
  passes to be filled in is a result here. Resource versions are 64-bit words.
\<close>

section \<open>The file system\<close>

datatype fs_entry = DirEntry | FileEntry string

type_synonym fs = "(string \<times> fs_entry) list"

definition fs_lookup :: "fs \<Rightarrow> string \<Rightarrow> fs_entry option" where
  "fs_lookup fs p = map_of fs (Clean p)"

definition is_dir :: "fs \<Rightarrow> string \<Rightarrow> bool" where
  "is_dir fs p \<longleftrightarrow> Clean p = ''/'' \<or> fs_lookup fs p = Some DirEntry"

definition fs_put :: "string \<Rightarrow> fs_entry \<Rightarrow> fs \<Rightarrow> fs" where
  "fs_put p e fs = (Clean p, e) # filter (\<lambda>x. fst x \<noteq> Clean p) fs"

definition fs_remove :: "string \<Rightarrow> fs \<Rightarrow> fs" where
  "fs_remove p fs = filter (\<lambda>x. fst x \<noteq> Clean p) fs"

definition os_error :: "string \<Rightarrow> string \<Rightarrow> go_error" where
  "os_error what p = PlainErr (what @ '' '' @ p)"

definition os_ReadFile :: "fs \<Rightarrow> string \<Rightarrow> go_error + string" where
  "os_ReadFile fs p =
    (case fs_lookup fs p of Some (FileEntry b) \<Rightarrow> Inr b | _ \<Rightarrow> Inl (os_error ''open'' p))"

definition os_WriteFile :: "(string \<Rightarrow> go_error option) \<Rightarrow> fs \<Rightarrow> string \<Rightarrow> string \<Rightarrow> go_error + fs" where
  "os_WriteFile fault fs p b =
    (case fault (Clean p) of
       Some e \<Rightarrow> Inl e
     | None \<Rightarrow>
         if is_dir fs p \<or> \<not> is_dir fs (Dir (Clean p)) then Inl (os_error ''open'' p)
         else Inr (fs_put p (FileEntry b) fs))"

definition path_prefixes :: "string \<Rightarrow> string list" where
  "path_prefixes p =
    (let es = split_on CHR ''/'' (Clean p)
     in filter (\<lambda>q. q \<noteq> []) (map (\<lambda>i. join_with ''/'' (take i es)) [1..<Suc (length es)]))"

fun mkdir_all :: "(string \<Rightarrow> go_error option) \<Rightarrow> fs \<Rightarrow> string list \<Rightarrow> go_error + fs" where
  "mkdir_all fault fs [] = Inr fs"
| "mkdir_all fault fs (p # ps) =
    (if is_dir fs p then mkdir_all fault fs ps
     else case fault (Clean p) of
       Some e \<Rightarrow> Inl e
     | None \<Rightarrow> if fs_lookup fs p \<noteq> None then Inl (os_error ''mkdir'' p)
               else mkdir_all fault (fs_put p DirEntry fs) ps)"

text \<open>\<open>ReadDir\<close>: the entries of a directory sorted by name.\<close>

definition dir_prefix :: "string \<Rightarrow> string" where
  "dir_prefix d = (if Clean d = ''/'' then ''/'' else Clean d @ ''/'')"

definition child_name :: "string \<Rightarrow> string \<Rightarrow> string option" where
  "child_name d p =
    (let n = drop (length (dir_prefix d)) p
     in if HasPrefix p (dir_prefix d) \<and> n \<noteq> [] \<and> CHR ''/'' \<notin> set n then Some n else None)"

definition os_ReadDir :: "fs \<Rightarrow> string \<Rightarrow> go_error + (string \<times> fs_entry) list" where
  "os_ReadDir fs d =
    (if \<not> is_dir fs d then Inl (os_error ''open'' d)
     else Inr (sort_slice (\<lambda>a b. string_less (fst a) (fst b))
       (concat (map (\<lambda>(p, e). case child_name d p of None \<Rightarrow> [] | Some n \<Rightarrow> [(n, e)]) fs))))"

definition os_Remove :: "(string \<Rightarrow> go_error option) \<Rightarrow> fs \<Rightarrow> string \<Rightarrow> go_error + fs" where
  "os_Remove fault fs p =
    (case fault (Clean p) of
       Some e \<Rightarrow> Inl e
     | None \<Rightarrow>
         (case fs_lookup fs p of
            None \<Rightarrow> Inl (os_error ''remove'' p)
          | Some (FileEntry _) \<Rightarrow> Inr (fs_remove p fs)
          | Some DirEntry \<Rightarrow>
              if os_ReadDir fs p = Inr [] then Inr (fs_remove p fs) else Inl (os_error ''remove'' p)))"

section \<open>util.go\<close>

definition exists_path :: "fs \<Rightarrow> string \<Rightarrow> bool" where
  "exists_path fs p \<longleftrightarrow> Clean p = ''/'' \<or> fs_lookup fs p \<noteq> None"

definition ensureDir :: "(string \<Rightarrow> go_error option) \<Rightarrow> fs \<Rightarrow> string \<Rightarrow> go_error + fs" where
  "ensureDir fault fs dirname =
    (if \<not> exists_path fs dirname then mkdir_all fault fs (path_prefixes dirname) else Inr fs)"

definition deleteFile :: "(string \<Rightarrow> go_error option) \<Rightarrow> fs \<Rightarrow> string \<Rightarrow> go_error + fs" where
  "deleteFile fault fs p = os_Remove fault fs p"

datatype object_kind = V1Definition | InternalDefinition | UnstructuredObject | OtherKind

record 'o storage_env =
  seRoot :: string
  seGroup :: string
  seEncode :: "'o \<Rightarrow> go_error + string"
  seDecode :: "string \<Rightarrow> go_error + 'o"
  seNew :: 'o
  seZero :: 'o
  seObjectRV :: "'o \<Rightarrow> go_error + 64 word"
  seSetRV :: "64 word \<Rightarrow> 'o \<Rightarrow> go_error + 'o"
  seParseRV :: "string \<Rightarrow> go_error + 64 word"
  seKind :: "'o \<Rightarrow> object_kind"
  seSnowflake :: "nat \<Rightarrow> go_error + 64 word"
  seFault :: "string \<Rightarrow> go_error option"

definition writeFile :: "'o storage_env \<Rightarrow> fs \<Rightarrow> string \<Rightarrow> 'o \<Rightarrow> go_error + fs" where
  "writeFile env fs p obj =
    (case seEncode env obj of Inl e \<Rightarrow> Inl e | Inr buf \<Rightarrow> os_WriteFile (seFault env) fs p buf)"

definition readFile :: "'o storage_env \<Rightarrow> fs \<Rightarrow> string \<Rightarrow> go_error + 'o" where
  "readFile env fs p =
    (case os_ReadFile fs (Clean p) of Inl e \<Rightarrow> Inl e | Inr content \<Rightarrow> seDecode env content)"

definition isUnchanged :: "'o storage_env \<Rightarrow> 'o \<Rightarrow> 'o \<Rightarrow> go_error + bool" where
  "isUnchanged env obj newObj =
    (case seEncode env obj of
       Inl e \<Rightarrow> Inl e
     | Inr buf \<Rightarrow> (case seEncode env newObj of Inl e \<Rightarrow> Inl e | Inr newBuf \<Rightarrow> Inr (buf = newBuf)))"

definition objectDirPath :: "string \<Rightarrow> string \<times> string \<times> string \<Rightarrow> string option \<Rightarrow> string" where
  "objectDirPath root gvk nspc =
    (case gvk of (grp, version, kind) \<Rightarrow>
       let p = path_join [root, grp, version];
           p' = (case nspc of Some ns \<Rightarrow> path_join [p, ns] | None \<Rightarrow> p)
       in path_join [p', kind])"

definition objectFilePath :: "string \<Rightarrow> string \<times> string \<times> string \<Rightarrow> string option \<Rightarrow> string \<Rightarrow> string" where
  "objectFilePath root gvk nspc name = path_join [objectDirPath root gvk nspc, name @ ''.json'']"

section \<open>restoptions.go\<close>

definition NewRESTOptionsGetter :: "string \<Rightarrow> string" where
  "NewRESTOptionsGetter path = (if path = [] then ''/tmp/grafana-apiserver'' else path)"

text \<open>The prefix of a resource, which becomes the root of its storage.\<close>

definition GetRESTOptions_ResourcePrefix :: "string \<Rightarrow> string \<times> string \<Rightarrow> string" where
  "GetRESTOptions_ResourcePrefix path resource = path_join [path, fst resource, snd resource]"

section \<open>storage.go\<close>

datatype event_type = EvAdded | EvModified | EvDeleted

type_synonym 'o watch_event = "event_type \<times> 'o"

text \<open>The files, the number of resource versions generated, and the events sent to the watch set.\<close>

record 'o storage_state =
  ssFS :: fs
  ssGenerated :: nat
  ssEvents :: "'o watch_event list"

definition MaxUpdateAttempts :: nat where "MaxUpdateAttempts = 30"

definition getResourceVersion ::
  "'o storage_env \<Rightarrow> 'o storage_state \<Rightarrow> (go_error + 64 word) \<times> 'o storage_state" where
  "getResourceVersion env st =
    (seSnowflake env (ssGenerated st), st\<lparr>ssGenerated := Suc (ssGenerated st)\<rparr>)"

definition nameFromKey :: "'o storage_env \<Rightarrow> string \<Rightarrow> string" where
  "nameFromKey env key = remove_first key (seRoot env @ ''/'')"

definition key_file :: "string \<Rightarrow> string" where
  "key_file key = key @ ''.json''"

definition notifyWatchers :: "'o watch_event \<Rightarrow> 'o storage_state \<Rightarrow> 'o storage_state" where
  "notifyWatchers ev st = st\<lparr>ssEvents := ssEvents st @ [ev]\<rparr>"

definition NewStorage ::
  "'o storage_env \<Rightarrow> 'o storage_state \<Rightarrow> (go_error + unit) \<times> 'o storage_state" where
  "NewStorage env st =
    (case ensureDir (seFault env) (ssFS st) (seRoot env) of
       Inl _ \<Rightarrow> (Inl (PlainErr (''could not establish a writable directory at path='' @ seRoot env)), st)
     | Inr fs \<Rightarrow> (Inr (), st\<lparr>ssFS := fs\<rparr>))"

definition validateMinimumResourceVersion ::
  "'o storage_env \<Rightarrow> string \<Rightarrow> 64 word \<Rightarrow> go_error option" where
  "validateMinimumResourceVersion env minimumResourceVersion actualRevision =
    (if minimumResourceVersion = [] then None
     else case seParseRV env minimumResourceVersion of
       Inl _ \<Rightarrow> Some (BadRequest ''invalid resource version'')
     | Inr minimumRV \<Rightarrow> if minimumRV > actualRevision then Some TooLargeResourceVersion else None)"

definition Get ::
  "'o storage_env \<Rightarrow> 'o storage_state \<Rightarrow> string \<Rightarrow> string \<Rightarrow> bool \<Rightarrow> go_error + 'o" where
  "Get env st key resourceVersion ignoreNotFound =
    (let filename = key_file key in
     if \<not> exists_path (ssFS st) filename then
       (if ignoreNotFound then Inr (seZero env) else Inl (NotFound (nameFromKey env key)))
     else case readFile env (ssFS st) filename of
       Inl err \<Rightarrow> Inl err
     | Inr obj \<Rightarrow>
         (case seObjectRV env obj of
            Inl err \<Rightarrow> Inl err
          | Inr currentVersion \<Rightarrow>
              (case validateMinimumResourceVersion env resourceVersion currentVersion of
                 Some err \<Rightarrow> Inl err | None \<Rightarrow> Inr obj)))"

definition Create ::
  "'o storage_env \<Rightarrow> string \<Rightarrow> 'o \<Rightarrow> 'o storage_state \<Rightarrow> (go_error + 'o) \<times> 'o storage_state" where
  "Create env key obj st =
    (let filename = key_file key in
     if exists_path (ssFS st) filename then (Inl (AlreadyExists (nameFromKey env key)), st)
     else case ensureDir (seFault env) (ssFS st) (Dir filename) of
       Inl err \<Rightarrow> (Inl err, st)
     | Inr fs1 \<Rightarrow>
         (case getResourceVersion env (st\<lparr>ssFS := fs1\<rparr>) of
            (Inl err, st1) \<Rightarrow> (Inl err, st1)
          | (Inr generatedRV, st1) \<Rightarrow>
              (case seSetRV env generatedRV obj of
                 Inl err \<Rightarrow> (Inl err, st1)
               | Inr obj1 \<Rightarrow>
                   (case writeFile env (ssFS st1) filename obj1 of
                      Inl err \<Rightarrow> (Inl err, st1)
                    | Inr fs2 \<Rightarrow>
                        let st2 = st1\<lparr>ssFS := fs2\<rparr> in
                        (case Get env st2 key [] False of
                           Inl err \<Rightarrow> (Inl err, st2)
                         | Inr out \<Rightarrow> (Inr out, notifyWatchers (EvAdded, out) st2))))))"

definition Delete ::
  "'o storage_env \<Rightarrow> string \<Rightarrow> ('o \<Rightarrow> go_error option) \<Rightarrow> ('o \<Rightarrow> go_error option) \<Rightarrow>
   'o storage_state \<Rightarrow> (go_error + 'o) \<times> 'o storage_state" where
  "Delete env key preconditions validateDeletion st =
    (let filename = key_file key in
     if \<not> exists_path (ssFS st) filename then (Inl (NotFound (nameFromKey env key)), st)
     else case Get env st key [] False of
       Inl err \<Rightarrow> (Inl err, st)
     | Inr out \<Rightarrow>
         (case preconditions out of
            Some err \<Rightarrow> (Inl err, st)
          | None \<Rightarrow>
              (case validateDeletion out of
                 Some err \<Rightarrow> (Inl err, st)
               | None \<Rightarrow>
                   (case deleteFile (seFault env) (ssFS st) filename of
                      Inl err \<Rightarrow> (Inl err, st)
                    | Inr fs1 \<Rightarrow> (Inr out, notifyWatchers (EvDeleted, out) (st\<lparr>ssFS := fs1\<rparr>))))))"

text \<open>The Go type of the list a caller passes decides what \<open>GetList\<close> accepts.\<close>

definition list_accepts :: "'o storage_env \<Rightarrow> object_kind \<Rightarrow> 'o \<Rightarrow> bool" where
  "list_accepts env listKind obj \<longleftrightarrow> listKind \<noteq> OtherKind \<and> seKind env obj = listKind"

fun getListForDir_loop ::
  "'o storage_env \<Rightarrow> fs \<Rightarrow> string \<Rightarrow> object_kind \<Rightarrow> string \<Rightarrow> (string \<times> fs_entry) list \<Rightarrow> 'o list \<Rightarrow>
   go_error + 'o list" where
  "getListForDir_loop env fs dir listKind rv [] acc = Inr acc"
| "getListForDir_loop env fs dir listKind rv ((name, entry) # rest) acc =
    (if entry = DirEntry then getListForDir_loop env fs dir listKind rv rest acc
     else case readFile env fs (path_join [dir, name]) of
       Inl err \<Rightarrow> Inl err
     | Inr obj \<Rightarrow>
         (case seObjectRV env obj of
            Inl err \<Rightarrow> Inl err
          | Inr currentVersion \<Rightarrow>
              (case validateMinimumResourceVersion env rv currentVersion of
                 Some _ \<Rightarrow> getListForDir_loop env fs dir listKind rv rest acc
               | None \<Rightarrow>
                   if list_accepts env listKind obj
                   then getListForDir_loop env fs dir listKind rv rest (acc @ [obj])
                   else Inl (PlainErr ''unable to cast object''))))"

definition getListForDir ::
  "'o storage_env \<Rightarrow> fs \<Rightarrow> string \<Rightarrow> object_kind \<Rightarrow> string \<Rightarrow> 'o list \<Rightarrow> go_error + 'o list" where
  "getListForDir env fs dir listKind rv acc =
    getListForDir_loop env fs dir listKind rv
      (case os_ReadDir fs dir of Inl _ \<Rightarrow> [] | Inr resources \<Rightarrow> resources) acc"

fun getList_dirs ::
  "'o storage_env \<Rightarrow> fs \<Rightarrow> object_kind \<Rightarrow> string \<Rightarrow> string list \<Rightarrow> 'o list \<Rightarrow> go_error + 'o list" where
  "getList_dirs env fs listKind rv [] acc = Inr acc"
| "getList_dirs env fs listKind rv (dir # dirs) acc =
    (case getListForDir env fs dir listKind rv acc of
       Inl err \<Rightarrow> Inl err | Inr acc' \<Rightarrow> getList_dirs env fs listKind rv dirs acc')"

text \<open>The result is the items and the resource version of the list.\<close>

definition GetList ::
  "'o storage_env \<Rightarrow> string \<Rightarrow> string \<Rightarrow> object_kind \<Rightarrow> 'o storage_state \<Rightarrow>
   (go_error + 'o list \<times> 64 word) \<times> 'o storage_state" where
  "GetList env key resourceVersion listKind st =
    (case (if key = seRoot env then
             (case os_ReadDir (ssFS st) (seRoot env) of
                Inl err \<Rightarrow> Inl err
              | Inr entries \<Rightarrow> Inr (map (\<lambda>e. path_join [seRoot env, fst e]) entries @ [seRoot env]))
           else Inr [key]) of
       Inl err \<Rightarrow> (Inl err, st)
     | Inr dirs \<Rightarrow>
         (case (if resourceVersion \<noteq> [] then (seParseRV env resourceVersion, st)
                else getResourceVersion env st) of
            (Inl err, st1) \<Rightarrow> (Inl err, st1)
          | (Inr rv, st1) \<Rightarrow>
              (case getList_dirs env (ssFS st) listKind resourceVersion dirs [] of
                 Inl err \<Rightarrow> (Inl err, st1) | Inr items \<Rightarrow> (Inr (items, rv), st1))))"

text \<open>A Go switch does not fall through: the two definition lists give no items.\<close>

definition getItems :: "object_kind \<Rightarrow> 'o list \<Rightarrow> go_error + 'o list" where
  "getItems listKind items =
    (case listKind of
       V1Definition \<Rightarrow> Inr [] | InternalDefinition \<Rightarrow> Inr []
     | UnstructuredObject \<Rightarrow> Inr items
     | OtherKind \<Rightarrow> Inl (PlainErr ''unsupported type''))"

fun init_events ::
  "('o \<Rightarrow> go_error + bool) \<Rightarrow> 'o list \<Rightarrow> 'o watch_event list \<Rightarrow> go_error + 'o watch_event list" where
  "init_events p [] acc = Inr acc"
| "init_events p (obj # rest) acc =
    (case p obj of
       Inl err \<Rightarrow> Inl err
     | Inr ok \<Rightarrow> init_events p rest (if ok then acc @ [(EvAdded, obj)] else acc))"

text \<open>\<open>Watch\<close>: the events with which the new watch starts.\<close>

definition Watch ::
  "'o storage_env \<Rightarrow> string \<Rightarrow> ('o \<Rightarrow> go_error + bool) \<Rightarrow> string \<Rightarrow> 'o storage_state \<Rightarrow>
   (go_error + 'o watch_event list) \<times> 'o storage_state" where
  "Watch env key p resourceVersion st =
    (let listKind = (if seGroup env = ''kinds.grafana.com'' then InternalDefinition else UnstructuredObject);
         (listed, st1) =
           (if resourceVersion = ''0''
            then (case GetList env key resourceVersion listKind st of
                    (Inl err, s) \<Rightarrow> (Inl err, s) | (Inr (items, _), s) \<Rightarrow> (Inr items, s))
            else (Inr [], st))
     in case listed of
          Inl err \<Rightarrow> (Inl err, st1)
        | Inr listObj \<Rightarrow>
            (case getItems listKind listObj of
               Inl err \<Rightarrow> (Inl err, st1)
             | Inr items \<Rightarrow> (init_events p items [], st1)))"

text \<open>
  \<open>GuaranteedUpdate\<close>. \<open>tryUpdate\<close> may change its argument in place, so it gives both the result
  and what became of the argument. \<open>remaining\<close> counts the attempts left, the current one
  included; \<open>Inr None\<close> is a nil error that leaves \<open>destination\<close> as it was.
\<close>

fun update_loop ::
  "'o storage_env \<Rightarrow> string \<Rightarrow> bool \<Rightarrow> ('o \<Rightarrow> go_error option) \<Rightarrow> ('o \<Rightarrow> (go_error + 'o) \<times> 'o) \<Rightarrow>
   nat \<Rightarrow> 'o storage_state \<Rightarrow> (go_error + 'o option) \<times> 'o storage_state" where
  "update_loop env key ignoreNotFound preconditions tryUpdate 0 st = (Inr None, st)"
| "update_loop env key ignoreNotFound preconditions tryUpdate (Suc n) st =
    (let filename = key_file key in
     if \<not> exists_path (ssFS st) filename \<and> \<not> ignoreNotFound
     then (Inl (NotFound (nameFromKey env key)), st)
     else
       let (obj, created) = (case readFile env (ssFS st) filename of
             Inl _ \<Rightarrow> (seNew env, True) | Inr o1 \<Rightarrow> (o1, False))
       in case preconditions obj of
            Some err \<Rightarrow>
              if n = 0 then (Inl (PlainErr ''precondition failed''), st)
              else update_loop env key ignoreNotFound preconditions tryUpdate n st
          | None \<Rightarrow>
              (case tryUpdate obj of
                 (Inl err, _) \<Rightarrow>
                   if n = 0 then (Inl err, st)
                   else update_loop env key ignoreNotFound preconditions tryUpdate n st
               | (Inr updatedObj, obj') \<Rightarrow>
                   (case isUnchanged env obj' updatedObj of
                      Inl err \<Rightarrow> (Inl err, st)
                    | Inr True \<Rightarrow> (Inr (Some updatedObj), st)
                    | Inr False \<Rightarrow>
                        (case getResourceVersion env st of
                           (Inl err, st1) \<Rightarrow> (Inl err, st1)
                         | (Inr generatedRV, st1) \<Rightarrow>
                             (case seSetRV env generatedRV updatedObj of
                                Inl err \<Rightarrow> (Inl err, st1)
                              | Inr written \<Rightarrow>
                                  (case writeFile env (ssFS st1) filename written of
                                     Inl err \<Rightarrow> (Inl err, st1)
                                   | Inr fs1 \<Rightarrow>
                                       update_loop env key ignoreNotFound preconditions tryUpdate n
                                         (notifyWatchers (if created then EvAdded else EvModified, written)
                                            (st1\<lparr>ssFS := fs1\<rparr>))))))))"

definition GuaranteedUpdate ::
  "'o storage_env \<Rightarrow> string \<Rightarrow> bool \<Rightarrow> ('o \<Rightarrow> go_error option) \<Rightarrow> ('o \<Rightarrow> (go_error + 'o) \<times> 'o) \<Rightarrow>
   'o storage_state \<Rightarrow> (go_error + 'o option) \<times> 'o storage_state" where
  "GuaranteedUpdate env key ignoreNotFound preconditions tryUpdate st =
    update_loop env key ignoreNotFound preconditions tryUpdate MaxUpdateAttempts st"

definition Count :: "string \<Rightarrow> go_error + int" where
  "Count key = Inr 0"

section \<open>Lemmas on the file system\<close>

lemma fs_lookup_put [simp]:
  "fs_lookup (fs_put p e fs) q = (if Clean q = Clean p then Some e else fs_lookup fs q)"
proof -
  have "map_of (filter (\<lambda>x. fst x \<noteq> a) m) b = (if b = a then None else map_of m b)" for a b and m :: fs
    by (induction m) auto
  then show ?thesis by (simp add: fs_lookup_def fs_put_def)
qed

lemma fs_lookup_remove [simp]:
  "fs_lookup (fs_remove p fs) q = (if Clean q = Clean p then None else fs_lookup fs q)"
proof -
  have "map_of (filter (\<lambda>x. fst x \<noteq> a) m) b = (if b = a then None else map_of m b)" for a b and m :: fs
    by (induction m) auto
  then show ?thesis by (simp add: fs_lookup_def fs_remove_def)
qed

lemma mkdir_all_lookup:
  "mkdir_all fault fs ps = Inr fs' \<Longrightarrow>
    fs_lookup fs' q = fs_lookup fs q \<or> fs_lookup fs q = None \<and> fs_lookup fs' q = Some DirEntry"
proof (induction ps arbitrary: fs)
  case (Cons p ps)
  show ?case
  proof (cases "is_dir fs p")
    case True
    then show ?thesis using Cons by simp
  next
    case False
    then have n: "fs_lookup fs p = None" and m: "mkdir_all fault (fs_put p DirEntry fs) ps = Inr fs'"
      using Cons.prems by (auto split: option.splits if_splits)
    have "fs_lookup fs q = None" if "Clean q = Clean p" using n that by (simp add: fs_lookup_def)
    then show ?thesis using Cons.IH [OF m] by (auto split: if_splits)
  qed
qed simp

lemma ensureDir_lookup:
  "ensureDir fault fs d = Inr fs' \<Longrightarrow>
    fs_lookup fs' q = fs_lookup fs q \<or> fs_lookup fs q = None \<and> fs_lookup fs' q = Some DirEntry"
  by (auto simp: ensureDir_def mkdir_all_lookup split: if_splits dest: mkdir_all_lookup)

lemma os_WriteFile_put:
  "os_WriteFile fault fs p b = Inr fs' \<Longrightarrow> fs' = fs_put p (FileEntry b) fs \<and> Clean p \<noteq> ''/''"
  by (auto simp: os_WriteFile_def is_dir_def split: option.splits if_splits)

text \<open>The file of a key is never the root directory: its path ends in \<open>.json\<close>.\<close>

lemma split_on_append_last:
  "c \<notin> set t \<Longrightarrow> split_on c (s @ t) = butlast (split_on c s) @ [last (split_on c s) @ t]"
proof (induction s)
  case Nil
  then show ?case by (simp add: split_on_id)
next
  case (Cons x s)
  then show ?case
    by (cases "split_on c s"; cases "tl (split_on c s)") (auto split: list.splits)
qed

lemma clean_elems_last:
  assumes "e \<noteq> []" and "e \<noteq> ''.''" and "e \<noteq> ''..''"
  shows "\<exists>ys. clean_elems r acc (xs @ [e]) = ys @ [e]"
  using assms by (induction xs arbitrary: acc) (auto split: list.splits)

lemma key_file_not_root: "Clean (key_file key) \<noteq> ''/''"
proof -
  let ?e = "last (split_on CHR ''/'' key) @ ''.json''"
  have "split_on CHR ''/'' (key_file key) = butlast (split_on CHR ''/'' key) @ [?e]"
    unfolding key_file_def by (rule split_on_append_last) simp
  moreover obtain ys where "clean_elems (HasPrefix (key_file key) ''/'') [] (butlast (split_on CHR ''/'' key) @ [?e]) = ys @ [?e]"
    using clean_elems_last [of ?e "HasPrefix (key_file key) ''/''" "[]" "butlast (split_on CHR ''/'' key)"]
    by (auto simp: append_eq_Cons_conv)
  moreover obtain z where "join_with ''/'' (ys @ [?e]) = z @ ''.json''"
    by (cases "ys = []") (auto simp: join_with_snoc)
  ultimately have body: "join_with ''/'' (clean_elems (HasPrefix (key_file key) ''/'') []
      (split_on CHR ''/'' (key_file key))) = z @ ''.json''"
    by simp
  have z: "Clean (key_file key) = CHR ''/'' # z @ ''.json'' \<or> Clean (key_file key) = z @ ''.json''"
    unfolding Clean_def Let_def body by simp
  show ?thesis
  proof
    assume "Clean (key_file key) = ''/''"
    then have "length (Clean (key_file key)) = 1" by simp
    then show False using z by auto
  qed
qed

text \<open>The bytes stored under a key.\<close>

definition content :: "'o storage_state \<Rightarrow> string \<Rightarrow> string option" where
  "content st key = (case fs_lookup (ssFS st) (key_file key) of Some (FileEntry b) \<Rightarrow> Some b | _ \<Rightarrow> None)"

definition present :: "'o storage_state \<Rightarrow> string \<Rightarrow> bool" where
  "present st key = exists_path (ssFS st) (key_file key)"

definition key_path :: "string \<Rightarrow> string" where
  "key_path key = Clean (key_file key)"

lemma readFile_lookup:
  "readFile env fs p = (case fs_lookup fs p of Some (FileEntry b) \<Rightarrow> seDecode env b
    | _ \<Rightarrow> Inl (os_error ''open'' (Clean p)))"
  by (simp add: readFile_def os_ReadFile_def fs_lookup_def Clean_Clean split: option.split fs_entry.split)

lemma readFile_content:
  "content st key = Some b \<Longrightarrow> readFile env (ssFS st) (key_file key) = seDecode env b"
  by (auto simp: readFile_lookup content_def split: option.splits fs_entry.splits)

lemma content_present: "content st key = Some b \<Longrightarrow> exists_path (ssFS st) (key_file key)"
  by (auto simp: content_def exists_path_def split: option.splits)

lemma writeFile_content:
  assumes "writeFile env (ssFS st) (key_file key) obj = Inr fs'"
  obtains b where "seEncode env obj = Inr b"
    and "\<And>k. content (st\<lparr>ssFS := fs'\<rparr>) k = (if key_path k = key_path key then Some b else content st k)"
    and "present (st\<lparr>ssFS := fs'\<rparr>) key"
    and "fs' = fs_put (key_file key) (FileEntry b) (ssFS st)"
  using assms
  by (auto simp: writeFile_def content_def key_path_def present_def exists_path_def split: sum.splits
      dest!: os_WriteFile_put)

lemma getResourceVersion_sel [simp]:
  "snd (getResourceVersion env st) = st\<lparr>ssGenerated := Suc (ssGenerated st)\<rparr>"
  "fst (getResourceVersion env st) = seSnowflake env (ssGenerated st)"
  by (simp_all add: getResourceVersion_def)

section \<open>The store as an interface\<close>

text \<open>
  What the registry relies on: creating and deleting under a key change that key only, a create
  succeeds only for an absent key and leaves it present, a delete only for a present one and
  leaves it absent, and a failing delete changes nothing.
\<close>

locale object_store =
  fixes stored :: "'s \<Rightarrow> string \<Rightarrow> 'b option" and there :: "'s \<Rightarrow> string \<Rightarrow> bool" and loc :: "string \<Rightarrow> 'l"
    and create :: "string \<Rightarrow> 'o \<Rightarrow> 's \<Rightarrow> (go_error + 'o) \<times> 's" and delete :: "string \<Rightarrow> 's \<Rightarrow> (go_error + 'o) \<times> 's"
  assumes create_ok: "create k x s = (Inr y, s') \<Longrightarrow> \<not> there s k \<and> there s' k"
    and create_frame: "create k x s = (r, s') \<Longrightarrow> loc k' \<noteq> loc k \<Longrightarrow> stored s' k' = stored s k'"
    and delete_ok: "delete k s = (Inr y, s') \<Longrightarrow> there s k \<and> \<not> there s' k"
    and delete_frame: "delete k s = (r, s') \<Longrightarrow> loc k' \<noteq> loc k \<Longrightarrow> stored s' k' = stored s k'"
    and delete_error: "delete k s = (Inl e, s') \<Longrightarrow> s' = s"
begin

lemma no_second_create: "create k x s = (Inr y, s') \<Longrightarrow> create k x' s' \<noteq> (Inr y', s'')"
  using create_ok by blast

lemma no_second_delete: "delete k s = (Inr y, s') \<Longrightarrow> fst (delete k s') = Inr y' \<Longrightarrow> False"
  using delete_ok by (metis prod.collapse)

text \<open>A sequence of deletions, as a collection delete does.\<close>

lemma delete_many_frame:
  assumes "\<And>k. k \<in> set ks \<Longrightarrow> loc k' \<noteq> loc k"
  shows "stored (fold (\<lambda>k s. snd (delete k s)) ks s) k' = stored s k'"
  using assms
proof (induction ks arbitrary: s)
  case (Cons k ks)
  have "stored (snd (delete k s)) k' = stored s k'"
    using delete_frame [of k s "fst (delete k s)" "snd (delete k s)" k'] Cons.prems by simp
  then show ?case using Cons by simp
qed simp

end

lemma Create_cases:
  assumes "Create env key obj st = (r, st')"
  obtains (unchanged) e fs' n where "r = Inl e" and "st' = st\<lparr>ssFS := fs', ssGenerated := n\<rparr>"
      and "\<And>q. fs_lookup fs' q = fs_lookup (ssFS st) q \<or> fs_lookup (ssFS st) q = None \<and> fs_lookup fs' q = Some DirEntry"
  | (written) rv w b fs1 st2 where "\<not> present st key" and "seSetRV env rv obj = Inr w" and "seEncode env w = Inr b"
      and "st2 = st\<lparr>ssFS := fs_put (key_file key) (FileEntry b) fs1, ssGenerated := Suc (ssGenerated st)\<rparr>"
      and "\<And>q. fs_lookup fs1 q = fs_lookup (ssFS st) q \<or> fs_lookup (ssFS st) q = None \<and> fs_lookup fs1 q = Some DirEntry"
      and "r = Get env st2 key [] False" and "Clean (key_file key) \<noteq> ''/''"
      and "st' = (case r of Inr out \<Rightarrow> notifyWatchers (EvAdded, out) st2 | Inl _ \<Rightarrow> st2)"
proof (cases "exists_path (ssFS st) (key_file key)")
  case True
  then show ?thesis using assms unchanged [where e="AlreadyExists (nameFromKey env key)" and fs'="ssFS st" and n="ssGenerated st"]
    by (simp add: Create_def Let_def)
next
  case absent: False
  show ?thesis
  proof (cases "ensureDir (seFault env) (ssFS st) (Dir (key_file key))")
    case (Inl e)
    then show ?thesis using assms absent unchanged [where e=e and fs'="ssFS st" and n="ssGenerated st"] by (simp add: Create_def Let_def)
  next
    case fs1: (Inr fs1)
    note keep = ensureDir_lookup [OF fs1]
    let ?st1 = "st\<lparr>ssFS := fs1, ssGenerated := Suc (ssGenerated st)\<rparr>"
    have grv: "getResourceVersion env (st\<lparr>ssFS := fs1\<rparr>) = (seSnowflake env (ssGenerated st), ?st1)"
      by (simp add: getResourceVersion_def)
    show ?thesis
    proof (cases "seSnowflake env (ssGenerated st)")
      case (Inl e)
      then show ?thesis using assms absent fs1 grv keep unchanged [where e=e and fs'=fs1 and n="Suc (ssGenerated st)"]
        by (simp add: Create_def Let_def)
    next
      case rv: (Inr rv)
      show ?thesis
      proof (cases "seSetRV env rv obj")
        case (Inl e)
        then show ?thesis using assms absent fs1 grv rv keep unchanged [where e=e and fs'=fs1 and n="Suc (ssGenerated st)"]
          by (simp add: Create_def Let_def)
      next
        case w: (Inr w)
        show ?thesis
        proof (cases "writeFile env fs1 (key_file key) w")
          case (Inl e)
          then show ?thesis using assms absent fs1 grv rv w keep unchanged [where e=e and fs'=fs1 and n="Suc (ssGenerated st)"]
            by (simp add: Create_def Let_def)
        next
          case fs2: (Inr fs2)
          then obtain b where b: "seEncode env w = Inr b" "fs2 = fs_put (key_file key) (FileEntry b) fs1"
              "Clean (key_file key) \<noteq> ''/''"
            by (auto simp: writeFile_def split: sum.splits dest: os_WriteFile_put)
          let ?st2 = "st\<lparr>ssGenerated := Suc (ssGenerated st), ssFS := fs2\<rparr>"
          have "Create env key obj st = (case Get env ?st2 key [] False of
              Inl err \<Rightarrow> (Inl err, ?st2) | Inr out \<Rightarrow> (Inr out, notifyWatchers (EvAdded, out) ?st2))"
            using absent fs1 grv rv w fs2 by (simp add: Create_def Let_def)
          then show ?thesis
            using assms written [where rv=rv and w=w and b=b and ?st2.0="?st2" and ?fs1.0=fs1] absent w b keep
            by (simp add: present_def split: sum.splits)
        qed
      qed
    qed
  qed
qed

lemma content_keep:
  assumes "\<And>q. fs_lookup fs' q = fs_lookup (ssFS st) q \<or> fs_lookup (ssFS st) q = None \<and> fs_lookup fs' q = Some DirEntry"
    and "ssFS st' = fs'"
  shows "content st' k = content st k"
  using assms(1) [of "key_file k"] by (auto simp: content_def assms(2))

lemma notifyWatchers_sel [simp]:
  "ssFS (notifyWatchers ev st) = ssFS st" "ssGenerated (notifyWatchers ev st) = ssGenerated st"
  "ssEvents (notifyWatchers ev st) = ssEvents st @ [ev]"
  by (simp_all add: notifyWatchers_def)

lemma Create_frame:
  assumes "Create env k obj st = (r, st')" and "key_path k' \<noteq> key_path k"
  shows "content st' k' = content st k'"
  using assms(1)
proof (cases rule: Create_cases)
  case (unchanged e fs' n)
  then show ?thesis by (intro content_keep [of fs']) auto
next
  case (written rv w b fs1 st2)
  have "content st2 k' = content st k'"
    using written(4) written(5) [of "key_file k'"] assms(2)
    by (auto simp: content_def key_path_def)
  moreover have "ssFS st' = ssFS st2" using written(8) by (simp split: sum.splits)
  ultimately show ?thesis by (simp add: content_def)
qed

lemma Create_present:
  assumes "Create env k obj st = (Inr out, st')"
  shows "\<not> present st k \<and> present st' k"
  using assms
proof (cases rule: Create_cases)
  case (written rv w b fs1 st2)
  have "st' = notifyWatchers (EvAdded, out) st2" using written(8) by simp
  then show ?thesis using written(1,4) by (simp add: present_def exists_path_def)
qed auto

lemma Delete_cases:
  assumes "Delete env key pre val st = (r, st')"
  obtains (failed) e where "r = Inl e" and "st' = st"
  | (removed) out where "r = Inr out" and "present st key" and "Get env st key [] False = Inr out"
      and "pre out = None" and "val out = None" and "Clean (key_file key) \<noteq> ''/''"
      and "st' = notifyWatchers (EvDeleted, out) (st\<lparr>ssFS := fs_remove (key_file key) (ssFS st)\<rparr>)"
proof (cases "\<exists>out fs1. exists_path (ssFS st) (key_file key) \<and> Get env st key [] False = Inr out \<and>
    pre out = None \<and> val out = None \<and> deleteFile (seFault env) (ssFS st) (key_file key) = Inr fs1")
  case True
  then obtain out fs1 where o1: "exists_path (ssFS st) (key_file key)" "Get env st key [] False = Inr out"
      "pre out = None" "val out = None" "deleteFile (seFault env) (ssFS st) (key_file key) = Inr fs1" by blast
  have "fs1 = fs_remove (key_file key) (ssFS st)"
    using o1(5) by (auto simp: deleteFile_def os_Remove_def split: option.splits fs_entry.splits if_splits)
  moreover have "Clean (key_file key) \<noteq> ''/''" by (rule key_file_not_root)
  moreover have "Delete env key pre val st = (Inr out, notifyWatchers (EvDeleted, out) (st\<lparr>ssFS := fs1\<rparr>))"
    using o1 by (simp add: Delete_def Let_def)
  ultimately show ?thesis using removed o1 assms by (simp add: present_def)
next
  case False
  show ?thesis
  proof (cases "exists_path (ssFS st) (key_file key)")
    case e: True
    show ?thesis
    proof (cases "Get env st key [] False")
      case (Inl err)
      then have "Delete env key pre val st = (Inl err, st)" using e by (simp add: Delete_def Let_def)
      then show ?thesis using assms failed by simp
    next
      case (Inr out)
      then have "Delete env key pre val st = (Inl (the (pre out)), st) \<or>
          Delete env key pre val st = (Inl (the (val out)), st) \<or> (\<exists>e'. Delete env key pre val st = (Inl e', st))"
        using e False
        by (cases "deleteFile (seFault env) (ssFS st) (key_file key)")
          (auto simp: Delete_def Let_def split: option.split)
      then show ?thesis using assms failed by auto
    qed
  qed (use assms failed in \<open>auto simp: Delete_def Let_def\<close>)
qed

lemma Delete_frame:
  assumes "Delete env k pre val st = (r, st')" and "key_path k' \<noteq> key_path k"
  shows "content st' k' = content st k'"
  using assms(1)
proof (cases rule: Delete_cases)
  case (removed out)
  then show ?thesis using assms(2) by (auto simp: content_def key_path_def)
qed simp

lemma Delete_absent:
  assumes "Delete env k pre val st = (Inr out, st')"
  shows "present st k \<and> \<not> present st' k"
  using assms
proof (cases rule: Delete_cases)
  case (removed out)
  then show ?thesis by (simp add: present_def exists_path_def)
qed auto

interpretation file_store: object_store content present key_path "Create env" "\<lambda>k. Delete env k pre val"
  for env :: "'o storage_env" and pre val
proof
  show "s' = s" if "Delete env k pre val s = (Inl e, s')" for k s s' e
    using that by (cases rule: Delete_cases) auto
qed (auto dest: Create_present Create_frame Delete_frame Delete_absent)

section \<open>Lemmas on updates\<close>

lemma Get_content:
  assumes "content st key = Some b" and "seDecode env b = Inr obj" and "seObjectRV env obj = Inr v"
  shows "Get env st key [] ign = Inr obj"
  using assms by (simp add: Get_def Let_def content_present readFile_content validateMinimumResourceVersion_def)

text \<open>Writing under a key that holds a file, in a directory that accepts it.\<close>

definition writable :: "'o storage_env \<Rightarrow> 'o storage_state \<Rightarrow> string \<Rightarrow> bool" where
  "writable env st key \<longleftrightarrow> seFault env (key_path key) = None \<and>
    fs_lookup (ssFS st) (key_file key) \<noteq> Some DirEntry \<and> is_dir (ssFS st) (Dir (key_path key))"

lemma writeFile_writable:
  assumes "writable env st key" and "seEncode env w = Inr b"
  shows "writeFile env (ssFS st) (key_file key) w = Inr (fs_put (key_file key) (FileEntry b) (ssFS st))"
  using assms key_file_not_root [of key]
  by (simp add: writable_def writeFile_def os_WriteFile_def is_dir_def key_path_def)

lemma content_put:
  "content (st\<lparr>ssGenerated := n, ssFS := fs_put (key_file key) (FileEntry b) (ssFS st)\<rparr>) k =
    (if key_path k = key_path key then Some b else content st k)"
  by (simp add: content_def key_path_def)

text \<open>An attempt that cannot succeed is repeated to the end.\<close>

lemma update_loop_stuck:
  assumes "content st key = Some b" and "seDecode env b = Inr obj" and "pre obj = None"
    and "tryU obj = (Inl e, obj')" and "0 < n"
  shows "update_loop env key ign pre tryU n st = (Inl e, st)"
  using assms(5)
proof (induction n)
  case (Suc n)
  then show ?case
    using assms(1-4) by (cases "n = 0") (simp_all add: Let_def content_present readFile_content)
qed simp

text \<open>One attempt that writes.\<close>

lemma update_loop_write:
  assumes "content st key = Some b" and "seDecode env b = Inr cur" and "pre cur = None"
    and "tryU cur = (Inr upd, cur')" and "isUnchanged env cur' upd = Inr False"
    and "seSnowflake env (ssGenerated st) = Inr rv" and "seSetRV env rv upd = Inr w"
    and "seEncode env w = Inr bw" and "writable env st key"
  shows "update_loop env key ign pre tryU (Suc n) st =
    update_loop env key ign pre tryU n
      (notifyWatchers (EvModified, w)
        (st\<lparr>ssGenerated := Suc (ssGenerated st), ssFS := fs_put (key_file key) (FileEntry bw) (ssFS st)\<rparr>))"
proof -
  let ?st1 = "st\<lparr>ssGenerated := Suc (ssGenerated st)\<rparr>"
  have "writeFile env (ssFS ?st1) (key_file key) w = Inr (fs_put (key_file key) (FileEntry bw) (ssFS st))"
    using writeFile_writable [OF assms(9,8)] by simp
  then show ?thesis
    using assms(1-7) by (simp add: Let_def content_present readFile_content getResourceVersion_def)
qed

lemma update_loop_settled:
  assumes "content st key = Some b" and "seDecode env b = Inr cur" and "pre cur = None"
    and "tryU cur = (Inr upd, cur')" and "isUnchanged env cur' upd = Inr True" and "0 < n"
  shows "update_loop env key ign pre tryU n st = (Inr (Some upd), st)"
  using assms by (cases n) (simp_all add: Let_def content_present readFile_content)

lemma update_loop_events:
  "update_loop env key ign pre tryU n st = (r, st') \<Longrightarrow> length (ssEvents st') \<le> length (ssEvents st) + n"
proof (induction n arbitrary: st)
  case (Suc n)
  from Suc.prems show ?case
    by (auto simp: Let_def getResourceVersion_def split: if_splits prod.splits option.splits sum.splits bool.splits
        dest!: Suc.IH)
qed simp

section \<open>Lemmas on lists\<close>

text \<open>What \<open>GetList\<close> may return: objects of the list's type, at least as new as the requested version.\<close>

definition listable :: "'o storage_env \<Rightarrow> object_kind \<Rightarrow> string \<Rightarrow> 'o \<Rightarrow> bool" where
  "listable env kind rv obj \<longleftrightarrow> list_accepts env kind obj \<and>
    (rv \<noteq> [] \<longrightarrow> (\<exists>m v. seParseRV env rv = Inr m \<and> seObjectRV env obj = Inr v \<and> m \<le> v))"

lemma validate_None:
  assumes "validateMinimumResourceVersion env rv v = None" and "seObjectRV env obj = Inr v"
    and "list_accepts env kind obj"
  shows "listable env kind rv obj"
  using assms by (auto simp: listable_def validateMinimumResourceVersion_def split: if_splits sum.splits)

lemma getListForDir_loop_listable:
  "getListForDir_loop env fs dir kind rv es acc = Inr items \<Longrightarrow> \<forall>x \<in> set acc. listable env kind rv x \<Longrightarrow>
    \<forall>x \<in> set items. listable env kind rv x"
proof (induction es arbitrary: acc)
  case (Cons e es)
  obtain n entry where e: "e = (n, entry)" by (cases e)
  show ?case
  proof (cases "entry = DirEntry")
    case True
    then show ?thesis using Cons e by simp
  next
    case False
    then obtain obj v where o1: "readFile env fs (path_join [dir, n]) = Inr obj" "seObjectRV env obj = Inr v"
      using Cons.prems(1) e by (auto split: sum.splits)
    show ?thesis
    proof (cases "validateMinimumResourceVersion env rv v")
      case None
      then have acc: "list_accepts env kind obj"
          "getListForDir_loop env fs dir kind rv es (acc @ [obj]) = Inr items"
        using Cons.prems(1) e False o1 by (auto split: if_splits)
      have "\<forall>x \<in> set (acc @ [obj]). listable env kind rv x"
        using Cons.prems(2) validate_None [OF None o1(2) acc(1)] by auto
      from Cons.IH [OF acc(2) this] show ?thesis .
    next
      case (Some err)
      then have "getListForDir_loop env fs dir kind rv es acc = Inr items"
        using Cons.prems(1) e False o1 by simp
      from Cons.IH [OF this Cons.prems(2)] show ?thesis .
    qed
  qed
qed simp

lemma getList_dirs_listable:
  "getList_dirs env fs kind rv dirs acc = Inr items \<Longrightarrow> \<forall>x \<in> set acc. listable env kind rv x \<Longrightarrow>
    \<forall>x \<in> set items. listable env kind rv x"
proof (induction dirs arbitrary: acc)
  case (Cons d dirs)
  then obtain acc' where a: "getListForDir env fs d kind rv acc = Inr acc'"
      "getList_dirs env fs kind rv dirs acc' = Inr items"
    by (auto split: sum.splits)
  have "\<forall>x \<in> set acc'. listable env kind rv x"
    using a(1) Cons.prems(2) unfolding getListForDir_def by (rule getListForDir_loop_listable)
  then show ?case using Cons.IH [OF a(2)] by blast
qed simp

lemma getListForDir_loop_older:
  assumes "rv \<noteq> []" and "seParseRV env rv = Inr m"
    and "\<forall>(n, entry) \<in> set es. entry \<noteq> DirEntry \<longrightarrow>
      (\<exists>obj v. readFile env fs (path_join [dir, n]) = Inr obj \<and> seObjectRV env obj = Inr v \<and> v < m)"
  shows "getListForDir_loop env fs dir kind rv es acc = Inr acc"
  using assms(3)
proof (induction es)
  case (Cons e es)
  obtain n entry where e: "e = (n, entry)" by (cases e)
  show ?case
  proof (cases "entry = DirEntry")
    case True
    then show ?thesis using Cons e by simp
  next
    case False
    then obtain obj v where o1: "readFile env fs (path_join [dir, n]) = Inr obj" "seObjectRV env obj = Inr v" "v < m"
      using Cons.prems e by auto
    then have "validateMinimumResourceVersion env rv v = Some TooLargeResourceVersion"
      using assms(1,2) by (simp add: validateMinimumResourceVersion_def)
    then show ?thesis using Cons e False o1 by simp
  qed
qed simp

lemma init_events_filter:
  assumes "\<And>x. x \<in> set items \<Longrightarrow> \<exists>b. p x = Inr b"
  shows "init_events p items acc = Inr (acc @ map (Pair EvAdded) (filter (\<lambda>x. p x = Inr True) items))"
  using assms
proof (induction items arbitrary: acc)
  case (Cons x items)
  then obtain b where "p x = Inr b" by auto
  then show ?case using Cons by (cases b) simp_all
qed simp

section \<open>Properties\<close>

text \<open>What a successful \<open>Create\<close> returns is the object with a generated version, and is what \<open>Get\<close> reads.\<close>

lemma create_reads_back:
  assumes "\<And>x b. seEncode env x = Inr b \<Longrightarrow> seDecode env b = Inr x"
    and "Create env key obj st = (Inr out, st')"
  shows "(\<exists>rv. seSetRV env rv obj = Inr out) \<and> Get env st' key [] False = Inr out \<and>
    exists_path (ssFS st') (key_file key) \<and> ssEvents st' = ssEvents st @ [(EvAdded, out)]"
  using assms(2)
proof (cases rule: Create_cases)
  case (written rv w b fs1 st2)
  have st2: "content st2 key = Some b" by (simp add: written(4) content_def)
  have dec: "seDecode env b = Inr w" using assms(1) written(3) .
  have get: "Get env st2 key [] False = Inr out" using written(6) by simp
  have st': "st' = notifyWatchers (EvAdded, out) st2" using written(8) by simp
  have "out = w"
    using get st2 dec
    by (auto simp: Get_def Let_def content_present readFile_content validateMinimumResourceVersion_def split: sum.splits)
  moreover have "Get env st' key [] False = Get env st2 key [] False" by (simp add: st' Get_def Let_def)
  ultimately show ?thesis
    using get written(2,4) content_present [OF st2] by (auto simp: st')
qed simp

text \<open>
  C8. Creating an object stores it: with a codec that reads back what it writes, a successful
  \<open>Create\<close> returns the object with the generated resource version, \<open>Get\<close> then reads exactly that
  object, one \<open>Added\<close> event with it is sent, a second \<open>Create\<close> under the key is refused as already
  existing and changes nothing, and every other key keeps its content. A failed \<open>Create\<close> sends no
  event.
\<close>

theorem create_then_get:
  assumes "\<And>x b. seEncode env x = Inr b \<Longrightarrow> seDecode env b = Inr x"
    and "Create env key obj st = (r, st')"
  shows "(\<forall>out. r = Inr out \<longrightarrow>
      (\<exists>rv. seSetRV env rv obj = Inr out) \<and> Get env st' key [] False = Inr out \<and>
      ssEvents st' = ssEvents st @ [(EvAdded, out)] \<and>
      Create env key obj' st' = (Inl (AlreadyExists (nameFromKey env key)), st')) \<and>
    (\<forall>e. r = Inl e \<longrightarrow> ssEvents st' = ssEvents st) \<and>
    (\<forall>k. key_path k \<noteq> key_path key \<longrightarrow> content st' k = content st k)"
proof (intro conjI allI impI)
  fix out assume r: "r = Inr out"
  note c = create_reads_back [OF assms(1) assms(2) [unfolded r]]
  show "\<exists>rv. seSetRV env rv obj = Inr out" and "Get env st' key [] False = Inr out"
    and "ssEvents st' = ssEvents st @ [(EvAdded, out)]" using c by simp_all
  show "Create env key obj' st' = (Inl (AlreadyExists (nameFromKey env key)), st')"
    using c by (simp add: Create_def Let_def)
next
  show "ssEvents st' = ssEvents st" if "r = Inl e" for e
    using assms(2) that by (cases rule: Create_cases) auto
  show "content st' k = content st k" if "key_path k \<noteq> key_path key" for k
    using file_store.create_frame [OF assms(2)] that by blast
qed

text \<open>
  A concrete instance for the witnesses: an object is a string whose first byte is its resource
  version, stored as it is.
\<close>

definition sample_storage_env :: "string \<Rightarrow> string storage_env" where
  "sample_storage_env grp = \<lparr>seRoot = ''/d'', seGroup = grp, seEncode = Inr, seDecode = Inr, seNew = [], seZero = [],
     seObjectRV = (\<lambda>s. Inr (if s = [] then 0 else word_of_nat (of_char (hd s)))),
     seSetRV = (\<lambda>v s. Inr (char_of (unat v) # drop 1 s)),
     seParseRV = (\<lambda>s. Inr (if s = ''0'' then 0 else 200)), seKind = (\<lambda>_. UnstructuredObject),
     seSnowflake = (\<lambda>n. Inr (word_of_nat (n + 66))), seFault = (\<lambda>_. None)\<rparr>"

definition sample_storage :: "string storage_state" where
  "sample_storage = \<lparr>ssFS = [(''/d'', DirEntry), (''/d/a.json'', FileEntry ''Aone'')], ssGenerated = 0, ssEvents = []\<rparr>"

lemma sample_paths:
  "Clean ''/d/a.json'' = ''/d/a.json''" "Clean ''/d/b.json'' = ''/d/b.json''" "Clean ''/d'' = ''/d''"
  "Dir ''/d/a.json'' = ''/d''" "Dir ''/d/b.json'' = ''/d''"
  by code_simp+

lemma sample_created:
  "Create (sample_storage_env ''g'') ''/d/b'' ''_two'' sample_storage =
    (Inr ''Btwo'', \<lparr>ssFS = [(''/d/b.json'', FileEntry ''Btwo''), (''/d'', DirEntry), (''/d/a.json'', FileEntry ''Aone'')],
       ssGenerated = 1, ssEvents = [(EvAdded, ''Btwo'')]\<rparr>)"
proof -
  have "char_of (unat (66 :: 64 word)) = CHR ''B''" by code_simp
  then show ?thesis
    by (simp add: Create_def key_file_def exists_path_def fs_lookup_def sample_storage_def sample_paths
        ensureDir_def getResourceVersion_def sample_storage_env_def writeFile_def os_WriteFile_def is_dir_def
        fs_put_def Get_def readFile_lookup validateMinimumResourceVersion_def notifyWatchers_def)
qed

theorem create_then_get_witness:
  "Create (sample_storage_env ''g'') ''/d/b'' ''x'' (snd (Create (sample_storage_env ''g'') ''/d/b'' ''_two'' sample_storage)) =
    (Inl (AlreadyExists ''b''), snd (Create (sample_storage_env ''g'') ''/d/b'' ''_two'' sample_storage))"
proof -
  have "nameFromKey (sample_storage_env ''g'') ''/d/b'' = ''b''"
    by (simp add: nameFromKey_def sample_storage_env_def HasPrefix_def)
  then show ?thesis
    using create_then_get [OF _ sample_created, of "''x''"]
    by (simp add: sample_created) (simp add: sample_storage_env_def)
qed

text \<open>
  C7. \<open>GuaranteedUpdate\<close> applies a well-behaved update once: when \<open>tryUpdate\<close> leaves its argument
  alone and has nothing to add to its own result, one write is made, the destination is the
  object written, one \<open>Modified\<close> event is sent, and no other key is touched.
\<close>

theorem guaranteed_update_applies_once:
  assumes "content st key = Some b" and "seDecode env b = Inr cur" and "pre cur = None"
    and "tryU cur = (Inr upd, cur)" and "isUnchanged env cur upd = Inr False"
    and "seSnowflake env (ssGenerated st) = Inr rv" and "seSetRV env rv upd = Inr w"
    and "seEncode env w = Inr bw" and "seDecode env bw = Inr w" and "writable env st key"
    and "pre w = None" and "tryU w = (Inr w, w)"
  shows "\<exists>st'. GuaranteedUpdate env key ign pre tryU st = (Inr (Some w), st') \<and>
    content st' key = Some bw \<and> ssEvents st' = ssEvents st @ [(EvModified, w)] \<and>
    (\<forall>k. key_path k \<noteq> key_path key \<longrightarrow> content st' k = content st k)"
proof -
  let ?st1 = "st\<lparr>ssGenerated := Suc (ssGenerated st), ssFS := fs_put (key_file key) (FileEntry bw) (ssFS st)\<rparr>"
  let ?st2 = "notifyWatchers (EvModified, w) ?st1"
  have c: "content ?st2 k = (if key_path k = key_path key then Some bw else content st k)" for k
    using content_put [where st = st and n = "Suc (ssGenerated st)" and key = key and b = bw and k = k] by (simp add: content_def)
  have "isUnchanged env w w = Inr True" using assms(8) by (simp add: isUnchanged_def)
  then have "update_loop env key ign pre tryU 29 ?st2 = (Inr (Some w), ?st2)"
    using update_loop_settled [of ?st2 key bw env w pre tryU w w 29 ign] c assms(9,11,12) by simp
  moreover have "GuaranteedUpdate env key ign pre tryU st = update_loop env key ign pre tryU 29 ?st2"
    unfolding GuaranteedUpdate_def MaxUpdateAttempts_def
    using update_loop_write [where pre = pre and tryU = tryU and cur = cur and cur' = cur and n = 29 and ign = ign,
        OF assms(1-8,10)] by simp
  ultimately show ?thesis using c by (intro exI [of _ ?st2]) simp
qed

theorem guaranteed_update_applies_once_witness:
  "\<exists>st'. GuaranteedUpdate (sample_storage_env ''g'') ''/d/a'' False (\<lambda>_. None)
      (\<lambda>s. (Inr (take 1 s @ ''two''), s)) sample_storage = (Inr (Some ''Btwo''), st') \<and>
    content st' ''/d/a'' = Some ''Btwo'' \<and> ssEvents st' = ssEvents sample_storage @ [(EvModified, ''Btwo'')] \<and>
    content st' ''/d/b'' = content sample_storage ''/d/b''"
proof -
  have b: "char_of (66 :: nat) = CHR ''B''" by code_simp
  have "\<exists>st'. GuaranteedUpdate (sample_storage_env ''g'') ''/d/a'' False (\<lambda>_. None)
      (\<lambda>s. (Inr (take 1 s @ ''two''), s)) sample_storage = (Inr (Some ''Btwo''), st') \<and>
    content st' ''/d/a'' = Some ''Btwo'' \<and> ssEvents st' = ssEvents sample_storage @ [(EvModified, ''Btwo'')] \<and>
    (\<forall>k. key_path k \<noteq> key_path ''/d/a'' \<longrightarrow> content st' k = content sample_storage k)"
    by (rule guaranteed_update_applies_once [where b = "''Aone''" and cur = "''Aone''" and upd = "''Atwo''" and rv = 66])
      (simp_all add: content_def key_file_def fs_lookup_def sample_storage_def sample_paths sample_storage_env_def
        isUnchanged_def writable_def is_dir_def key_path_def b)
  moreover have "key_path ''/d/b'' \<noteq> key_path ''/d/a''" by (simp add: key_path_def key_file_def sample_paths)
  ultimately show ?thesis by blast
qed

text \<open>
  C24. An update that checks the resource version is applied and then reported as failed: the
  loop of \<open>GuaranteedUpdate\<close> goes on after a successful write, so the check sees the version
  just generated, fails on each remaining attempt, and the caller gets the conflict although
  the object was written and the event sent.
\<close>

theorem versioned_update_applied_but_fails:
  assumes "content st key = Some b" and "seDecode env b = Inr cur" and "seObjectRV env cur = Inr v"
    and "isUnchanged env cur (f cur) = Inr False"
    and "seSnowflake env (ssGenerated st) = Inr rv" and "seSetRV env rv (f cur) = Inr w"
    and "seEncode env w = Inr bw" and "seDecode env bw = Inr w" and "writable env st key"
    and "seObjectRV env w = Inr rv" and "rv \<noteq> v"
  shows "\<exists>st'. GuaranteedUpdate env key ign (\<lambda>_. None)
      (\<lambda>x. if seObjectRV env x = Inr v then (Inr (f x), x) else (Inl (Conflict name), x)) st =
        (Inl (Conflict name), st') \<and>
    content st' key = Some bw \<and> ssEvents st' = ssEvents st @ [(EvModified, w)]"
proof -
  let ?tryU = "\<lambda>x. if seObjectRV env x = Inr v then (Inr (f x), x) else (Inl (Conflict name), x)"
  let ?st1 = "st\<lparr>ssGenerated := Suc (ssGenerated st), ssFS := fs_put (key_file key) (FileEntry bw) (ssFS st)\<rparr>"
  let ?st2 = "notifyWatchers (EvModified, w) ?st1"
  have c: "content ?st2 key = Some bw"
    using content_put [where st = st and n = "Suc (ssGenerated st)" and key = key and b = bw and k = key] by (simp add: content_def)
  have "?tryU w = (Inl (Conflict name), w)" using assms(10,11) by simp
  then have "update_loop env key ign (\<lambda>_. None) ?tryU 29 ?st2 = (Inl (Conflict name), ?st2)"
    by (intro update_loop_stuck [OF c assms(8)]) simp_all
  moreover have "GuaranteedUpdate env key ign (\<lambda>_. None) ?tryU st = update_loop env key ign (\<lambda>_. None) ?tryU 29 ?st2"
    unfolding GuaranteedUpdate_def MaxUpdateAttempts_def
    using update_loop_write [OF assms(1,2), of "\<lambda>_. None" ?tryU "f cur" cur rv w bw ign 29] assms(3-9) by simp
  ultimately show ?thesis using c by (intro exI [of _ ?st2]) simp
qed

theorem versioned_update_applied_but_fails_witness:
  "\<exists>st'. GuaranteedUpdate (sample_storage_env ''g'') ''/d/a'' False (\<lambda>_. None)
      (\<lambda>x. if seObjectRV (sample_storage_env ''g'') x = Inr 65 then (Inr (take 1 x @ ''two''), x) else (Inl (Conflict ''a''), x))
      sample_storage = (Inl (Conflict ''a''), st') \<and>
    content st' ''/d/a'' = Some ''Btwo'' \<and> ssEvents st' = ssEvents sample_storage @ [(EvModified, ''Btwo'')]"
proof -
  have b: "char_of (66 :: nat) = CHR ''B''" by code_simp
  show ?thesis
    by (rule versioned_update_applied_but_fails [where b = "''Aone''" and cur = "''Aone''" and rv = 66])
      (simp_all add: content_def key_file_def fs_lookup_def sample_storage_def sample_paths sample_storage_env_def
        isUnchanged_def writable_def is_dir_def key_path_def b)
qed

text \<open>
  An update function that changes its argument in place and returns it (as the deletion
  of a definition does) is never stored: the object before and after are the same pointer, so
  they always encode to the same bytes; the caller gets the changed object, the file and the
  watchers nothing.
\<close>

theorem in_place_update_is_lost:
  assumes "content st key = Some b" and "seDecode env b = Inr cur" and "pre cur = None"
    and "seEncode env (f cur) = Inr bf"
  shows "GuaranteedUpdate env key ign pre (\<lambda>x. (Inr (f x), f x)) st = (Inr (Some (f cur)), st)"
proof -
  have "isUnchanged env (f cur) (f cur) = Inr True" using assms(4) by (simp add: isUnchanged_def)
  then show ?thesis
    unfolding GuaranteedUpdate_def MaxUpdateAttempts_def
    by (intro update_loop_settled [where cur = cur and cur' = "f cur", OF assms(1,2)]) (simp_all add: assms(3))
qed

theorem in_place_update_is_lost_witness:
  "GuaranteedUpdate (sample_storage_env ''g'') ''/d/a'' False (\<lambda>_. None) (\<lambda>x. (Inr (x @ ''!''), x @ ''!'')) sample_storage =
    (Inr (Some ''Aone!''), sample_storage)"
proof -
  have "GuaranteedUpdate (sample_storage_env ''g'') ''/d/a'' False (\<lambda>_. None) (\<lambda>x. (Inr (x @ ''!''), x @ ''!'')) sample_storage =
      (Inr (Some (''Aone'' @ ''!'')), sample_storage)"
    by (rule in_place_update_is_lost [where b = "''Aone''"])
      (simp_all add: content_def key_file_def fs_lookup_def sample_storage_def sample_paths sample_storage_env_def)
  then show ?thesis by simp
qed

text \<open>
  A list is sound: every object returned has the type of the list and, when a resource
  version is requested, is at least that new; listing writes nothing and sends no event.
\<close>

theorem list_sound:
  assumes "GetList env key rv kind st = (Inr (items, lrv), st')"
  shows "(\<forall>x \<in> set items. listable env kind rv x) \<and> ssFS st' = ssFS st \<and> ssEvents st' = ssEvents st"
proof -
  obtain dirs where dirs: "getList_dirs env (ssFS st) kind rv dirs [] = Inr items"
    and st': "st' = st \<or> st' = snd (getResourceVersion env st)"
    using assms by (auto simp: GetList_def getResourceVersion_def split: sum.splits prod.splits if_splits)
  from dirs have "\<forall>x \<in> set items. listable env kind rv x" by (rule getList_dirs_listable) simp
  with st' show ?thesis by auto
qed

lemma sample_list:
  "GetList (sample_storage_env ''g'') ''/d'' [] UnstructuredObject sample_storage =
    (Inr ([''Aone''], 66), sample_storage\<lparr>ssGenerated := 1\<rparr>)"
  by code_simp

theorem list_sound_witness:
  "listable (sample_storage_env ''g'') UnstructuredObject [] ''Aone''"
  using list_sound [OF sample_list] by simp

text \<open>
  A list at a recent version loses objects: the requested resource version, which promises
  a view of the store at least that new, is compared with each object's own version, and an
  object last written before it is left out; at a version newer than every object the list is
  empty, without an error.
\<close>

theorem list_omits_older_objects:
  assumes "key \<noteq> seRoot env" and "rv \<noteq> []" and "seParseRV env rv = Inr m"
    and "os_ReadDir (ssFS st) key = Inr entries"
    and "\<forall>(n, entry) \<in> set entries. entry \<noteq> DirEntry \<longrightarrow>
      (\<exists>obj v. readFile env (ssFS st) (path_join [key, n]) = Inr obj \<and> seObjectRV env obj = Inr v \<and> v < m)"
  shows "GetList env key rv kind st = (Inr ([], m), st)"
  using assms(1-4) getListForDir_loop_older [OF assms(2,3,5), of kind "[]"]
  by (simp add: GetList_def getListForDir_def)

definition sample_storage2 :: "string storage_state" where
  "sample_storage2 = \<lparr>ssFS = [(''/d'', DirEntry), (''/d/n'', DirEntry), (''/d/n/a.json'', FileEntry ''Aone'')],
     ssGenerated = 0, ssEvents = []\<rparr>"

theorem list_omits_older_objects_witness:
  "GetList (sample_storage_env ''g'') ''/d/n'' ''200'' UnstructuredObject sample_storage2 = (Inr ([], 200), sample_storage2)"
proof (rule list_omits_older_objects [where entries = "[(''a.json'', FileEntry ''Aone'')]"])
  show "os_ReadDir (ssFS sample_storage2) ''/d/n'' = Inr [(''a.json'', FileEntry ''Aone'')]" by code_simp
  have "path_join [''/d/n'', ''a.json''] = ''/d/n/a.json''" "Clean ''/d/n/a.json'' = ''/d/n/a.json''" by code_simp+
  then show "\<forall>(n, entry) \<in> set [(''a.json'', FileEntry ''Aone'')]. entry \<noteq> DirEntry \<longrightarrow>
      (\<exists>obj v. readFile (sample_storage_env ''g'') (ssFS sample_storage2) (path_join [''/d/n'', n]) = Inr obj \<and>
        seObjectRV (sample_storage_env ''g'') obj = Inr v \<and> v < 200)"
    by (simp add: readFile_lookup fs_lookup_def sample_storage2_def) (simp add: sample_storage_env_def)
qed (simp_all add: sample_storage_env_def)

text \<open>
  A watch from version 0 should start with the current objects: for the defined resources
  it sends an \<open>Added\<close> event for each listed object that the selection matches, but a watch on the
  definitions themselves never starts with any event, whatever the store holds.
\<close>

theorem watch_initial_events:
  assumes "\<And>x. \<exists>b. p x = Inr b" and "rv = ''0''"
    and "GetList env key rv UnstructuredObject st = (Inr (items, lrv), st1)"
  shows "(seGroup env \<noteq> ''kinds.grafana.com'' \<longrightarrow>
      Watch env key p rv st = (Inr (map (Pair EvAdded) (filter (\<lambda>x. p x = Inr True) items)), st1)) \<and>
    (seGroup env = ''kinds.grafana.com'' \<longrightarrow> (\<forall>evs. fst (Watch env key p rv st) = Inr evs \<longrightarrow> evs = []))"
proof -
  have "fst (Watch env key p rv st) = Inr evs \<Longrightarrow> seGroup env = ''kinds.grafana.com'' \<Longrightarrow> evs = []" for evs
    by (auto simp: Watch_def getItems_def Let_def split: prod.splits sum.splits if_splits)
  then show ?thesis
    using assms init_events_filter [of items p "[]"]
    by (auto simp: Watch_def getItems_def Let_def)
qed

theorem watch_initial_events_witness:
  "Watch (sample_storage_env ''g'') ''/d'' (\<lambda>_. Inr True) ''0'' sample_storage = (Inr [(EvAdded, ''Aone'')], sample_storage)"
proof -
  have l: "GetList (sample_storage_env ''g'') ''/d'' ''0'' UnstructuredObject sample_storage =
      (Inr ([''Aone''], 0), sample_storage)" by code_simp
  have "seGroup (sample_storage_env ''g'') = ''g''" by (simp add: sample_storage_env_def)
  moreover have "\<And>x :: string. \<exists>b. (Inr True :: go_error + bool) = Inr b" by blast
  ultimately show ?thesis using watch_initial_events [OF _ refl l, of "\<lambda>_. Inr True"] by simp
qed

end
