(* ===== verification/GrdRegistry.thy ===== *)
theory GrdRegistry
  imports FilePathStorage
begin

text \<open>
  The REST storage of the definitions, \<open>pkg/registry/grafanaresourcedefinition\<close>: the strategies
  (\<open>strategy.go\<close>) and the deletion that marks a definition instead of removing it
  (\<open>storage.go\<close>), on the file storage. \<open>Semantic.DeepEqual\<close>, \<open>ResetObjectMetaForStatus\<close>, the
  preconditions' check and the generic store's \<open>Delete\<close> are Kubernetes code and parameters.
\<close>

section \<open>strategy.go\<close>

text \<open>The loop over the versions: the first storage version is recorded as stored.\<close>

definition record_stored :: "kinds_GRD \<Rightarrow> kinds_GRD" where
  "record_stored grd =
    (case List.find vStorage (kVersions (gSpec grd)) of
       None \<Rightarrow> grd
     | Some v \<Rightarrow>
         if \<not> kinds_IsStoredVersion grd (vName v)
         then grd\<lparr>gStatus := (gStatus grd)\<lparr>stStoredVersions := stStoredVersions (gStatus grd) @ [vName v]\<rparr>\<rparr>
         else grd)"

definition grd_PrepareForCreate :: "kinds_GRD \<Rightarrow> kinds_GRD" where
  "grd_PrepareForCreate grd =
    record_stored (grd\<lparr>gStatus := empty_status, gMeta := (gMeta grd)\<lparr>mGeneration := 1\<rparr>\<rparr>)"

definition grd_PrepareForUpdate ::
  "(kinds_GrafanaResourceDefinitionSpec \<Rightarrow> kinds_GrafanaResourceDefinitionSpec \<Rightarrow> bool) \<Rightarrow>
   kinds_GRD \<Rightarrow> kinds_GRD \<Rightarrow> kinds_GRD" where
  "grd_PrepareForUpdate semantic_equal newGRD oldGRD =
    (let g1 = newGRD\<lparr>gStatus := gStatus oldGRD\<rparr>;
         g2 = (if \<not> semantic_equal (gSpec oldGRD) (gSpec g1)
               then g1\<lparr>gMeta := (gMeta g1)\<lparr>mGeneration := mGeneration (gMeta oldGRD) + 1\<rparr>\<rparr> else g1)
     in record_stored g2)"

text \<open>Neither creating nor updating a definition is ever refused.\<close>

definition grd_Validate :: "kinds_GRD \<Rightarrow> string list" where "grd_Validate obj = []"
definition grd_ValidateUpdate :: "kinds_GRD \<Rightarrow> kinds_GRD \<Rightarrow> string list" where
  "grd_ValidateUpdate obj old = []"

text \<open>The status strategy passes the new object's metadata as both arguments of the reset.\<close>

definition grd_status_PrepareForUpdate ::
  "(ObjectMeta \<Rightarrow> ObjectMeta \<Rightarrow> ObjectMeta) \<Rightarrow> kinds_GRD \<Rightarrow> kinds_GRD \<Rightarrow> kinds_GRD" where
  "grd_status_PrepareForUpdate resetObjectMetaForStatus newObj oldObj =
    newObj\<lparr>gSpec := gSpec oldObj, gMeta := resetObjectMetaForStatus (gMeta newObj) (gMeta newObj)\<rparr>"

text \<open>The fields a watch or a list can select on, with the labels.\<close>

definition GrafanaResourceDefinitionToSelectableFields :: "kinds_GRD \<Rightarrow> (string \<times> string) list" where
  "GrafanaResourceDefinitionToSelectableFields obj =
    [(''metadata.name'', mName (gMeta obj)), (''metadata.namespace'', mNamespace (gMeta obj))]"

definition grd_GetAttrs :: "kinds_GRD \<Rightarrow> (string \<times> string) list \<times> (string \<times> string) list" where
  "grd_GetAttrs obj = (mLabels (gMeta obj), GrafanaResourceDefinitionToSelectableFields obj)"

section \<open>storage.go\<close>

text \<open>What the update function of \<open>Delete\<close> does to the definition, in place.\<close>

definition mark_deleted :: "time \<Rightarrow> time \<Rightarrow> kinds_GRD \<Rightarrow> kinds_GRD" where
  "mark_deleted now now' grd =
    (let g1 = (if deletion_is_zero (gMeta grd)
               then grd\<lparr>gMeta := (gMeta grd)\<lparr>mDeletionTimestamp := Some now\<rparr>\<rparr> else grd);
         g2 = (if \<not> kinds_GRDHasFinalizer g1 GrafanaResourceCleanupFinalizer
               then g1\<lparr>gMeta := (gMeta g1)\<lparr>mFinalizers := mFinalizers (gMeta g1) @ [GrafanaResourceCleanupFinalizer]\<rparr>\<rparr>
               else g1)
     in kinds_SetGRDCondition now' g2
          (mk_cond Terminating ConditionTrue ''InstanceDeletionPending''
             ''GrafanaResourceDefinition marked for deletion; GrafanaResource deletion will begin soon''))"

definition delete_update ::
  "(kinds_GRD \<Rightarrow> go_error option) \<Rightarrow> time \<Rightarrow> time \<Rightarrow> kinds_GRD \<Rightarrow> (go_error + kinds_GRD) \<times> kinds_GRD" where
  "delete_update deleteValidation now now' existing =
    (case deleteValidation existing of
       Some err \<Rightarrow> (Inl err, existing)
     | None \<Rightarrow> (Inr (mark_deleted now now' existing), mark_deleted now now' existing))"

record delete_env =
  rdStorage :: "kinds_GRD storage_env"
  rdCheck :: "string \<Rightarrow> string option \<Rightarrow> kinds_GRD \<Rightarrow> go_error option"
  rdInterpret :: "go_error \<Rightarrow> go_error"
  rdDryRun :: "string \<Rightarrow> (kinds_GRD \<Rightarrow> go_error option) \<Rightarrow> (kinds_GRD \<Rightarrow> (go_error + kinds_GRD) \<times> kinds_GRD) \<Rightarrow>
    kinds_GRD storage_state \<Rightarrow> go_error + kinds_GRD option"
  rdStoreDelete :: "string \<Rightarrow> kinds_GRD storage_state \<Rightarrow> (go_error + kinds_GRD \<times> bool) \<times> kinds_GRD storage_state"

text \<open>
  \<open>Delete\<close>, for the object \<open>r.Get\<close> answered and its storage key. The options are the UID and
  resource version preconditions; a new object is returned when the update leaves \<open>out\<close> alone. A
  dry run is carried out by the Kubernetes wrapper of the store, \<open>rdDryRun\<close>, on the store it reads.
\<close>

definition grd_Delete ::
  "delete_env \<Rightarrow> go_error + kinds_GRD \<Rightarrow> string \<Rightarrow> string \<Rightarrow> string option \<Rightarrow> string option \<Rightarrow>
   (kinds_GRD \<Rightarrow> go_error option) \<Rightarrow> bool \<Rightarrow> time \<Rightarrow> time \<Rightarrow> kinds_GRD storage_state \<Rightarrow>
   (go_error + kinds_GRD \<times> bool) \<times> kinds_GRD storage_state" where
  "grd_Delete env got name key preUID preRV deleteValidation dryRun now now' st =
    (case got of
       Inl err \<Rightarrow> (Inl err, st)
     | Inr grd \<Rightarrow>
         let uid = (case preUID of None \<Rightarrow> mUID (gMeta grd) | Some u \<Rightarrow> u) in
         if uid \<noteq> mUID (gMeta grd) then (Inl (Conflict name), st)
         else if (case preRV of None \<Rightarrow> False | Some rv \<Rightarrow> rv \<noteq> mResourceVersion (gMeta grd)) then (Inl (Conflict name), st)
         else if deletion_is_zero (gMeta grd) then
           (case (if dryRun then (rdDryRun env key (rdCheck env uid preRV) (delete_update deleteValidation now now') st, st)
                  else GuaranteedUpdate (rdStorage env) key False (rdCheck env uid preRV)
                         (delete_update deleteValidation now now') st) of
              (Inl err, st') \<Rightarrow> (Inl (rdInterpret env err), st')
            | (Inr None, st') \<Rightarrow> (Inr (seNew (rdStorage env), False), st')
            | (Inr (Some out), st') \<Rightarrow> (Inr (out, False), st'))
         else rdStoreDelete env name st)"

section \<open>Lemmas\<close>

lemma record_stored_frame [simp]:
  "gSpec (record_stored g) = gSpec g" "gMeta (record_stored g) = gMeta g"
  "accepted (record_stored g) = accepted g" "conditions (record_stored g) = conditions g"
  by (simp_all add: record_stored_def split: option.split)

lemma record_stored_versions:
  "set (stStoredVersions (gStatus (record_stored g))) =
    set (stStoredVersions (gStatus g)) \<union>
    (case List.find vStorage (kVersions (gSpec g)) of None \<Rightarrow> {} | Some v \<Rightarrow> {vName v})"
  by (auto simp: record_stored_def kinds_IsStoredVersion_def list_ex_iff split: option.split)

lemma record_stored_distinct:
  "distinct (stStoredVersions (gStatus g)) \<Longrightarrow> distinct (stStoredVersions (gStatus (record_stored g)))"
  by (auto simp: record_stored_def kinds_IsStoredVersion_def list_ex_iff split: option.split)

lemma mark_deleted_sel:
  "\<not> IsZero now \<Longrightarrow> \<not> deletion_is_zero (gMeta (mark_deleted now now' g))"
  "kinds_GRDHasFinalizer (mark_deleted now now' g) GrafanaResourceCleanupFinalizer"
  "map_option cStatus (kinds_FindGRDCondition (mark_deleted now now' g) Terminating) = Some ConditionTrue"
  by (auto simp: mark_deleted_def Let_def kinds_helpers_eq deletion_is_zero_def IsZero_def GRDHasFinalizer_iff
      v1_conds.find_set split: option.splits)

section \<open>Properties\<close>

text \<open>
  The strategies own the status and the generation: a created definition starts with no
  conditions, no accepted names and generation 1 whatever the user sent; an update keeps the
  old conditions and accepted names and counts the generation up exactly when the spec changes;
  both record the storage version as stored, never drop a stored version and never store one
  twice.
\<close>

theorem strategy_owns_status:
  assumes "distinct (stStoredVersions (gStatus old))"
  shows "conditions (grd_PrepareForCreate g) = [] \<and> accepted (grd_PrepareForCreate g) = empty_names \<and>
    mGeneration (gMeta (grd_PrepareForCreate g)) = 1 \<and> gSpec (grd_PrepareForCreate g) = gSpec g \<and>
    (let u = grd_PrepareForUpdate eq g old in
      conditions u = conditions old \<and> accepted u = accepted old \<and> gSpec u = gSpec g \<and>
      mGeneration (gMeta u) = (if eq (gSpec old) (gSpec g) then mGeneration (gMeta g) else mGeneration (gMeta old) + 1) \<and>
      set (stStoredVersions (gStatus old)) \<subseteq> set (stStoredVersions (gStatus u)) \<and>
      distinct (stStoredVersions (gStatus u)) \<and>
      (\<forall>v. List.find vStorage (kVersions (gSpec g)) = Some v \<longrightarrow>
         vName v \<in> set (stStoredVersions (gStatus u)) \<and>
         stStoredVersions (gStatus (grd_PrepareForCreate g)) = [vName v]))"
proof -
  have stored: "stStoredVersions (gStatus (grd_PrepareForCreate g)) = [vName v]"
    if "List.find vStorage (kVersions (gSpec g)) = Some v" for v
    using that by (simp add: grd_PrepareForCreate_def record_stored_def kinds_IsStoredVersion_def empty_status_def)
  show ?thesis
    using assms stored
    by (simp add: grd_PrepareForCreate_def grd_PrepareForUpdate_def Let_def record_stored_versions
        record_stored_distinct) (simp add: empty_status_def)
qed

definition sample_internal :: kinds_GRD where
  "sample_internal = \<lparr>gMeta = sample_meta ''ds.g.io'',
     gSpec = \<lparr>kGroup = ''g.io'', kVersion = [], kNames = sample_names ''ds'' ''D'', kScope = NamespaceScoped,
       kSubresources = None, kVersions = [sample_version ''v1'' True True], kPreserveUnknownFields = None\<rparr>,
     gStatus = empty_status\<lparr>stStoredVersions := [''v0'']\<rparr>\<rparr>"

theorem strategy_owns_status_witness:
  "stStoredVersions (gStatus (grd_PrepareForCreate sample_internal)) = [''v1'']"
proof -
  have "distinct (stStoredVersions (gStatus sample_internal))" by (simp add: sample_internal_def)
  from strategy_owns_status [OF this, of sample_internal "(=)"] show ?thesis
    by (simp add: Let_def) (simp add: sample_internal_def sample_version_def)
qed

text \<open>
  C25. Deleting a definition is reported but not done: when the definition is stored and all
  checks pass, \<open>Delete\<close> answers with an object that is marked (deletion time, cleanup finalizer,
  \<open>Terminating\<close>), but the file, and so every later read and the finalizer controller, still
  have the unmarked one, and no event is sent.
\<close>

theorem delete_reported_but_not_stored:
  assumes "content st key = Some b" and "seDecode (rdStorage env) b = Inr grd"
    and "deletion_is_zero (gMeta grd)" and "rdCheck env (mUID (gMeta grd)) None grd = None"
    and "deleteValidation grd = None" and "\<not> IsZero now"
    and "seEncode (rdStorage env) (mark_deleted now now' grd) = Inr b'"
  shows "\<exists>out. grd_Delete env (Inr grd) name key None None deleteValidation False now now' st = (Inr (out, False), st) \<and>
    \<not> deletion_is_zero (gMeta out) \<and> kinds_GRDHasFinalizer out GrafanaResourceCleanupFinalizer \<and>
    readFile (rdStorage env) (ssFS st) (key_file key) = Inr grd"
proof -
  let ?out = "mark_deleted now now' grd"
  have "isUnchanged (rdStorage env) ?out ?out = Inr True" using assms(7) by (simp add: isUnchanged_def)
  then have "GuaranteedUpdate (rdStorage env) key False (rdCheck env (mUID (gMeta grd)) None)
      (delete_update deleteValidation now now') st = (Inr (Some ?out), st)"
    unfolding GuaranteedUpdate_def MaxUpdateAttempts_def
    by (intro update_loop_settled [where cur = grd and cur' = "?out", OF assms(1,2)])
      (simp_all add: assms(4,5) delete_update_def)
  then have "grd_Delete env (Inr grd) name key None None deleteValidation False now now' st = (Inr (?out, False), st)"
    using assms(3) by (simp add: grd_Delete_def)
  moreover have "readFile (rdStorage env) (ssFS st) (key_file key) = Inr grd"
    using readFile_content [OF assms(1), of "rdStorage env"] assms(2) by simp
  ultimately show ?thesis using mark_deleted_sel [of now now' grd] assms(6) by blast
qed

text \<open>A store that holds one definition, under the bytes \<open>g\<close>.\<close>

definition sample_delete_env :: delete_env where
  "sample_delete_env = \<lparr>rdStorage = \<lparr>seRoot = ''/d'', seGroup = ''kinds.grafana.com'', seEncode = (\<lambda>_. Inr ''g''),
       seDecode = (\<lambda>_. Inr sample_internal), seNew = sample_internal, seZero = sample_internal,
       seObjectRV = (\<lambda>_. Inr 1), seSetRV = (\<lambda>_. Inr), seParseRV = (\<lambda>_. Inr 0), seKind = (\<lambda>_. InternalDefinition),
       seSnowflake = (\<lambda>_. Inr 2), seFault = (\<lambda>_. None)\<rparr>,
     rdCheck = (\<lambda>_ _ _. None), rdInterpret = id, rdDryRun = (\<lambda>_ _ _ _. Inr None), rdStoreDelete = (\<lambda>n st. (Inl (NotFound n), st))\<rparr>"

definition sample_grd_storage :: "kinds_GRD storage_state" where
  "sample_grd_storage = \<lparr>ssFS = [(''/d'', DirEntry), (''/d/a.json'', FileEntry ''g'')], ssGenerated = 0, ssEvents = []\<rparr>"

theorem delete_reported_but_not_stored_witness:
  "\<exists>out. grd_Delete sample_delete_env (Inr sample_internal) ''ds.g.io'' ''/d/a'' None None (\<lambda>_. None) False 5 5
      sample_grd_storage = (Inr (out, False), sample_grd_storage) \<and> \<not> deletion_is_zero (gMeta out) \<and>
    kinds_GRDHasFinalizer out GrafanaResourceCleanupFinalizer \<and>
    readFile (rdStorage sample_delete_env) (ssFS sample_grd_storage) (key_file ''/d/a'') = Inr sample_internal"
  by (rule delete_reported_but_not_stored [where b = "''g''" and b' = "''g''"])
    (simp_all add: content_def key_file_def fs_lookup_def sample_grd_storage_def sample_paths sample_delete_env_def
      sample_internal_def sample_meta_def deletion_is_zero_def IsZero_def)

text \<open>
  A status update can do more than its comment says: it never changes the spec, but it
  takes over all the metadata of the request (labels, annotations, finalizers), because the
  reset is given the new metadata twice.
\<close>

theorem status_update_keeps_new_metadata:
  assumes "\<And>m. reset m m = m"
  shows "grd_status_PrepareForUpdate reset newObj oldObj = newObj\<lparr>gSpec := gSpec oldObj\<rparr>"
  using assms by (simp add: grd_status_PrepareForUpdate_def)

theorem status_update_keeps_new_metadata_witness:
  "gMeta (grd_status_PrepareForUpdate
      (\<lambda>m old. m\<lparr>mFinalizers := mFinalizers old, mLabels := mLabels old, mAnnotations := mAnnotations old\<rparr>)
      (sample_internal\<lparr>gMeta := (sample_meta ''x'')\<lparr>mFinalizers := [''f'']\<rparr>\<rparr>) sample_internal) =
    (sample_meta ''x'')\<lparr>mFinalizers := [''f'']\<rparr>"
  using status_update_keeps_new_metadata [of "\<lambda>m old. m\<lparr>mFinalizers := mFinalizers old, mLabels := mLabels old,
      mAnnotations := mAnnotations old\<rparr>"] by simp

end
