(* ===== verification/Conversion.thy ===== *)
theory Conversion
  imports GrdHelpers
begin

text \<open>
  Defaulting and version conversion: \<open>pkg/apis/kinds/v1/defaults.go\<close>,
  \<open>zz_generated.defaults.go\<close>, \<open>conversion.go\<close> and \<open>zz_generated.conversion.go\<close>.

  A conversion fills an existing \<open>out\<close> and leaves the fields it does not assign. The functions
  \<open>metav1.Convert_bool_To_Pointer_bool\<close> and \<open>metav1.Convert_Pointer_bool_To_bool\<close> are the
  parameters \<open>b2p\<close> and \<open>p2b\<close>. The generated code casts the slice of versions of the internal
  spec to the slice of the v1 spec, so both share one array: what the handwritten conversion
  then writes into \<open>out.Versions\<close> is written into \<open>in.Versions\<close> as well. That is why the
  conversion returns its input too.
\<close>

section \<open>Defaults\<close>

definition SetDefaults_GrafanaResourceDefinitionSpec ::
  "GrafanaResourceDefinitionSpec \<Rightarrow> GrafanaResourceDefinitionSpec" where
  "SetDefaults_GrafanaResourceDefinitionSpec obj =
    (let names0 = sNames obj;
         names1 = (if length (Singular names0) = 0
                   then names0\<lparr>Singular := ToLower (Kind names0)\<rparr> else names0);
         names2 = (if length (ListKind names1) = 0 \<and> length (Kind names1) > 0
                   then names1\<lparr>ListKind := Kind names1 @ ''List''\<rparr> else names1)
     in obj\<lparr>sNames := names2\<rparr>)"

definition SetDefaults_GrafanaResourceDefinition :: "GRD \<Rightarrow> GRD" where
  "SetDefaults_GrafanaResourceDefinition obj0 =
    (let obj = obj0\<lparr>gSpec := SetDefaults_GrafanaResourceDefinitionSpec (gSpec obj0)\<rparr> in
     if length (stStoredVersions (gStatus obj)) = 0
     then (case List.find vStorage (sVersions (gSpec obj)) of
             None \<Rightarrow> obj
           | Some v \<Rightarrow> obj\<lparr>gStatus := (gStatus obj)
               \<lparr>stStoredVersions := stStoredVersions (gStatus obj) @ [vName v]\<rparr>\<rparr>)
     else obj)"

definition SetObjectDefaults_GrafanaResourceDefinition :: "GRD \<Rightarrow> GRD" where
  "SetObjectDefaults_GrafanaResourceDefinition in0 =
    (let in1 = SetDefaults_GrafanaResourceDefinition in0
     in in1\<lparr>gSpec := SetDefaults_GrafanaResourceDefinitionSpec (gSpec in1)\<rparr>)"

definition SetObjectDefaults_GrafanaResourceDefinitionList ::
  "GrafanaResourceDefinitionSpec GrafanaResourceDefinitionList \<Rightarrow>
   GrafanaResourceDefinitionSpec GrafanaResourceDefinitionList" where
  "SetObjectDefaults_GrafanaResourceDefinitionList l =
    l\<lparr>lItems := map_option (map SetObjectDefaults_GrafanaResourceDefinition) (lItems l)\<rparr>"

lemma SetDefaults_Spec_idem:
  "SetDefaults_GrafanaResourceDefinitionSpec (SetDefaults_GrafanaResourceDefinitionSpec s) =
   SetDefaults_GrafanaResourceDefinitionSpec s"
  by (simp add: SetDefaults_GrafanaResourceDefinitionSpec_def Let_def)

lemma SetDefaults_Spec_frame [simp]:
  "sVersions (SetDefaults_GrafanaResourceDefinitionSpec s) = sVersions s"
  "sGroup (SetDefaults_GrafanaResourceDefinitionSpec s) = sGroup s"
  by (simp_all add: SetDefaults_GrafanaResourceDefinitionSpec_def Let_def)

lemma SetDefaults_GRD_spec [simp]:
  "gSpec (SetDefaults_GrafanaResourceDefinition g) =
    SetDefaults_GrafanaResourceDefinitionSpec (gSpec g)"
  by (simp add: SetDefaults_GrafanaResourceDefinition_def Let_def split: option.split)

lemma SetDefaults_Spec_names:
  assumes "Kind (sNames s) \<noteq> []"
  shows "Singular (sNames (SetDefaults_GrafanaResourceDefinitionSpec s)) \<noteq> []"
    and "ListKind (sNames (SetDefaults_GrafanaResourceDefinitionSpec s)) \<noteq> []"
  using assms
  by (cases "Singular (sNames s) = []"; cases "ListKind (sNames s) = []";
      simp add: SetDefaults_GrafanaResourceDefinitionSpec_def Let_def)+

lemma SetObjectDefaults_eq:
  "SetObjectDefaults_GrafanaResourceDefinition g = SetDefaults_GrafanaResourceDefinition g"
  by (simp add: SetObjectDefaults_GrafanaResourceDefinition_def Let_def SetDefaults_Spec_idem)

lemma SetDefaults_GRD_idem:
  "SetDefaults_GrafanaResourceDefinition (SetDefaults_GrafanaResourceDefinition g) =
   SetDefaults_GrafanaResourceDefinition g"
  by (simp add: SetDefaults_GrafanaResourceDefinition_def Let_def SetDefaults_Spec_idem
      split: option.split)

section \<open>Generated conversions\<close>

definition autoConvert_v1_Names_To_kinds_Names ::
  "GrafanaResourceDefinitionNames \<Rightarrow> GrafanaResourceDefinitionNames \<Rightarrow> GrafanaResourceDefinitionNames" where
  "autoConvert_v1_Names_To_kinds_Names inp out =
    out\<lparr>Plural := Plural inp, Singular := Singular inp, ShortNames := ShortNames inp,
        Kind := Kind inp, ListKind := ListKind inp, Categories := Categories inp\<rparr>"

definition autoConvert_kinds_Names_To_v1_Names ::
  "GrafanaResourceDefinitionNames \<Rightarrow> GrafanaResourceDefinitionNames \<Rightarrow> GrafanaResourceDefinitionNames" where
  "autoConvert_kinds_Names_To_v1_Names inp out =
    out\<lparr>Plural := Plural inp, Singular := Singular inp, ShortNames := ShortNames inp,
        Kind := Kind inp, ListKind := ListKind inp, Categories := Categories inp\<rparr>"

definition autoConvert_kinds_Subresources_To_v1_Subresources ::
  "GrafanaResourceSubresources \<Rightarrow> GrafanaResourceSubresources \<Rightarrow> GrafanaResourceSubresources" where
  "autoConvert_kinds_Subresources_To_v1_Subresources inp out =
    out\<lparr>subStatus := subStatus inp, subScale := subScale inp, subHistory := subHistory inp,
        subRef := subRef inp\<rparr>"

definition autoConvert_v1_Status_To_kinds_Status ::
  "GrafanaResourceDefinitionStatus \<Rightarrow> GrafanaResourceDefinitionStatus \<Rightarrow>
   GrafanaResourceDefinitionStatus" where
  "autoConvert_v1_Status_To_kinds_Status inp out =
    out\<lparr>stConditions := stConditions inp,
        stAcceptedNames :=
          autoConvert_v1_Names_To_kinds_Names (stAcceptedNames inp) (stAcceptedNames out),
        stStoredVersions := stStoredVersions inp\<rparr>"

definition autoConvert_kinds_Status_To_v1_Status ::
  "GrafanaResourceDefinitionStatus \<Rightarrow> GrafanaResourceDefinitionStatus \<Rightarrow>
   GrafanaResourceDefinitionStatus" where
  "autoConvert_kinds_Status_To_v1_Status inp out =
    out\<lparr>stConditions := stConditions inp,
        stAcceptedNames :=
          autoConvert_kinds_Names_To_v1_Names (stAcceptedNames inp) (stAcceptedNames out),
        stStoredVersions := stStoredVersions inp\<rparr>"

text \<open>\<open>Version\<close> and \<open>Subresources\<close> of the internal spec are not assigned.\<close>

definition autoConvert_v1_Spec_To_kinds_Spec ::
  "(bool \<Rightarrow> go_error + bool option) \<Rightarrow> GrafanaResourceDefinitionSpec \<Rightarrow>
   kinds_GrafanaResourceDefinitionSpec \<Rightarrow> go_error + kinds_GrafanaResourceDefinitionSpec" where
  "autoConvert_v1_Spec_To_kinds_Spec b2p inp out =
    (case b2p (sPreserveUnknownFields inp) of
       Inl err \<Rightarrow> Inl err
     | Inr p \<Rightarrow> Inr (out\<lparr>kGroup := sGroup inp,
         kNames := autoConvert_v1_Names_To_kinds_Names (sNames inp) (kNames out),
         kScope := sScope inp, kVersions := sVersions inp, kPreserveUnknownFields := p\<rparr>))"

definition autoConvert_kinds_Spec_To_v1_Spec ::
  "(bool option \<Rightarrow> go_error + bool) \<Rightarrow> kinds_GrafanaResourceDefinitionSpec \<Rightarrow>
   GrafanaResourceDefinitionSpec \<Rightarrow> go_error + GrafanaResourceDefinitionSpec" where
  "autoConvert_kinds_Spec_To_v1_Spec p2b inp out =
    (case p2b (kPreserveUnknownFields inp) of
       Inl err \<Rightarrow> Inl err
     | Inr b \<Rightarrow> Inr (out\<lparr>sGroup := kGroup inp,
         sNames := autoConvert_kinds_Names_To_v1_Names (kNames inp) (sNames out),
         sScope := kScope inp, sVersions := kVersions inp, sPreserveUnknownFields := b\<rparr>))"

section \<open>The handwritten conversion\<close>

definition empty_subresources :: GrafanaResourceSubresources where
  "empty_subresources = \<lparr>subStatus = None, subScale = None, subHistory = None, subRef = None\<rparr>"

definition versions_from_version :: "string \<Rightarrow> GrafanaResourceDefinitionVersion list" where
  "versions_from_version name =
    [\<lparr>vName = name, vServed = True, vStorage = True, vDeprecated = False,
      vDeprecationWarning = None, vSubresources = None\<rparr>]"

text \<open>The result is the input as the call leaves it, and the output.\<close>

definition Convert_kinds_Spec_To_v1_Spec ::
  "(bool option \<Rightarrow> go_error + bool) \<Rightarrow> kinds_GrafanaResourceDefinitionSpec \<Rightarrow>
   GrafanaResourceDefinitionSpec \<Rightarrow>
   go_error + kinds_GrafanaResourceDefinitionSpec \<times> GrafanaResourceDefinitionSpec" where
  "Convert_kinds_Spec_To_v1_Spec p2b inp out0 =
    (case autoConvert_kinds_Spec_To_v1_Spec p2b inp out0 of
       Inl err \<Rightarrow> Inl err
     | Inr out \<Rightarrow>
         let fresh = length (sVersions out) = 0 \<and> length (kVersion inp) > 0;
             out1 = (if fresh then out\<lparr>sVersions := versions_from_version (kVersion inp)\<rparr> else out)
         in case kSubresources inp of
              None \<Rightarrow> Inr (inp, out1)
            | Some sub \<Rightarrow>
                let subresources =
                      autoConvert_kinds_Subresources_To_v1_Subresources sub empty_subresources;
                    versions = map (\<lambda>v. v\<lparr>vSubresources := Some subresources\<rparr>) (sVersions out1)
                in Inr (if fresh then inp else inp\<lparr>kVersions := versions\<rparr>,
                        out1\<lparr>sVersions := versions\<rparr>))"

definition Convert_v1_GRD_To_kinds_GRD ::
  "(bool \<Rightarrow> go_error + bool option) \<Rightarrow> GRD \<Rightarrow> kinds_GRD \<Rightarrow> go_error + kinds_GRD" where
  "Convert_v1_GRD_To_kinds_GRD b2p inp out =
    (case autoConvert_v1_Spec_To_kinds_Spec b2p (gSpec inp) (gSpec out) of
       Inl err \<Rightarrow> Inl err
     | Inr spec \<Rightarrow> Inr (out\<lparr>gMeta := gMeta inp, gSpec := spec,
         gStatus := autoConvert_v1_Status_To_kinds_Status (gStatus inp) (gStatus out)\<rparr>))"

definition Convert_kinds_GRD_To_v1_GRD ::
  "(bool option \<Rightarrow> go_error + bool) \<Rightarrow> kinds_GRD \<Rightarrow> GRD \<Rightarrow> go_error + kinds_GRD \<times> GRD" where
  "Convert_kinds_GRD_To_v1_GRD p2b inp out =
    (case Convert_kinds_Spec_To_v1_Spec p2b (gSpec inp) (gSpec out) of
       Inl err \<Rightarrow> Inl err
     | Inr (ispec, spec) \<Rightarrow> Inr (inp\<lparr>gSpec := ispec\<rparr>,
         out\<lparr>gMeta := gMeta inp, gSpec := spec,
             gStatus := autoConvert_kinds_Status_To_v1_Status (gStatus inp) (gStatus out)\<rparr>))"

text \<open>Lists convert item by item, stopping at the first error; a nil slice stays nil.\<close>

fun convert_items :: "('a \<Rightarrow> go_error + 'b) \<Rightarrow> 'a list \<Rightarrow> go_error + 'b list" where
  "convert_items f [] = Inr []"
| "convert_items f (x # xs) =
    (case f x of
       Inl err \<Rightarrow> Inl err
     | Inr y \<Rightarrow> (case convert_items f xs of Inl err \<Rightarrow> Inl err | Inr ys \<Rightarrow> Inr (y # ys)))"

definition autoConvert_v1_GRDList_To_kinds_GRDList ::
  "(bool \<Rightarrow> go_error + bool option) \<Rightarrow> kinds_GRD \<Rightarrow>
   GrafanaResourceDefinitionSpec GrafanaResourceDefinitionList \<Rightarrow>
   go_error + kinds_GrafanaResourceDefinitionSpec GrafanaResourceDefinitionList" where
  "autoConvert_v1_GRDList_To_kinds_GRDList b2p zero inp =
    (case lItems inp of
       None \<Rightarrow> Inr \<lparr>lResourceVersion = lResourceVersion inp, lItems = None\<rparr>
     | Some items \<Rightarrow>
         (case convert_items (\<lambda>x. Convert_v1_GRD_To_kinds_GRD b2p x zero) items of
            Inl err \<Rightarrow> Inl err
          | Inr ys \<Rightarrow> Inr \<lparr>lResourceVersion = lResourceVersion inp, lItems = Some ys\<rparr>))"

definition autoConvert_kinds_GRDList_To_v1_GRDList ::
  "(bool option \<Rightarrow> go_error + bool) \<Rightarrow> GRD \<Rightarrow>
   kinds_GrafanaResourceDefinitionSpec GrafanaResourceDefinitionList \<Rightarrow>
   go_error + GrafanaResourceDefinitionSpec GrafanaResourceDefinitionList" where
  "autoConvert_kinds_GRDList_To_v1_GRDList p2b zero inp =
    (case lItems inp of
       None \<Rightarrow> Inr \<lparr>lResourceVersion = lResourceVersion inp, lItems = None\<rparr>
     | Some items \<Rightarrow>
         (case convert_items (\<lambda>x. map_sum id snd (Convert_kinds_GRD_To_v1_GRD p2b x zero)) items of
            Inl err \<Rightarrow> Inl err
          | Inr ys \<Rightarrow> Inr \<lparr>lResourceVersion = lResourceVersion inp, lItems = Some ys\<rparr>))"

text \<open>The zero values that the conversion machinery and \<open>make\<close> start from.\<close>

definition zero_meta :: ObjectMeta where
  "zero_meta = \<lparr>mName = [], mNamespace = [], mUID = [], mResourceVersion = [], mGeneration = 0,
     mCreationTimestamp = 0, mDeletionTimestamp = None, mLabels = [], mAnnotations = [],
     mFinalizers = []\<rparr>"

definition zero_kinds_grd :: kinds_GRD where
  "zero_kinds_grd = \<lparr>gMeta = zero_meta,
     gSpec = \<lparr>kGroup = [], kVersion = [], kNames = empty_names, kScope = [], kSubresources = None,
              kVersions = [], kPreserveUnknownFields = None\<rparr>,
     gStatus = empty_status\<rparr>"

definition zero_grd :: GRD where
  "zero_grd = \<lparr>gMeta = zero_meta,
     gSpec = \<lparr>sGroup = [], sNames = empty_names, sScope = [], sVersions = [],
              sPreserveUnknownFields = False\<rparr>,
     gStatus = empty_status\<rparr>"

section \<open>Lemmas\<close>

lemma convert_names_copy [simp]:
  "autoConvert_v1_Names_To_kinds_Names n out = n"
  "autoConvert_kinds_Names_To_v1_Names n out = n"
  by (simp_all add: autoConvert_v1_Names_To_kinds_Names_def autoConvert_kinds_Names_To_v1_Names_def)

lemma convert_status_copy [simp]:
  "autoConvert_v1_Status_To_kinds_Status s out = s"
  "autoConvert_kinds_Status_To_v1_Status s out = s"
  by (simp_all add: autoConvert_v1_Status_To_kinds_Status_def
      autoConvert_kinds_Status_To_v1_Status_def)

lemma convert_subresources_copy [simp]:
  "autoConvert_kinds_Subresources_To_v1_Subresources s out = s"
  by (simp add: autoConvert_kinds_Subresources_To_v1_Subresources_def)

lemmas conversion_defs =
  autoConvert_v1_Spec_To_kinds_Spec_def autoConvert_kinds_Spec_To_v1_Spec_def
  Convert_kinds_Spec_To_v1_Spec_def Convert_v1_GRD_To_kinds_GRD_def Convert_kinds_GRD_To_v1_GRD_def

lemma roundtrip_grd:
  assumes "b2p (sPreserveUnknownFields (gSpec g)) = Inr p" and "p2b p = Inr (sPreserveUnknownFields (gSpec g))"
  shows "\<exists>kg. Convert_v1_GRD_To_kinds_GRD b2p g zero_kinds_grd = Inr kg \<and>
    Convert_kinds_GRD_To_v1_GRD p2b kg zero_grd = Inr (kg, g)"
  using assms by (simp add: conversion_defs Let_def zero_kinds_grd_def zero_grd_def)

lemma convert_items_map:
  "(\<And>x. x \<in> set xs \<Longrightarrow> f x = Inr (h x)) \<Longrightarrow> convert_items f xs = Inr (map h xs)"
  by (induction xs) auto

lemma find_map_sub:
  "List.find (\<lambda>v. n = vName v) (map (\<lambda>v. v\<lparr>vSubresources := s\<rparr>) vs) =
   map_option (\<lambda>v. v\<lparr>vSubresources := s\<rparr>) (List.find (\<lambda>v. n = vName v) vs)"
  by (simp add: find_map comp_def)

section \<open>Properties\<close>

text \<open>
  Round trip: a served (v1) definition converted to the internal version and back is the
  same definition, and converting it back leaves the internal object alone. The hypotheses are
  the contract of the two \<open>metav1\<close> conversions of a boolean.
\<close>

theorem v1_kinds_v1_roundtrip:
  assumes "\<And>b. b2p b = Inr (Some b)" and "\<And>b. p2b (Some b) = Inr b"
  shows "\<exists>kg. Convert_v1_GRD_To_kinds_GRD b2p g zero_kinds_grd = Inr kg \<and>
    Convert_kinds_GRD_To_v1_GRD p2b kg zero_grd = Inr (kg, g)"
  by (rule roundtrip_grd [where p = "Some (sPreserveUnknownFields (gSpec g))"]) (rule assms)+

theorem v1_kinds_v1_roundtrip_witness:
  "\<exists>kg. Convert_v1_GRD_To_kinds_GRD (\<lambda>b. Inr (Some b)) (sample_grd ''ds'' ''D'' ''g.io'') zero_kinds_grd = Inr kg \<and>
    Convert_kinds_GRD_To_v1_GRD (\<lambda>p. Inr (p = Some True)) kg zero_grd
      = Inr (kg, sample_grd ''ds'' ''D'' ''g.io'')"
  by (rule v1_kinds_v1_roundtrip) simp_all

text \<open>The internal conversion of a definition, for the internal value \<open>p\<close> of the flag.\<close>

definition kinds_of :: "bool option \<Rightarrow> GRD \<Rightarrow> kinds_GRD" where
  "kinds_of p g = \<lparr>gMeta = gMeta g, gSpec = (gSpec zero_kinds_grd)\<lparr>kGroup := sGroup (gSpec g), kNames := sNames (gSpec g),
     kScope := sScope (gSpec g), kVersions := sVersions (gSpec g), kPreserveUnknownFields := p\<rparr>, gStatus = gStatus g\<rparr>"

lemma kinds_of_sel [simp]:
  "gMeta (kinds_of p g) = gMeta g" "gStatus (kinds_of p g) = gStatus g"
  "kVersions (gSpec (kinds_of p g)) = sVersions (gSpec g)"
  by (simp_all add: kinds_of_def)

lemma convert_iff:
  "Convert_v1_GRD_To_kinds_GRD b2p g zero_kinds_grd = Inr kg \<longleftrightarrow>
    (\<exists>p. b2p (sPreserveUnknownFields (gSpec g)) = Inr p \<and> kg = kinds_of p g)"
  by (auto simp: conversion_defs zero_kinds_grd_def kinds_of_def split: sum.splits)

lemma kinds_of_changes:
  "kinds_SetGRDCondition now (kinds_of p g) c = kinds_of p (SetGRDCondition now g c)"
  "kinds_RemoveGRDCondition (kinds_of p g) t = kinds_of p (RemoveGRDCondition g t)"
  "kinds_GRDRemoveFinalizer (kinds_of p g) needle = kinds_of p (GRDRemoveFinalizer g needle)"
  by (simp_all add: kinds_helpers_eq SetGRDCondition_def RemoveGRDCondition_def kinds_GRDRemoveFinalizer_def
      GRDRemoveFinalizer_def FindGRDCondition_def set_conditions_def kinds_of_def Let_def split: option.split)

lemma helpers_keep_flag:
  "gSpec (SetGRDCondition now g c) = gSpec g" "gSpec (RemoveGRDCondition g t) = gSpec g"
  "gSpec (GRDRemoveFinalizer g needle) = gSpec g"
  by (simp_all add: SetGRDCondition_def RemoveGRDCondition_def GRDRemoveFinalizer_def Let_def split: option.split)

text \<open>
  The two packages of helpers agree: every question about a definition has the same answer
  on the stored v1 object and on its internal conversion, and the helpers that change a
  definition commute with the conversion.
\<close>

theorem helpers_agree_across_versions:
  assumes "Convert_v1_GRD_To_kinds_GRD b2p g zero_kinds_grd = Inr kg"
  shows "IsGRDConditionTrue g t = kinds_IsGRDConditionTrue kg t \<and>
    IsGRDConditionFalse g t = kinds_IsGRDConditionFalse kg t \<and>
    FindGRDCondition g t = kinds_FindGRDCondition kg t \<and>
    GRDHasFinalizer g needle = kinds_GRDHasFinalizer kg needle \<and>
    HasServedGRDVersion g version = kinds_HasServedGRDVersion kg version \<and>
    HasVersionServed g version = kinds_HasVersionServed kg version \<and>
    GetGRDStorageVersion g = kinds_GetGRDStorageVersion kg \<and>
    IsStoredVersion g version = kinds_IsStoredVersion kg version \<and>
    Convert_v1_GRD_To_kinds_GRD b2p (SetGRDCondition now g c) zero_kinds_grd = Inr (kinds_SetGRDCondition now kg c) \<and>
    Convert_v1_GRD_To_kinds_GRD b2p (RemoveGRDCondition g t) zero_kinds_grd = Inr (kinds_RemoveGRDCondition kg t) \<and>
    Convert_v1_GRD_To_kinds_GRD b2p (GRDRemoveFinalizer g needle) zero_kinds_grd = Inr (kinds_GRDRemoveFinalizer kg needle)"
proof -
  obtain p where p: "b2p (sPreserveUnknownFields (gSpec g)) = Inr p" and kg: "kg = kinds_of p g"
    using assms unfolding convert_iff by blast
  note questions = IsGRDConditionTrue_def IsGRDConditionFalse_def IsGRDConditionPresentAndEqual_def FindGRDCondition_def
    GRDHasFinalizer_def HasServedGRDVersion_def HasVersionServed_def GetGRDStorageVersion_def IsStoredVersion_def
  note kinds_questions = kinds_IsGRDConditionTrue_def kinds_IsGRDConditionFalse_def
    kinds_IsGRDConditionPresentAndEqual_def kinds_FindGRDCondition_def kinds_FindGRDCondition_loop_eq
    kinds_GRDHasFinalizer_def kinds_HasServedGRDVersion_def kinds_HasVersionServed_def
    kinds_GetGRDStorageVersion_def kinds_IsStoredVersion_def helper_loops
  show ?thesis
    using p unfolding kg convert_iff kinds_of_changes helpers_keep_flag
    by (simp add: questions kinds_questions)
qed

theorem helpers_agree_across_versions_witness:
  "Convert_v1_GRD_To_kinds_GRD (\<lambda>b. Inr (Some b)) (SetGRDCondition 7 (sample_grd ''ds'' ''D'' ''g.io'')
      (mk_cond Established ConditionTrue ''r'' ''m'')) zero_kinds_grd =
    Inr (kinds_SetGRDCondition 7 (kinds_of (Some False) (sample_grd ''ds'' ''D'' ''g.io''))
      (mk_cond Established ConditionTrue ''r'' ''m''))"
proof -
  have "Convert_v1_GRD_To_kinds_GRD (\<lambda>b. Inr (Some b)) (sample_grd ''ds'' ''D'' ''g.io'') zero_kinds_grd =
      Inr (kinds_of (Some False) (sample_grd ''ds'' ''D'' ''g.io''))"
    by (simp add: convert_iff sample_grd_def)
  from helpers_agree_across_versions [OF this] show ?thesis by blast
qed

text \<open>
  Converting an internal spec to v1 keeps what every listed version serves: unless the spec
  is malformed (top-level and per-version subresources at once), the subresources that the v1
  object reports for a listed version are those that the internal object reported before.
\<close>

theorem conversion_keeps_subresources:
  assumes conv: "Convert_kinds_GRD_To_v1_GRD p2b kg out = Inr (kg', g)"
    and well_formed: "kSubresources (gSpec kg) = None \<or>
      \<not> HasPerVersionSubresources (kVersions (gSpec kg))"
    and listed: "v \<in> vName ` set (kVersions (gSpec kg))"
  shows "GetSubresourcesForVersion g v = kinds_GetSubresourcesForVersion kg v"
proof -
  obtain w where w: "List.find (\<lambda>x. v = vName x) (kVersions (gSpec kg)) = Some w"
    using listed by (cases "List.find (\<lambda>x. v = vName x) (kVersions (gSpec kg))")
      (auto dest: find_NoneD)
  have none: "vSubresources w = None" if "\<not> HasPerVersionSubresources (kVersions (gSpec kg))"
    using that find_SomeD [OF w] by (auto simp: HasPerVersionSubresources_def list_ex_iff)
  have "kVersions (gSpec kg) \<noteq> []" using listed by auto
  then show ?thesis
    using conv well_formed w none
    by (auto simp: conversion_defs Let_def GetSubresourcesForVersion_def
        kinds_GetSubresourcesForVersion_def find_map_sub split: sum.splits option.splits)
qed

definition sample_kinds_grd :: "GrafanaResourceSubresources option \<Rightarrow> kinds_GRD" where
  "sample_kinds_grd sub = zero_kinds_grd\<lparr>gSpec := (gSpec zero_kinds_grd)
     \<lparr>kGroup := ''g.io'', kSubresources := sub, kVersions := [sample_version ''v1'' True True]\<rparr>\<rparr>"

definition converted_sample :: "GrafanaResourceSubresources \<Rightarrow> kinds_GRD \<times> GRD" where
  "converted_sample sub =
    (sample_kinds_grd (Some sub)
       \<lparr>gSpec := (gSpec (sample_kinds_grd (Some sub)))
         \<lparr>kVersions := [(sample_version ''v1'' True True)\<lparr>vSubresources := Some sub\<rparr>]\<rparr>\<rparr>,
     zero_grd\<lparr>gSpec := (gSpec zero_grd)\<lparr>sGroup := ''g.io'',
       sVersions := [(sample_version ''v1'' True True)\<lparr>vSubresources := Some sub\<rparr>]\<rparr>\<rparr>)"

lemma convert_sample:
  "Convert_kinds_GRD_To_v1_GRD (\<lambda>p. Inr (p = Some True)) (sample_kinds_grd (Some sub)) zero_grd
    = Inr (converted_sample sub)"
  by (simp add: conversion_defs Let_def sample_kinds_grd_def zero_kinds_grd_def zero_grd_def
      converted_sample_def)

theorem conversion_keeps_subresources_witness:
  "GetSubresourcesForVersion (snd (converted_sample empty_subresources)) ''v1'' =
   kinds_GetSubresourcesForVersion (sample_kinds_grd (Some empty_subresources)) ''v1''"
  by (rule conversion_keeps_subresources
      [where p2b = "\<lambda>p. Inr (p = Some True)" and out = zero_grd
         and kg' = "fst (converted_sample empty_subresources)"])
    (simp_all add: convert_sample,
     simp_all add: sample_kinds_grd_def HasPerVersionSubresources_def sample_version_def)

text \<open>
  C29. The conversion destroys its input: an internal spec with top-level subresources and a
  listed version is well formed before the call, and after it the very same object answers
  every request for the subresources of a version with the \<open>malformed\<close> error, because the
  subresources were written through the shared array into its own versions.
\<close>

theorem conversion_corrupts_input:
  assumes conv: "Convert_kinds_GRD_To_v1_GRD p2b kg out = Inr (kg', g)"
    and sub: "kSubresources (gSpec kg) = Some s" and versions: "kVersions (gSpec kg) \<noteq> []"
    and well_formed: "\<not> HasPerVersionSubresources (kVersions (gSpec kg))"
  shows "kinds_GetSubresourcesForVersion kg v = Inr (Some s) \<and>
    kinds_GetSubresourcesForVersion kg' v =
      Inl (PlainErr (''malformed GrafanaResourceDefinition '' @ grd_name kg @ '' version '' @ v))"
proof -
  have "kVersions (gSpec kg') = map (\<lambda>v. v\<lparr>vSubresources := Some s\<rparr>) (kVersions (gSpec kg))"
    "kSubresources (gSpec kg') = Some s" "grd_name kg' = grd_name kg"
    using conv sub versions by (auto simp: conversion_defs Let_def split: sum.splits)
  then have "HasPerVersionSubresources (kVersions (gSpec kg'))"
    using versions by (cases "kVersions (gSpec kg)") (auto simp: HasPerVersionSubresources_def)
  then show ?thesis
    using sub well_formed \<open>kSubresources (gSpec kg') = Some s\<close> \<open>grd_name kg' = grd_name kg\<close>
    by (simp add: kinds_GetSubresourcesForVersion_def)
qed

theorem conversion_corrupts_input_witness:
  "kinds_GetSubresourcesForVersion (sample_kinds_grd (Some empty_subresources)) ''v1''
     = Inr (Some empty_subresources) \<and>
   kinds_GetSubresourcesForVersion (fst (converted_sample empty_subresources)) ''v1'' =
     Inl (PlainErr (''malformed GrafanaResourceDefinition '' @
       grd_name (sample_kinds_grd (Some empty_subresources)) @ '' version '' @ ''v1''))"
  by (rule conversion_corrupts_input
      [where p2b = "\<lambda>p. Inr (p = Some True)" and out = zero_grd
         and g = "snd (converted_sample empty_subresources)"])
    (simp_all add: convert_sample,
     simp_all add: sample_kinds_grd_def HasPerVersionSubresources_def sample_version_def)

text \<open>
  Defaulting is idempotent, does not touch the versions, and afterwards every definition
  with a kind has a singular name and a list kind, and one with a storage version and no stored
  versions has recorded exactly that version.
\<close>

theorem defaults_complete:
  assumes "Kind (sNames (gSpec g)) \<noteq> []"
  shows "SetObjectDefaults_GrafanaResourceDefinition (SetObjectDefaults_GrafanaResourceDefinition g)
      = SetObjectDefaults_GrafanaResourceDefinition g \<and>
    sVersions (gSpec (SetObjectDefaults_GrafanaResourceDefinition g)) = sVersions (gSpec g) \<and>
    Singular (sNames (gSpec (SetObjectDefaults_GrafanaResourceDefinition g))) \<noteq> [] \<and>
    ListKind (sNames (gSpec (SetObjectDefaults_GrafanaResourceDefinition g))) \<noteq> [] \<and>
    stStoredVersions (gStatus (SetObjectDefaults_GrafanaResourceDefinition g)) =
      (if stStoredVersions (gStatus g) = []
       then (case GetGRDStorageVersion g of Inr v \<Rightarrow> [v] | Inl _ \<Rightarrow> [])
       else stStoredVersions (gStatus g))"
  using SetDefaults_Spec_names [OF assms]
  by (simp add: SetObjectDefaults_eq SetDefaults_GRD_idem)
    (simp add: GetGRDStorageVersion_def SetDefaults_GrafanaResourceDefinition_def Let_def
      split: option.split)

theorem defaults_complete_witness:
  "Singular (sNames (gSpec (SetObjectDefaults_GrafanaResourceDefinition
     (sample_grd ''ds'' ''D'' ''g.io'')))) \<noteq> []"
  using defaults_complete [of "sample_grd ''ds'' ''D'' ''g.io''"]
  by (simp add: sample_grd_def sample_names_def)

end
