(* ===== verification/Lifecycle.thy ===== *)
theory Lifecycle
  imports Naming Establish ApiApproval Finalizer Handler GrdRegistry Conversion
begin

text \<open>
  The definitions of a cluster under all the code that writes them: the strategies of the
  registry, behind the conversions between the internal and the stored version, and the status
  updates of the four controllers. A status update reaches the store through the status
  strategy, which keeps the status that was sent; what it does to the rest is left open, as are
  the listers of the other definitions. The server refuses an update of a stale object, so a
  controller's update is stored only when its lister showed the current one.
\<close>

section \<open>Steps of a cluster\<close>

type_synonym cluster = "string \<rightharpoonup> GRD"

inductive lifecycle_step :: "cluster \<Rightarrow> cluster \<Rightarrow> bool" where
  create: "s n = None \<Longrightarrow>
    Convert_kinds_GRD_To_v1_GRD p2b (grd_PrepareForCreate k) zero_grd = Inr (k', g) \<Longrightarrow>
    lifecycle_step s (s(n \<mapsto> g))"
| edit: "s n = Some g \<Longrightarrow> Convert_v1_GRD_To_kinds_GRD b2p g zero_kinds_grd = Inr old \<Longrightarrow>
    Convert_kinds_GRD_To_v1_GRD p2b (grd_PrepareForUpdate eq k old) zero_grd = Inr (k', g') \<Longrightarrow>
    lifecycle_step s (s(n \<mapsto> g'))"
| remove: "lifecycle_step s (s(n := None))"
| naming: "s n = Some inp \<Longrightarrow> lister_get (ne_lister env) n = Inr inp \<Longrightarrow>
    g \<in> set (status_updates (fst (naming_sync env n))) \<Longrightarrow> gStatus g' = gStatus g \<Longrightarrow>
    lifecycle_step s (s(n \<mapsto> g'))"
| establish: "s n = Some inp \<Longrightarrow> lister_get (ee_lister eenv) n = Inr inp \<Longrightarrow>
    g \<in> set (status_updates (fst (establish_sync eenv n))) \<Longrightarrow> gStatus g' = gStatus g \<Longrightarrow>
    lifecycle_step s (s(n \<mapsto> g'))"
| approve: "s n = Some inp \<Longrightarrow> lister_get (ae_lister aenv) n = Inr inp \<Longrightarrow>
    g \<in> set (status_updates (fst (approval_sync aenv seen n))) \<Longrightarrow> gStatus g' = gStatus g \<Longrightarrow>
    lifecycle_step s (s(n \<mapsto> g'))"
| finalize: "s n = Some inp \<Longrightarrow> lister_get (fe_lister fenv) n = Inr inp \<Longrightarrow>
    (\<And>x y. fe_update fenv 0 x = Inr y \<Longrightarrow> gStatus y = gStatus x) \<Longrightarrow>
    g \<in> set (status_updates (fst (finalizer_sync (fenv :: unit finalizer_env) n ()))) \<Longrightarrow> gStatus g' = gStatus g \<Longrightarrow>
    lifecycle_step s (s(n \<mapsto> g'))"

inductive lifecycle_reachable :: "cluster \<Rightarrow> bool" where
  start: "lifecycle_reachable Map.empty"
| step: "lifecycle_reachable s \<Longrightarrow> lifecycle_step s t \<Longrightarrow> lifecycle_reachable t"

text \<open>A definition with a naming verdict also has an \<open>Established\<close> condition.\<close>

definition verdict_complete :: "GRD \<Rightarrow> bool" where
  "verdict_complete g \<longleftrightarrow>
    (FindGRDCondition g NamesAccepted \<noteq> None \<longrightarrow> FindGRDCondition g Established \<noteq> None)"

section \<open>What the steps do to the conditions\<close>

lemma Find_status:
  assumes "gStatus g' = gStatus g"
  shows "FindGRDCondition g' t = FindGRDCondition g t"
  unfolding FindGRDCondition_def assms by (rule refl)

lemma True_status:
  assumes "gStatus g' = gStatus g"
  shows "IsGRDConditionTrue g' t = IsGRDConditionTrue g t"
  unfolding IsGRDConditionTrue_find Find_status [OF assms] by (rule refl)

lemma Convert_kinds_status:
  assumes "Convert_kinds_GRD_To_v1_GRD p2b k out = Inr (k', g)"
  shows "conditions g = conditions k" and "accepted g = accepted k"
  using assms
  by (auto simp: Convert_kinds_GRD_To_v1_GRD_def autoConvert_kinds_Status_To_v1_Status_def split: sum.splits)

lemma Convert_v1_status:
  assumes "Convert_v1_GRD_To_kinds_GRD b2p g out = Inr k"
  shows "conditions k = conditions g" and "accepted k = accepted g"
  using assms
  by (auto simp: Convert_v1_GRD_To_kinds_GRD_def autoConvert_v1_Status_To_kinds_Status_def split: sum.splits)

lemma create_conditions:
  assumes "Convert_kinds_GRD_To_v1_GRD p2b (grd_PrepareForCreate k) zero_grd = Inr (k', g)"
  shows "conditions g = []" and "accepted g = empty_names"
  using Convert_kinds_status [OF assms] by (simp_all add: grd_PrepareForCreate_def empty_status_def)

lemma edit_conditions:
  assumes "Convert_v1_GRD_To_kinds_GRD b2p g zero_kinds_grd = Inr old"
    and "Convert_kinds_GRD_To_v1_GRD p2b (grd_PrepareForUpdate eq k old) zero_grd = Inr (k', g')"
  shows "conditions g' = conditions g" and "accepted g' = accepted g"
  using Convert_kinds_status [OF assms(2)] Convert_v1_status [OF assms(1)]
  by (simp_all add: grd_PrepareForUpdate_def Let_def)

lemma approval_writes:
  assumes "g \<in> set (status_updates (fst (approval_sync env seen key)))"
  shows "\<exists>inp c now. lister_get (ae_lister env) key = Inr inp \<and> g = SetGRDCondition now inp c \<and>
    cType c = KubernetesAPIApprovalPolicyConformant"
  using assms
  by (auto simp: approval_sync_def Let_def calculateCondition_def split: sum.splits option.splits
      prod.splits if_splits APIApprovalState.splits)

text \<open>What a writer may do to a definition: the conditions it can change, and \<open>Established\<close>.\<close>

definition sound_write :: "GRD \<Rightarrow> GRD \<Rightarrow> bool" where
  "sound_write old new \<longleftrightarrow>
    (IsGRDConditionTrue old Established \<longrightarrow> IsGRDConditionTrue new Established) \<and>
    (IsGRDConditionTrue new Established \<longrightarrow>
       IsGRDConditionTrue old Established \<or> IsGRDConditionTrue old NamesAccepted) \<and>
    (verdict_complete old \<longrightarrow> verdict_complete new)"

lemma writes_same: "conditions new = conditions old \<Longrightarrow> sound_write old new"
  by (simp add: sound_write_def verdict_complete_def IsGRDConditionTrue_find FindGRDCondition_def)

lemma writes_set:
  assumes "cType c \<noteq> Established" and "cType c \<noteq> NamesAccepted"
  shows "sound_write old (SetGRDCondition now old c)"
  using assms by (simp add: sound_write_def verdict_complete_def cond_simps v1_conds.find_set)

lemma writes_trans_set:
  assumes "sound_write old g" and "cType c \<noteq> Established" and "cType c \<noteq> NamesAccepted"
  shows "sound_write old (SetGRDCondition now g c)"
  using assms by (simp add: sound_write_def verdict_complete_def cond_simps v1_conds.find_set)


lemma sound_write_status:
  assumes "sound_write old g" and "gStatus g' = gStatus g"
  shows "sound_write old g'"
  using assms(1) unfolding sound_write_def verdict_complete_def Find_status [OF assms(2)] True_status [OF assms(2)] .

lemma Find_Set_same: "cType c = t \<Longrightarrow> FindGRDCondition (SetGRDCondition now g c) t \<noteq> None"
  by (auto simp: v1_conds.find_set)

lemma naming_sound:
  assumes "g \<in> set (status_updates (fst (naming_sync env key)))" and "lister_get (ne_lister env) key = Inr inp"
  shows "sound_write inp g"
proof -
  from naming_sync_update [OF assms(1)] assms(2) obtain R K where g: "g = naming_update env inp R K"
    by (metis sum.inject(2))
  have "FindGRDCondition g Established \<noteq> None"
    unfolding g naming_update_eq Let_def
    by (rule Find_Set_same, rule decide_established_type, rule v1_conds.find_type)
  then show ?thesis by (simp add: sound_write_def verdict_complete_def g naming_update_conditions)
qed

lemma establish_sound:
  assumes "g \<in> set (status_updates (fst (establish_sync env key)))" and "lister_get (ee_lister env) key = Inr inp"
  shows "sound_write inp g"
  using assms by (auto simp: establish_sync_update sound_write_def verdict_complete_def cond_simps v1_conds.find_set)

lemma approval_sound:
  assumes "g \<in> set (status_updates (fst (approval_sync env seen key)))" and "lister_get (ae_lister env) key = Inr inp"
  shows "sound_write inp g"
proof -
  from approval_writes [OF assms(1)] assms(2) obtain now c
    where g: "g = SetGRDCondition now inp c" and c: "cType c = KubernetesAPIApprovalPolicyConformant"
    by (metis sum.inject(2))
  show ?thesis unfolding g by (rule writes_set) (simp_all add: c)
qed

text \<open>The finalizer's writes: \<open>Terminating\<close> on top of the definition or of the server's answer.\<close>

lemma GRDRemoveFinalizer_sound: "sound_write old g \<Longrightarrow> sound_write old (GRDRemoveFinalizer g f)"
  by (erule sound_write_status) simp

lemma terminating_sound: "sound_write old g \<Longrightarrow> sound_write old (SetGRDCondition now g (terminating s r m))"
  by (erule writes_trans_set) simp_all

lemma final_update_writes:
  "status_updates (fst (final_update env a g w)) = [a, GRDRemoveFinalizer g GrafanaResourceCleanupFinalizer]"
  by (simp add: final_update_def Let_def)

lemma finalize_returned_sound:
  assumes "g \<in> set (status_updates (fst (finalize_returned env a grd w)))"
    and "sound_write old a" and "sound_write old grd"
  shows "sound_write old g"
proof -
  have inst: "sound_write old (SetGRDCondition now grd c)"
    if "deleteInstances env grd w = ((c, e), w')" for c e w' now
    using deleteInstances_type [of env grd w] that assms(3) by (intro writes_trans_set) auto
  show ?thesis
    using assms(1) assms(2) inst terminating_sound [OF assms(3)]
    by (auto simp: finalize_returned_def final_update_writes Let_def intro!: GRDRemoveFinalizer_sound
        split: if_splits prod.splits option.splits)
qed

lemma finalizer_sound:
  assumes "g \<in> set (status_updates (fst (finalizer_sync env key w)))" and "lister_get (fe_lister env) key = Inr inp"
    and "\<And>x y. fe_update env 0 x = Inr y \<Longrightarrow> gStatus y = gStatus x"
  shows "sound_write inp g"
proof -
  define a where "a = SetGRDCondition (fe_clock env 0) inp
    (terminating ConditionTrue ''InstanceDeletionInProgress'' ''GrafanaResource deletion is in progress'')"
  have a: "sound_write inp a"
    unfolding a_def by (rule terminating_sound) (simp add: sound_write_def)
  have "g = a \<or> (\<exists>grd. fe_update env 0 a = Inr grd \<and> g \<in> set (status_updates (fst (finalize_returned env a grd w))))"
    using assms(1,2) by (auto simp: finalizer_sync_def Let_def a_def split: if_splits sum.splits)
  then show ?thesis
  proof
    assume "g = a"
    then show ?thesis using a by simp
  next
    assume "\<exists>grd. fe_update env 0 a = Inr grd \<and> g \<in> set (status_updates (fst (finalize_returned env a grd w)))"
    then obtain grd where grd: "fe_update env 0 a = Inr grd"
      and g: "g \<in> set (status_updates (fst (finalize_returned env a grd w)))" by blast
    have "sound_write inp grd" using a assms(3) [OF grd] by (rule sound_write_status)
    with g a show ?thesis by (rule finalize_returned_sound)
  qed
qed

section \<open>Properties\<close>

text \<open>One step on a definition that stays is a sound write of it.\<close>

lemma lifecycle_step_sound:
  assumes "lifecycle_step s t"
  shows "t m = s m \<or> t m = None \<or> (\<exists>g. s m = None \<and> t m = Some g \<and> conditions g = []) \<or>
    (\<exists>old g. s m = Some old \<and> t m = Some g \<and> sound_write old g)"
  using assms
proof cases
  case (create n p2b k k' g)
  then show ?thesis using create_conditions(1) by (cases "m = n") auto
next
  case (edit n g b2p old p2b eq k k' g')
  then show ?thesis using writes_same [OF edit_conditions(1)] by (cases "m = n") auto
next
  case (remove n)
  then show ?thesis by simp
next
  case (naming n inp env g g')
  then show ?thesis using sound_write_status [OF naming_sound] by (cases "m = n") auto
next
  case (establish n inp env g g')
  then show ?thesis using sound_write_status [OF establish_sound] by (cases "m = n") auto
next
  case (approve n inp env g seen g')
  then show ?thesis using sound_write_status [OF approval_sound] by (cases "m = n") auto
next
  case (finalize n inp env g g')
  have "sound_write inp g" using finalize(5,3,4) by (rule finalizer_sound)
  then have "sound_write inp g'" using finalize(6) by (rule sound_write_status)
  with finalize show ?thesis by (cases "m = n") auto
qed


lemma lifecycle_verdicts:
  assumes "lifecycle_reachable s" and "s n = Some g"
  shows "verdict_complete g"
  using assms
proof (induction arbitrary: g rule: lifecycle_reachable.induct)
  case start
  then show ?case by simp
next
  case (step s t)
  from lifecycle_step_sound [OF step.hyps(2), of n] step.prems consider
      "s n = Some g" | "conditions g = []" | old where "s n = Some old" "sound_write old g" by auto
  then show ?case
  proof cases
    case 2
    then show ?thesis by (simp add: verdict_complete_def FindGRDCondition_def)
  qed (use step.IH in \<open>auto simp: sound_write_def\<close>)
qed

text \<open>A concrete life: a definition is created and its names are accepted.\<close>

definition created_sample :: GRD where
  "created_sample = \<lparr>gMeta = (sample_meta ''ds.g.io'')\<lparr>mGeneration := 1\<rparr>,
     gSpec = \<lparr>sGroup = ''g.io'', sNames = sample_names ''ds'' ''D'', sScope = NamespaceScoped,
       sVersions = [sample_version ''v1'' True True], sPreserveUnknownFields = False\<rparr>,
     gStatus = empty_status\<lparr>stStoredVersions := [''v1'']\<rparr>\<rparr>"

lemma created_sample_reachable: "lifecycle_reachable [''ds.g.io'' \<mapsto> created_sample]"
proof -
  have "\<exists>k'. Convert_kinds_GRD_To_v1_GRD (\<lambda>_. Inr False) (grd_PrepareForCreate sample_internal) zero_grd =
      Inr (k', created_sample)"
    by (simp add: Convert_kinds_GRD_To_v1_GRD_def Convert_kinds_Spec_To_v1_Spec_def autoConvert_kinds_Spec_To_v1_Spec_def
        autoConvert_kinds_Status_To_v1_Status_def grd_PrepareForCreate_def record_stored_def sample_internal_def
        kinds_IsStoredVersion_def created_sample_def zero_grd_def empty_status_def sample_version_def Let_def)
  then obtain k' where c: "Convert_kinds_GRD_To_v1_GRD (\<lambda>_. Inr False) (grd_PrepareForCreate sample_internal) zero_grd =
      Inr (k', created_sample)" by blast
  have "lifecycle_step Map.empty [''ds.g.io'' \<mapsto> created_sample]"
    by (rule lifecycle_step.create [OF _ c]) simp
  then show ?thesis by (rule lifecycle_reachable.step [OF lifecycle_reachable.start])
qed

definition named_created :: GRD where
  "named_created = naming_update (sample_env [created_sample]) created_sample {[]} {[]}"

lemma created_used:
  "used_resources (\<lambda>_. None) ''g.io'' [created_sample] = {[]}" "used_kinds (\<lambda>_. None) ''g.io'' [created_sample] = {[]}"
  by (auto simp: used_resources_def used_kinds_def created_sample_def cached_item_def resource_names_def
      kind_names_def empty_status_def empty_names_def)

lemma sync_created: "named_created \<in> set (status_updates (fst (naming_sync (sample_env [created_sample]) ''ds.g.io'')))"
  by (simp add: named_created_def naming_sync_def sample_env_def calculateNamesAndConditions_def
      getAcceptedNamesForGroup_def naming_update_def decide_names_def claim_name_def
      claim_short_names_def equalToAcceptedOrFresh_def created_sample_def sample_names_def sample_meta_def
      empty_status_def empty_names_def cached_item_def resource_names_def kind_names_def Let_def)

lemma created_get: "lister_get (ne_lister (sample_env [created_sample])) ''ds.g.io'' = Inr created_sample"
  by (simp add: sample_env_def) (simp add: created_sample_def sample_meta_def)

lemma named_created_step: "lifecycle_step [''ds.g.io'' \<mapsto> created_sample] [''ds.g.io'' \<mapsto> named_created]"
  using lifecycle_step.naming [of "[''ds.g.io'' \<mapsto> created_sample]" "''ds.g.io''" created_sample,
      OF _ created_get sync_created refl] by simp

lemma named_created_reachable: "lifecycle_reachable [''ds.g.io'' \<mapsto> named_created]"
  using created_sample_reachable named_created_step by (rule lifecycle_reachable.step)






text \<open>Two definitions that ask for the same names in different groups, and their syncs.\<close>

abbreviation twin :: "string \<Rightarrow> GRD" where "twin grp \<equiv> sample_grd ''ds'' ''D'' grp"

definition named_twin :: "string \<Rightarrow> GRD list \<Rightarrow> GRD" where
  "named_twin grp gs = naming_update (sample_env gs) (twin grp) {[]} {[]}"

lemma named_twin_sel:
  "sGroup (gSpec (named_twin grp gs)) = grp" "accepted (named_twin grp gs) = sample_names ''ds'' ''D''"
  "grd_name (named_twin grp gs) = ''ds.'' @ grp"
proof -
  have "all_granted (sample_names ''ds'' ''D'') empty_names {[]} {[]}"
    by (simp add: all_granted_def sample_names_def empty_names_def equalToAcceptedOrFresh_def short_name_errors_def)
  then have "accepted (named_twin grp gs) = sNames (gSpec (twin grp))"
    by (simp add: named_twin_def naming_update_sel decide_names_all_granted sample_grd_def empty_status_def)
  then show "accepted (named_twin grp gs) = sample_names ''ds'' ''D''" by (simp add: sample_grd_def)
qed (simp_all add: named_twin_def naming_update_sel sample_grd_def sample_meta_def)

lemma sync_twin:
  assumes "lister_get (ne_lister (sample_env gs)) n = Inr (twin grp)"
    and "used_resources (\<lambda>_. None) grp gs = {[]}" and "used_kinds (\<lambda>_. None) grp gs = {[]}"
  shows "named_twin grp gs \<in> set (status_updates (fst (naming_sync (sample_env gs) n)))"
proof -
  have "getAcceptedNamesForGroup (sample_env gs) grp = Ret ({[]}, {[]})"
    using assms(2,3) by (simp add: getAcceptedNamesForGroup_def sample_env_def collect_names_eq)
  then show ?thesis
    using assms(1)
    by (simp add: named_twin_def naming_sync_def calculateNamesAndConditions_def naming_update_def decide_names_def
        claim_name_def claim_short_names_def equalToAcceptedOrFresh_def sample_names_def empty_status_def empty_names_def
        sample_grd_def Let_def) (simp add: sample_env_def)
qed


definition twins :: cluster where
  "twins = [''ds.g'' \<mapsto> named_twin ''g'' [twin ''g'', twin ''h''],
     ''ds.h'' \<mapsto> named_twin ''h'' [named_twin ''g'' [twin ''g'', twin ''h''], twin ''h'']]"

lemma twins_reachable: "naming_reachable twins"
proof -
  let ?a = "twin ''g''" and ?b = "twin ''h''"
  let ?a' = "named_twin ''g'' [?a, ?b]"
  let ?b' = "named_twin ''h'' [?a', ?b]"
  have fresh: "accepted (twin grp) = empty_names" "grd_name (twin grp) = ''ds.'' @ grp" "sGroup (gSpec (twin grp)) = grp"
    for grp by (simp_all add: sample_grd_def empty_status_def sample_meta_def)
  have nm: "ne_mutation (sample_env gs) = (\<lambda>_. None)" "lister_list (ne_lister (sample_env gs)) = Inr gs" for gs
    by (simp_all add: sample_env_def)
  have get: "lister_get (ne_lister (sample_env [?a, ?b])) ''ds.g'' = Inr ?a"
      "lister_get (ne_lister (sample_env [?a', ?b])) ''ds.h'' = Inr ?b"
    by (simp_all add: sample_env_def fresh named_twin_sel)
  have en: "set (resource_names empty_names) = {[]}" "set (kind_names empty_names) = {[]}"
    by (auto simp: resource_names_def kind_names_def empty_names_def)
  have s1: "?a' \<in> set (status_updates (fst (naming_sync (sample_env [?a, ?b]) ''ds.g'')))"
    by (rule sync_twin [OF get(1)])
      (auto simp: used_Cons used_resources_def [of _ _ "[]"] used_kinds_def [of _ _ "[]"] fresh cached_item_def en)
  have s2: "?b' \<in> set (status_updates (fst (naming_sync (sample_env [?a', ?b]) ''ds.h'')))"
    by (rule sync_twin [OF get(2)])
      (auto simp: used_Cons used_resources_def [of _ _ "[]"] used_kinds_def [of _ _ "[]"] fresh cached_item_def en
        named_twin_sel)
  have "naming_reachable [''ds.g'' \<mapsto> ?a]"
    by (rule naming_reachable.step [OF naming_reachable.start], rule naming_step.create) (simp_all add: fresh)
  then have "naming_reachable [''ds.g'' \<mapsto> ?a, ''ds.h'' \<mapsto> ?b]"
    by (rule naming_reachable.step, intro naming_step.create) (simp_all add: fresh)
  then have "naming_reachable ([''ds.g'' \<mapsto> ?a, ''ds.h'' \<mapsto> ?b](''ds.g'' \<mapsto> ?a'))"
    by (rule naming_reachable.step, intro naming_step.sync [where env = "sample_env [?a, ?b]"])
      (use s1 get in \<open>simp_all add: view_covers_def nm cached_item_def\<close>)
  then have "naming_reachable ([''ds.g'' \<mapsto> ?a, ''ds.h'' \<mapsto> ?b](''ds.g'' \<mapsto> ?a', ''ds.h'' \<mapsto> ?b'))"
    by (rule naming_reachable.step, intro naming_step.sync [where env = "sample_env [?a', ?b]"])
      (use s2 get in \<open>simp_all add: view_covers_def nm cached_item_def\<close>)
  moreover have "[''ds.g'' \<mapsto> ?a, ''ds.h'' \<mapsto> ?b](''ds.g'' \<mapsto> ?a', ''ds.h'' \<mapsto> ?b') = twins"
    by (rule ext) (simp add: twins_def)
  ultimately show ?thesis by simp
qed

text \<open>The strategy lets a user change the group: any spec can be stored.\<close>

lemma edit_group:
  "\<exists>old k' g'. Convert_v1_GRD_To_kinds_GRD (\<lambda>b. Inr (Some b)) g zero_kinds_grd = Inr old \<and>
    Convert_kinds_GRD_To_v1_GRD (\<lambda>_. Inr False)
      (grd_PrepareForUpdate eq (old\<lparr>gSpec := (gSpec old)\<lparr>kGroup := grp\<rparr>\<rparr>) old) zero_grd = Inr (k', g') \<and>
    sGroup (gSpec g') = grp"
proof -
  have "\<exists>old. Convert_v1_GRD_To_kinds_GRD (\<lambda>b. Inr (Some b)) g zero_kinds_grd = Inr old \<and> kSubresources (gSpec old) = None"
    by (simp add: Convert_v1_GRD_To_kinds_GRD_def autoConvert_v1_Spec_To_kinds_Spec_def zero_kinds_grd_def)
  then obtain old where old: "Convert_v1_GRD_To_kinds_GRD (\<lambda>b. Inr (Some b)) g zero_kinds_grd = Inr old"
      "kSubresources (gSpec old) = None" by blast
  let ?k = "grd_PrepareForUpdate eq (old\<lparr>gSpec := (gSpec old)\<lparr>kGroup := grp\<rparr>\<rparr>) old"
  have k: "gSpec ?k = (gSpec old)\<lparr>kGroup := grp\<rparr>" by (simp add: grd_PrepareForUpdate_def Let_def)
  define o1 where "o1 = (gSpec zero_grd)\<lparr>sGroup := grp,
    sNames := autoConvert_kinds_Names_To_v1_Names (kNames (gSpec old)) (sNames (gSpec zero_grd)),
    sScope := kScope (gSpec old), sVersions := kVersions (gSpec old), sPreserveUnknownFields := False\<rparr>"
  define o2 where "o2 = (if length (sVersions o1) = 0 \<and> length (kVersion (gSpec old)) > 0
    then o1\<lparr>sVersions := versions_from_version (kVersion (gSpec old))\<rparr> else o1)"
  have "autoConvert_kinds_Spec_To_v1_Spec (\<lambda>_. Inr False) (gSpec ?k) (gSpec zero_grd) = Inr o1"
    unfolding k by (simp add: autoConvert_kinds_Spec_To_v1_Spec_def o1_def)
  then have "Convert_kinds_Spec_To_v1_Spec (\<lambda>_. Inr False) (gSpec ?k) (gSpec zero_grd) = Inr (gSpec ?k, o2)"
    unfolding o2_def by (simp add: Convert_kinds_Spec_To_v1_Spec_def k old(2) Let_def)
  then have "Convert_kinds_GRD_To_v1_GRD (\<lambda>_. Inr False) ?k zero_grd = Inr (?k\<lparr>gSpec := gSpec ?k\<rparr>,
      zero_grd\<lparr>gMeta := gMeta ?k, gSpec := o2,
        gStatus := autoConvert_kinds_Status_To_v1_Status (gStatus ?k) (gStatus zero_grd)\<rparr>)"
    unfolding Convert_kinds_GRD_To_v1_GRD_def by (simp only: sum.case prod.case)
  moreover have "sGroup o2 = grp" by (simp add: o2_def o1_def)
  moreover have "sGroup (gSpec (zero_grd\<lparr>gMeta := m, gSpec := o2, gStatus := s\<rparr>)) = sGroup o2" for m s by simp
  ultimately show ?thesis using old(1) by metis
qed

text \<open>
  The group of a definition can be changed although the reservation of names and the comment
  on approvals rely on a fixed group: there is a cluster, reached by creations and naming syncs
  with complete views, whose names are disjoint, and an edit of one definition that the update
  strategy lets through after which two definitions of one group hold the same names.
\<close>

theorem group_edit_breaks_reservation:
  "\<exists>s n g k old k' g'. naming_reachable s \<and> s n = Some g \<and>
    Convert_v1_GRD_To_kinds_GRD (\<lambda>b. Inr (Some b)) g zero_kinds_grd = Inr old \<and>
    Convert_kinds_GRD_To_v1_GRD (\<lambda>_. Inr False) (grd_PrepareForUpdate (=) k old) zero_grd = Inr (k', g') \<and>
    \<not> names_disjoint (s(n \<mapsto> g'))"
proof -
  obtain g where g: "twins ''ds.h'' = Some g" "accepted g = sample_names ''ds'' ''D''"
    by (simp add: twins_def named_twin_sel)
  from edit_group [of g "(=)" "''g''"] obtain old k' g' where
    o: "Convert_v1_GRD_To_kinds_GRD (\<lambda>b. Inr (Some b)) g zero_kinds_grd = Inr old" and
    e: "Convert_kinds_GRD_To_v1_GRD (\<lambda>_. Inr False)
      (grd_PrepareForUpdate (=) (old\<lparr>gSpec := (gSpec old)\<lparr>kGroup := ''g''\<rparr>\<rparr>) old) zero_grd = Inr (k', g')" and
    grp: "sGroup (gSpec g') = ''g''" by blast
  have acc: "accepted g' = sample_names ''ds'' ''D''" using edit_conditions(2) [OF o e] g(2) by simp
  obtain h where h: "twins ''ds.g'' = Some h" "accepted h = sample_names ''ds'' ''D''" "sGroup (gSpec h) = ''g''"
    by (simp add: twins_def named_twin_sel)
  have "\<not> names_apart g' h"
    by (simp add: names_apart_def acc grp h resource_names_def sample_names_def)
  moreover have "names_apart g' h" if "names_disjoint (twins(''ds.h'' \<mapsto> g'))"
    by (rule that [unfolded names_disjoint_def, rule_format, of "''ds.h''" "''ds.g''"]) (simp_all add: h(1))
  ultimately have "\<not> names_disjoint (twins(''ds.h'' \<mapsto> g'))" by (rule contrapos_nn)
  with twins_reachable g(1) o e show ?thesis by (intro exI conjI)
qed


lemma decide_names_plural_taken:
  assumes "p \<noteq> Plural a" and "p \<in> R"
  shows "fst (decide_names agg (a\<lparr>Plural := p\<rparr>) a R K) = a" "\<not> all_granted (a\<lparr>Plural := p\<rparr>) a R K"
proof -
  have taken: "equalToAcceptedOrFresh p (Plural a) R \<noteq> None" using assms by (simp add: equalToAcceptedOrFresh_def)
  then show "\<not> all_granted (a\<lparr>Plural := p\<rparr>) a R K" by (simp add: all_granted_def)
  show "fst (decide_names agg (a\<lparr>Plural := p\<rparr>) a R K) = a"
    using taken decide_names_fields(3) [of agg "a\<lparr>Plural := p\<rparr>" a R K]
    by (intro GrafanaResourceDefinitionNames.equality) (auto simp: decide_names_fields equalToAcceptedOrFresh_None)
qed

text \<open>
  C26. A rejected name change cannot be undone: a definition that holds its names is edited to
  ask for a plural another one holds; the sync reports \<open>NamesAccepted\<close> not True and keeps the
  accepted names; when the user goes back to the names it holds, no sync ever sends an update
  again, so the definition stays rejected although it holds exactly what it asks for.
\<close>

theorem rejection_outlives_revert:
  assumes "accepted g = sNames (gSpec g)" and "p \<noteq> Plural (accepted g)"
    and "gSpec g2 = (gSpec g)\<lparr>sNames := (sNames (gSpec g))\<lparr>Plural := p\<rparr>\<rparr>" and "accepted g2 = accepted g"
    and "lister_get (ne_lister env) n = Inr g2" and "lister_list (ne_lister env) = Inr gs"
    and "p \<in> used_resources (ne_mutation env) (sGroup (gSpec g2)) gs"
    and "g3 \<in> set (status_updates (fst (naming_sync env n)))"
    and "gStatus g4 = gStatus g3" and "gSpec g4 = gSpec g"
    and "lister_get (ne_lister env') n = Inr g4" and "\<And>x. ne_semantic_equal env' x x"
  shows "\<not> IsGRDConditionTrue g4 NamesAccepted \<and> accepted g4 = sNames (gSpec g4) \<and> naming_sync env' n = ([], Ret ())"
proof -
  from naming_sync_update [OF assms(8)] assms(5,6) obtain R K where
    R: "R = used_resources (ne_mutation env) (sGroup (gSpec g2)) gs" and g3: "g3 = naming_update env g2 R K"
    by (metis sum.inject(2))
  have p: "p \<in> R" using assms(7) R by simp
  have names: "sNames (gSpec g2) = (accepted g2)\<lparr>Plural := p\<rparr>" using assms(1,3,4) by simp
  have "accepted g3 = accepted g2" "\<not> IsGRDConditionTrue g3 NamesAccepted"
    using decide_names_plural_taken [of p "accepted g2" R] p assms(2,4)
    by (simp_all add: g3 naming_update_sel naming_update_conditions names)
  then have "\<not> IsGRDConditionTrue g4 NamesAccepted" "accepted g4 = sNames (gSpec g4)"
    unfolding True_status [OF assms(9)] assms(9) assms(10) using assms(1,4) by simp_all
  then show ?thesis using assms(11,12) by (simp add: naming_sync_def)
qed

text \<open>The twin of another group's definition, moved to a group in which its plural is taken.\<close>

theorem rejection_outlives_revert_witness:
  "\<exists>(g4 :: GRD) env'. \<not> IsGRDConditionTrue g4 NamesAccepted \<and> accepted g4 = sNames (gSpec g4) \<and>
    naming_sync env' ''ds.g'' = ([], Ret ())"
proof -
  define g where "g = (twin ''g'')\<lparr>gStatus := empty_status\<lparr>stAcceptedNames := sample_names ''ds'' ''D''\<rparr>\<rparr>"
  define h where "h = (sample_grd ''es'' ''E'' ''g'')\<lparr>gStatus := empty_status\<lparr>stAcceptedNames := sample_names ''es'' ''E''\<rparr>\<rparr>"
  define g2 where "g2 = g\<lparr>gSpec := (gSpec g)\<lparr>sNames := (sNames (gSpec g))\<lparr>Plural := ''es''\<rparr>\<rparr>\<rparr>"
  let ?env = "sample_env [g2, h]"
  have acc: "accepted g = sNames (gSpec g)" "''es'' \<noteq> Plural (accepted g)"
    by (simp_all add: g_def sample_grd_def sample_names_def)
  have g2: "gSpec g2 = (gSpec g)\<lparr>sNames := (sNames (gSpec g))\<lparr>Plural := ''es''\<rparr>\<rparr>" "accepted g2 = accepted g"
    by (simp_all add: g2_def)
  have l: "lister_get (ne_lister ?env) ''ds.g'' = Inr g2" "lister_list (ne_lister ?env) = Inr [g2, h]"
    by (simp_all add: sample_env_def) (simp add: g2_def g_def sample_grd_def sample_meta_def)
  have R: "''es'' \<in> used_resources (ne_mutation ?env) (sGroup (gSpec g2)) [g2, h]"
    by (simp add: used_Cons sample_env_def cached_item_def)
      (simp add: g2_def g_def h_def sample_grd_def resource_names_def sample_names_def)
  have "\<exists>g3. g3 \<in> set (status_updates (fst (naming_sync ?env ''ds.g'')))"
    by (simp add: naming_sync_def l calculateNamesAndConditions_def getAcceptedNamesForGroup_def Let_def split: prod.split)
      (simp add: sample_env_def g2_def g_def sample_grd_def sample_names_def FindGRDCondition_def empty_status_def)
  then obtain g3 where g3: "g3 \<in> set (status_updates (fst (naming_sync ?env ''ds.g'')))" by blast
  define g4 where "g4 = g\<lparr>gStatus := gStatus g3\<rparr>"
  have l4: "lister_get (ne_lister (sample_env [g4])) ''ds.g'' = Inr g4"
    by (simp add: sample_env_def) (simp add: g4_def g_def sample_grd_def sample_meta_def)
  have e4: "gStatus g4 = gStatus g3" "gSpec g4 = gSpec g" by (simp_all add: g4_def)
  have "ne_semantic_equal (sample_env [g4]) x x" for x by (simp add: sample_env_def)
  note stuck = rejection_outlives_revert [OF acc g2 l R g3 e4 l4 this]
  show ?thesis by (rule exI [of _ g4], rule exI [of _ "sample_env [g4]"], rule stuck)
qed

section \<open>A definition becomes a served resource\<close>

lemma serving_loop_total:
  assumes "\<And>g sub. he_field_manager env g sub = None" and "\<And>v. v \<in> set vs \<Longrightarrow> \<exists>s. GetSubresourcesForVersion g (vName v) = Inr s"
  shows "\<exists>ret. serving_loop env g vs info = Inr ret"
  using assms(2)
proof (induction vs arbitrary: info)
  case Nil
  then show ?case by simp
next
  case (Cons v vs)
  from Cons.prems [of v] obtain s where s: "GetSubresourcesForVersion g (vName v) = Inr s" by auto
  have "\<exists>info'. serving_loop env g (v # vs) info = serving_loop env g vs info'"
    by (simp add: s assms(1) Let_def) blast
  with Cons show ?case by (metis list.set_intros(2))
qed

lemma build_serving_info_total:
  assumes "\<And>g sub. he_field_manager env g sub = None" and "\<exists>v \<in> set (sVersions (gSpec g)). vStorage v"
  shows "\<exists>ret. build_serving_info env g = Inr ret"
proof -
  from assms(2) obtain v where "List.find vStorage (sVersions (gSpec g)) = Some v"
    by (cases "List.find vStorage (sVersions (gSpec g))") (auto simp: find_None_iff)
  moreover have "\<exists>s. GetSubresourcesForVersion g (vName v) = Inr s" if "v \<in> set (sVersions (gSpec g))" for v
    using that by (cases "List.find (\<lambda>w. vName v = vName w) (sVersions (gSpec g))")
      (auto simp: GetSubresourcesForVersion_def find_None_iff)
  ultimately show ?thesis
    using serving_loop_total [OF assms(1), of "sVersions (gSpec g)" g]
    by (simp add: build_serving_info_def GetGRDStorageVersion_def)
qed

lemma fresh_handler_serves:
  assumes "lister_get (he_lister env) (grd_name g) = Inr g" and "build_serving_info env g = Inr info"
  shows "\<exists>st'. getOrCreateServingInfoFor env (mUID (gMeta g)) (grd_name g) NewGrafanaResourceDefinitionHandler = (Inr info, st')"
  using assms by (simp add: getOrCreateServingInfoFor_def NewGrafanaResourceDefinitionHandler_def)

text \<open>A \<open>list\<close> request for a version of a definition, in all namespaces or cluster-wide.\<close>

definition list_request :: "GRD \<Rightarrow> string \<Rightarrow> string \<Rightarrow> RequestInfo \<Rightarrow> bool" where
  "list_request g resource ver ri \<longleftrightarrow> riIsResourceRequest ri \<and> riVerb ri = ''list'' \<and> riSubresource ri = [] \<and>
    riNamespace ri = [] \<and> riAPIVersion ri = ver \<and> riResource ri = resource \<and> riAPIGroup ri = sGroup (gSpec g)"

lemma list_is_served:
  assumes "list_request g resource ver ri" and "grd_name g = resource @ ''.'' @ sGroup (gSpec g)"
    and "lister_get (he_lister env) (grd_name g) = Inr g" and "HasServedGRDVersion g ver"
    and "IsGRDConditionTrue g Established" and "build_serving_info env g = Inr info"
  shows "\<exists>ws. fst (handler_ServeHTTP env (Some ri) NewGrafanaResourceDefinitionHandler) = Handle (ListResource False) ws"
proof -
  obtain st' where st: "getOrCreateServingInfoFor env (mUID (gMeta g)) (grd_name g) NewGrafanaResourceDefinitionHandler =
      (Inr info, st')"
    using fresh_handler_serves [OF assms(3,6)] by blast
  have spec: "gi_spec info = gSpec g" using build_serving_info_sel [OF assms(6)] by simp
  have served: "hasServedGRDVersion (gi_spec info) ver"
    using assms(4) by (simp add: spec HasServedGRDVersion_def hasServedGRDVersion_def)
  have "\<exists>s. GetSubresourcesForVersion g ver = Inr s"
  proof -
    have flip: "(\<lambda>v. ver = vName v) = (\<lambda>v. vName v = ver)" by auto
    show ?thesis
      using assms(4) unfolding HasServedGRDVersion_def GetSubresourcesForVersion_def flip
      by (cases "List.find (\<lambda>v. vName v = ver) (sVersions (gSpec g))") (simp_all del: ex_simps)
  qed
  then obtain s where s: "GetSubresourcesForVersion g ver = Inr s" by blast
  have "lister_get (he_lister env) (riResource ri @ ''.'' @ riAPIGroup ri) = Inr g"
    using assms(1,2,3) by (simp add: list_request_def)
  then show ?thesis
    using assms(1,4,5) st served s
    by (simp add: handler_ServeHTTP_def list_request_def dispatch_def serveResource_def Let_def)
qed


lemma naming_sends_update:
  assumes "lister_get (ne_lister env) n = Inr g" and "lister_list (ne_lister env) = Inr gs"
    and "\<not> ne_semantic_equal env (sNames (gSpec g)) (accepted g)" and "FindGRDCondition g NamesAccepted = None"
  shows "status_updates (fst (naming_sync env n)) =
    [naming_update env g (used_resources (ne_mutation env) (sGroup (gSpec g)) gs)
       (used_kinds (ne_mutation env) (sGroup (gSpec g)) gs)]"
  using assms
  by (simp add: naming_sync_def calculateNamesAndConditions_def getAcceptedNamesForGroup_def collect_names_eq
      naming_update_def Let_def split: prod.split sum.split)

lemma discovery_publishes:
  assumes "lister_list (de_lister env) = Inr grds" and "d \<in> set grds" and "IsGRDConditionTrue d Established"
    and "ver \<in> served_names d"
  shows "\<exists>rs. version_getDiscovery (dVersion (fst (discovery_sync env (sGroup (gSpec d), ver) st)))
      (sGroup (gSpec d), ver) = Some rs \<and> main_resource d (storage_hash env d) \<in> set rs"
proof -
  let ?ds = "filter (\<lambda>d. ver \<in> served_names d) (discoverable (sGroup (gSpec d)) grds)"
  have d: "d \<in> set ?ds" using assms(2-4) by (simp add: discoverable_def)
  then have e: "expected_version env grds (sGroup (gSpec d), ver) = Some (concat (map (resources_of env ver) ?ds))"
    by (auto simp: expected_version_def Let_def filter_empty_conv)
  have "main_resource d (storage_hash env d) \<in> set (concat (map (resources_of env ver) ?ds))"
    using d by (auto simp: resources_of_def)
  moreover have "dVersion (fst (discovery_sync env (sGroup (gSpec d), ver) st)) =
      version_map.publish (sGroup (gSpec d), ver) (expected_version env grds (sGroup (gSpec d), ver)) (dVersion st)"
    using discovery_sync_result [OF assms(1), of "sGroup (gSpec d)" ver st] by auto
  ultimately show ?thesis by (simp add: e version_map.get_publish)
qed


text \<open>
  C1. A definition becomes a served resource: when its names are free, the naming sync sends one
  update, the establishing sync of the result one more, and after it discovery lists the
  resource under its group version and the handler answers a \<open>list\<close> of it from its storage.
\<close>

theorem definition_becomes_served:
  assumes "lister_get (ne_lister nenv) n = Inr g" and "lister_list (ne_lister nenv) = Inr gs"
    and "n = grd_name g" and "grd_name g = resource @ ''.'' @ sGroup (gSpec g)"
    and "\<not> ne_semantic_equal nenv (sNames (gSpec g)) (accepted g)"
    and "FindGRDCondition g NamesAccepted = None" and "\<not> IsGRDConditionTrue g Established"
    and "all_granted (sNames (gSpec g)) (accepted g)
      (used_resources (ne_mutation nenv) (sGroup (gSpec g)) gs) (used_kinds (ne_mutation nenv) (sGroup (gSpec g)) gs)"
    and "HasServedGRDVersion g ver" and "\<exists>v \<in> set (sVersions (gSpec g)). vStorage v"
    and "list_request g resource ver ri"
  shows "\<exists>g1. status_updates (fst (naming_sync nenv n)) = [g1] \<and>
    (\<forall>eenv. lister_get (ee_lister eenv) n = Inr g1 \<longrightarrow>
      (\<exists>g2. status_updates (fst (establish_sync eenv n)) = [g2] \<and> accepted g2 = sNames (gSpec g) \<and> gMeta g2 = gMeta g \<and>
        (\<forall>denv grds dst. lister_list (de_lister denv) = Inr grds \<longrightarrow> g2 \<in> set grds \<longrightarrow>
          (\<exists>rs. version_getDiscovery (dVersion (fst (discovery_sync denv (sGroup (gSpec g), ver) dst)))
              (sGroup (gSpec g), ver) = Some rs \<and> main_resource g2 (storage_hash denv g2) \<in> set rs)) \<and>
        (\<forall>henv. lister_get (he_lister henv) n = Inr g2 \<longrightarrow> (\<forall>x sub. he_field_manager henv x sub = None) \<longrightarrow>
          (\<exists>ws. fst (handler_ServeHTTP henv (Some ri) NewGrafanaResourceDefinitionHandler) =
             Handle (ListResource False) ws))))"
proof -
  let ?R = "used_resources (ne_mutation nenv) (sGroup (gSpec g)) gs"
  let ?K = "used_kinds (ne_mutation nenv) (sGroup (gSpec g)) gs"
  define g1 where "g1 = naming_update nenv g ?R ?K"
  have up1: "status_updates (fst (naming_sync nenv n)) = [g1]"
    unfolding g1_def by (rule naming_sends_update [OF assms(1,2,5,6)])
  have g1: "IsGRDConditionTrue g1 NamesAccepted" "\<not> IsGRDConditionTrue g1 Established" "gSpec g1 = gSpec g"
      "gMeta g1 = gMeta g" "accepted g1 = sNames (gSpec g)"
    using assms(7,8) by (simp_all add: g1_def naming_update_conditions naming_update_sel decide_names_all_granted)
  have rest: "\<exists>g2. status_updates (fst (establish_sync eenv n)) = [g2] \<and> accepted g2 = sNames (gSpec g) \<and> gMeta g2 = gMeta g \<and>
        (\<forall>denv grds dst. lister_list (de_lister denv) = Inr grds \<longrightarrow> g2 \<in> set grds \<longrightarrow>
          (\<exists>rs. version_getDiscovery (dVersion (fst (discovery_sync denv (sGroup (gSpec g), ver) dst)))
              (sGroup (gSpec g), ver) = Some rs \<and> main_resource g2 (storage_hash denv g2) \<in> set rs)) \<and>
        (\<forall>henv. lister_get (he_lister henv) n = Inr g2 \<longrightarrow> (\<forall>x sub. he_field_manager henv x sub = None) \<longrightarrow>
          (\<exists>ws. fst (handler_ServeHTTP henv (Some ri) NewGrafanaResourceDefinitionHandler) =
             Handle (ListResource False) ws))"
    if l: "lister_get (ee_lister eenv) n = Inr g1" for eenv
  proof (rule exI [of _ "SetGRDCondition (ee_clock eenv) g1 establishedCondition"], intro conjI allI impI)
    let ?g2 = "SetGRDCondition (ee_clock eenv) g1 establishedCondition"
    show "status_updates (fst (establish_sync eenv n)) = [?g2]"
      using g1(1,2) by (simp add: establish_updates_eq [OF l])
    show "accepted ?g2 = sNames (gSpec g)" "gMeta ?g2 = gMeta g" using g1(4,5) by simp_all
    have spec: "gSpec ?g2 = gSpec g" "gMeta ?g2 = gMeta g" using g1(3,4) by simp_all
    have est: "IsGRDConditionTrue ?g2 Established" by (simp add: cond_simps)
    have served: "ver \<in> served_names ?g2" "HasServedGRDVersion ?g2 ver"
      using assms(9) unfolding served_names_def HasServedGRDVersion_def spec(1)
      by (auto split: option.splits dest!: find_SomeD)
    show "\<exists>rs. version_getDiscovery (dVersion (fst (discovery_sync denv (sGroup (gSpec g), ver) dst)))
          (sGroup (gSpec g), ver) = Some rs \<and> main_resource ?g2 (storage_hash denv ?g2) \<in> set rs"
      if "lister_list (de_lister denv) = Inr grds" "?g2 \<in> set grds" for denv grds dst
      using discovery_publishes [OF that est served(1)] unfolding spec .
    show "\<exists>ws. fst (handler_ServeHTTP henv (Some ri) NewGrafanaResourceDefinitionHandler) = Handle (ListResource False) ws"
      if hl: "lister_get (he_lister henv) n = Inr ?g2" and fm: "\<forall>x sub. he_field_manager henv x sub = None" for henv
    proof -
      obtain info where info: "build_serving_info henv ?g2 = Inr info"
        using build_serving_info_total [of henv ?g2] fm assms(10) unfolding spec by blast
      have lr: "list_request ?g2 resource ver ri" using assms(11) unfolding list_request_def spec .
      have nm: "grd_name ?g2 = resource @ ''.'' @ sGroup (gSpec ?g2)" "n = grd_name ?g2"
        using assms(3,4) unfolding spec by simp_all
      show ?thesis using list_is_served [OF lr nm(1) _ served(2) est info] hl unfolding nm(2) by blast
    qed
  qed
  with up1 show ?thesis by blast
qed


theorem definition_becomes_served_witness:
  "\<exists>g2. accepted g2 = sample_names ''ds'' ''D'' \<and>
    (\<exists>ws. fst (handler_ServeHTTP (sample_handler_env [g2]) (Some ((sample_request ''list'' [])\<lparr>riNamespace := []\<rparr>))
       NewGrafanaResourceDefinitionHandler) = Handle (ListResource False) ws)"
proof -
  let ?env = "sample_env [created_sample]"
  let ?ri = "(sample_request ''list'' [])\<lparr>riNamespace := []\<rparr>"
  have gs: "lister_list (ne_lister ?env) = Inr [created_sample]" "ne_mutation ?env = (\<lambda>_. None)"
    by (simp_all add: sample_env_def)
  have nm: "''ds.g.io'' = grd_name created_sample"
      "grd_name created_sample = ''ds'' @ ''.'' @ sGroup (gSpec created_sample)"
    by (simp_all add: created_sample_def sample_meta_def)
  have grp: "sGroup (gSpec created_sample) = ''g.io''" "sNames (gSpec created_sample) = sample_names ''ds'' ''D''"
    "accepted created_sample = empty_names" "gMeta created_sample = (sample_meta ''ds.g.io'')\<lparr>mGeneration := 1\<rparr>"
    by (simp_all add: created_sample_def empty_status_def)
  have ne: "\<not> ne_semantic_equal ?env (sNames (gSpec created_sample)) (accepted created_sample)"
    by (simp add: grp sample_env_def sample_names_def empty_names_def)
  have none: "FindGRDCondition created_sample t = None" for t
    by (simp add: FindGRDCondition_def created_sample_def empty_status_def)
  have est: "\<not> IsGRDConditionTrue created_sample Established" by (simp add: IsGRDConditionTrue_find none)
  have granted: "all_granted (sNames (gSpec created_sample)) (accepted created_sample)
      (used_resources (ne_mutation ?env) (sGroup (gSpec created_sample)) [created_sample])
      (used_kinds (ne_mutation ?env) (sGroup (gSpec created_sample)) [created_sample])"
    by (simp add: grp gs created_used all_granted_def sample_names_def empty_names_def equalToAcceptedOrFresh_def
        short_name_errors_def)
  have served: "HasServedGRDVersion created_sample ''v1''" "\<exists>v \<in> set (sVersions (gSpec created_sample)). vStorage v"
    by (simp_all add: HasServedGRDVersion_def created_sample_def sample_version_def)
  have lr: "list_request created_sample ''ds'' ''v1'' ?ri"
    by (simp add: list_request_def sample_request_def created_sample_def)
  note main = definition_becomes_served [OF created_get gs(1) nm ne none est granted served lr]
  show ?thesis
    using main
  proof (elim exE conjE)
    fix g1
    assume step: "\<forall>eenv. lister_get (ee_lister eenv) ''ds.g.io'' = Inr g1 \<longrightarrow> (\<exists>g2.
      status_updates (fst (establish_sync eenv ''ds.g.io'')) = [g2] \<and>
      accepted g2 = sNames (gSpec created_sample) \<and> gMeta g2 = gMeta created_sample \<and>
      (\<forall>denv grds dst. lister_list (de_lister denv) = Inr grds \<longrightarrow> g2 \<in> set grds \<longrightarrow>
        (\<exists>rs. version_getDiscovery (dVersion (fst (discovery_sync denv (sGroup (gSpec created_sample), ''v1'') dst)))
            (sGroup (gSpec created_sample), ''v1'') = Some rs \<and> main_resource g2 (storage_hash denv g2) \<in> set rs)) \<and>
      (\<forall>henv. lister_get (he_lister henv) ''ds.g.io'' = Inr g2 \<longrightarrow> (\<forall>x sub. he_field_manager henv x sub = None) \<longrightarrow>
        (\<exists>ws. fst (handler_ServeHTTP henv (Some ?ri) NewGrafanaResourceDefinitionHandler) =
           Handle (ListResource False) ws)))"
    have "lister_get (ee_lister (sample_establish_env g1)) ''ds.g.io'' = Inr g1"
      by (simp add: sample_establish_env_def)
    from step [rule_format, OF this] show ?thesis
    proof (elim exE conjE)
      fix g2
      assume acc: "accepted g2 = sNames (gSpec created_sample)" and meta: "gMeta g2 = gMeta created_sample"
        and serve: "\<forall>henv. lister_get (he_lister henv) ''ds.g.io'' = Inr g2 \<longrightarrow>
          (\<forall>x sub. he_field_manager henv x sub = None) \<longrightarrow>
          (\<exists>ws. fst (handler_ServeHTTP henv (Some ?ri) NewGrafanaResourceDefinitionHandler) =
             Handle (ListResource False) ws)"
      have l: "lister_get (he_lister (sample_handler_env [g2])) ''ds.g.io'' = Inr g2"
        using nm(1) meta by (simp add: sample_handler_env_def)
      have "he_field_manager (sample_handler_env [g2]) x sub = None" for x sub by (simp add: sample_handler_env_def)
      from serve [rule_format, OF l this] acc show ?thesis
        unfolding grp(2) by (intro exI [of _ g2] conjI)
    qed
  qed
qed

end
