(* ===== verification/ApiRegistration.thy ===== *)
theory ApiRegistration
  imports Controllers
begin

text \<open>
  Registration of the served versions with the aggregator: \<open>GRDRegistrationController\<close>
  (\<open>pkg/controller/apiregistration/apiregistration.go\<close>) tells an \<open>AutoAPIServiceRegistration\<close>
  which API services are wanted, and \<open>AutoRegisterController\<close>
  (\<open>pkg/controller/apiregistration/autoregistration.go\<close>) keeps the aggregator's services in line
  with that. The locale \<open>auto_registration\<close> is the Go interface with what its comments promise;
  it is interpreted on the model of \<open>AutoRegisterController\<close>.

  Of \<open>apiregistration/v1.APIService\<close> the model has the fields the code sets, and the CA bundle,
  which \<open>reflect.DeepEqual\<close> of two specs sees.
\<close>

record ServiceReference =
  srNamespace :: string
  srName :: string
  srPort :: int

record APIServiceSpec =
  aspService :: "ServiceReference option"
  aspGroup :: string
  aspVersion :: string
  aspInsecureSkipTLSVerify :: bool
  aspCABundle :: string
  aspGroupPriorityMinimum :: int
  aspVersionPriority :: int

record APIService =
  asName :: string
  asUID :: string
  asLabels :: "(string \<times> string) list"
  asSpec :: APIServiceSpec

type_synonym group_version = "string \<times> string"

section \<open>GRDRegistrationController\<close>

definition served_version :: "GRD list \<Rightarrow> group_version \<Rightarrow> bool" where
  "served_version grds gv =
    list_ex (\<lambda>grd. sGroup (gSpec grd) = fst gv \<and>
       list_ex (\<lambda>version. vName version = snd gv \<and> vServed version) (sVersions (gSpec grd))) grds"

definition api_service_name :: "group_version \<Rightarrow> string" where
  "api_service_name gv = snd gv @ ''.'' @ fst gv"

definition grd_api_service :: "int \<Rightarrow> group_version \<Rightarrow> APIService" where
  "grd_api_service hostPort gv =
    \<lparr>asName = api_service_name gv, asUID = [], asLabels = [],
     asSpec = \<lparr>aspService = Some \<lparr>srNamespace = ''grafana'', srName = ''ext-api'', srPort = hostPort\<rparr>,
               aspGroup = fst gv, aspVersion = snd gv, aspInsecureSkipTLSVerify = True, aspCABundle = [],
               aspGroupPriorityMinimum = 1000, aspVersionPriority = 100\<rparr>\<rparr>"

text \<open>\<open>handleVersionUpdate\<close>, on the registration \<open>add\<close> and \<open>remove\<close> with its state \<open>'s\<close>.\<close>

definition handleVersionUpdate ::
  "(APIService \<Rightarrow> 's \<Rightarrow> 's) \<Rightarrow> (string \<Rightarrow> 's \<Rightarrow> 's) \<Rightarrow> lister \<Rightarrow> int \<Rightarrow> group_version \<Rightarrow> 's \<Rightarrow>
   's \<times> unit outcome" where
  "handleVersionUpdate add remove lister hostPort groupVersion s =
    (case lister_list lister of
       Inl err \<Rightarrow> (s, Err err)
     | Inr grds \<Rightarrow>
         if served_version grds groupVersion then (add (grd_api_service hostPort groupVersion) s, Ret ())
         else (remove (api_service_name groupVersion) s, Ret ()))"

text \<open>The initial pass of \<open>Run\<close> over every version of every definition.\<close>

definition grd_group_versions :: "GRD \<Rightarrow> group_version list" where
  "grd_group_versions grd = map (\<lambda>version. (sGroup (gSpec grd), vName version)) (sVersions (gSpec grd))"

definition initial_sync ::
  "(APIService \<Rightarrow> 's \<Rightarrow> 's) \<Rightarrow> (string \<Rightarrow> 's \<Rightarrow> 's) \<Rightarrow> lister \<Rightarrow> int \<Rightarrow> 's \<Rightarrow> 's" where
  "initial_sync add remove lister hostPort s =
    (case lister_list lister of
       Inl _ \<Rightarrow> s
     | Inr grds \<Rightarrow>
         fold (\<lambda>gv s. fst (handleVersionUpdate add remove lister hostPort gv s))
           (concat (map grd_group_versions grds)) s)"

definition enqueueGRD :: "GRD \<Rightarrow> group_version queue_op list" where
  "enqueueGRD grd = map QAdd (grd_group_versions grd)"

definition registration_add :: "GRD \<Rightarrow> group_version queue_op list" where
  "registration_add obj = enqueueGRD obj"

definition registration_update :: "GRD \<Rightarrow> GRD \<Rightarrow> group_version queue_op list" where
  "registration_update oldObj newObj = enqueueGRD oldObj @ enqueueGRD newObj"

definition registration_delete :: "deleted_obj \<Rightarrow> group_version queue_op list" where
  "registration_delete obj = (case deleted_grd obj of None \<Rightarrow> [] | Some c \<Rightarrow> enqueueGRD c)"

definition registration_processNextWorkItem ::
  "(APIService \<Rightarrow> 's \<Rightarrow> 's) \<Rightarrow> (string \<Rightarrow> 's \<Rightarrow> 's) \<Rightarrow> lister \<Rightarrow> int \<Rightarrow> 's \<Rightarrow> group_version option \<Rightarrow>
   bool outcome \<times> group_version queue_op list" where
  "registration_processNextWorkItem add remove lister hostPort s next =
    process_next (\<lambda>gv. snd (handleVersionUpdate add remove lister hostPort gv s)) next"

section \<open>AutoRegisterController\<close>

definition AutoRegisterManagedLabel :: string where
  "AutoRegisterManagedLabel = ''kinds.grafana.com/automanaged''"

definition manageOnStart :: string where "manageOnStart = ''onstart''"
definition manageContinuously :: string where "manageContinuously = ''true''"

record auto_state =
  apiServicesToSync :: "string \<rightharpoonup> APIService"
  syncedSuccessfully :: "string \<Rightarrow> bool"
  apiServicesAtStart :: "string \<Rightarrow> bool"
  autoQueue :: "string queue_op list"

definition NewAutoRegisterController :: auto_state where
  "NewAutoRegisterController = \<lparr>apiServicesToSync = Map.empty, syncedSuccessfully = (\<lambda>_. False),
     apiServicesAtStart = (\<lambda>_. False), autoQueue = []\<rparr>"

text \<open>
  What \<open>Run\<close> records before the workers start. \<open>selector.Add\<close> returns the extended selector and
  the code drops that result, so the list is of all services, not of the labelled ones.
\<close>

definition record_at_start :: "go_error + APIService list \<Rightarrow> auto_state \<Rightarrow> auto_state" where
  "record_at_start services st =
    (case services of
       Inl _ \<Rightarrow> st
     | Inr ss \<Rightarrow> st\<lparr>apiServicesAtStart := (\<lambda>n. apiServicesAtStart st n \<or> n \<in> asName ` set ss)\<rparr>)"

definition automanagedType :: "APIService option \<Rightarrow> string" where
  "automanagedType service =
    (case service of None \<Rightarrow> [] | Some s \<Rightarrow> map_get (asLabels s) AutoRegisterManagedLabel)"

definition isAutomanagedOnStart :: "APIService option \<Rightarrow> bool" where
  "isAutomanagedOnStart service = (automanagedType service = manageOnStart)"

definition isAutomanaged :: "APIService option \<Rightarrow> bool" where
  "isAutomanaged service =
    (automanagedType service = manageOnStart \<or> automanagedType service = manageContinuously)"

definition label_put :: "string \<Rightarrow> string \<Rightarrow> (string \<times> string) list \<Rightarrow> (string \<times> string) list" where
  "label_put k v m = (k, v) # filter (\<lambda>kv. fst kv \<noteq> k) m"

definition addAPIServiceToSync :: "string \<Rightarrow> APIService \<Rightarrow> auto_state \<Rightarrow> auto_state" where
  "addAPIServiceToSync syncType inp st =
    (let apiService = inp\<lparr>asLabels := label_put AutoRegisterManagedLabel syncType (asLabels inp)\<rparr>
     in st\<lparr>apiServicesToSync := (apiServicesToSync st)(asName apiService \<mapsto> apiService),
           autoQueue := autoQueue st @ [QAdd (asName apiService)]\<rparr>)"

definition AddAPIServiceToSyncOnStart :: "APIService \<Rightarrow> auto_state \<Rightarrow> auto_state" where
  "AddAPIServiceToSyncOnStart inp st = addAPIServiceToSync manageOnStart inp st"

definition AddAPIServiceToSync :: "APIService \<Rightarrow> auto_state \<Rightarrow> auto_state" where
  "AddAPIServiceToSync inp st = addAPIServiceToSync manageContinuously inp st"

definition RemoveAPIServiceToSync :: "string \<Rightarrow> auto_state \<Rightarrow> auto_state" where
  "RemoveAPIServiceToSync name st =
    st\<lparr>apiServicesToSync := (apiServicesToSync st)(name := None), autoQueue := autoQueue st @ [QAdd name]\<rparr>"

definition GetAPIServiceToSync :: "auto_state \<Rightarrow> string \<Rightarrow> APIService option" where
  "GetAPIServiceToSync st name = apiServicesToSync st name"

datatype service_request =
    CreateService APIService
  | DeleteService string string
  | UpdateService APIService

record auto_env =
  au_get :: "string \<Rightarrow> go_error + APIService"
  au_answer :: "service_request \<Rightarrow> go_error option"

text \<open>Send a request; the errors that satisfy \<open>benign\<close> mean \<open>we'll get called again\<close>.\<close>

definition send_request ::
  "auto_env \<Rightarrow> (go_error \<Rightarrow> bool) \<Rightarrow> service_request \<Rightarrow> service_request list \<times> unit outcome" where
  "send_request env benign req =
    ([req], (case au_answer env req of
               None \<Rightarrow> Ret () | Some e \<Rightarrow> if benign e then Ret () else Err e))"

text \<open>The switch of \<open>checkAPIService\<close>. The lister gives a nil object with every error.\<close>

definition check_switch ::
  "auto_env \<Rightarrow> auto_state \<Rightarrow> string \<Rightarrow> service_request list \<times> unit outcome" where
  "check_switch env st name =
    (let desired = GetAPIServiceToSync st name; hasSynced = syncedSuccessfully st name in
     case au_get env name of
       Inl err \<Rightarrow>
         if \<not> IsNotFound err then ([], Err err)
         else (case desired of
                 None \<Rightarrow> ([], Ret ())
               | Some d \<Rightarrow>
                   if isAutomanagedOnStart (Some d) \<and> hasSynced then ([], Ret ())
                   else send_request env IsAlreadyExists (CreateService d))
     | Inr cur \<Rightarrow>
         if isAutomanagedOnStart desired \<and> hasSynced then ([], Ret ())
         else if \<not> isAutomanaged (Some cur) then ([], Ret ())
         else if isAutomanagedOnStart (Some cur) \<and> \<not> apiServicesAtStart st name then ([], Ret ())
         else if isAutomanagedOnStart (Some cur) \<and> hasSynced then ([], Ret ())
         else (case desired of
                 None \<Rightarrow> send_request env (\<lambda>e. IsNotFound e \<or> IsConflict e)
                           (DeleteService (asName cur) (asUID cur))
               | Some d \<Rightarrow>
                   if asSpec cur = asSpec d then ([], Ret ())
                   else send_request env (\<lambda>e. IsNotFound e \<or> IsConflict e)
                          (UpdateService (cur\<lparr>asSpec := asSpec d\<rparr>))))"

text \<open>The deferred function records the first sync that ends without error.\<close>

definition checkAPIService ::
  "auto_env \<Rightarrow> auto_state \<Rightarrow> string \<Rightarrow> service_request list \<times> auto_state \<times> unit outcome" where
  "checkAPIService env st name =
    (let (reqs, res) = check_switch env st name
     in (reqs,
         (if \<not> syncedSuccessfully st name \<and> res = Ret ()
          then st\<lparr>syncedSuccessfully := (syncedSuccessfully st)(name := True)\<rparr> else st),
         res))"

definition auto_processNextWorkItem ::
  "auto_env \<Rightarrow> auto_state \<Rightarrow> string option \<Rightarrow> bool outcome \<times> string queue_op list" where
  "auto_processNextWorkItem env st next =
    process_next (\<lambda>name. snd (snd (checkAPIService env st name))) next"

section \<open>The interface between the two controllers\<close>

locale auto_registration =
  fixes add :: "APIService \<Rightarrow> 's \<Rightarrow> 's"
    and remove :: "string \<Rightarrow> 's \<Rightarrow> 's"
    and wanted :: "'s \<Rightarrow> string \<Rightarrow> APIServiceSpec option"
  assumes wanted_add: "wanted (add a s) n = (if n = asName a then Some (asSpec a) else wanted s n)"
    and wanted_remove: "wanted (remove m s) n = (if n = m then None else wanted s n)"
begin

lemma wanted_handle:
  assumes "lister_list lister = Inr grds"
  shows "wanted (fst (handleVersionUpdate add remove lister port gv s)) n =
    (if n = api_service_name gv
     then (if served_version grds gv then Some (asSpec (grd_api_service port gv)) else None)
     else wanted s n)"
  using assms by (simp add: handleVersionUpdate_def wanted_add wanted_remove grd_api_service_def)

lemma wanted_fold:
  assumes "lister_list lister = Inr grds" and "inj_on api_service_name (insert gv (set gvs))"
  shows "wanted (fold (\<lambda>gv s. fst (handleVersionUpdate add remove lister port gv s)) gvs s)
      (api_service_name gv) =
    (if gv \<in> set gvs
     then (if served_version grds gv then Some (asSpec (grd_api_service port gv)) else None)
     else wanted s (api_service_name gv))"
  using assms(2)
proof (induction gvs arbitrary: s)
  case Nil
  show ?case by simp
next
  case (Cons h gvs)
  have "inj_on api_service_name (insert gv (set gvs))"
    using Cons.prems by (rule inj_on_subset) auto
  note IH = Cons.IH [OF this]
  show ?case
  proof (cases "gv = h")
    case True
    then show ?thesis by (simp add: IH wanted_handle [OF assms(1)] flip: True)
  next
    case False
    then have "api_service_name gv \<noteq> api_service_name h"
      using Cons.prems by (auto simp: inj_on_def)
    then show ?thesis using False by (simp add: IH wanted_handle [OF assms(1)])
  qed
qed

end

interpretation auto_reg: auto_registration AddAPIServiceToSync RemoveAPIServiceToSync
  "\<lambda>st n. map_option asSpec (apiServicesToSync st n)"
  by unfold_locales
    (simp_all add: AddAPIServiceToSync_def addAPIServiceToSync_def RemoveAPIServiceToSync_def Let_def)

interpretation auto_reg_on_start: auto_registration AddAPIServiceToSyncOnStart RemoveAPIServiceToSync
  "\<lambda>st n. map_option asSpec (apiServicesToSync st n)"
  by unfold_locales
    (simp_all add: AddAPIServiceToSyncOnStart_def addAPIServiceToSync_def RemoveAPIServiceToSync_def Let_def)

section \<open>Lemmas\<close>

lemma served_version_iff:
  "served_version grds gv \<longleftrightarrow>
    (\<exists>g \<in> set grds. sGroup (gSpec g) = fst gv \<and>
       (\<exists>v \<in> set (sVersions (gSpec g)). vName v = snd gv \<and> vServed v))"
  by (auto simp: served_version_def list_ex_iff)

text \<open>Version names have no dot (they are DNS labels), so service names do not collide.\<close>

lemma api_service_name_inj:
  assumes "\<And>gv. gv \<in> A \<Longrightarrow> CHR ''.'' \<notin> set (snd gv)"
  shows "inj_on api_service_name A"
proof (rule inj_onI)
  fix x y assume xy: "x \<in> A" "y \<in> A" and eq: "api_service_name x = api_service_name y"
  have "SplitN2 (api_service_name x) CHR ''.'' = [snd x, fst x]"
    "SplitN2 (api_service_name y) CHR ''.'' = [snd y, fst y]"
    using xy assms by (simp_all add: api_service_name_def SplitN2_append)
  then have "[snd x, fst x] = [snd y, fst y]" using eq by metis
  then show "x = y" by (simp add: prod_eq_iff)
qed

lemma automanaged_label [simp]:
  "automanagedType (Some (s\<lparr>asLabels := label_put AutoRegisterManagedLabel t ls\<rparr>)) = t"
  by (simp add: automanagedType_def map_get_def label_put_def)

lemma manage_types_differ [simp]: "manageContinuously \<noteq> manageOnStart"
  by (simp add: manageContinuously_def manageOnStart_def)

text \<open>Every wanted service is stored under its name and labelled with one of the two ways.\<close>

definition auto_wf :: "auto_state \<Rightarrow> bool" where
  "auto_wf st \<longleftrightarrow>
    (\<forall>n s. apiServicesToSync st n = Some s \<longrightarrow> asName s = n \<and> isAutomanaged (Some s))"

lemma auto_wf_add: "auto_wf st \<Longrightarrow> t \<in> {manageOnStart, manageContinuously} \<Longrightarrow>
    auto_wf (addAPIServiceToSync t s st)"
  by (auto simp: auto_wf_def addAPIServiceToSync_def isAutomanaged_def Let_def)

lemma auto_wf_remove: "auto_wf st \<Longrightarrow> auto_wf (RemoveAPIServiceToSync n st)"
  by (auto simp: auto_wf_def RemoveAPIServiceToSync_def)

section \<open>The table of checkAPIService\<close>

text \<open>The rows, columns and cells of the table in the comment of \<open>checkAPIService\<close>.\<close>

datatype current_row = LookupError | CurrentMissing | NoSync | OnStartNew | OnStartOld | SyncAlways
datatype desired_col = NotWanted | WantOnStart | WantAlways
datatype table_cell =
    CellError | CellNothing | CreateOnce | CreateCell | DeleteOnce | UpdateOnce | DeleteCell | UpdateCell

fun doc_table :: "current_row \<Rightarrow> desired_col \<Rightarrow> table_cell" where
  "doc_table LookupError _ = CellError"
| "doc_table CurrentMissing NotWanted = CellNothing"
| "doc_table CurrentMissing WantOnStart = CreateOnce"
| "doc_table CurrentMissing WantAlways = CreateCell"
| "doc_table NoSync _ = CellNothing"
| "doc_table OnStartNew _ = CellNothing"
| "doc_table OnStartOld NotWanted = DeleteOnce"
| "doc_table OnStartOld _ = UpdateOnce"
| "doc_table SyncAlways NotWanted = DeleteCell"
| "doc_table SyncAlways WantOnStart = UpdateOnce"
| "doc_table SyncAlways WantAlways = UpdateCell"

definition row_of :: "auto_env \<Rightarrow> auto_state \<Rightarrow> string \<Rightarrow> current_row" where
  "row_of env st name =
    (case au_get env name of
       Inl e \<Rightarrow> if IsNotFound e then CurrentMissing else LookupError
     | Inr cur \<Rightarrow>
         if automanagedType (Some cur) = manageOnStart
         then (if apiServicesAtStart st name then OnStartOld else OnStartNew)
         else if automanagedType (Some cur) = manageContinuously then SyncAlways else NoSync)"

definition col_of :: "auto_state \<Rightarrow> string \<Rightarrow> desired_col" where
  "col_of st name =
    (case apiServicesToSync st name of
       None \<Rightarrow> NotWanted
     | Some d \<Rightarrow> if automanagedType (Some d) = manageOnStart then WantOnStart else WantAlways)"

text \<open>
  What a cell asks for: \<open>once\<close> is done only before the first successful sync, and an update is
  sent only when the specs differ.
\<close>

definition cell_requests ::
  "auto_env \<Rightarrow> auto_state \<Rightarrow> string \<Rightarrow> table_cell \<Rightarrow> service_request list" where
  "cell_requests env st name cell =
    (let create = (case apiServicesToSync st name of Some d \<Rightarrow> [CreateService d] | None \<Rightarrow> []);
         delete = (case au_get env name of Inr c \<Rightarrow> [DeleteService (asName c) (asUID c)] | Inl _ \<Rightarrow> []);
         update = (case (au_get env name, apiServicesToSync st name) of
                     (Inr c, Some d) \<Rightarrow>
                       if asSpec c = asSpec d then [] else [UpdateService (c\<lparr>asSpec := asSpec d\<rparr>)]
                   | _ \<Rightarrow> []);
         once = (\<lambda>rs. if syncedSuccessfully st name then [] else rs)
     in case cell of
          CellError \<Rightarrow> [] | CellNothing \<Rightarrow> []
        | CreateOnce \<Rightarrow> once create | CreateCell \<Rightarrow> create
        | DeleteOnce \<Rightarrow> once delete | DeleteCell \<Rightarrow> delete
        | UpdateOnce \<Rightarrow> once update | UpdateCell \<Rightarrow> update)"

lemma automanaged_types:
  "isAutomanagedOnStart s = (automanagedType s = manageOnStart)"
  "isAutomanaged s = (automanagedType s = manageOnStart \<or> automanagedType s = manageContinuously)"
  "automanagedType None \<noteq> manageOnStart"
  by (simp_all add: isAutomanagedOnStart_def isAutomanaged_def automanagedType_def manageOnStart_def)

lemma send_request_fst [simp]: "fst (send_request env b r) = [r]"
  by (simp add: send_request_def)

lemma checkAPIService_fst: "fst (checkAPIService env st name) = fst (check_switch env st name)"
  by (simp add: checkAPIService_def split: prod.split)

lemma check_switch_table:
  "fst (check_switch env st name) =
    cell_requests env st name (doc_table (row_of env st name) (col_of st name))"
proof (cases "au_get env name")
  case (Inl e)
  then show ?thesis
    by (auto simp: check_switch_def cell_requests_def row_of_def col_of_def GetAPIServiceToSync_def
        automanaged_types Let_def split: option.split)
next
  case (Inr cur)
  show ?thesis
  proof (cases "apiServicesToSync st name")
    case None
    then show ?thesis using Inr
      by (simp add: check_switch_def cell_requests_def row_of_def col_of_def GetAPIServiceToSync_def
          automanaged_types Let_def)
  next
    case (Some d)
    then show ?thesis using Inr
      by (simp add: check_switch_def cell_requests_def row_of_def col_of_def GetAPIServiceToSync_def
          automanaged_types Let_def)
  qed
qed

text \<open>What the aggregator holds after a request; services are stored by name.\<close>

fun apply_service_request ::
  "service_request \<Rightarrow> (string \<Rightarrow> go_error + APIService) \<Rightarrow> string \<Rightarrow> go_error + APIService" where
  "apply_service_request (CreateService a) get = get(asName a := Inr a)"
| "apply_service_request (DeleteService n uid) get = get(n := Inl (NotFound n))"
| "apply_service_request (UpdateService a) get = get(asName a := Inr a)"

section \<open>Properties\<close>

text \<open>
  C12. \<open>checkAPIService\<close> does what the table in its comment says: for every row (the service in
  the aggregator), every column (the wanted service) and every history of syncs, the requests
  it sends are those of the cell; it fails on a lookup error; and it records a first successful
  sync exactly when it ends without error.
\<close>

theorem checkAPIService_table:
  "fst (checkAPIService env st name) =
     cell_requests env st name (doc_table (row_of env st name) (col_of st name)) \<and>
   (row_of env st name = LookupError \<longrightarrow> (\<exists>e. snd (snd (checkAPIService env st name)) = Err e)) \<and>
   (syncedSuccessfully (fst (snd (checkAPIService env st name))) name \<longleftrightarrow>
      syncedSuccessfully st name \<or> snd (snd (checkAPIService env st name)) = Ret ()) \<and>
   apiServicesToSync (fst (snd (checkAPIService env st name))) = apiServicesToSync st"
proof -
  have "row_of env st name = LookupError \<Longrightarrow> \<exists>e. snd (check_switch env st name) = Err e"
    by (auto simp: row_of_def check_switch_def Let_def split: sum.splits if_splits)
  then show ?thesis
    by (simp add: checkAPIService_fst check_switch_table)
      (auto simp: checkAPIService_def split: prod.split)
qed

text \<open>
  \<open>checkAPIService\<close> converges: once its requests have been carried out, checking the
  same service again, in the controller state it left, sends nothing.
\<close>

theorem checkAPIService_converges:
  assumes "auto_wf st" and "\<And>c. au_get env name = Inr c \<Longrightarrow> asName c = name"
    and "checkAPIService env st name = (reqs, st', Ret ())"
    and "au_get env' = fold apply_service_request reqs (au_get env)"
  shows "fst (checkAPIService env' st' name) = []"
proof -
  have sw: "check_switch env st name = (reqs, Ret ())"
    using assms(3) by (auto simp: checkAPIService_def split: prod.splits)
  have st': "apiServicesToSync st' = apiServicesToSync st" "apiServicesAtStart st' = apiServicesAtStart st"
      "syncedSuccessfully st' name"
    using assms(3) by (auto simp: checkAPIService_def split: prod.splits if_splits)
  have wf: "asName d = name \<and> isAutomanaged (Some d)" if "apiServicesToSync st name = Some d" for d
    using assms(1) that by (auto simp: auto_wf_def)
  have next_switch: "fst (checkAPIService env' st' name) = fst (check_switch env' st' name)"
    by (rule checkAPIService_fst)
  show ?thesis
  proof (cases "apiServicesToSync st name")
    case None
    then show ?thesis
      using sw assms(2,4) st' unfolding next_switch
      by (auto simp: check_switch_def send_request_def GetAPIServiceToSync_def automanaged_types Let_def
          split: sum.splits if_splits option.splits)
  next
    case (Some d)
    then show ?thesis
      using sw assms(2,4) st' wf unfolding next_switch
      by (auto simp: check_switch_def send_request_def GetAPIServiceToSync_def automanaged_types Let_def
          split: sum.splits if_splits option.splits)
  qed
qed

definition sample_service :: "string \<Rightarrow> APIService" where
  "sample_service n = (grd_api_service 6443 (''g.io'', n))"

definition sample_auto_state :: auto_state where
  "sample_auto_state = AddAPIServiceToSync (sample_service ''v1'') NewAutoRegisterController"

definition sample_auto_env :: "(string \<Rightarrow> go_error + APIService) \<Rightarrow> auto_env" where
  "sample_auto_env get = \<lparr>au_get = get, au_answer = (\<lambda>_. None)\<rparr>"

lemma sample_auto_wf: "auto_wf sample_auto_state"
  unfolding sample_auto_state_def AddAPIServiceToSync_def
  by (rule auto_wf_add) (simp_all add: auto_wf_def NewAutoRegisterController_def)

theorem checkAPIService_converges_witness:
  "fst (checkAPIService
     (sample_auto_env (fold apply_service_request
        (fst (checkAPIService (sample_auto_env (\<lambda>n. Inl (NotFound n))) sample_auto_state ''v1.g.io''))
        (\<lambda>n. Inl (NotFound n))))
     (fst (snd (checkAPIService (sample_auto_env (\<lambda>n. Inl (NotFound n))) sample_auto_state ''v1.g.io'')))
     ''v1.g.io'') = []"
proof (rule checkAPIService_converges [where env = "sample_auto_env (\<lambda>n. Inl (NotFound n))"
        and st = sample_auto_state])
  show "checkAPIService (sample_auto_env (\<lambda>n. Inl (NotFound n))) sample_auto_state ''v1.g.io'' =
      (fst (checkAPIService (sample_auto_env (\<lambda>n. Inl (NotFound n))) sample_auto_state ''v1.g.io''),
       fst (snd (checkAPIService (sample_auto_env (\<lambda>n. Inl (NotFound n))) sample_auto_state ''v1.g.io'')),
       Ret ())"
    by (simp add: checkAPIService_def check_switch_def send_request_def sample_auto_env_def
        sample_auto_state_def Let_def split: option.split)
qed (simp_all add: sample_auto_wf sample_auto_env_def)

text \<open>Cell 2C: a service that is wanted always and missing in the aggregator is created.\<close>

theorem checkAPIService_table_witness:
  "fst (checkAPIService (sample_auto_env (\<lambda>n. Inl (NotFound n))) sample_auto_state ''v1.g.io'') =
    cell_requests (sample_auto_env (\<lambda>n. Inl (NotFound n))) sample_auto_state ''v1.g.io'' CreateCell"
proof -
  have "col_of sample_auto_state ''v1.g.io'' = WantAlways"
    by (simp add: col_of_def sample_auto_state_def AddAPIServiceToSync_def addAPIServiceToSync_def Let_def
        sample_service_def grd_api_service_def api_service_name_def automanagedType_def label_put_def map_get_def
        manageOnStart_def manageContinuously_def NewAutoRegisterController_def)
  moreover have "row_of (sample_auto_env (\<lambda>n. Inl (NotFound n))) sample_auto_state ''v1.g.io'' = CurrentMissing"
    by (simp add: row_of_def sample_auto_env_def)
  ultimately show ?thesis
    using checkAPIService_table [of "sample_auto_env (\<lambda>n. Inl (NotFound n))" sample_auto_state "''v1.g.io''"] by simp
qed

text \<open>
  C18. Registration follows the definitions: after the group versions queued by an update
  event have been handled against the current list, each version of the old and of the new
  object has a wanted API service, with the spec the code builds for it, exactly when some
  listed definition serves it; services of other names are as before.
\<close>

theorem registration_follows_update:
  assumes "lister_list lister = Inr grds"
    and "\<And>v. v \<in> set (sVersions (gSpec old)) \<union> set (sVersions (gSpec new)) \<Longrightarrow> CHR ''.'' \<notin> set (vName v)"
    and "st' = fold (\<lambda>gv s. fst (handleVersionUpdate AddAPIServiceToSync RemoveAPIServiceToSync lister port gv s))
      (grd_group_versions old @ grd_group_versions new) st"
    and "gv \<in> set (grd_group_versions old @ grd_group_versions new)"
  shows "map_option asSpec (GetAPIServiceToSync st' (api_service_name gv)) =
      (if served_version grds gv then Some (asSpec (grd_api_service port gv)) else None) \<and>
    registration_update old new = map QAdd (grd_group_versions old @ grd_group_versions new)"
proof -
  let ?gvs = "grd_group_versions old @ grd_group_versions new"
  have "inj_on api_service_name (insert gv (set ?gvs))"
    using assms(2,4) by (intro api_service_name_inj) (auto simp: grd_group_versions_def)
  from auto_reg.wanted_fold [OF assms(1) this, of port st] show ?thesis
    using assms(3,4) by (simp add: GetAPIServiceToSync_def registration_update_def enqueueGRD_def)
qed

theorem registration_follows_update_witness:
  "map_option asSpec (GetAPIServiceToSync
     (fold (\<lambda>gv s. fst (handleVersionUpdate AddAPIServiceToSync RemoveAPIServiceToSync
              \<lparr>lister_get = (\<lambda>n. Inl (NotFound n)), lister_list = Inr []\<rparr> 6443 gv s))
       (grd_group_versions (sample_grd ''ds'' ''D'' ''g.io'') @ grd_group_versions (sample_grd ''ds'' ''D'' ''g.io''))
       sample_auto_state) (api_service_name (''g.io'', ''v1''))) = None"
  using registration_follows_update [OF _ _ refl, of
      "\<lparr>lister_get = (\<lambda>n. Inl (NotFound n)), lister_list = Inr []\<rparr>" "[]"
      "sample_grd ''ds'' ''D'' ''g.io''" "sample_grd ''ds'' ''D'' ''g.io''" "(''g.io'', ''v1'')" 6443
      sample_auto_state]
  by (simp add: served_version_def grd_group_versions_def sample_grd_def sample_version_def)

text \<open>
  The services to sync stay well-formed: each is stored under its own name and carries the
  label of one of the two ways of management, in the initial state and after every operation
  of the controller.
\<close>

theorem auto_state_well_formed:
  "auto_wf NewAutoRegisterController \<and>
   (auto_wf st \<longrightarrow>
      auto_wf (AddAPIServiceToSync s st) \<and> auto_wf (AddAPIServiceToSyncOnStart s st) \<and>
      auto_wf (RemoveAPIServiceToSync n st) \<and> auto_wf (record_at_start services st) \<and>
      auto_wf (fst (snd (checkAPIService env st n))))"
proof -
  have "auto_wf st \<Longrightarrow> auto_wf (record_at_start services st) \<and> auto_wf (fst (snd (checkAPIService env st n)))"
    by (auto simp: auto_wf_def record_at_start_def checkAPIService_def split: prod.splits sum.splits if_splits)
  moreover have "auto_wf NewAutoRegisterController"
    by (simp add: auto_wf_def NewAutoRegisterController_def)
  ultimately show ?thesis
    by (simp add: AddAPIServiceToSync_def AddAPIServiceToSyncOnStart_def auto_wf_add auto_wf_remove)
qed

theorem auto_state_well_formed_witness:
  "auto_wf (RemoveAPIServiceToSync ''v1.g.io'' sample_auto_state)"
  using auto_state_well_formed [of sample_auto_state] sample_auto_wf by blast

end
