(* ===== verification/WatchSet.thy ===== *)
theory WatchSet
  imports FilePathStorage "HOL-Library.AList"
begin

text \<open>
  The watch set of the file storage, \<open>pkg/storage/filepath/watchset.go\<close>: every write of the store
  calls \<open>notifyWatchers\<close>, which sends the event on the unbuffered channel of every registered
  watch while it holds the read lock; a goroutine per watch forwards what its selection
  matches to the unbuffered channel the client reads.

  The code is concurrent, so the model is a transition system. A state holds the set, every
  node created, the running \<open>notifyWatchers\<close> calls (each holds the read lock, with the nodes it
  has still to send to) and the \<open>Stop\<close> calls between their critical section and their \<open>close\<close>.
  An operation that would block (the lock, a channel with no partner) has no step. A critical
  section of the write lock holds no blocking operation and is one step, which needs that no
  call holds the read lock. A send on an unbuffered channel and its receive are one step.
  \<open>wnInit\<close>, \<open>wnSeen\<close>, \<open>wnFrom\<close> and \<open>wsLog\<close> record history and decide nothing.
\<close>

section \<open>State\<close>

text \<open>Where the goroutine of a watch stands (\<open>NotStarted\<close>: before \<open>Start\<close>).\<close>

datatype 'o worker =
    NotStarted | SendInit "'o watch_event list" | Receiving | Forwarding "'o watch_event" | WorkerDone

record 'o watch_node =
  wnPred :: "'o \<Rightarrow> go_error + bool"
  wnWorker :: "'o worker"
  wnClosed :: bool
  wnOutClosed :: bool
  wnRead :: "'o watch_event list"
  wnInit :: "'o watch_event list"
  wnSeen :: "'o watch_event list"
  wnFrom :: nat

type_synonym 'o notifier = "nat \<times> 'o watch_event \<times> nat list"

record 'o watch_set =
  wsCounter :: nat
  wsNodes :: "nat list"
  wsNode :: "nat \<Rightarrow> 'o watch_node option"
  wsNotifiers :: "'o notifier list"
  wsStopping :: "nat list"
  wsPanicked :: bool
  wsLog :: "'o watch_event list"

definition NewWatchSet :: "'o watch_set" where
  "NewWatchSet = \<lparr>wsCounter = 0, wsNodes = [], wsNode = Map.empty, wsNotifiers = [], wsStopping = [],
     wsPanicked = False, wsLog = []\<rparr>"

text \<open>The write lock can be taken when no notification holds the read lock.\<close>

definition mu_free :: "'o watch_set \<Rightarrow> bool" where
  "mu_free s \<longleftrightarrow> wsNotifiers s = []"

definition on_node :: "nat \<Rightarrow> ('o watch_node \<Rightarrow> 'o watch_node) \<Rightarrow> 'o watch_set \<Rightarrow> 'o watch_set" where
  "on_node i f s = s\<lparr>wsNode := (wsNode s)(i := map_option f (wsNode s i))\<rparr>"

section \<open>The operations\<close>

text \<open>\<open>newWatch\<close>, with the id of the node.\<close>

definition fresh_node :: "'o watch_node" where
  "fresh_node = \<lparr>wnPred = (\<lambda>_. Inr False), wnWorker = NotStarted, wnClosed = False, wnOutClosed = False,
     wnRead = [], wnInit = [], wnSeen = [], wnFrom = 0\<rparr>"

definition newWatch :: "'o watch_set \<Rightarrow> (nat \<times> 'o watch_set) option" where
  "newWatch s =
    (if mu_free s
     then Some (Suc (wsCounter s), s\<lparr>wsCounter := Suc (wsCounter s), 
            wsNode := (wsNode s)(Suc (wsCounter s) \<mapsto> fresh_node)\<rparr>)
     else None)"

text \<open>
  \<open>Start\<close>: the node is entered under the lock and its goroutine begins with the initial
  events. The store starts a node once, right after creating it.
\<close>

definition node_start ::
  "('o \<Rightarrow> go_error + bool) \<Rightarrow> 'o watch_event list \<Rightarrow> nat \<Rightarrow> 'o watch_node \<Rightarrow> 'o watch_node" where
  "node_start p initEvents k n =
    n\<lparr>wnPred := p, wnWorker := SendInit initEvents, wnInit := initEvents, wnFrom := k\<rparr>"

definition start_watch ::
  "nat \<Rightarrow> ('o \<Rightarrow> go_error + bool) \<Rightarrow> 'o watch_event list \<Rightarrow> 'o watch_set \<Rightarrow> 'o watch_set option" where
  "start_watch i p initEvents s =
    (case wsNode s i of
       None \<Rightarrow> None
     | Some n \<Rightarrow>
         if mu_free s \<and> wnWorker n = NotStarted
         then Some (on_node i (node_start p initEvents (length (wsLog s))) (s\<lparr>wsNodes := wsNodes s @ [i]\<rparr>))
         else None)"

text \<open>
  The loop of the goroutine: the initial events first, then every event received that the
  selection matches; an error of the selection skips the event. It closes the client's channel
  when its own is closed.
\<close>

definition worker_ready :: "nat \<Rightarrow> 'o watch_set \<Rightarrow> 'o watch_set option" where
  "worker_ready i s =
    (case wsNode s i of
       None \<Rightarrow> None
     | Some n \<Rightarrow> if wnWorker n = SendInit [] then Some (on_node i (\<lambda>n. n\<lparr>wnWorker := Receiving\<rparr>) s) else None)"

definition selected :: "('o \<Rightarrow> go_error + bool) \<Rightarrow> 'o watch_event \<Rightarrow> bool" where
  "selected p ev = (case p (snd ev) of Inl _ \<Rightarrow> False | Inr ok \<Rightarrow> ok)"

definition worker_receive :: "'o watch_event \<Rightarrow> 'o watch_node \<Rightarrow> 'o watch_node" where
  "worker_receive ev n =
    n\<lparr>wnSeen := wnSeen n @ [ev], wnWorker := (if selected (wnPred n) ev then Forwarding ev else Receiving)\<rparr>"

definition worker_end :: "nat \<Rightarrow> 'o watch_set \<Rightarrow> 'o watch_set option" where
  "worker_end i s =
    (case wsNode s i of
       None \<Rightarrow> None
     | Some n \<Rightarrow>
         if wnWorker n = Receiving \<and> wnClosed n
         then Some (on_node i (\<lambda>n. n\<lparr>wnWorker := WorkerDone, wnOutClosed := True\<rparr>) s) else None)"

text \<open>The client reads one event from \<open>ResultChan\<close>.\<close>

definition node_read :: "'o watch_event \<Rightarrow> 'o worker \<Rightarrow> 'o watch_node \<Rightarrow> 'o watch_node" where
  "node_read e w n = n\<lparr>wnRead := wnRead n @ [e], wnWorker := w\<rparr>"

definition client_read :: "nat \<Rightarrow> 'o watch_set \<Rightarrow> 'o watch_set option" where
  "client_read i s =
    (case wsNode s i of
       None \<Rightarrow> None
     | Some n \<Rightarrow>
         (case wnWorker n of
            SendInit (e # es) \<Rightarrow> Some (on_node i (node_read e (SendInit es)) s)
          | Forwarding e \<Rightarrow> Some (on_node i (node_read e Receiving) s)
          | _ \<Rightarrow> None))"

text \<open>
  \<open>notifyWatchers\<close>: the read lock is shared by concurrent calls (\<open>t\<close> tells them apart); the map
  is iterated in any order, and no node enters or leaves it meanwhile. Each send waits for the
  goroutine of the node; a send on a closed channel panics.
\<close>

definition notify_begin :: "nat \<Rightarrow> 'o watch_event \<Rightarrow> 'o watch_set \<Rightarrow> 'o watch_set option" where
  "notify_begin t ev s =
    (if t \<in> fst ` set (wsNotifiers s) then None
     else Some (s\<lparr>wsNotifiers := (t, ev, wsNodes s) # wsNotifiers s, wsLog := wsLog s @ [ev]\<rparr>))"

definition notify_send :: "nat \<Rightarrow> nat \<Rightarrow> 'o watch_set \<Rightarrow> 'o watch_set option" where
  "notify_send t i s =
    (case map_of (wsNotifiers s) t of
       None \<Rightarrow> None
     | Some (ev, todo) \<Rightarrow>
         (case wsNode s i of
            None \<Rightarrow> None
          | Some n \<Rightarrow>
              if i \<notin> set todo then None
              else if wnClosed n then Some (s\<lparr>wsPanicked := True\<rparr>)
              else if wnWorker n \<noteq> Receiving then None
              else Some (on_node i (worker_receive ev)
                (s\<lparr>wsNotifiers := AList.update t (ev, remove1 i todo) (wsNotifiers s)\<rparr>))))"

definition notify_end :: "nat \<Rightarrow> 'o watch_set \<Rightarrow> 'o watch_set option" where
  "notify_end t s =
    (case map_of (wsNotifiers s) t of
       Some (ev, []) \<Rightarrow> Some (s\<lparr>wsNotifiers := AList.delete t (wsNotifiers s)\<rparr>)
     | _ \<Rightarrow> None)"

text \<open>
  \<open>Stop\<close>: the node leaves the set under the lock, then its channel is closed; closing a closed
  channel panics. A client has the node only once it is started.
\<close>

definition stop_delete :: "nat \<Rightarrow> 'o watch_set \<Rightarrow> 'o watch_set option" where
  "stop_delete i s =
    (case wsNode s i of
       None \<Rightarrow> None
     | Some n \<Rightarrow>
         if mu_free s \<and> wnWorker n \<noteq> NotStarted
         then Some (s\<lparr>wsNodes := remove1 i (wsNodes s), wsStopping := i # wsStopping s\<rparr>) else None)"

definition stop_close :: "nat \<Rightarrow> 'o watch_set \<Rightarrow> 'o watch_set option" where
  "stop_close i s =
    (case wsNode s i of
       None \<Rightarrow> None
     | Some n \<Rightarrow>
         if i \<notin> set (wsStopping s) then None
         else if wnClosed n then Some (s\<lparr>wsPanicked := True\<rparr>)
         else Some (on_node i (\<lambda>n. n\<lparr>wnClosed := True\<rparr>) (s\<lparr>wsStopping := remove1 i (wsStopping s)\<rparr>)))"

section \<open>Steps and runs\<close>

datatype 'o ws_label =
    NewWatch
  | StartWatch nat "'o \<Rightarrow> go_error + bool" "'o watch_event list"
  | WorkerReady nat | WorkerEnd nat | ClientRead nat
  | NotifyBegin nat "'o watch_event" | NotifySend nat nat | NotifyEnd nat
  | StopDelete nat | StopClose nat

fun ws_op :: "'o ws_label \<Rightarrow> 'o watch_set \<Rightarrow> 'o watch_set option" where
  "ws_op NewWatch s = map_option snd (newWatch s)"
| "ws_op (StartWatch i p evs) s = start_watch i p evs s"
| "ws_op (WorkerReady i) s = worker_ready i s"
| "ws_op (WorkerEnd i) s = worker_end i s"
| "ws_op (ClientRead i) s = client_read i s"
| "ws_op (NotifyBegin t ev) s = notify_begin t ev s"
| "ws_op (NotifySend t i) s = notify_send t i s"
| "ws_op (NotifyEnd t) s = notify_end t s"
| "ws_op (StopDelete i) s = stop_delete i s"
| "ws_op (StopClose i) s = stop_close i s"

text \<open>A panic ends the process.\<close>

definition ws_step :: "'o ws_label \<Rightarrow> 'o watch_set \<Rightarrow> 'o watch_set option" where
  "ws_step l s = (if wsPanicked s then None else ws_op l s)"

fun ws_run :: "'o ws_label list \<Rightarrow> 'o watch_set \<Rightarrow> 'o watch_set option" where
  "ws_run [] s = Some s"
| "ws_run (l # ls) s = (case ws_step l s of None \<Rightarrow> None | Some s' \<Rightarrow> ws_run ls s')"

inductive ws_reachable :: "'o watch_set \<Rightarrow> bool" where
  ws_start: "ws_reachable NewWatchSet"
| ws_more: "ws_reachable s \<Longrightarrow> ws_step l s = Some s' \<Longrightarrow> ws_reachable s'"

text \<open>The labels of \<open>cleanupWatchers\<close> when it meets the nodes in the order \<open>ids\<close>.\<close>

definition cleanupWatchers :: "nat list \<Rightarrow> 'o ws_label list" where
  "cleanupWatchers ids = concat (map (\<lambda>i. [StopDelete i, StopClose i]) ids)"

section \<open>Invariants\<close>

named_theorems ws_defs

declare newWatch_def [ws_defs] start_watch_def [ws_defs] worker_ready_def [ws_defs] worker_end_def [ws_defs]
  client_read_def [ws_defs] notify_begin_def [ws_defs] notify_send_def [ws_defs] notify_end_def [ws_defs]
  stop_delete_def [ws_defs] stop_close_def [ws_defs]

lemma on_node_sel [simp]:
  "wsNode (on_node i f s) j = (if j = i then map_option f (wsNode s i) else wsNode s j)"
  "wsCounter (on_node i f s) = wsCounter s" "wsNodes (on_node i f s) = wsNodes s"
  "wsNotifiers (on_node i f s) = wsNotifiers s" "wsStopping (on_node i f s) = wsStopping s"
  "wsPanicked (on_node i f s) = wsPanicked s" "wsLog (on_node i f s) = wsLog s"
  by (simp_all add: on_node_def)

lemma ws_run_append:
  "ws_run (ls @ ls') s = (case ws_run ls s of None \<Rightarrow> None | Some s' \<Rightarrow> ws_run ls' s')"
  by (induction ls arbitrary: s) (auto split: option.splits)

lemma ws_run_reachable:
  "ws_run ls s = Some s' \<Longrightarrow> ws_reachable s \<Longrightarrow> ws_reachable s'"
  by (induction ls arbitrary: s) (auto split: option.splits intro: ws_more)

text \<open>
  What holds of every node because each operation on a node keeps it: the interface between
  the steps of the set and the properties of a single watch.
\<close>

locale node_invariant =
  fixes P :: "'o watch_node \<Rightarrow> bool"
  assumes fresh: "P fresh_node"
    and start: "\<And>n p evs k. P n \<Longrightarrow> wnWorker n = NotStarted \<Longrightarrow> P (node_start p evs k n)"
    and ready: "\<And>n. P n \<Longrightarrow> wnWorker n = SendInit [] \<Longrightarrow> P (n\<lparr>wnWorker := Receiving\<rparr>)"
    and receive: "\<And>n ev. P n \<Longrightarrow> wnWorker n = Receiving \<Longrightarrow> \<not> wnClosed n \<Longrightarrow> P (worker_receive ev n)"
    and finish: "\<And>n. P n \<Longrightarrow> wnWorker n = Receiving \<Longrightarrow> wnClosed n \<Longrightarrow>
      P (n\<lparr>wnWorker := WorkerDone, wnOutClosed := True\<rparr>)"
    and read_init: "\<And>n e es. P n \<Longrightarrow> wnWorker n = SendInit (e # es) \<Longrightarrow> P (node_read e (SendInit es) n)"
    and read_event: "\<And>n e. P n \<Longrightarrow> wnWorker n = Forwarding e \<Longrightarrow> P (node_read e Receiving n)"
    and close: "\<And>n. P n \<Longrightarrow> \<not> wnClosed n \<Longrightarrow> P (n\<lparr>wnClosed := True\<rparr>)"
begin

definition holds :: "'o watch_set \<Rightarrow> bool" where
  "holds s \<longleftrightarrow> (\<forall>x \<in> ran (wsNode s). P x)"

lemma holds_at: "holds s \<Longrightarrow> wsNode s i = Some n \<Longrightarrow> P n"
  by (auto simp: holds_def ran_def)

lemma holds_on_node:
  assumes "holds s" and "wsNode s' = wsNode s" and "wsNode s i = Some n" and "P (f n)"
  shows "holds (on_node i f s')"
proof -
  have "ran (wsNode (on_node i f s')) \<subseteq> insert (f n) (ran (wsNode s))"
    using assms(2,3) by (auto simp: ran_def split: if_splits)
  then show ?thesis using assms(1,4) by (auto simp: holds_def)
qed

lemma holds_same: "holds s \<Longrightarrow> wsNode s' = wsNode s \<Longrightarrow> holds s'"
  by (simp add: holds_def)

lemma holds_step:
  assumes "holds s" and "ws_step l s = Some s'"
  shows "holds s'"
proof -
  note at = holds_at [OF assms(1)] and on = holds_on_node [OF assms(1)] and same = holds_same [OF assms(1)]
  have op: "ws_op l s = Some s'" using assms(2) by (simp add: ws_step_def split: if_splits)
  show ?thesis
  proof (cases l)
    case NewWatch
    have "ran (wsNode s') \<subseteq> insert fresh_node (ran (wsNode s))"
      using op NewWatch by (auto simp: newWatch_def ran_def split: if_splits)
    then show ?thesis using assms(1) fresh by (auto simp: holds_def)
  next
    case (StartWatch i p evs)
    then obtain n where "wsNode s i = Some n" "wnWorker n = NotStarted"
      "s' = on_node i (node_start p evs (length (wsLog s))) (s\<lparr>wsNodes := wsNodes s @ [i]\<rparr>)"
      using op by (auto simp: start_watch_def split: option.splits if_splits)
    then show ?thesis using on start at by simp
  next
    case (WorkerReady i)
    then obtain n where "wsNode s i = Some n" "wnWorker n = SendInit []"
      "s' = on_node i (\<lambda>n. n\<lparr>wnWorker := Receiving\<rparr>) s"
      using op by (auto simp: worker_ready_def split: option.splits if_splits)
    then show ?thesis using on ready at by simp
  next
    case (WorkerEnd i)
    then obtain n where "wsNode s i = Some n" "wnWorker n = Receiving" "wnClosed n"
      "s' = on_node i (\<lambda>n. n\<lparr>wnWorker := WorkerDone, wnOutClosed := True\<rparr>) s"
      using op by (auto simp: worker_end_def split: option.splits if_splits)
    then show ?thesis using on finish at by simp
  next
    case (ClientRead i)
    then obtain n where n: "wsNode s i = Some n" using op by (auto simp: client_read_def split: option.splits)
    consider e es where "wnWorker n = SendInit (e # es)" "s' = on_node i (node_read e (SendInit es)) s"
      | e where "wnWorker n = Forwarding e" "s' = on_node i (node_read e Receiving) s"
      using op ClientRead n by (auto simp: client_read_def split: worker.splits list.splits)
    then show ?thesis using n on read_init read_event at by cases simp_all
  next
    case (NotifyBegin t ev)
    then have "wsNode s' = wsNode s" using op by (auto simp: notify_begin_def split: if_splits)
    then show ?thesis by (rule same)
  next
    case (NotifySend t i)
    then obtain n where n: "wsNode s i = Some n"
      using op by (auto simp: notify_send_def split: option.splits)
    consider "s' = s\<lparr>wsPanicked := True\<rparr>"
      | ev todo where "wnWorker n = Receiving" "\<not> wnClosed n"
        "s' = on_node i (worker_receive ev) (s\<lparr>wsNotifiers := AList.update t (ev, remove1 i todo) (wsNotifiers s)\<rparr>)"
      using op NotifySend n by (auto simp: notify_send_def split: option.splits if_splits)
    then show ?thesis using n on receive at by cases (simp_all add: same)
  next
    case (NotifyEnd t)
    then have "wsNode s' = wsNode s" using op by (auto simp: notify_end_def split: option.splits list.splits)
    then show ?thesis by (rule same)
  next
    case (StopDelete i)
    then have "wsNode s' = wsNode s" using op by (auto simp: stop_delete_def split: option.splits if_splits)
    then show ?thesis by (rule same)
  next
    case (StopClose i)
    then obtain n where n: "wsNode s i = Some n"
      using op by (auto simp: stop_close_def split: option.splits)
    consider "s' = s\<lparr>wsPanicked := True\<rparr>"
      | "\<not> wnClosed n" "s' = on_node i (\<lambda>n. n\<lparr>wnClosed := True\<rparr>) (s\<lparr>wsStopping := remove1 i (wsStopping s)\<rparr>)"
      using op StopClose n by (auto simp: stop_close_def split: option.splits if_splits)
    then show ?thesis using n on close at by cases (simp_all add: same)
  qed
qed

lemma reachable_holds: "ws_reachable s \<Longrightarrow> holds s"
proof (induction rule: ws_reachable.induct)
  case ws_start
  show ?case by (simp add: holds_def NewWatchSet_def)
qed (rule holds_step)

lemma reachable_node: "ws_reachable s \<Longrightarrow> wsNode s i = Some n \<Longrightarrow> P n"
  by (rule holds_at [OF reachable_holds])

end

text \<open>What a watch has still to hand to its client.\<close>

fun pending :: "'o worker \<Rightarrow> 'o watch_event list" where
  "pending (SendInit es) = es"
| "pending (Forwarding e) = [e]"
| "pending _ = []"

definition delivers :: "'o watch_node \<Rightarrow> bool" where
  "delivers n \<longleftrightarrow>
    wnRead n @ pending (wnWorker n) = wnInit n @ filter (selected (wnPred n)) (wnSeen n) \<and>
    (case wnWorker n of NotStarted \<Rightarrow> wnSeen n = [] \<and> wnRead n = [] | SendInit _ \<Rightarrow> wnSeen n = [] | _ \<Rightarrow> True) \<and>
    (wnOutClosed n \<longleftrightarrow> wnWorker n = WorkerDone) \<and> (wnWorker n = WorkerDone \<longrightarrow> wnClosed n)"

interpretation delivery: node_invariant delivers
  by unfold_locales
    (auto simp: delivers_def fresh_node_def node_start_def node_read_def worker_receive_def
      split: worker.splits)

definition started :: "'o watch_set \<Rightarrow> nat \<Rightarrow> bool" where
  "started s i \<longleftrightarrow> (case wsNode s i of None \<Rightarrow> False | Some n \<Rightarrow> wnWorker n \<noteq> NotStarted)"

definition closed :: "'o watch_set \<Rightarrow> nat \<Rightarrow> bool" where
  "closed s i \<longleftrightarrow> (case wsNode s i of None \<Rightarrow> False | Some n \<Rightarrow> wnClosed n)"

definition ws_wf :: "'o watch_set \<Rightarrow> bool" where
  "ws_wf s \<longleftrightarrow>
    distinct (wsNodes s) \<and> distinct (map fst (wsNotifiers s)) \<and> dom (wsNode s) \<subseteq> {1..wsCounter s} \<and>
    (\<forall>i \<in> set (wsNodes s). started s i \<and> \<not> closed s i \<and> i \<notin> set (wsStopping s)) \<and>
    (\<forall>i. closed s i \<or> i \<in> set (wsStopping s) \<longrightarrow> started s i) \<and>
    (\<forall>(t, ev, todo) \<in> set (wsNotifiers s). set todo \<subseteq> set (wsNodes s) \<and> distinct todo)"

lemma ws_wf_new: "ws_wf NewWatchSet"
  by (simp add: ws_wf_def NewWatchSet_def started_def closed_def)

text \<open>A step on one node that leaves the set, the locks and the stops alone.\<close>

lemma ws_wf_on_node:
  assumes "ws_wf s" and "wsNode s i = Some n"
    and "wnWorker n \<noteq> NotStarted" and "wnWorker (f n) \<noteq> NotStarted" and "wnClosed (f n) = wnClosed n"
  shows "ws_wf (on_node i f s)"
proof -
  have "started (on_node i f s) j = started s j" "closed (on_node i f s) j = closed s j" for j
    using assms(2-5) by (simp_all add: started_def closed_def)
  moreover have "dom (wsNode (on_node i f s)) = dom (wsNode s)"
    using assms(2) by (auto simp: dom_def)
  ultimately show ?thesis using assms(1) by (simp add: ws_wf_def)
qed

lemma ws_wf_notifiers:
  assumes "ws_wf s" and "distinct (map fst ns)"
    and "\<And>t ev todo. (t, ev, todo) \<in> set ns \<Longrightarrow> set todo \<subseteq> set (wsNodes s) \<and> distinct todo"
  shows "ws_wf (s\<lparr>wsNotifiers := ns\<rparr>)"
proof -
  have "\<forall>x \<in> set ns. case x of (t, ev, todo) \<Rightarrow> set todo \<subseteq> set (wsNodes s) \<and> distinct todo"
  proof
    fix x assume x: "x \<in> set ns"
    obtain t ev todo where "x = (t, ev, todo)" by (rule prod_cases3)
    then show "case x of (t, ev, todo) \<Rightarrow> set todo \<subseteq> set (wsNodes s) \<and> distinct todo"
      using assms(3) x by simp
  qed
  then show ?thesis using assms(1,2) by (simp add: ws_wf_def started_def closed_def)
qed

lemma ws_wf_frame:
  "ws_wf (s\<lparr>wsPanicked := b\<rparr>) = ws_wf s" "ws_wf (s\<lparr>wsLog := evs\<rparr>) = ws_wf s"
  by (simp_all add: ws_wf_def started_def closed_def)

lemma ws_wf_start:
  assumes "ws_wf s" and n: "wsNode s i = Some n" "wnWorker n = NotStarted" and "mu_free s"
  shows "ws_wf (on_node i (node_start p evs k) (s\<lparr>wsNodes := wsNodes s @ [i]\<rparr>))" (is "ws_wf ?s'")
proof -
  have out: "\<not> started s i" using n by (simp add: started_def)
  then have new: "i \<notin> set (wsNodes s)" "\<not> closed s i" "i \<notin> set (wsStopping s)"
    using assms(1) by (auto simp: ws_wf_def)
  have "started ?s' j = (j = i \<or> started s j)" "closed ?s' j = closed s j" for j
    using n by (simp_all add: started_def closed_def node_start_def)
  moreover have "dom (wsNode ?s') = dom (wsNode s)" using n by (auto simp: dom_def)
  ultimately show ?thesis
    using assms(1,4) new by (auto simp: ws_wf_def mu_free_def)
qed

lemma ws_wf_step:
  assumes wf: "ws_wf s" and "ws_step l s = Some s'"
  shows "ws_wf s'"
proof -
  have op: "ws_op l s = Some s'" using assms(2) by (simp add: ws_step_def split: if_splits)
  show ?thesis
  proof (cases l)
    case NewWatch
    then have s': "s' = s\<lparr>wsCounter := Suc (wsCounter s), wsNode := (wsNode s)(Suc (wsCounter s) \<mapsto> fresh_node)\<rparr>"
      and free: "mu_free s"
      using op by (auto simp: newWatch_def split: if_splits)
    have "Suc (wsCounter s) \<notin> dom (wsNode s)" using wf by (auto simp: ws_wf_def)
    then have "wsNode s (Suc (wsCounter s)) = None" by (simp add: domIff)
    then have "started s' j = started s j" "closed s' j = closed s j" for j
      unfolding s' by (simp_all add: started_def closed_def fresh_node_def)
    then show ?thesis using wf free unfolding s' by (auto simp: ws_wf_def mu_free_def)
  next
    case (StartWatch i p evs)
    then show ?thesis
      using op ws_wf_start [OF wf] by (auto simp: start_watch_def split: option.splits if_splits)
  next
    case (WorkerReady i)
    then show ?thesis
      using op ws_wf_on_node [OF wf] by (auto simp: worker_ready_def split: option.splits if_splits)
  next
    case (WorkerEnd i)
    then show ?thesis
      using op ws_wf_on_node [OF wf] by (auto simp: worker_end_def split: option.splits if_splits)
  next
    case (ClientRead i)
    then show ?thesis
      using op ws_wf_on_node [OF wf]
      by (auto simp: client_read_def node_read_def split: option.splits worker.splits list.splits)
  next
    case (NotifyBegin t ev)
    then have "s' = s\<lparr>wsNotifiers := (t, ev, wsNodes s) # wsNotifiers s, wsLog := wsLog s @ [ev]\<rparr>"
      "t \<notin> fst ` set (wsNotifiers s)"
      using op by (auto simp: notify_begin_def split: if_splits)
    then show ?thesis
      using wf ws_wf_notifiers [OF wf, of "(t, ev, wsNodes s) # wsNotifiers s"]
      by (auto simp: ws_wf_def started_def closed_def)
  next
    case (NotifySend t i)
    then obtain ev todo n where t: "map_of (wsNotifiers s) t = Some (ev, todo)" and n: "wsNode s i = Some n"
      using op by (auto simp: notify_send_def split: option.splits)
    have todo: "set todo \<subseteq> set (wsNodes s)" "distinct todo"
      using wf map_of_SomeD [OF t] by (auto simp: ws_wf_def)
    have "ws_wf (s\<lparr>wsNotifiers := AList.update t (ev, remove1 i todo) (wsNotifiers s)\<rparr>)"
    proof (rule ws_wf_notifiers [OF wf])
      show "distinct (map fst (AList.update t (ev, remove1 i todo) (wsNotifiers s)))"
        using wf by (simp add: ws_wf_def distinct_update)
      show "set todo' \<subseteq> set (wsNodes s) \<and> distinct todo'"
        if "(t', ev', todo') \<in> set (AList.update t (ev, remove1 i todo) (wsNotifiers s))" for t' ev' todo'
      proof -
        have "map_of (AList.update t (ev, remove1 i todo) (wsNotifiers s)) t' = Some (ev', todo')"
          using that wf by (simp add: ws_wf_def distinct_update)
        then have "todo' = remove1 i todo \<or> (t', ev', todo') \<in> set (wsNotifiers s)"
          by (auto simp: update_conv split: if_splits dest: map_of_SomeD)
        then show ?thesis
          using todo wf set_remove1_subset [of i todo] by (fastforce simp: ws_wf_def)
      qed
    qed
    then have "ws_wf (on_node i (worker_receive ev)
        (s\<lparr>wsNotifiers := AList.update t (ev, remove1 i todo) (wsNotifiers s)\<rparr>))"
      if "wnWorker n = Receiving"
      using that n by (intro ws_wf_on_node) (auto simp: worker_receive_def)
    then show ?thesis
      using op NotifySend t n wf by (auto simp: notify_send_def ws_wf_frame split: if_splits)
  next
    case (NotifyEnd t)
    then have s': "s' = s\<lparr>wsNotifiers := AList.delete t (wsNotifiers s)\<rparr>"
      using op by (auto simp: notify_end_def split: option.splits list.splits)
    show ?thesis
      unfolding s'
    proof (rule ws_wf_notifiers [OF wf])
      show "distinct (map fst (AList.delete t (wsNotifiers s)))"
        using wf by (simp add: ws_wf_def distinct_delete)
    qed (use wf in \<open>auto simp: ws_wf_def AList.delete_eq\<close>)
  next
    case (StopDelete i)
    then have s': "s' = s\<lparr>wsNodes := remove1 i (wsNodes s), wsStopping := i # wsStopping s\<rparr>"
      and free: "mu_free s" and "started s i"
      using op by (auto simp: stop_delete_def started_def split: option.splits if_splits)
    moreover have "started s' j = started s j" "closed s' j = closed s j" for j
      unfolding s' by (simp_all add: started_def closed_def)
    ultimately show ?thesis using wf by (auto simp: ws_wf_def mu_free_def)
  next
    case (StopClose i)
    then obtain n where n: "wsNode s i = Some n" and i: "i \<in> set (wsStopping s)"
      using op by (auto simp: stop_close_def split: option.splits if_splits)
    let ?c = "on_node i (\<lambda>n. n\<lparr>wnClosed := True\<rparr>) (s\<lparr>wsStopping := remove1 i (wsStopping s)\<rparr>)"
    have "started ?c j = started s j" "closed ?c j = (j = i \<or> closed s j)" for j
      using n by (simp_all add: started_def closed_def)
    moreover have "dom (wsNode ?c) = dom (wsNode s)" using n by (auto simp: dom_def)
    ultimately have "ws_wf ?c"
      using wf i set_remove1_subset [of i "wsStopping s"] by (auto simp: ws_wf_def)
    then show ?thesis
      using op StopClose n i wf by (auto simp: stop_close_def ws_wf_frame split: if_splits)
  qed
qed

lemma reachable_wf: "ws_reachable s \<Longrightarrow> ws_wf s"
  by (induction rule: ws_reachable.induct) (auto intro: ws_wf_new ws_wf_step)

section \<open>Panics\<close>

text \<open>
  C16. The only panic of the watch set ids a second \<open>Stop\<close> of one watch: no send of
  \<open>notifyWatchers\<close> meets a closed channel, whatever calls run concurrently.
\<close>

theorem only_a_second_stop_panics:
  assumes "ws_reachable s" and "ws_step l s = Some s'" and "wsPanicked s'"
  shows "\<exists>i. l = StopClose i \<and> closed s i"
proof -
  have wf: "ws_wf s" using assms(1) by (rule reachable_wf)
  have op: "ws_op l s = Some s'" and ok: "\<not> wsPanicked s"
    using assms(2) by (simp_all add: ws_step_def split: if_splits)
  show ?thesis
  proof (cases l)
    case (StopClose i)
    then show ?thesis
      using op ok assms(3) by (auto simp: stop_close_def closed_def split: option.splits if_splits)
  next
    case (NotifySend t i)
    then obtain ev todo n where t: "map_of (wsNotifiers s) t = Some (ev, todo)" and n: "wsNode s i = Some n"
        "i \<in> set todo" and c: "wnClosed n"
      using op ok assms(3) by (auto simp: notify_send_def split: option.splits if_splits)
    have "set todo \<subseteq> set (wsNodes s)" using wf map_of_SomeD [OF t] by (auto simp: ws_wf_def)
    then have "\<not> closed s i" using wf n by (auto simp: ws_wf_def)
    then show ?thesis using n c by (simp add: closed_def)
  qed (use op ok assms(3) in \<open>auto simp: ws_defs split: option.splits if_splits worker.splits list.splits\<close>)
qed

text \<open>One whole \<open>Stop\<close> of an open watch.\<close>

definition stop_state :: "nat \<Rightarrow> 'o watch_set \<Rightarrow> 'o watch_set" where
  "stop_state i s = on_node i (\<lambda>n. n\<lparr>wnClosed := True\<rparr>) (s\<lparr>wsNodes := remove1 i (wsNodes s)\<rparr>)"

lemma stop_state_sel [simp]:
  "wsPanicked (stop_state i s) = wsPanicked s" "wsNotifiers (stop_state i s) = wsNotifiers s"
  "wsNodes (stop_state i s) = remove1 i (wsNodes s)" "wsStopping (stop_state i s) = wsStopping s"
  "started (stop_state i s) j = started s j"
  "closed (stop_state i s) j = (if j = i then wsNode s i \<noteq> None else closed s j)"
  by (simp_all add: stop_state_def started_def closed_def split: option.splits)

lemma stop_run:
  assumes "mu_free s" and "\<not> wsPanicked s" and "started s i" and "\<not> closed s i"
  shows "ws_run [StopDelete i, StopClose i] s = Some (stop_state i s)"
  using assms
  by (auto simp: ws_step_def stop_delete_def stop_close_def stop_state_def on_node_def mu_free_def
      started_def closed_def split: option.splits)

lemma stop_closed_panics:
  assumes "mu_free s" and "\<not> wsPanicked s" and "started s i" and "closed s i"
  shows "map_option wsPanicked (ws_run [StopDelete i, StopClose i] s) = Some True"
  using assms
  by (auto simp: ws_step_def stop_delete_def stop_close_def mu_free_def started_def closed_def
      split: option.splits)

lemma cleanup_run:
  assumes "mu_free s" and "\<not> wsPanicked s" and "distinct ids" and "\<And>i. i \<in> set ids \<Longrightarrow> started s i \<and> \<not> closed s i"
  shows "ws_run (cleanupWatchers ids) s = Some (fold stop_state ids s)"
  using assms
proof (induction ids arbitrary: s)
  case Nil
  then show ?case by (simp add: cleanupWatchers_def)
next
  case (Cons i ids)
  have rest: "ws_run (cleanupWatchers ids) (stop_state i s) = Some (fold stop_state ids (stop_state i s))"
    using Cons.prems by (intro Cons.IH) (auto simp: mu_free_def)
  have split: "cleanupWatchers (i # ids) = [StopDelete i, StopClose i] @ cleanupWatchers ids"
    by (simp add: cleanupWatchers_def)
  have one: "ws_run [StopDelete i, StopClose i] s = Some (stop_state i s)"
    using Cons.prems by (intro stop_run) auto
  show ?case unfolding split ws_run_append one by (simp add: rest)
qed

lemma fold_stop_sel [simp]:
  "wsPanicked (fold stop_state ids s) = wsPanicked s" "wsNotifiers (fold stop_state ids s) = wsNotifiers s"
  "started (fold stop_state ids s) j = started s j"
  by (induction ids arbitrary: s) simp_all

lemma fold_stop_nodes:
  "distinct (wsNodes s) \<Longrightarrow> set (wsNodes (fold stop_state ids s)) = set (wsNodes s) - set ids"
  by (induction ids arbitrary: s) auto

lemma started_node: "started s i \<Longrightarrow> wsNode s i \<noteq> None"
  by (auto simp: started_def split: option.splits)

lemma fold_stop_closed:
  "(\<And>i. i \<in> set ids \<Longrightarrow> started s i) \<Longrightarrow>
   closed (fold stop_state ids s) j = (j \<in> set ids \<or> closed s j)"
proof (induction ids arbitrary: s)
  case (Cons i ids)
  then show ?case using started_node [of s i] by (auto simp del: not_None_eq)
qed simp

text \<open>
  Destroying the storage closes every open watch and empties the set; when the client of
  one of them then stops it, as a watch handler does when it returns, the process panics.
\<close>

theorem stop_after_cleanup_panics:
  assumes "ws_reachable s" and "\<not> wsPanicked s" and "wsNotifiers s = []"
    and "distinct ids" and "set ids = set (wsNodes s)" and "i \<in> set ids"
  shows "\<exists>s1. ws_run (cleanupWatchers ids) s = Some s1 \<and> wsNodes s1 = [] \<and> \<not> wsPanicked s1 \<and>
    map_option wsPanicked (ws_run [StopDelete i, StopClose i] s1) = Some True"
proof -
  have wf: "ws_wf s" using assms(1) by (rule reachable_wf)
  have ok: "started s j \<and> \<not> closed s j" if "j \<in> set ids" for j
    using wf that assms(5) by (simp add: ws_wf_def)
  let ?s1 = "fold stop_state ids s"
  have "ws_run (cleanupWatchers ids) s = Some ?s1"
    using cleanup_run ok assms(2-4) by (auto simp: mu_free_def)
  moreover have "wsNodes ?s1 = []"
    using fold_stop_nodes [of s ids] wf assms(5) by (simp add: ws_wf_def)
  moreover have "map_option wsPanicked (ws_run [StopDelete i, StopClose i] ?s1) = Some True"
    using ok assms(2,3,6) by (intro stop_closed_panics) (simp_all add: mu_free_def fold_stop_closed)
  ultimately show ?thesis using assms(2) by (intro exI [of _ ?s1]) simp
qed

section \<open>Delivery\<close>

text \<open>
  A watch hands its client the initial events and then the events it received that its
  selection matches, in the order received and each once: what was read and what is on its way
  is exactly that list, and when the client's channel is closed nothing is left.
\<close>

theorem watch_delivers_in_order:
  assumes "ws_reachable s" and "wsNode s i = Some n"
  shows "wnRead n @ pending (wnWorker n) = wnInit n @ filter (selected (wnPred n)) (wnSeen n) \<and>
    \<not> (wnOutClosed n \<and> pending (wnWorker n) \<noteq> [])"
proof -
  have "delivers n" using assms by (rule delivery.reachable_node)
  then show ?thesis by (auto simp: delivers_def)
qed

definition seen :: "'o watch_set \<Rightarrow> nat \<Rightarrow> 'o watch_event list" where
  "seen s i = (case wsNode s i of None \<Rightarrow> [] | Some n \<Rightarrow> wnSeen n)"

definition worker_of :: "'o watch_set \<Rightarrow> nat \<Rightarrow> 'o worker option" where
  "worker_of s i = map_option wnWorker (wsNode s i)"

lemma next_id_fresh: "ws_wf s \<Longrightarrow> wsNode s (Suc (wsCounter s)) = None"
  by (auto simp: ws_wf_def domIff subset_iff)

lemma seen_step:
  assumes "ws_wf s" and "ws_step l s = Some s'"
  shows "seen s' i = seen s i @
    (case l of NotifySend t j \<Rightarrow> if j = i \<and> \<not> wsPanicked s' then [fst (the (map_of (wsNotifiers s) t))] else []
     | _ \<Rightarrow> [])"
proof -
  have op: "ws_op l s = Some s'" and ok: "\<not> wsPanicked s"
    using assms(2) by (simp_all add: ws_step_def split: if_splits)
  show ?thesis
    using op ok next_id_fresh [OF assms(1)]
    by (cases l) (auto simp: seen_def ws_defs fresh_node_def node_start_def node_read_def worker_receive_def
        split: option.splits if_splits worker.splits list.splits)
qed

lemma notifier_step:
  assumes "ws_step l s = Some s'" and "l \<noteq> NotifyEnd t" and "map_of (wsNotifiers s) t = Some (ev, todo)"
  shows "map_of (wsNotifiers s') t = Some (ev,
    (case l of NotifySend t' j \<Rightarrow> if t' = t \<and> \<not> wsPanicked s' then remove1 j todo else todo | _ \<Rightarrow> todo))"
proof -
  have op: "ws_op l s = Some s'" and ok: "\<not> wsPanicked s"
    using assms(1) by (simp_all add: ws_step_def split: if_splits)
  have t: "t \<in> fst ` set (wsNotifiers s)" using map_of_SomeD [OF assms(3)] by force
  show ?thesis
  proof (cases l)
    case (NotifyBegin t' e)
    moreover have "t' \<noteq> t"
      using op NotifyBegin t by (cases "t' = t") (simp_all add: notify_begin_def)
    ultimately show ?thesis using op assms(3) by (auto simp: notify_begin_def split: if_splits)
  qed (use op ok assms(2,3) in \<open>auto simp: ws_defs mu_free_def update_conv
        split: option.splits if_splits worker.splits list.splits\<close>)
qed

lemma worker_step:
  assumes "ws_wf s" and "ws_step l s = Some s'" and "l \<noteq> ClientRead i"
    and "worker_of s i = Some w" and "pending w \<noteq> []"
  shows "worker_of s' i = Some w"
proof -
  have op: "ws_op l s = Some s'" using assms(2) by (simp_all add: ws_step_def split: if_splits)
  show ?thesis
    using op assms(3-5) next_id_fresh [OF assms(1)]
    by (cases l) (auto simp: worker_of_def ws_defs node_start_def node_read_def worker_receive_def
        split: option.splits if_splits worker.splits list.splits)
qed

text \<open>
  A \<open>notifyWatchers\<close> that returned was received by every watch registered when it began,
  however its sends interleave with other calls: the event is among those the watch received
  in between.
\<close>

theorem notify_reaches_every_watch:
  assumes "ws_reachable s0" and "ws_step (NotifyBegin t ev) s0 = Some s1"
    and "ws_run ls s1 = Some s2" and "NotifyEnd t \<notin> set ls" and "ws_step (NotifyEnd t) s2 = Some s3"
    and "i \<in> set (wsNodes s0)"
  shows "\<exists>new. seen s3 i = seen s0 i @ new \<and> ev \<in> set new"
proof -
  define K where "K s \<longleftrightarrow> ws_wf s \<and> (\<exists>todo new. map_of (wsNotifiers s) t = Some (ev, todo) \<and>
    seen s i = seen s0 i @ new \<and> (i \<in> set todo \<or> ev \<in> set new))" for s :: "'a watch_set"
  have K_step: "K s'" if K: "K s" and step: "ws_step l s = Some s'" and l: "l \<noteq> NotifyEnd t" for l s s'
  proof -
    obtain todo new where a: "ws_wf s" "map_of (wsNotifiers s) t = Some (ev, todo)"
      "seen s i = seen s0 i @ new" "i \<in> set todo \<or> ev \<in> set new"
      using K unfolding K_def by blast
    note s = seen_step [OF a(1) step, of i] and n = notifier_step [OF step l a(2)] and w = ws_wf_step [OF a(1) step]
    show ?thesis
    proof (cases "l = NotifySend t i \<and> \<not> wsPanicked s'")
      case True
      then show ?thesis unfolding K_def using s n w a(2,3) by auto
    next
      case False
      then show ?thesis unfolding K_def using s n w a(3,4)
        by (cases l) (auto simp: in_set_remove1 split: if_splits)
    qed
  qed
  have run: "K s \<Longrightarrow> ws_run ls s = Some s2 \<Longrightarrow> NotifyEnd t \<notin> set ls \<Longrightarrow> K s2" for s
    using K_step by (induction ls arbitrary: s) (auto split: option.splits)
  have "ws_wf s0" using assms(1) by (rule reachable_wf)
  then have "K s1"
    using assms(2,6) ws_wf_step [OF _ assms(2)] seen_step [OF _ assms(2), of i]
    by (auto simp: K_def ws_step_def notify_begin_def split: if_splits)
  then have "K s2" using run assms(3,4) by blast
  then obtain todo new where k: "ws_wf s2" "map_of (wsNotifiers s2) t = Some (ev, todo)"
      "seen s2 i = seen s0 i @ new" "i \<in> set todo \<or> ev \<in> set new"
    unfolding K_def by blast
  have "todo = []" using assms(5) k(2) by (auto simp: ws_step_def notify_end_def split: if_splits list.splits)
  then show ?thesis using k seen_step [OF k(1) assms(5), of i] by simp
qed

text \<open>
  C14. A client that stops reading blocks the whole set: while one event is on its way to it and
  a notification has still to send to it, the notification cannot return, and no watch can be
  created, started or stopped, its own included, in whatever happens short of a further read.
\<close>

theorem unread_watch_blocks_the_set:
  assumes "ws_reachable s" and "map_of (wsNotifiers s) t = Some (ev, todo)" and "i \<in> set todo"
    and "worker_of s i = Some w" and "pending w \<noteq> []"
    and "ws_run ls s = Some s'" and "ClientRead i \<notin> set ls"
  shows "ws_step (NotifyEnd t) s' = None \<and> ws_step (StopDelete j) s' = None \<and>
    ws_step NewWatch s' = None \<and> ws_step (StartWatch j p evs) s' = None"
proof -
  define K where "K s \<longleftrightarrow> ws_wf s \<and> worker_of s i = Some w \<and>
    (\<exists>todo. map_of (wsNotifiers s) t = Some (ev, todo) \<and> i \<in> set todo)" for s :: "'a watch_set"
  have K_step: "K s2" if K: "K s1" and step: "ws_step l s1 = Some s2" and l: "l \<noteq> ClientRead i" for l s1 s2
  proof -
    obtain todo where a: "ws_wf s1" "worker_of s1 i = Some w" "map_of (wsNotifiers s1) t = Some (ev, todo)" "i \<in> set todo"
      using K unfolding K_def by blast
    have stay: "l \<noteq> NotifyEnd t"
      using step a(3,4) by (auto simp: ws_step_def notify_end_def split: if_splits list.splits)
    have send: "wsPanicked s2" if "l = NotifySend t i"
      using step that a(2) assms(5) by (cases "wnClosed (the (wsNode s1 i))")
        (auto simp: ws_step_def notify_send_def worker_of_def split: if_splits option.splits)
    have keep: "j \<noteq> i \<Longrightarrow> i \<in> set (remove1 j todo)" for j
      using a(4) by (metis in_set_remove1)
    show ?thesis
      unfolding K_def
      using notifier_step [OF step stay a(3)] worker_step [OF a(1) step l a(2) assms(5)] ws_wf_step [OF a(1) step]
        send a(4)
      by (cases l) (auto intro: keep split: if_splits)
  qed
  have "K s \<Longrightarrow> ws_run ls s = Some s' \<Longrightarrow> ClientRead i \<notin> set ls \<Longrightarrow> K s'" for s
    using K_step by (induction ls arbitrary: s) (auto split: option.splits)
  then have "K s'" using assms reachable_wf [OF assms(1)] by (auto simp: K_def)
  then obtain todo where "map_of (wsNotifiers s') t = Some (ev, todo)" "i \<in> set todo" by (auto simp: K_def)
  then show ?thesis
    by (auto simp: ws_step_def notify_end_def stop_delete_def newWatch_def start_watch_def mu_free_def
        split: option.splits list.splits)
qed

text \<open>The run in which the client of \<open>i\<close> reads all that is on its way to it.\<close>

fun drain_labels :: "'o worker \<Rightarrow> nat \<Rightarrow> 'o ws_label list" where
  "drain_labels (SendInit es) i = map (\<lambda>_. ClientRead i) es @ [WorkerReady i]"
| "drain_labels (Forwarding e) i = [ClientRead i]"
| "drain_labels _ i = []"

definition drained :: "'o watch_node \<Rightarrow> 'o watch_node" where
  "drained n = n\<lparr>wnRead := wnRead n @ pending (wnWorker n), wnWorker := Receiving\<rparr>"

lemma on_node_cong: "wsNode s i = Some n \<Longrightarrow> f n = g n \<Longrightarrow> on_node i f s = on_node i g s"
  by (simp add: on_node_def)

lemma on_node_twice: "on_node i f (on_node i g s) = on_node i (f \<circ> g) s"
  by (cases "wsNode s i") (simp_all add: on_node_def)

lemma drain_run:
  assumes "\<not> wsPanicked s" and "wsNode s i = Some n" and "wnWorker n \<noteq> NotStarted" and "wnWorker n \<noteq> WorkerDone"
  shows "ws_run (drain_labels (wnWorker n) i) s = Some (on_node i drained s)"
  using assms
proof (cases "wnWorker n")
  case (SendInit es)
  have "ws_run (drain_labels (SendInit es) i) s = Some (on_node i drained s)"
    if "\<not> wsPanicked s" "wsNode s i = Some n" "wnWorker n = SendInit es" for s :: "'a watch_set" and n es
    using that
  proof (induction es arbitrary: s n)
    case Nil
    then have "on_node i (\<lambda>n. n\<lparr>wnWorker := Receiving\<rparr>) s = on_node i drained s"
      by (intro on_node_cong [where n = n]) (simp_all add: drained_def)
    then show ?case using Nil by (simp add: ws_step_def worker_ready_def)
  next
    case (Cons e es)
    have "ws_run (drain_labels (SendInit es) i) (on_node i (node_read e (SendInit es)) s) =
        Some (on_node i drained (on_node i (node_read e (SendInit es)) s))"
      using Cons.prems by (intro Cons.IH [of _ "node_read e (SendInit es) n"]) (simp_all add: node_read_def)
    moreover have "on_node i drained (on_node i (node_read e (SendInit es)) s) = on_node i drained s"
      unfolding on_node_twice using Cons.prems
      by (intro on_node_cong [where n = n]) (simp_all add: drained_def node_read_def)
    ultimately show ?case using Cons.prems by (simp add: ws_step_def client_read_def)
  qed
  then show ?thesis using assms SendInit by simp
next
  case (Forwarding e)
  then have "on_node i (node_read e Receiving) s = on_node i drained s"
    using assms by (intro on_node_cong [where n = n]) (simp_all add: drained_def node_read_def)
  then show ?thesis using assms Forwarding by (simp add: ws_step_def client_read_def)
next
  case Receiving
  then have "drained n = n" by (simp add: drained_def)
  then have "on_node i drained s = s" using assms(2) by (simp add: on_node_def fun_upd_idem)
  then show ?thesis using Receiving by simp
qed simp_all

text \<open>The steps that only clients reading and the goroutines of the call \<open>t\<close> make.\<close>

fun helping :: "nat \<Rightarrow> 'o ws_label \<Rightarrow> bool" where
  "helping t (ClientRead _) = True"
| "helping t (WorkerReady _) = True"
| "helping t (NotifySend t' _) = (t' = t)"
| "helping t (NotifyEnd t') = (t' = t)"
| "helping t _ = False"

lemma helping_drain: "l \<in> set (drain_labels w i) \<Longrightarrow> helping t l"
  by (cases w) auto

text \<open>
  C22. When clients read, a notification returns: from every reachable state there is a run of
  reads and of its own sends that ends it.
\<close>

theorem notification_returns_when_clients_read:
  assumes "ws_reachable s" and "\<not> wsPanicked s" and "map_of (wsNotifiers s) t = Some (ev, todo)"
  shows "\<exists>ls. filter (helping t) ls = ls \<and>
    map_option (\<lambda>s'. map_of (wsNotifiers s') t) (ws_run ls s) = Some None"
  using assms
proof (induction todo arbitrary: s)
  case Nil
  have "distinct (map fst (wsNotifiers s))" using reachable_wf [OF Nil(1)] by (simp add: ws_wf_def)
  then show ?case
    using Nil by (intro exI [of _ "[NotifyEnd t]"]) (simp add: ws_step_def notify_end_def delete_conv')
next
  case (Cons i todo)
  have wf: "ws_wf s" using Cons.prems(1) by (rule reachable_wf)
  have "i \<in> set (wsNodes s)" using wf map_of_SomeD [OF Cons.prems(3)] by (auto simp: ws_wf_def)
  then have i: "started s i" "\<not> closed s i" using wf by (simp_all add: ws_wf_def)
  then obtain n where n: "wsNode s i = Some n" "wnWorker n \<noteq> NotStarted" "\<not> wnClosed n"
    by (auto simp: started_def closed_def split: option.splits)
  have "wnWorker n \<noteq> WorkerDone"
    using delivery.reachable_node [OF Cons.prems(1) n(1)] n(3) by (auto simp: delivers_def)
  note drain = drain_run [OF Cons.prems(2) n(1,2) this]
  let ?s1 = "on_node i drained s"
  let ?s2 = "on_node i (worker_receive ev) (?s1\<lparr>wsNotifiers := AList.update t (ev, todo) (wsNotifiers s)\<rparr>)"
  have send: "ws_run [NotifySend t i] ?s1 = Some ?s2"
    using Cons.prems n(1,3) by (simp add: ws_step_def notify_send_def drained_def)
  have run: "ws_run (drain_labels (wnWorker n) i @ [NotifySend t i]) s = Some ?s2"
    unfolding ws_run_append drain by (simp only: option.case send)
  have "map_of (wsNotifiers ?s2) t = Some (ev, todo)" by (simp add: update_conv)
  then obtain ls where ls: "filter (helping t) ls = ls"
      "map_option (\<lambda>s'. map_of (wsNotifiers s') t) (ws_run ls ?s2) = Some None"
    using Cons.IH [of ?s2] ws_run_reachable [OF run Cons.prems(1)] Cons.prems(2) by auto
  show ?case
  proof (intro exI conjI)
    show "filter (helping t) ((drain_labels (wnWorker n) i @ [NotifySend t i]) @ ls) =
        (drain_labels (wnWorker n) i @ [NotifySend t i]) @ ls"
      using ls(1) by (simp add: filter_id_conv helping_drain)
    show "map_option (\<lambda>s'. map_of (wsNotifiers s') t)
        (ws_run ((drain_labels (wnWorker n) i @ [NotifySend t i]) @ ls) s) = Some None"
      unfolding ws_run_append [of _ ls] run using ls(2) by simp
  qed
qed

section \<open>Refinement of a log\<close>

text \<open>
  When the writes of the store are one after the other, no notification begins before the one
  before has returned, and a watch implements an abstract one: a cursor in the log of all
  events, set when the watch starts.
\<close>

fun sequential :: "'o ws_label \<Rightarrow> 'o watch_set \<Rightarrow> bool" where
  "sequential (NotifyBegin _ _) s = mu_free s"
| "sequential _ s = True"

inductive seq_reachable :: "'o watch_set \<Rightarrow> bool" where
  seq_start: "seq_reachable NewWatchSet"
| seq_more: "seq_reachable s \<Longrightarrow> sequential l s \<Longrightarrow> ws_step l s = Some s' \<Longrightarrow> seq_reachable s'"

lemma seq_reachable_reachable: "seq_reachable s \<Longrightarrow> ws_reachable s"
  by (induction rule: seq_reachable.induct) (auto intro: ws_reachable.intros)

fun seq_run :: "'o ws_label list \<Rightarrow> 'o watch_set \<Rightarrow> 'o watch_set option" where
  "seq_run [] s = Some s"
| "seq_run (l # ls) s =
    (if sequential l s then (case ws_step l s of None \<Rightarrow> None | Some s' \<Rightarrow> seq_run ls s') else None)"

lemma seq_run_reachable: "seq_run ls s = Some s' \<Longrightarrow> seq_reachable s \<Longrightarrow> seq_reachable s'"
  by (induction ls arbitrary: s) (auto split: option.splits if_splits intro: seq_more)

definition abstract_watch :: "('o \<Rightarrow> go_error + bool) \<Rightarrow> 'o watch_event list \<Rightarrow> nat \<Rightarrow> 'o watch_event list \<Rightarrow> 'o watch_event list" where
  "abstract_watch p initEvents cursor log = initEvents @ filter (selected p) (drop cursor log)"

text \<open>The event of the running notification, when it has still to reach the watch.\<close>

definition missing :: "'o watch_set \<Rightarrow> nat \<Rightarrow> 'o watch_event list" where
  "missing s i = concat (map (\<lambda>(t, ev, todo). if i \<in> set todo then [ev] else []) (wsNotifiers s))"

definition follows_log :: "'o watch_set \<Rightarrow> nat \<Rightarrow> bool" where
  "follows_log s i \<longleftrightarrow>
    (case wsNode s i of
       None \<Rightarrow> False
     | Some n \<Rightarrow> wnFrom n \<le> length (wsLog s) \<and> drop (wnFrom n) (wsLog s) = wnSeen n @ missing s i)"

definition seq_ok :: "'o watch_set \<Rightarrow> bool" where
  "seq_ok s \<longleftrightarrow> length (wsNotifiers s) \<le> 1 \<and> (\<forall>i \<in> set (wsNodes s). follows_log s i)"

lemma follows_log_on_node:
  assumes "follows_log s j" and "\<And>n. wnFrom (f n) = wnFrom n \<and> wnSeen (f n) = wnSeen n"
  shows "follows_log (on_node i f s) j"
  using assms by (auto simp: follows_log_def missing_def split: option.splits)

lemma follows_log_frame [simp]:
  "follows_log (s\<lparr>wsPanicked := b\<rparr>) j = follows_log s j" "follows_log (s\<lparr>wsStopping := is'\<rparr>) j = follows_log s j"
  by (simp_all add: follows_log_def missing_def cong: option.case_cong)

lemma single_notifier:
  assumes "length ns \<le> 1" and "map_of ns t = Some (ev, todo)"
  shows "ns = [(t, ev, todo)]"
  using assms by (cases ns) (auto split: if_splits)

lemma seq_ok_send:
  assumes ok: "seq_ok s" and wf: "ws_wf s" and step: "notify_send t i s = Some s'"
  shows "seq_ok s'"
proof -
  obtain ev todo n where t: "map_of (wsNotifiers s) t = Some (ev, todo)" and n: "wsNode s i = Some n" and i: "i \<in> set todo"
    using step by (auto simp: notify_send_def split: option.splits if_splits)
  have ns: "wsNotifiers s = [(t, ev, todo)]"
    using ok t by (intro single_notifier) (simp_all add: seq_ok_def)
  then have d: "distinct todo" "set todo \<subseteq> set (wsNodes s)" using wf by (simp_all add: ws_wf_def)
  show ?thesis
  proof (cases "wsPanicked s' = wsPanicked s \<and> \<not> wnClosed n")
    case True
    then have s': "s' = on_node i (worker_receive ev) (s\<lparr>wsNotifiers := [(t, ev, remove1 i todo)]\<rparr>)"
      using step n i t ns by (simp add: notify_send_def split: if_splits)
    have "follows_log s' j" if "follows_log s j" for j
      using that n i d ns unfolding s'
      by (cases "j = i") (auto simp: follows_log_def missing_def worker_receive_def in_set_remove1 split: option.splits)
    then show ?thesis using ok unfolding s' by (simp add: seq_ok_def)
  next
    case False
    then have s': "s' = s\<lparr>wsPanicked := True\<rparr>"
      using step n i t by (auto simp: notify_send_def split: if_splits)
    show ?thesis using ok unfolding s' by (simp add: seq_ok_def)
  qed
qed

lemma seq_ok_step:
  assumes ok: "seq_ok s" and reach: "ws_reachable s" and seq: "sequential l s" and "ws_step l s = Some s'"
  shows "seq_ok s'"
proof -
  have wf: "ws_wf s" using reach by (rule reachable_wf)
  have op: "ws_op l s = Some s'" using assms(4) by (simp add: ws_step_def split: if_splits)
  have log: "follows_log s j" if "j \<in> set (wsNodes s)" for j using ok that by (simp add: seq_ok_def)
  have one: "length (wsNotifiers s) \<le> 1" using ok by (simp add: seq_ok_def)
  have node: "seq_ok (on_node i f s)" if "\<And>n. wnFrom (f n) = wnFrom n \<and> wnSeen (f n) = wnSeen n" for i f
    using one log follows_log_on_node [OF _ that] by (simp add: seq_ok_def)
  show ?thesis
  proof (cases l)
    case NewWatch
    then have s': "s' = s\<lparr>wsCounter := Suc (wsCounter s), wsNode := (wsNode s)(Suc (wsCounter s) \<mapsto> fresh_node)\<rparr>"
      using op by (auto simp: newWatch_def split: if_splits)
    have "follows_log s' j" if "follows_log s j" for j
      using that next_id_fresh [OF wf] unfolding s'
      by (auto simp: follows_log_def missing_def split: option.splits)
    then show ?thesis using one log unfolding s' by (simp add: seq_ok_def)
  next
    case (StartWatch i p evs)
    then obtain n where n: "wsNode s i = Some n" "wnWorker n = NotStarted" and free: "mu_free s"
      and s': "s' = on_node i (node_start p evs (length (wsLog s))) (s\<lparr>wsNodes := wsNodes s @ [i]\<rparr>)"
      using op by (auto simp: start_watch_def split: option.splits if_splits)
    have "wnSeen n = []" using delivery.reachable_node [OF reach n(1)] n(2) by (simp add: delivers_def)
    then have "follows_log s' i"
      using n free unfolding s' by (simp add: follows_log_def missing_def node_start_def mu_free_def)
    moreover have "follows_log s' j" if "j \<noteq> i" "follows_log s j" for j
      using that unfolding s' by (simp add: follows_log_def missing_def cong: option.case_cong)
    ultimately have "follows_log s' j" if "j \<in> set (wsNodes s')" for j
      using that log s' by (cases "j = i") simp_all
    then show ?thesis using one unfolding seq_ok_def by (simp add: s')
  next
    case (ClientRead i)
    then show ?thesis
      using op node by (auto simp: client_read_def node_read_def split: option.splits worker.splits list.splits)
  next
    case (NotifyBegin t ev)
    then have s': "s' = s\<lparr>wsNotifiers := [(t, ev, wsNodes s)], wsLog := wsLog s @ [ev]\<rparr>"
      and free: "wsNotifiers s = []"
      using op seq by (auto simp: notify_begin_def mu_free_def split: if_splits)
    have "follows_log s' j" if "j \<in> set (wsNodes s)" for j
      using log [OF that] that free unfolding s'
      by (auto simp: follows_log_def missing_def split: option.splits)
    then show ?thesis unfolding seq_ok_def by (simp add: s')
  next
    case (NotifySend t i)
    then show ?thesis using op seq_ok_send [OF ok wf] by simp
  next
    case (NotifyEnd t)
    then obtain ev where t: "map_of (wsNotifiers s) t = Some (ev, [])"
      and s': "s' = s\<lparr>wsNotifiers := AList.delete t (wsNotifiers s)\<rparr>"
      using op by (auto simp: notify_end_def split: option.splits list.splits)
    have ns: "wsNotifiers s = [(t, ev, [])]" using single_notifier [OF one t] .
    have "follows_log s' j" if "follows_log s j" for j
      using that ns unfolding s' by (simp add: follows_log_def missing_def cong: option.case_cong)
    then show ?thesis using log unfolding seq_ok_def by (simp add: s' ns)
  next
    case (StopDelete i)
    then have s': "s' = s\<lparr>wsNodes := remove1 i (wsNodes s), wsStopping := i # wsStopping s\<rparr>"
      using op by (auto simp: stop_delete_def split: option.splits if_splits)
    have "follows_log s' j" if "follows_log s j" for j
      using that unfolding s' by (simp add: follows_log_def missing_def cong: option.case_cong)
    then have "follows_log s' j" if "j \<in> set (wsNodes s')" for j
      using that log s' set_remove1_subset [of i "wsNodes s"] by auto
    then show ?thesis using one unfolding seq_ok_def by (simp add: s')
  next
    case (StopClose i)
    then consider "s' = s\<lparr>wsPanicked := True\<rparr>"
      | "s' = on_node i (\<lambda>n. n\<lparr>wnClosed := True\<rparr>) (s\<lparr>wsStopping := remove1 i (wsStopping s)\<rparr>)"
      using op by (auto simp: stop_close_def split: option.splits if_splits)
    moreover have "seq_ok (s\<lparr>wsPanicked := True\<rparr>)"
      using ok by (simp add: seq_ok_def)
    moreover have "follows_log (s\<lparr>wsStopping := remove1 i (wsStopping s)\<rparr>) j" if "follows_log s j" for j
      using that by simp
    ultimately show ?thesis
      using one log by cases (auto simp: seq_ok_def intro!: follows_log_on_node)
  qed (use op node in \<open>auto simp: worker_ready_def worker_end_def split: option.splits if_splits\<close>)
qed

text \<open>
  C13. Writes one after the other: what a registered watch gave its client, with what is on its
  way, is what the abstract watch gives for the log of events, initial events first and then
  each matching event after the start, once and in the order of the writes. Events between the
  listing of the initial objects and the start come before the cursor and are never delivered.
\<close>

theorem sequential_watch_refines_log:
  assumes "seq_reachable s" and "wsNotifiers s = []" and "i \<in> set (wsNodes s)" and "wsNode s i = Some n"
  shows "wnRead n @ pending (wnWorker n) = abstract_watch (wnPred n) (wnInit n) (wnFrom n) (wsLog s)"
proof -
  have "seq_ok s" using assms(1)
  proof (induction rule: seq_reachable.induct)
    case seq_start
    show ?case by (simp add: seq_ok_def NewWatchSet_def)
  qed (blast intro: seq_ok_step seq_reachable_reachable)
  then have "drop (wnFrom n) (wsLog s) = wnSeen n"
    using assms(2-4) by (auto simp: seq_ok_def follows_log_def missing_def)
  moreover have "delivers n"
    using seq_reachable_reachable [OF assms(1)] assms(4) by (rule delivery.reachable_node)
  ultimately show ?thesis by (simp add: delivers_def abstract_watch_def)
qed

section \<open>A watch of the store\<close>

text \<open>Selection, initial events and cursor of a started watch never change.\<close>

definition settings :: "'o watch_set \<Rightarrow> nat \<Rightarrow> (('o \<Rightarrow> go_error + bool) \<times> 'o watch_event list \<times> nat) option" where
  "settings s i = map_option (\<lambda>n. (wnPred n, wnInit n, wnFrom n)) (wsNode s i)"

lemma settings_step:
  assumes "ws_wf s" and "ws_step l s = Some s'" and "started s i"
  shows "settings s' i = settings s i \<and> started s' i"
proof -
  have op: "ws_op l s = Some s'" using assms(2) by (simp_all add: ws_step_def split: if_splits)
  show ?thesis
    using op assms(3) next_id_fresh [OF assms(1)]
    by (cases l) (auto simp: settings_def started_def ws_defs node_start_def node_read_def worker_receive_def
        split: option.splits if_splits worker.splits list.splits)
qed

lemma settings_run:
  "seq_run ls s = Some s' \<Longrightarrow> seq_reachable s \<Longrightarrow> started s i \<Longrightarrow> settings s' i = settings s i"
proof (induction ls arbitrary: s)
  case (Cons l ls)
  then obtain s1 where s1: "sequential l s" "ws_step l s = Some s1" "seq_run ls s1 = Some s'"
    by (auto split: if_splits option.splits)
  have "ws_wf s" using Cons.prems(2) by (intro reachable_wf seq_reachable_reachable)
  note step = settings_step [OF this s1(2) Cons.prems(3)]
  have "settings s' i = settings s1 i"
    using Cons.IH [OF s1(3) seq_more [OF Cons.prems(2) s1(1,2)]] step by simp
  then show ?case using step by simp
qed simp

lemma start_settings:
  assumes "ws_step (StartWatch i p evs) s = Some s1"
  shows "settings s1 i = Some (p, evs, length (wsLog s1)) \<and> started s1 i"
  using assms
  by (auto simp: ws_step_def start_watch_def settings_def started_def node_start_def split: if_splits option.splits)

lemma create_event:
  assumes "Create env key obj st = (Inr out, st')"
  shows "ssEvents st' = ssEvents st @ [(EvAdded, out)]"
  using assms by (cases rule: Create_cases) (auto simp: notifyWatchers_def split: sum.splits)

text \<open>
  C15. A watch of the store gets the events of the whole store: opened for one key, such as a
  namespace, it delivers the objects listed under that key and then the objects created under
  any other key, if its selection matches, which does not look at the key.
\<close>

theorem watch_ignores_its_key:
  assumes "seq_reachable s" and "Watch env key p ''0'' st = (Inr evs, st1)"
    and "ws_step (StartWatch i p evs) s = Some s1"
    and "Create env otherKey obj st1 = (Inr out, st2)" and "p out = Inr True"
    and "seq_run ls s1 = Some s2" and "wsLog s2 = wsLog s1 @ drop (length (ssEvents st1)) (ssEvents st2)"
    and "wsNotifiers s2 = []" and "i \<in> set (wsNodes s2)" and "wsNode s2 i = Some n"
  shows "wnRead n @ pending (wnWorker n) = evs @ [(EvAdded, out)]"
proof -
  have reach: "seq_reachable s1" using seq_more [OF assms(1) _ assms(3)] by simp
  have "settings s2 i = Some (p, evs, length (wsLog s1))"
    using settings_run [OF assms(6) reach] start_settings [OF assms(3)] by simp
  then have n: "wnPred n = p" "wnInit n = evs" "wnFrom n = length (wsLog s1)"
    using assms(10) by (simp_all add: settings_def)
  have "drop (length (wsLog s1)) (wsLog s2) = [(EvAdded, out)]"
    using assms(7) create_event [OF assms(4)] by simp
  then show ?thesis
    using sequential_watch_refines_log [OF seq_run_reachable [OF assms(6) reach] assms(8-10)] n assms(5)
    by (simp add: abstract_watch_def selected_def)
qed

section \<open>Sample runs\<close>

definition every :: "'o \<Rightarrow> go_error + bool" where
  "every _ = Inr True"

definition two_watches :: "'o ws_label list" where
  "two_watches = [NewWatch, StartWatch 1 every [], NewWatch, StartWatch 2 every [], WorkerReady 1, WorkerReady 2]"

definition one_watch :: "nat ws_label list" where
  "one_watch = [NewWatch, StartWatch 1 every [(EvAdded, 7)], ClientRead 1, WorkerReady 1]"

definition told :: "nat ws_label list" where
  "told = [NotifyBegin 0 (EvModified, 8), NotifySend 0 1]"

text \<open>
  Notifications that overlap reach different watches in different orders: the store takes
  no lock around a write and its notification, so one client can read \<open>a\<close> before \<open>b\<close> and another
  \<open>b\<close> before \<open>a\<close>.
\<close>

theorem overlapping_notifications_reorder:
  "\<exists>ls. map_option (\<lambda>s. (map_option wnRead (wsNode s 1), map_option wnRead (wsNode s 2), wsNotifiers s))
      (ws_run ls NewWatchSet) = Some (Some [a, b], Some [b, a], [])"
  by (rule exI [of _ "two_watches @ [NotifyBegin 0 a, NotifyBegin 1 b, NotifySend 0 1, ClientRead 1,
        NotifySend 1 1, ClientRead 1, NotifySend 1 2, ClientRead 2, NotifySend 0 2, ClientRead 2, NotifyEnd 0, NotifyEnd 1]"])
    (simp add: two_watches_def ws_step_def ws_defs NewWatchSet_def mu_free_def on_node_def fresh_node_def
      node_start_def node_read_def worker_receive_def selected_def every_def)

lemmas ws_eval = ws_step_def ws_defs NewWatchSet_def mu_free_def on_node_def fresh_node_def
  node_start_def node_read_def worker_receive_def selected_def every_def one_watch_def told_def

definition watched :: "nat watch_set" where
  "watched = the (ws_run one_watch NewWatchSet)"

lemma watched_eq:
  "watched = \<lparr>wsCounter = 1, wsNodes = [1], wsNode = [1 \<mapsto> \<lparr>wnPred = every, wnWorker = Receiving, wnClosed = False,
     wnOutClosed = False, wnRead = [(EvAdded, 7)], wnInit = [(EvAdded, 7)], wnSeen = [], wnFrom = 0\<rparr>],
     wsNotifiers = [], wsStopping = [], wsPanicked = False, wsLog = []\<rparr>"
  by (simp add: watched_def ws_eval)


lemma watched_reachable: "ws_reachable watched"
proof (rule ws_run_reachable [OF _ ws_start])
  show "ws_run one_watch NewWatchSet = Some watched" by (simp add: watched_def ws_eval)
qed

definition told_state :: "nat watch_set" where
  "told_state = the (ws_run told watched)"

lemma told_run: "ws_run told watched = Some told_state"
  by (simp add: told_state_def watched_eq ws_eval)

lemma told_state_sel:
  "map_of (wsNotifiers told_state) 0 = Some ((EvModified, 8), [])"
  "map_option wnRead (wsNode told_state 1) = Some [(EvAdded, 7)]"
  "worker_of told_state 1 = Some (Forwarding (EvModified, 8))"
  by (simp_all add: told_state_def watched_eq ws_eval worker_of_def)

lemma told_reachable: "ws_reachable told_state"
  by (rule ws_run_reachable [OF told_run watched_reachable])

theorem only_a_second_stop_panics_witness:
  "closed (the (ws_run [StopDelete 1, StopClose 1, StopDelete 1] watched)) 1"
proof -
  let ?s = "the (ws_run [StopDelete 1, StopClose 1, StopDelete 1] watched)"
  have run: "ws_run [StopDelete 1, StopClose 1, StopDelete 1] watched = Some ?s"
    by (simp add: watched_eq ws_eval)
  have step: "ws_step (StopClose 1) ?s = Some (?s\<lparr>wsPanicked := True\<rparr>)"
    by (simp add: watched_eq ws_eval)
  show ?thesis
    using only_a_second_stop_panics [OF ws_run_reachable [OF run watched_reachable] step] by simp
qed

theorem stop_after_cleanup_panics_witness:
  "\<exists>s1. ws_run (cleanupWatchers [1]) watched = Some s1 \<and> wsNodes s1 = [] \<and> \<not> wsPanicked s1 \<and>
    map_option wsPanicked (ws_run [StopDelete 1, StopClose 1] s1) = Some True"
  by (rule stop_after_cleanup_panics [OF watched_reachable]) (simp_all add: watched_eq)

theorem watch_delivers_in_order_witness:
  "\<exists>n. wsNode told_state 1 = Some n \<and> wnRead n @ [(EvModified, 8)] = wnInit n @ filter (selected (wnPred n)) (wnSeen n)"
proof -
  obtain n where n: "wsNode told_state 1 = Some n" and w: "wnWorker n = Forwarding (EvModified, 8)"
    using told_state_sel(3) by (cases "wsNode told_state 1") (simp_all add: worker_of_def)
  show ?thesis using watch_delivers_in_order [OF told_reachable n] n w by simp
qed

theorem notify_reaches_every_watch_witness:
  "\<exists>new. seen (the (ws_step (NotifyEnd 0) told_state)) 1 = seen watched 1 @ new \<and> (EvModified, 8) \<in> set new"
proof (rule notify_reaches_every_watch [OF watched_reachable, where t = 0 and ls = "[NotifySend 0 1]"])
  show "ws_step (NotifyBegin 0 (EvModified, 8)) watched = Some (the (ws_step (NotifyBegin 0 (EvModified, 8)) watched))"
    by (simp add: watched_eq ws_eval)
  show "ws_run [NotifySend 0 1] (the (ws_step (NotifyBegin 0 (EvModified, 8)) watched)) = Some told_state"
    by (simp add: told_state_def watched_eq ws_eval)
  show "ws_step (NotifyEnd 0) told_state = Some (the (ws_step (NotifyEnd 0) told_state))"
    by (simp add: told_state_def watched_eq ws_eval)
qed (simp_all add: watched_eq)

text \<open>The client has not read the first event when a second notification begins.\<close>

definition blocked_state :: "nat watch_set" where
  "blocked_state = the (ws_run [NotifyEnd 0, NotifyBegin 1 (EvDeleted, 8)] told_state)"

lemma blocked_run: "ws_run [NotifyEnd 0, NotifyBegin 1 (EvDeleted, 8)] told_state = Some blocked_state"
  by (simp add: blocked_state_def told_state_def watched_eq ws_eval)

lemma blocked_state_sel:
  "map_of (wsNotifiers blocked_state) 1 = Some ((EvDeleted, 8), [1])"
  "worker_of blocked_state 1 = Some (Forwarding (EvModified, 8))" "\<not> wsPanicked blocked_state"
  by (simp_all add: blocked_state_def told_state_def watched_eq ws_eval worker_of_def)

lemma blocked_reachable: "ws_reachable blocked_state"
  by (rule ws_run_reachable [OF blocked_run told_reachable])

theorem unread_watch_blocks_the_set_witness:
  "ws_step (StopDelete 1) blocked_state = None"
  using unread_watch_blocks_the_set [OF blocked_reachable blocked_state_sel(1) _ blocked_state_sel(2), of "[]"] by simp

theorem notification_returns_when_clients_read_witness:
  "\<exists>ls. filter (helping 1) ls = ls \<and>
    map_option (\<lambda>s'. map_of (wsNotifiers s') 1) (ws_run ls blocked_state) = Some None"
  by (rule notification_returns_when_clients_read [OF blocked_reachable blocked_state_sel(3,1)])

definition quiet_state :: "nat watch_set" where
  "quiet_state = the (seq_run (one_watch @ told @ [NotifyEnd 0]) NewWatchSet)"

lemma quiet_reachable: "seq_reachable quiet_state"
proof (rule seq_run_reachable [OF _ seq_start])
  show "seq_run (one_watch @ told @ [NotifyEnd 0]) NewWatchSet = Some quiet_state"
    by (simp add: quiet_state_def ws_eval)
qed

theorem sequential_watch_refines_log_witness:
  "\<exists>n. wsNode quiet_state 1 = Some n \<and> wnRead n = [(EvAdded, 7)] \<and> pending (wnWorker n) = [(EvModified, 8)] \<and>
    wnRead n @ pending (wnWorker n) = abstract_watch (wnPred n) (wnInit n) (wnFrom n) (wsLog quiet_state)"
proof -
  have sel: "wsNotifiers quiet_state = []" "wsNodes quiet_state = [1]"
    "map_option (\<lambda>n. (wnRead n, pending (wnWorker n))) (wsNode quiet_state 1) = Some ([(EvAdded, 7)], [(EvModified, 8)])"
    by (simp_all add: quiet_state_def ws_eval)
  obtain n where n: "wsNode quiet_state 1 = Some n"
      "wnRead n = [(EvAdded, 7)]" "pending (wnWorker n) = [(EvModified, 8)]"
    using sel(3) by (cases "wsNode quiet_state 1") simp_all
  show ?thesis
    using sequential_watch_refines_log [OF quiet_reachable sel(1) _ n(1)] n sel(2) by simp
qed

definition new_watch_state :: "string watch_set" where
  "new_watch_state = the (seq_run [NewWatch] NewWatchSet)"

definition watch_other_labels :: "string ws_label list" where
  "watch_other_labels = [WorkerReady 1, NotifyBegin 0 (EvAdded, ''Btwo''), NotifySend 0 1, NotifyEnd 0]"

theorem watch_ignores_its_key_witness:
  "\<exists>s1 s2 n. ws_step (StartWatch 1 every []) new_watch_state = Some s1 \<and> seq_run watch_other_labels s1 = Some s2 \<and>
    wsNode s2 1 = Some n \<and> wnRead n @ pending (wnWorker n) = [(EvAdded, ''Btwo'')]"
proof -
  let ?s1 = "the (ws_step (StartWatch 1 every []) new_watch_state)"
  let ?s2 = "the (seq_run watch_other_labels ?s1)"
  let ?n = "the (wsNode ?s2 1)"
  note eval = new_watch_state_def watch_other_labels_def ws_eval
  have reach: "seq_reachable new_watch_state"
    by (rule seq_run_reachable [OF _ seq_start, of "[NewWatch]"]) (simp add: eval)
  have start: "ws_step (StartWatch 1 every []) new_watch_state = Some ?s1" by (simp add: eval)
  have run: "seq_run watch_other_labels ?s1 = Some ?s2" by (simp add: eval)
  have node: "wsNode ?s2 1 = Some ?n" by (simp add: eval)
  have sel: "wsLog ?s2 = [(EvAdded, ''Btwo'')]" "wsLog ?s1 = []" "wsNotifiers ?s2 = []" "wsNodes ?s2 = [1]"
    by (simp_all add: eval)
  have list: "GetList (sample_storage_env ''g'') ''/d/n'' ''0'' UnstructuredObject sample_storage =
      (Inr ([], 0), sample_storage)" by code_simp
  have watch: "Watch (sample_storage_env ''g'') ''/d/n'' every ''0'' sample_storage = (Inr [], sample_storage)"
    using list by (simp add: Watch_def sample_storage_env_def getItems_def)
  have "wnRead ?n @ pending (wnWorker ?n) = [] @ [(EvAdded, ''Btwo'')]"
    using watch_ignores_its_key [OF reach watch start sample_created _ run _ sel(3) _ node]
    by (simp add: every_def sel sample_storage_def del: One_nat_def)
  with start run node show ?thesis by auto
qed

end
