(* ===== verification/CertGen.thy ===== *)
theory CertGen
  imports FilePathStorage
begin

text \<open>
  The certificate generator, \<open>pkg/certgenerator\<close>: at start-up the service makes sure that the
  data directory holds a CA, a serving pair for the API server and two client pairs signed by
  the CA, loading what is there and issuing what is not.

  The cryptography (\<open>crypto/rsa\<close>, \<open>crypto/x509\<close>, \<open>encoding/pem\<close>), the clock and the entropy are
  fields of \<open>cert_env\<close>; \<open>ceGenerateKey n\<close> and \<open>ceNow n\<close> are the n-th key generated and the n-th
  reading of the clock. An RSA key is its public and its private part. \<open>cert_state\<close> is the
  \<open>CertUtil\<close> with the file system of \<open>FilePathStorage\<close>, in which a file may be unreadable
  (\<open>ceReadable\<close>) and a write may fail (\<open>ceFault\<close>).
\<close>

section \<open>Types\<close>

record ('p, 'q) rsa_key =
  keyPublic :: 'p
  keyPrivate :: 'q

text \<open>\<open>certPublic\<close> is \<open>None\<close> when the public key of the certificate is not an RSA key.\<close>

record 'p x509 =
  certRaw :: string
  certCommonName :: string
  certPublic :: "'p option"

datatype key_usage = KeyUsageKeyEncipherment | KeyUsageDigitalSignature | KeyUsageCertSign
datatype ext_key_usage = ExtKeyUsageServerAuth | ExtKeyUsageClientAuth

record cert_template =
  tSerialNumber :: int
  tCommonName :: string
  tOrganization :: "string list"
  tDNSNames :: "string list"
  tIPAddresses :: "string list"
  tNotBefore :: int
  tNotAfter :: int
  tKeyUsage :: "key_usage list"
  tExtKeyUsage :: "ext_key_usage list"
  tIsCA :: bool

record ('p, 'q) cert_env =
  ceGenerateKey :: "nat \<Rightarrow> go_error + ('p, 'q) rsa_key"
  ceNow :: "nat \<Rightarrow> int"
  ceUnixText :: "int \<Rightarrow> string"
  ceCreateCertificate :: "cert_template \<Rightarrow> cert_template + 'p x509 \<Rightarrow> 'p \<Rightarrow> ('p, 'q) rsa_key \<Rightarrow> go_error + string"
  ceParseCertificate :: "string \<Rightarrow> go_error + 'p x509"
  ceMarshalKey :: "('p, 'q) rsa_key \<Rightarrow> string"
  ceParseKey :: "string \<Rightarrow> go_error + ('p, 'q) rsa_key"
  cePemEncode :: "string \<Rightarrow> string \<Rightarrow> go_error + string"
  cePemDecode :: "string \<Rightarrow> string option"
  ceVerify :: "int \<Rightarrow> 'p x509 \<Rightarrow> 'p x509 \<Rightarrow> ext_key_usage list \<Rightarrow> nat \<times> go_error option"
  ceParseIP :: "string \<Rightarrow> string option"
  ceReadable :: "string \<Rightarrow> bool"
  ceFault :: "string \<Rightarrow> go_error option"
  ceIsExist :: "go_error \<Rightarrow> bool"
  ceText :: "go_error \<Rightarrow> string"

record ('p, 'q) cert_state =
  cuPath :: string
  cuCaKey :: "('p, 'q) rsa_key option"
  cuCaCert :: "'p x509 option"
  cuFS :: fs
  cuKeys :: nat
  cuClock :: nat

definition ApiServerCertSerial :: int where "ApiServerCertSerial = 1"
definition AuthnClientCertSerial :: int where "AuthnClientCertSerial = 2"
definition AuthzClientCertSerial :: int where "AuthzClientCertSerial = 3"

definition RSAPrivateKeyBlockType :: string where "RSAPrivateKeyBlockType = ''RSA PRIVATE KEY''"
definition CertificateBlockType :: string where "CertificateBlockType = ''CERTIFICATE''"

definition CannotVerifyErrorMessageFragment :: string where
  "CannotVerifyErrorMessageFragment = ''This is usually caused by only half of the keypair left behind on disk.'' @
     ''Try clearing the certs and retry''"

text \<open>Durations are nanoseconds.\<close>

definition hour :: int where "hour = 3600000000000"

definition duration365d :: int where "duration365d = hour * 24 * 365"

section \<open>Paths\<close>

definition CACertFile :: "string \<Rightarrow> string" where "CACertFile d = path_join [d, ''ca.crt'']"
definition CAKeyFile :: "string \<Rightarrow> string" where "CAKeyFile d = path_join [d, ''ca.key'']"
definition APIServerCertFile :: "string \<Rightarrow> string" where "APIServerCertFile d = path_join [d, ''apiserver.crt'']"
definition APIServerKeyFile :: "string \<Rightarrow> string" where "APIServerKeyFile d = path_join [d, ''apiserver.key'']"
definition K8sAuthnClientCertFile :: "string \<Rightarrow> string" where
  "K8sAuthnClientCertFile d = path_join [d, ''embedded-k8s-authn-plugin.crt'']"
definition K8sAuthnClientKeyFile :: "string \<Rightarrow> string" where
  "K8sAuthnClientKeyFile d = path_join [d, ''embedded-k8s-authn-plugin.key'']"
definition K8sAuthzClientCertFile :: "string \<Rightarrow> string" where
  "K8sAuthzClientCertFile d = path_join [d, ''embedded-k8s-authz-plugin.crt'']"
definition K8sAuthzClientKeyFile :: "string \<Rightarrow> string" where
  "K8sAuthzClientKeyFile d = path_join [d, ''embedded-k8s-authz-plugin.key'']"

section \<open>io.go\<close>

definition canReadFile :: "('p, 'q) cert_env \<Rightarrow> fs \<Rightarrow> string \<Rightarrow> bool" where
  "canReadFile env fs p \<longleftrightarrow> exists_path fs p \<and> ceReadable env (Clean p)"

definition canReadCertAndKey :: "('p, 'q) cert_env \<Rightarrow> fs \<Rightarrow> string \<Rightarrow> string \<Rightarrow> go_error + bool" where
  "canReadCertAndKey env fs certPath keyPath =
    (let certReadable = canReadFile env fs certPath; keyReadable = canReadFile env fs keyPath
     in if \<not> certReadable \<and> \<not> keyReadable then Inr False
        else if \<not> certReadable
          then Inl (PlainErr (''error reading '' @ certPath @ '', certificate and key must be supplied as a pair''))
        else if \<not> keyReadable
          then Inl (PlainErr (''error reading '' @ keyPath @ '', certificate and key must be supplied as a pair''))
        else Inr True)"

definition os_MkdirAll :: "(string \<Rightarrow> go_error option) \<Rightarrow> fs \<Rightarrow> string \<Rightarrow> go_error + fs" where
  "os_MkdirAll fault fs p = mkdir_all fault fs (path_prefixes p)"

definition writeToFile :: "('p, 'q) cert_env \<Rightarrow> string \<Rightarrow> string \<Rightarrow> fs \<Rightarrow> go_error option \<times> fs" where
  "writeToFile env filePath buf fs =
    (case os_MkdirAll (ceFault env) fs (Dir filePath) of
       Inl e \<Rightarrow> (Some e, fs)
     | Inr fs1 \<Rightarrow> (case os_WriteFile (ceFault env) fs1 filePath buf of Inl e \<Rightarrow> (Some e, fs1) | Inr fs2 \<Rightarrow> (None, fs2)))"

section \<open>cert.go\<close>

definition NewSelfSignedCACert ::
  "('p, 'q) cert_env \<Rightarrow> string \<Rightarrow> string list \<Rightarrow> ('p, 'q) rsa_key \<Rightarrow> int \<Rightarrow> go_error + 'p x509" where
  "NewSelfSignedCACert env commonName organization key now =
    (let tmpl = \<lparr>tSerialNumber = 0, tCommonName = commonName, tOrganization = organization, tDNSNames = [commonName],
           tIPAddresses = [], tNotBefore = now, tNotAfter = now + duration365d * 10,
           tKeyUsage = [KeyUsageKeyEncipherment, KeyUsageDigitalSignature, KeyUsageCertSign], tExtKeyUsage = [],
           tIsCA = True\<rparr>
     in case ceCreateCertificate env tmpl (Inl tmpl) (keyPublic key) key of
          Inl e \<Rightarrow> Inl e
        | Inr certDERBytes \<Rightarrow> ceParseCertificate env certDERBytes)"

section \<open>certutil.go\<close>

definition cert_ReadFile :: "('p, 'q) cert_env \<Rightarrow> fs \<Rightarrow> string \<Rightarrow> go_error + string" where
  "cert_ReadFile env fs p =
    (if ceReadable env (Clean p) then os_ReadFile fs p else Inl (os_error ''open'' p))"

text \<open>
  \<open>pem.Decode\<close> returns a nil block when it finds no PEM data, and the code uses the block
  without a test: a nil dereference. The test of \<open>err\<close> after the second decoding looks at the
  error of the parse before, which is nil there.
\<close>

definition loadExistingCertPKI ::
  "('p, 'q) cert_env \<Rightarrow> fs \<Rightarrow> string \<Rightarrow> string \<Rightarrow> ('p x509 \<times> ('p, 'q) rsa_key) outcome" where
  "loadExistingCertPKI env fs certPath keyPath =
    (case cert_ReadFile env fs certPath of
       Inl e \<Rightarrow> Err (PlainErr (''error reading existing Cert: '' @ ceText env e))
     | Inr certPem \<Rightarrow>
    (case cert_ReadFile env fs keyPath of
       Inl e \<Rightarrow> Err (PlainErr (''error reading existing Key: '' @ ceText env e))
     | Inr keyPem \<Rightarrow>
    (case cePemDecode env certPem of
       None \<Rightarrow> Panic
     | Some certBlock \<Rightarrow>
    (case ceParseCertificate env certBlock of
       Inl e \<Rightarrow> Err (PlainErr (''error parsing existing Cert: '' @ ceText env e))
     | Inr cert \<Rightarrow>
    (case cePemDecode env keyPem of
       None \<Rightarrow> Panic
     | Some keyBlock \<Rightarrow>
    (case ceParseKey env keyBlock of
       Inl e \<Rightarrow> Err (PlainErr (''error parsing existing Key from pem: '' @ ceText env e))
     | Inr key \<Rightarrow>
    (case certPublic cert of
       None \<Rightarrow> Panic
     | Some pub \<Rightarrow> Ret (cert, key\<lparr>keyPublic := pub\<rparr>))))))))"

definition GenerateKey ::
  "('p, 'q) cert_env \<Rightarrow> ('p, 'q) cert_state \<Rightarrow> (go_error + ('p, 'q) rsa_key) \<times> ('p, 'q) cert_state" where
  "GenerateKey env s = (ceGenerateKey env (cuKeys s), s\<lparr>cuKeys := Suc (cuKeys s)\<rparr>)"

definition Now :: "('p, 'q) cert_env \<Rightarrow> ('p, 'q) cert_state \<Rightarrow> int \<times> ('p, 'q) cert_state" where
  "Now env s = (ceNow env (cuClock s), s\<lparr>cuClock := Suc (cuClock s)\<rparr>)"

definition createNewCACertPKI ::
  "('p, 'q) cert_env \<Rightarrow> ('p, 'q) cert_state \<Rightarrow> (go_error + 'p x509 \<times> ('p, 'q) rsa_key) \<times> ('p, 'q) cert_state" where
  "createNewCACertPKI env s =
    (case GenerateKey env s of
       (Inl e, s1) \<Rightarrow> (Inl e, s1)
     | (Inr caKey, s1) \<Rightarrow>
         (let (now, s2) = Now env s1
          in case NewSelfSignedCACert env ''embedded-apiserver-ca'' [''Grafana Labs''] caKey now of
               Inl e \<Rightarrow> (Inl e, s2)
             | Inr caCert \<Rightarrow> (Inr (caCert, caKey), s2)))"

fun encode_certs :: "('p, 'q) cert_env \<Rightarrow> 'p x509 list \<Rightarrow> go_error + string" where
  "encode_certs env [] = Inr []"
| "encode_certs env (c # cs) =
    (case cePemEncode env CertificateBlockType (certRaw c) of
       Inl e \<Rightarrow> Inl e
     | Inr b \<Rightarrow> (case encode_certs env cs of Inl e \<Rightarrow> Inl e | Inr bs \<Rightarrow> Inr (b @ bs)))"

text \<open>Both buffers are filled before a file is written; the certificate is written first.\<close>

definition persistCertKeyPairToDisk ::
  "('p, 'q) cert_env \<Rightarrow> 'p x509 \<Rightarrow> string \<Rightarrow> ('p, 'q) rsa_key \<Rightarrow> string \<Rightarrow> 'p x509 list \<Rightarrow> fs \<Rightarrow> go_error option \<times> fs" where
  "persistCertKeyPairToDisk env cert certPath key keyPath caCerts fs =
    (case cePemEncode env RSAPrivateKeyBlockType (ceMarshalKey env key) of
       Inl e \<Rightarrow> (Some e, fs)
     | Inr keyBuffer \<Rightarrow>
    (case encode_certs env (cert # caCerts) of
       Inl e \<Rightarrow> (Some e, fs)
     | Inr certBuffer \<Rightarrow>
    (case writeToFile env certPath certBuffer fs of
       (Some e, fs1) \<Rightarrow> (Some (PlainErr (''error persisting CA Cert: '' @ ceText env e)), fs1)
     | (None, fs1) \<Rightarrow>
    (case writeToFile env keyPath keyBuffer fs1 of
       (Some e, fs2) \<Rightarrow> (Some (PlainErr (''error persisting CA Key: '' @ ceText env e)), fs2)
     | (None, fs2) \<Rightarrow> (None, fs2)))))"

definition persist ::
  "('p, 'q) cert_env \<Rightarrow> 'p x509 \<Rightarrow> string \<Rightarrow> ('p, 'q) rsa_key \<Rightarrow> string \<Rightarrow> 'p x509 list \<Rightarrow>
   ('p, 'q) cert_state \<Rightarrow> unit outcome \<times> ('p, 'q) cert_state" where
  "persist env cert certPath key keyPath caCerts s =
    (case persistCertKeyPairToDisk env cert certPath key keyPath caCerts (cuFS s) of
       (Some e, fs) \<Rightarrow> (Err e, s\<lparr>cuFS := fs\<rparr>)
     | (None, fs) \<Rightarrow> (Ret (), s\<lparr>cuFS := fs\<rparr>))"

definition InitializeCACertPKI ::
  "('p, 'q) cert_env \<Rightarrow> ('p, 'q) cert_state \<Rightarrow> unit outcome \<times> ('p, 'q) cert_state" where
  "InitializeCACertPKI env s =
    (let d = cuPath s in
     case (case os_MkdirAll (ceFault env) (cuFS s) d of
             Inl e \<Rightarrow> if ceIsExist env e then Inr (cuFS s) else Inl e
           | Inr fs \<Rightarrow> Inr fs) of
       Inl e \<Rightarrow> (Err e, s)
     | Inr fs1 \<Rightarrow>
         let s1 = s\<lparr>cuFS := fs1\<rparr> in
         case canReadCertAndKey env fs1 (CACertFile d) (CAKeyFile d) of
           Inl e \<Rightarrow> (Err (PlainErr (''error reading existing CA PKI: '' @ ceText env e @ CannotVerifyErrorMessageFragment)), s1)
         | Inr True \<Rightarrow>
             (case loadExistingCertPKI env fs1 (CACertFile d) (CAKeyFile d) of
                Panic \<Rightarrow> (Panic, s1)
              | Err e \<Rightarrow> (Err e, s1\<lparr>cuCaCert := None, cuCaKey := None\<rparr>)
              | Ret (caCert, caKey) \<Rightarrow> (Ret (), s1\<lparr>cuCaCert := Some caCert, cuCaKey := Some caKey\<rparr>))
         | Inr False \<Rightarrow>
             (case createNewCACertPKI env s1 of
                (Inl e, s2) \<Rightarrow> (Err e, s2\<lparr>cuCaCert := None, cuCaKey := None\<rparr>)
              | (Inr (caCert, caKey), s2) \<Rightarrow>
                  persist env caCert (CACertFile d) caKey (CAKeyFile d) []
                    (s2\<lparr>cuCaCert := Some caCert, cuCaKey := Some caKey\<rparr>)))"

definition GetK8sCACert ::
  "('p, 'q) cert_env \<Rightarrow> ('p, 'q) cert_state \<Rightarrow> 'p x509 option outcome \<times> ('p, 'q) cert_state" where
  "GetK8sCACert env s =
    (case InitializeCACertPKI env s of
       (Ret (), s1) \<Rightarrow> (Ret (cuCaCert s1), s1)
     | (Err e, s1) \<Rightarrow> (Err e, s1)
     | (Panic, s1) \<Rightarrow> (Panic, s1))"

text \<open>An empty list of usages means server authentication, the default of \<open>Verify\<close>.\<close>

definition verifyCertChain ::
  "('p, 'q) cert_env \<Rightarrow> 'p x509 \<Rightarrow> 'p x509 option \<Rightarrow> ext_key_usage list \<Rightarrow> int \<Rightarrow> unit outcome" where
  "verifyCertChain env cert ca keyUsages now =
    (case ca of
       None \<Rightarrow> Panic
     | Some caCert \<Rightarrow>
         (let (chain, err) = ceVerify env now cert caCert keyUsages;
              err' = (if chain = 0 then Some (PlainErr ''could not determine the chain from CA certificate'') else err)
          in case err' of
               Some e \<Rightarrow> Err (PlainErr (''error verifiing existing cert (subject='' @ certCommonName cert @
                 '') for a sanity check: '' @ ceText env e @ '' Did you delete the original CA cert used for issuing it? '' @
                 ''If so, try reseting your PKI to resolve this problem''))
             | None \<Rightarrow> Ret ()))"

text \<open>The branch that the three \<open>Ensure\<close> functions share: load the pair and check its chain.\<close>

definition verify_existing ::
  "('p, 'q) cert_env \<Rightarrow> string \<Rightarrow> string \<Rightarrow> ext_key_usage list \<Rightarrow> ('p, 'q) cert_state \<Rightarrow>
   unit outcome \<times> ('p, 'q) cert_state" where
  "verify_existing env certPath keyPath usages s =
    (case loadExistingCertPKI env (cuFS s) certPath keyPath of
       Panic \<Rightarrow> (Panic, s)
     | Err e \<Rightarrow> (Err e, s)
     | Ret (cert, _) \<Rightarrow> (let (now, s1) = Now env s in (verifyCertChain env cert (cuCaCert s) usages now, s1)))"

text \<open>Signing with the CA; a certificate utility without its CA dereferences nil.\<close>

definition sign ::
  "('p, 'q) cert_env \<Rightarrow> cert_template \<Rightarrow> 'p \<Rightarrow> 'p x509 option \<Rightarrow> ('p, 'q) rsa_key option \<Rightarrow> 'p x509 outcome" where
  "sign env template pub ca key =
    (case (ca, key) of
       (Some caCert, Some caKey) \<Rightarrow>
         (case ceCreateCertificate env template (Inr caCert) pub caKey of
            Inl e \<Rightarrow> Err e
          | Inr der \<Rightarrow> (case ceParseCertificate env der of Inl e \<Rightarrow> Err e | Inr cert \<Rightarrow> Ret cert))
     | _ \<Rightarrow> Panic)"

definition alternateDNS :: "string list" where
  "alternateDNS = [''kubernetes.default.svc'', ''kubernetes.default'', ''kubernetes'']"

definition server_template :: "('p, 'q) cert_env \<Rightarrow> string \<Rightarrow> int \<Rightarrow> int \<Rightarrow> cert_template" where
  "server_template env advertiseAddress now1 now2 =
    (let validFrom = now1 - hour; maxAge = hour * 24 * 365;
         (ips, names) = (case ceParseIP env advertiseAddress of Some ip \<Rightarrow> ([ip], []) | None \<Rightarrow> ([], [advertiseAddress]))
     in \<lparr>tSerialNumber = ApiServerCertSerial, tCommonName = advertiseAddress @ ''@'' @ ceUnixText env now2,
         tOrganization = [], tDNSNames = names @ alternateDNS, tIPAddresses = ips, tNotBefore = validFrom,
         tNotAfter = validFrom + maxAge, tKeyUsage = [KeyUsageKeyEncipherment, KeyUsageDigitalSignature],
         tExtKeyUsage = [ExtKeyUsageServerAuth], tIsCA = False\<rparr>)"

text \<open>The existence test is given the certificate file twice, as in the source.\<close>

definition EnsureApiServerPKI ::
  "('p, 'q) cert_env \<Rightarrow> string \<Rightarrow> ('p, 'q) cert_state \<Rightarrow> unit outcome \<times> ('p, 'q) cert_state" where
  "EnsureApiServerPKI env advertiseAddress s =
    (let d = cuPath s in
     case canReadCertAndKey env (cuFS s) (APIServerCertFile d) (APIServerCertFile d) of
       Inl e \<Rightarrow> (Err (PlainErr (''error reading existing CA PKI: '' @ ceText env e @ CannotVerifyErrorMessageFragment)), s)
     | Inr True \<Rightarrow> verify_existing env (APIServerCertFile d) (APIServerKeyFile d) [] s
     | Inr False \<Rightarrow>
         (let (now1, s1) = Now env s in
          case GenerateKey env s1 of
            (Inl e, s2) \<Rightarrow> (Err e, s2)
          | (Inr priv, s2) \<Rightarrow>
              (let (now2, s3) = Now env s2 in
               case sign env (server_template env advertiseAddress now1 now2) (keyPublic priv) (cuCaCert s) (cuCaKey s) of
                 Panic \<Rightarrow> (Panic, s3)
               | Err e \<Rightarrow> (Err e, s3)
               | Ret cert \<Rightarrow>
                   persist env cert (APIServerCertFile d) priv (APIServerKeyFile d)
                     (case cuCaCert s of None \<Rightarrow> [] | Some ca \<Rightarrow> [ca]) s3)))"

definition client_template :: "('p, 'q) cert_env \<Rightarrow> string \<Rightarrow> int \<Rightarrow> int \<Rightarrow> int \<Rightarrow> cert_template" where
  "client_template env clientName serialNumber now1 now2 =
    (let validFrom = now1 - hour; maxAge = hour * 24 * 365
     in \<lparr>tSerialNumber = serialNumber, tCommonName = clientName @ ''@'' @ ceUnixText env now2,
         tOrganization = [], tDNSNames = [], tIPAddresses = [], tNotBefore = validFrom,
         tNotAfter = validFrom + maxAge, tKeyUsage = [KeyUsageKeyEncipherment, KeyUsageDigitalSignature],
         tExtKeyUsage = [ExtKeyUsageClientAuth], tIsCA = False\<rparr>)"

definition makeClientCert ::
  "('p, 'q) cert_env \<Rightarrow> string \<Rightarrow> int \<Rightarrow> ('p, 'q) cert_state \<Rightarrow>
   ('p x509 \<times> ('p, 'q) rsa_key) outcome \<times> ('p, 'q) cert_state" where
  "makeClientCert env clientName serialNumber s =
    (let (now1, s1) = Now env s in
     case GenerateKey env s1 of
       (Inl e, s2) \<Rightarrow> (Err e, s2)
     | (Inr priv, s2) \<Rightarrow>
         (let (now2, s3) = Now env s2 in
          (bind_outcome (sign env (client_template env clientName serialNumber now1 now2) (keyPublic priv)
             (cuCaCert s) (cuCaKey s)) (\<lambda>cert. Ret (cert, priv)), s3)))"

text \<open>The two functions for client pairs differ in the files, the names and two messages.\<close>

definition ensure_client ::
  "('p, 'q) cert_env \<Rightarrow> string \<Rightarrow> string \<Rightarrow> string \<Rightarrow> string \<Rightarrow> int \<Rightarrow> ('p, 'q) cert_state \<Rightarrow>
   unit outcome \<times> ('p, 'q) cert_state" where
  "ensure_client env certPath keyPath what clientName serial s =
    (case canReadCertAndKey env (cuFS s) certPath keyPath of
       Inl e \<Rightarrow> (Err (PlainErr (what @ ceText env e @ CannotVerifyErrorMessageFragment)), s)
     | Inr True \<Rightarrow> verify_existing env certPath keyPath [ExtKeyUsageClientAuth] s
     | Inr False \<Rightarrow>
         (case makeClientCert env clientName serial s of
            (Panic, s1) \<Rightarrow> (Panic, s1)
          | (Err e, s1) \<Rightarrow> (Err (PlainErr (''error provisioning k8s authz client PKI: '' @ ceText env e)), s1)
          | (Ret (cert, key), s1) \<Rightarrow> persist env cert certPath key keyPath [] s1))"

definition EnsureAuthzClientPKI ::
  "('p, 'q) cert_env \<Rightarrow> ('p, 'q) cert_state \<Rightarrow> unit outcome \<times> ('p, 'q) cert_state" where
  "EnsureAuthzClientPKI env s =
    ensure_client env (K8sAuthzClientCertFile (cuPath s)) (K8sAuthzClientKeyFile (cuPath s))
      ''error reading existing authz client PKI: '' ''grafana-embedded-k8s-authz-plugin'' AuthzClientCertSerial s"

definition EnsureAuthnClientPKI ::
  "('p, 'q) cert_env \<Rightarrow> ('p, 'q) cert_state \<Rightarrow> unit outcome \<times> ('p, 'q) cert_state" where
  "EnsureAuthnClientPKI env s =
    ensure_client env (K8sAuthnClientCertFile (cuPath s)) (K8sAuthnClientKeyFile (cuPath s))
      ''error reading existing authn client PKI. '' ''grafana-embedded-k8s-authn-plugin'' AuthnClientCertSerial s"

section \<open>service.go\<close>

definition DefaultAPIServerIp :: string where "DefaultAPIServerIp = ''127.0.0.1''"

definition CreateService :: "string \<Rightarrow> fs \<Rightarrow> ('p, 'q) cert_state" where
  "CreateService k8sDataPath fs =
    \<lparr>cuPath = k8sDataPath, cuCaKey = None, cuCaCert = None, cuFS = fs, cuKeys = 0, cuClock = 0\<rparr>"

definition and_then ::
  "(('p, 'q) cert_state \<Rightarrow> unit outcome \<times> ('p, 'q) cert_state) \<Rightarrow>
   (('p, 'q) cert_state \<Rightarrow> unit outcome \<times> ('p, 'q) cert_state) \<Rightarrow>
   ('p, 'q) cert_state \<Rightarrow> unit outcome \<times> ('p, 'q) cert_state" where
  "and_then f g s = (case f s of (Ret (), s1) \<Rightarrow> g s1 | (r, s1) \<Rightarrow> (r, s1))"

definition up :: "('p, 'q) cert_env \<Rightarrow> ('p, 'q) cert_state \<Rightarrow> unit outcome \<times> ('p, 'q) cert_state" where
  "up env = and_then (InitializeCACertPKI env) (and_then (EnsureApiServerPKI env DefaultAPIServerIp)
     (and_then (EnsureAuthzClientPKI env) (EnsureAuthnClientPKI env)))"

lemma template_sel [simp]:
  "tNotBefore (server_template env a now1 now2) = now1 - hour"
  "tNotAfter (server_template env a now1 now2) = now1 - hour + hour * 24 * 365"
  "tExtKeyUsage (server_template env a now1 now2) = [ExtKeyUsageServerAuth]"
  "tNotBefore (client_template env name serial now1 now2) = now1 - hour"
  "tNotAfter (client_template env name serial now1 now2) = now1 - hour + hour * 24 * 365"
  "tExtKeyUsage (client_template env name serial now1 now2) = [ExtKeyUsageClientAuth]"
  by (simp_all add: server_template_def client_template_def Let_def split: option.splits)

section \<open>Files of the data directory\<close>

lemma path_join_data:
  assumes "es \<noteq> []" and "list_all plain_elem es" and "plain_elem n"
  shows "path_join [rooted_path es, n] = rooted_path (es @ [n])"
proof -
  have "join_with ''/'' [rooted_path es, n] = rooted_path (es @ [n])"
    using assms(1) by (simp add: rooted_path_snoc)
  then show ?thesis
    using Clean_rooted_path [of "es @ [n]"] assms by (simp add: path_join_def rooted_path_def plain_elem_def)
qed

lemma rooted_path_inj: "es \<noteq> [] \<Longrightarrow> rooted_path (es @ [a]) = rooted_path (es @ [b]) \<longleftrightarrow> a = b"
  by (simp add: rooted_path_snoc)

lemmas cert_file_defs = CACertFile_def CAKeyFile_def APIServerCertFile_def APIServerKeyFile_def
  K8sAuthnClientCertFile_def K8sAuthnClientKeyFile_def K8sAuthzClientCertFile_def K8sAuthzClientKeyFile_def

definition cert_names :: "string list" where
  "cert_names = [''ca.crt'', ''ca.key'', ''apiserver.crt'', ''apiserver.key'', ''embedded-k8s-authz-plugin.crt'',
     ''embedded-k8s-authz-plugin.key'', ''embedded-k8s-authn-plugin.crt'', ''embedded-k8s-authn-plugin.key'']"

lemma cert_names_plain: "n \<in> set cert_names \<Longrightarrow> plain_elem n"
  by (auto simp: cert_names_def plain_elem_def)

definition data_dir :: "string \<Rightarrow> bool" where
  "data_dir d \<longleftrightarrow> (\<exists>es. es \<noteq> [] \<and> list_all plain_elem es \<and> d = rooted_path es)"

definition in_dir :: "string \<Rightarrow> string \<Rightarrow> bool" where
  "in_dir d p \<longleftrightarrow> Clean p = p \<and> Dir p = d \<and> p \<noteq> ''/''"

text \<open>The files of the generator are different files in the data directory.\<close>

lemma data_file:
  assumes "data_dir d" and "n \<in> set cert_names"
  shows "in_dir d (path_join [d, n])"
proof -
  obtain es where es: "es \<noteq> []" "list_all plain_elem es" "d = rooted_path es"
    using assms(1) by (auto simp: data_dir_def)
  have n: "plain_elem n" using assms(2) by (rule cert_names_plain)
  then have "CHR ''/'' \<notin> set n" by (simp add: plain_elem_def)
  moreover have "rooted_path (es @ [n]) \<noteq> ''/''"
    using es(1) by (simp add: rooted_path_snoc) (simp add: rooted_path_def)
  ultimately show ?thesis
    using es n Clean_rooted_path [of "es @ [n]"] Dir_rooted_path [of es n]
    by (simp add: in_dir_def path_join_data)
qed

lemma data_file_eq:
  assumes "data_dir d" and "m \<in> set cert_names" and "n \<in> set cert_names"
  shows "path_join [d, m] = path_join [d, n] \<longleftrightarrow> m = n"
proof -
  obtain es where es: "es \<noteq> []" "list_all plain_elem es" "d = rooted_path es"
    using assms(1) by (auto simp: data_dir_def)
  show ?thesis
    using es assms(2,3) cert_names_plain path_join_data rooted_path_inj by metis
qed

definition dir_ready :: "fs \<Rightarrow> string \<Rightarrow> bool" where
  "dir_ready fs d \<longleftrightarrow> is_dir fs d \<and> list_all (is_dir fs) (path_prefixes d)"

lemma mkdir_all_ready: "list_all (is_dir fs) ps \<Longrightarrow> mkdir_all fault fs ps = Inr fs"
  by (induction ps) auto

lemma is_dir_put_file:
  "is_dir fs q \<Longrightarrow> \<not> is_dir fs p \<Longrightarrow> is_dir (fs_put p (FileEntry b) fs) q"
  by (auto simp: is_dir_def) (auto simp: fs_lookup_def)

lemma dir_ready_put:
  "dir_ready fs d \<Longrightarrow> \<not> is_dir fs p \<Longrightarrow> dir_ready (fs_put p (FileEntry b) fs) d"
  by (auto simp: dir_ready_def list_all_iff is_dir_put_file)

lemma writeToFile_ready:
  assumes "dir_ready fs d" and "in_dir d p" and "\<not> is_dir fs p" and "ceFault env p = None"
  shows "writeToFile env p b fs = (None, fs_put p (FileEntry b) fs)"
  using assms by (simp add: writeToFile_def os_MkdirAll_def mkdir_all_ready dir_ready_def in_dir_def os_WriteFile_def)

lemma writeToFile_done:
  assumes "dir_ready fs d" and "in_dir d p" and "writeToFile env p b fs = (None, fs')"
  shows "\<not> is_dir fs p \<and> fs' = fs_put p (FileEntry b) fs"
  using assms by (auto simp: writeToFile_def os_MkdirAll_def mkdir_all_ready dir_ready_def in_dir_def os_WriteFile_def
      split: option.splits if_splits sum.splits)

section \<open>What the cryptography promises\<close>

text \<open>
  \<open>pem.Decode\<close> finds the first block that \<open>pem.Encode\<close> wrote, \<open>ParseCertificate\<close> keeps the bytes
  it parsed, \<open>ParsePKCS1PrivateKey\<close> inverts \<open>MarshalPKCS1PrivateKey\<close>, and a certificate carries the
  public key it was created for.
\<close>

definition crypto_laws :: "('p, 'q) cert_env \<Rightarrow> bool" where
  "crypto_laws env \<longleftrightarrow>
    (\<forall>ty b t rest. cePemEncode env ty b = Inr t \<longrightarrow> cePemDecode env (t @ rest) = Some b) \<and>
    (\<forall>der c. ceParseCertificate env der = Inr c \<longrightarrow> certRaw c = der) \<and>
    (\<forall>k. ceParseKey env (ceMarshalKey env k) = Inr k) \<and>
    (\<forall>t parent pub k der c. ceCreateCertificate env t parent pub k = Inr der \<longrightarrow>
      ceParseCertificate env der = Inr c \<longrightarrow> certPublic c = Some pub)"

text \<open>
  \<open>Verify\<close> accepts a certificate signed by a self-signed CA for a usage the certificate has,
  while both are valid.
\<close>

definition chain_law :: "('p, 'q) cert_env \<Rightarrow> bool" where
  "chain_law env \<longleftrightarrow>
    (\<forall>cn org key t0 ca tmpl pub cert now usages.
      NewSelfSignedCACert env cn org key t0 = Inr ca \<longrightarrow>
      sign env tmpl pub (Some ca) (Some key) = Ret cert \<longrightarrow>
      t0 \<le> now \<longrightarrow> now \<le> t0 + duration365d * 10 \<longrightarrow> tNotBefore tmpl \<le> now \<longrightarrow> now \<le> tNotAfter tmpl \<longrightarrow>
      set (if usages = [] then [ExtKeyUsageServerAuth] else usages) \<subseteq> set (tExtKeyUsage tmpl) \<longrightarrow>
      (\<exists>n. ceVerify env now cert ca usages = (Suc n, None)))"

definition genuine :: "('p, 'q) cert_env \<Rightarrow> 'p x509 \<Rightarrow> ('p, 'q) rsa_key \<Rightarrow> bool" where
  "genuine env cert key \<longleftrightarrow>
    ceParseCertificate env (certRaw cert) = Inr cert \<and> certPublic cert = Some (keyPublic key)"

lemma self_signed_genuine:
  "crypto_laws env \<Longrightarrow> NewSelfSignedCACert env cn org key t0 = Inr ca \<Longrightarrow> genuine env ca key"
  by (auto simp: crypto_laws_def NewSelfSignedCACert_def genuine_def Let_def split: sum.splits)

lemma sign_genuine:
  "crypto_laws env \<Longrightarrow> sign env t (keyPublic key) ca caKey = Ret cert \<Longrightarrow> genuine env cert key"
  by (auto simp: crypto_laws_def sign_def genuine_def split: sum.splits option.splits)

text \<open>A pair on disk as \<open>persistCertKeyPairToDisk\<close> writes it.\<close>

definition stored ::
  "('p, 'q) cert_env \<Rightarrow> 'p x509 \<Rightarrow> string \<Rightarrow> ('p, 'q) rsa_key \<Rightarrow> string \<Rightarrow> 'p x509 list \<Rightarrow> fs \<Rightarrow> bool" where
  "stored env cert certPath key keyPath caCerts fs \<longleftrightarrow>
    (\<exists>cb kb. encode_certs env (cert # caCerts) = Inr cb \<and>
      cePemEncode env RSAPrivateKeyBlockType (ceMarshalKey env key) = Inr kb \<and>
      fs_lookup fs certPath = Some (FileEntry cb) \<and> fs_lookup fs keyPath = Some (FileEntry kb))"

lemma stored_same:
  "stored env cert cp key kp cas fs \<Longrightarrow> fs_lookup fs' cp = fs_lookup fs cp \<Longrightarrow> fs_lookup fs' kp = fs_lookup fs kp \<Longrightarrow>
   stored env cert cp key kp cas fs'"
  by (simp add: stored_def)

lemma load_stored:
  assumes "crypto_laws env" and "genuine env cert key" and "stored env cert cp key kp cas fs"
    and "ceReadable env (Clean cp)" and "ceReadable env (Clean kp)"
  shows "loadExistingCertPKI env fs cp kp = Ret (cert, key)"
proof -
  obtain cb kb where b: "encode_certs env (cert # cas) = Inr cb"
      "cePemEncode env RSAPrivateKeyBlockType (ceMarshalKey env key) = Inr kb"
      "fs_lookup fs cp = Some (FileEntry cb)" "fs_lookup fs kp = Some (FileEntry kb)"
    using assms(3) by (auto simp: stored_def)
  have dec: "cePemDecode env (t @ rest) = Some x" if "cePemEncode env ty x = Inr t" for ty x t rest
    using assms(1) that unfolding crypto_laws_def by blast
  have "cePemDecode env cb = Some (certRaw cert)"
    using b(1) dec by (auto split: sum.splits)
  moreover have "cePemDecode env kb = Some (ceMarshalKey env key)"
    using dec [OF b(2), of "[]"] by simp
  moreover have "ceParseKey env (ceMarshalKey env key) = Inr key" using assms(1) by (simp add: crypto_laws_def)
  ultimately show ?thesis
    using b(3,4) assms(2,4,5) by (simp add: loadExistingCertPKI_def cert_ReadFile_def os_ReadFile_def genuine_def)
qed

lemma stored_readable:
  "stored env cert cp key kp cas fs \<Longrightarrow> ceReadable env (Clean cp) \<Longrightarrow> ceReadable env (Clean kp) \<Longrightarrow>
   canReadFile env fs cp \<and> canReadFile env fs kp"
  by (auto simp: stored_def canReadFile_def exists_path_def)

lemma persist_done:
  assumes "dir_ready (cuFS s) d" and "in_dir d cp" and "in_dir d kp" and "cp \<noteq> kp"
    and "persist env cert cp key kp cas s = (Ret (), s')"
  shows "stored env cert cp key kp cas (cuFS s') \<and> dir_ready (cuFS s') d \<and> s' = s\<lparr>cuFS := cuFS s'\<rparr> \<and>
    (\<forall>q. q \<noteq> cp \<and> q \<noteq> kp \<and> Clean q = q \<longrightarrow> fs_lookup (cuFS s') q = fs_lookup (cuFS s) q)"
proof -
  obtain kb cb fs1 fs2 where b: "cePemEncode env RSAPrivateKeyBlockType (ceMarshalKey env key) = Inr kb"
      "encode_certs env (cert # cas) = Inr cb" "writeToFile env cp cb (cuFS s) = (None, fs1)"
      "writeToFile env kp kb fs1 = (None, fs2)" and s': "s' = s\<lparr>cuFS := fs2\<rparr>"
    using assms(5)
    by (auto simp: persist_def persistCertKeyPairToDisk_def simp del: encode_certs.simps split: sum.splits prod.splits option.splits)
  have 1: "\<not> is_dir (cuFS s) cp" "fs1 = fs_put cp (FileEntry cb) (cuFS s)"
    using writeToFile_done [OF assms(1,2) b(3)] by simp_all
  have r1: "dir_ready fs1 d" using dir_ready_put [OF assms(1) 1(1)] 1(2) by simp
  have 2: "\<not> is_dir fs1 kp" "fs2 = fs_put kp (FileEntry kb) fs1"
    using writeToFile_done [OF r1 assms(3) b(4)] by simp_all
  have "dir_ready fs2 d" using dir_ready_put [OF r1 2(1)] 2(2) by simp
  then show ?thesis
    using b(1,2) 1 2 s' assms(2-4) by (simp add: stored_def in_dir_def del: encode_certs.simps)
qed

section \<open>Starting again\<close>

definition data_absent :: "('p, 'q) cert_state \<Rightarrow> bool" where
  "data_absent s \<longleftrightarrow> (\<forall>n \<in> set cert_names. fs_lookup (cuFS s) (path_join [cuPath s, n]) = None)"

lemma absent_unreadable:
  "in_dir d p \<Longrightarrow> fs_lookup fs p = None \<Longrightarrow> \<not> canReadFile env fs p"
  by (simp add: in_dir_def canReadFile_def exists_path_def)

lemma dir_ready_mkdir: "dir_ready fs d \<Longrightarrow> os_MkdirAll fault fs d = Inr fs"
  by (simp add: dir_ready_def os_MkdirAll_def mkdir_all_ready)

text \<open>The part of the state that a persisted pair leaves alone.\<close>

definition keeps_others :: "string \<Rightarrow> string \<Rightarrow> ('p, 'q) cert_state \<Rightarrow> ('p, 'q) cert_state \<Rightarrow> bool" where
  "keeps_others cp kp s s' \<longleftrightarrow>
    cuPath s' = cuPath s \<and> dir_ready (cuFS s') (cuPath s) \<and>
    (\<forall>q. q \<noteq> cp \<and> q \<noteq> kp \<and> Clean q = q \<longrightarrow> fs_lookup (cuFS s') q = fs_lookup (cuFS s) q)"

lemma init_fresh:
  assumes "dir_ready (cuFS s) (cuPath s)" and "in_dir (cuPath s) (CACertFile (cuPath s))"
    and "in_dir (cuPath s) (CAKeyFile (cuPath s))" and "CACertFile (cuPath s) \<noteq> CAKeyFile (cuPath s)"
    and "canReadCertAndKey env (cuFS s) (CACertFile (cuPath s)) (CAKeyFile (cuPath s)) = Inr False"
    and "InitializeCACertPKI env s = (Ret (), s')"
  shows "\<exists>ca key. NewSelfSignedCACert env ''embedded-apiserver-ca'' [''Grafana Labs''] key (ceNow env (cuClock s)) = Inr ca \<and>
    cuCaCert s' = Some ca \<and> cuCaKey s' = Some key \<and> cuClock s' = Suc (cuClock s) \<and>
    stored env ca (CACertFile (cuPath s)) key (CAKeyFile (cuPath s)) [] (cuFS s') \<and>
    keeps_others (CACertFile (cuPath s)) (CAKeyFile (cuPath s)) s s'"
proof -
  let ?c = "CACertFile (cuPath s)" and ?k = "CAKeyFile (cuPath s)"
  obtain key ca where gen: "ceGenerateKey env (cuKeys s) = Inr key"
      "NewSelfSignedCACert env ''embedded-apiserver-ca'' [''Grafana Labs''] key (ceNow env (cuClock s)) = Inr ca"
    and p: "persist env ca ?c key ?k [] (s\<lparr>cuKeys := Suc (cuKeys s), cuClock := Suc (cuClock s),
        cuCaCert := Some ca, cuCaKey := Some key\<rparr>) = (Ret (), s')"
    using assms(5,6) dir_ready_mkdir [OF assms(1)]
    by (auto simp: InitializeCACertPKI_def createNewCACertPKI_def GenerateKey_def Now_def Let_def split: sum.splits)
  note pd = persist_done [OF _ assms(2-4) p, simplified, OF assms(1)]
  have eq: "s' = s\<lparr>cuKeys := Suc (cuKeys s), cuClock := Suc (cuClock s), cuCaCert := Some ca, cuCaKey := Some key,
      cuFS := cuFS s'\<rparr>"
    using pd by blast
  have "cuPath s' = cuPath s" "cuCaCert s' = Some ca" "cuCaKey s' = Some key" "cuClock s' = Suc (cuClock s)"
    by (subst eq, simp)+
  then show ?thesis using gen(2) pd unfolding keeps_others_def by blast
qed

lemma server_fresh:
  assumes "dir_ready (cuFS s) (cuPath s)" and "in_dir (cuPath s) (APIServerCertFile (cuPath s))"
    and "in_dir (cuPath s) (APIServerKeyFile (cuPath s))" and "APIServerCertFile (cuPath s) \<noteq> APIServerKeyFile (cuPath s)"
    and "\<not> canReadFile env (cuFS s) (APIServerCertFile (cuPath s))"
    and "cuCaCert s = Some ca" and "cuCaKey s = Some caKey"
    and "EnsureApiServerPKI env a s = (Ret (), s')"
  shows "\<exists>cert key. sign env (server_template env a (ceNow env (cuClock s)) (ceNow env (Suc (cuClock s))))
      (keyPublic key) (Some ca) (Some caKey) = Ret cert \<and>
    cuCaCert s' = Some ca \<and> cuCaKey s' = Some caKey \<and> cuClock s' = cuClock s + 2 \<and>
    stored env cert (APIServerCertFile (cuPath s)) key (APIServerKeyFile (cuPath s)) [ca] (cuFS s') \<and>
    keeps_others (APIServerCertFile (cuPath s)) (APIServerKeyFile (cuPath s)) s s'"
proof -
  let ?c = "APIServerCertFile (cuPath s)" and ?k = "APIServerKeyFile (cuPath s)"
  obtain key cert where gen: "sign env (server_template env a (ceNow env (cuClock s)) (ceNow env (Suc (cuClock s))))
      (keyPublic key) (Some ca) (Some caKey) = Ret cert"
    and p: "persist env cert ?c key ?k [ca] (s\<lparr>cuKeys := Suc (cuKeys s), cuClock := Suc (Suc (cuClock s))\<rparr>) = (Ret (), s')"
    using assms(5-8)
    by (auto simp: EnsureApiServerPKI_def canReadCertAndKey_def GenerateKey_def Now_def Let_def
        split: sum.splits outcome.splits)
  note pd = persist_done [OF _ assms(2-4) p, simplified, OF assms(1)]
  have eq: "s' = s\<lparr>cuKeys := Suc (cuKeys s), cuClock := Suc (Suc (cuClock s)), cuFS := cuFS s'\<rparr>"
    using pd by blast
  have "cuPath s' = cuPath s" "cuCaCert s' = Some ca" "cuCaKey s' = Some caKey" "cuClock s' = cuClock s + 2"
    by (subst eq, simp add: assms(6,7))+
  then show ?thesis using gen pd unfolding keeps_others_def by blast
qed

lemma client_fresh:
  assumes "dir_ready (cuFS s) (cuPath s)" and "in_dir (cuPath s) cp" and "in_dir (cuPath s) kp" and "cp \<noteq> kp"
    and "canReadCertAndKey env (cuFS s) cp kp = Inr False"
    and "cuCaCert s = Some ca" and "cuCaKey s = Some caKey"
    and "ensure_client env cp kp what name serial s = (Ret (), s')"
  shows "\<exists>cert key. sign env (client_template env name serial (ceNow env (cuClock s)) (ceNow env (Suc (cuClock s))))
      (keyPublic key) (Some ca) (Some caKey) = Ret cert \<and>
    cuCaCert s' = Some ca \<and> cuCaKey s' = Some caKey \<and> cuClock s' = cuClock s + 2 \<and>
    stored env cert cp key kp [] (cuFS s') \<and> keeps_others cp kp s s'"
proof -
  obtain key cert where gen: "sign env (client_template env name serial (ceNow env (cuClock s)) (ceNow env (Suc (cuClock s))))
      (keyPublic key) (Some ca) (Some caKey) = Ret cert"
    and p: "persist env cert cp key kp [] (s\<lparr>cuKeys := Suc (cuKeys s), cuClock := Suc (Suc (cuClock s))\<rparr>) = (Ret (), s')"
    using assms(5-8)
    by (auto simp: ensure_client_def makeClientCert_def GenerateKey_def Now_def Let_def bind_outcome_Ret_iff
        split: sum.splits outcome.splits)
  note pd = persist_done [OF _ assms(2-4) p, simplified, OF assms(1)]
  have eq: "s' = s\<lparr>cuKeys := Suc (cuKeys s), cuClock := Suc (Suc (cuClock s)), cuFS := cuFS s'\<rparr>"
    using pd by blast
  have "cuPath s' = cuPath s" "cuCaCert s' = Some ca" "cuCaKey s' = Some caKey" "cuClock s' = cuClock s + 2"
    by (subst eq, simp add: assms(6,7))+
  then show ?thesis using gen pd unfolding keeps_others_def by blast
qed

text \<open>An existing pair whose chain verifies costs one reading of the clock.\<close>

lemma verify_existing_stored:
  assumes "crypto_laws env" and "genuine env cert key" and "stored env cert cp key kp cas (cuFS s)"
    and "ceReadable env (Clean cp)" and "ceReadable env (Clean kp)"
    and "cuCaCert s = Some ca" and "ceVerify env (ceNow env (cuClock s)) cert ca usages = (Suc n, None)"
  shows "verify_existing env cp kp usages s = (Ret (), s\<lparr>cuClock := Suc (cuClock s)\<rparr>)"
  using load_stored [OF assms(1-5)] assms(6,7)
  by (simp add: verify_existing_def Now_def verifyCertChain_def)

definition restart :: "('p, 'q) cert_state \<Rightarrow> ('p, 'q) cert_state" where
  "restart s = s\<lparr>cuCaKey := None, cuCaCert := None\<rparr>"

definition all_readable :: "('p, 'q) cert_env \<Rightarrow> bool" where
  "all_readable env \<longleftrightarrow> ceReadable env = (\<lambda>_. True)"

lemma canRead_pair:
  "canReadFile env fs cp \<Longrightarrow> canReadFile env fs kp \<Longrightarrow> canReadCertAndKey env fs cp kp = Inr True"
  "\<not> canReadFile env fs cp \<Longrightarrow> \<not> canReadFile env fs kp \<Longrightarrow> canReadCertAndKey env fs cp kp = Inr False"
  by (simp_all add: canReadCertAndKey_def)

lemma and_then_Ret: "and_then f g s = (Ret (), s') \<longleftrightarrow> (\<exists>s1. f s = (Ret (), s1) \<and> g s1 = (Ret (), s'))"
proof -
  obtain r t where f: "f s = (r, t)" by (cases "f s")
  show ?thesis unfolding and_then_def f by (cases r) (simp_all split: unit.splits)
qed

lemma keeps_others_stored:
  assumes "keeps_others cp kp s s'" and "stored env cert c key k cas (cuFS s)"
    and "in_dir d c" and "in_dir d k" and "{c, k} \<inter> {cp, kp} = {}"
  shows "stored env cert c key k cas (cuFS s')"
  using assms(1,3-5) by (intro stored_same [OF assms(2)]) (auto simp: keeps_others_def in_dir_def)

lemma keeps_others_absent:
  "keeps_others cp kp s s' \<Longrightarrow> in_dir d q \<Longrightarrow> q \<noteq> cp \<Longrightarrow> q \<noteq> kp \<Longrightarrow> fs_lookup (cuFS s) q = None \<Longrightarrow>
   fs_lookup (cuFS s') q = None"
  by (simp add: keeps_others_def in_dir_def)

lemma keeps_others_sel:
  "keeps_others cp kp s s' \<Longrightarrow> cuPath s' = cuPath s" "keeps_others cp kp s s' \<Longrightarrow> dir_ready (cuFS s') (cuPath s)"
  by (simp_all add: keeps_others_def)

text \<open>What a first start leaves on disk and in memory.\<close>

lemma first_start:
  assumes dir: "data_dir d" and d: "cuPath s = d" and ready: "dir_ready (cuFS s) d" and absent: "data_absent s"
    and first: "up env s = (Ret (), s')"
  obtains ca key sc sk zc zk nc nk where
    "NewSelfSignedCACert env ''embedded-apiserver-ca'' [''Grafana Labs''] key (ceNow env (cuClock s)) = Inr ca"
    "stored env ca (CACertFile d) key (CAKeyFile d) [] (cuFS s')"
    "sign env (server_template env DefaultAPIServerIp (ceNow env (cuClock s + 1)) (ceNow env (cuClock s + 2)))
      (keyPublic sk) (Some ca) (Some key) = Ret sc"
    "stored env sc (APIServerCertFile d) sk (APIServerKeyFile d) [ca] (cuFS s')"
    "sign env (client_template env ''grafana-embedded-k8s-authz-plugin'' AuthzClientCertSerial
      (ceNow env (cuClock s + 3)) (ceNow env (cuClock s + 4))) (keyPublic zk) (Some ca) (Some key) = Ret zc"
    "stored env zc (K8sAuthzClientCertFile d) zk (K8sAuthzClientKeyFile d) [] (cuFS s')"
    "sign env (client_template env ''grafana-embedded-k8s-authn-plugin'' AuthnClientCertSerial
      (ceNow env (cuClock s + 5)) (ceNow env (cuClock s + 6))) (keyPublic nk) (Some ca) (Some key) = Ret nc"
    "stored env nc (K8sAuthnClientCertFile d) nk (K8sAuthnClientKeyFile d) [] (cuFS s')"
    "cuPath s' = d" "dir_ready (cuFS s') d" "cuCaCert s' = Some ca" "cuCaKey s' = Some key" "cuClock s' = cuClock s + 7"
proof -
  define f where "f n = path_join [d, n]" for n
  have in_d: "in_dir d (f n)" if "n \<in> set cert_names" for n
    using data_file [OF dir that] by (simp add: f_def)
  have neq: "f m = f n \<longleftrightarrow> m = n" if "m \<in> set cert_names" "n \<in> set cert_names" for m n
    using data_file_eq [OF dir that] by (simp add: f_def)
  note files = cert_file_defs [where d = d, folded f_def]
  have names: "''ca.crt'' \<in> set cert_names" "''ca.key'' \<in> set cert_names" "''apiserver.crt'' \<in> set cert_names"
    "''apiserver.key'' \<in> set cert_names" "''embedded-k8s-authz-plugin.crt'' \<in> set cert_names"
    "''embedded-k8s-authz-plugin.key'' \<in> set cert_names" "''embedded-k8s-authn-plugin.crt'' \<in> set cert_names"
    "''embedded-k8s-authn-plugin.key'' \<in> set cert_names"
    by (simp_all add: cert_names_def)
  note f = in_d [OF names(1)] in_d [OF names(2)] in_d [OF names(3)] in_d [OF names(4)] in_d [OF names(5)]
    in_d [OF names(6)] in_d [OF names(7)] in_d [OF names(8)]
  note kept = keeps_others_absent [where d = d] and unreadable = absent_unreadable [where d = d]
  have none: "fs_lookup (cuFS s) (f n) = None" if "n \<in> set cert_names" for n
    using absent that d by (simp add: data_absent_def f_def)
  obtain s1 s2 s3 where steps: "InitializeCACertPKI env s = (Ret (), s1)"
      "EnsureApiServerPKI env DefaultAPIServerIp s1 = (Ret (), s2)"
      "EnsureAuthzClientPKI env s2 = (Ret (), s3)" "EnsureAuthnClientPKI env s3 = (Ret (), s')"
    using first unfolding up_def and_then_Ret by blast
  have ne: "f ''ca.crt'' \<noteq> f ''ca.key''" "f ''apiserver.crt'' \<noteq> f ''apiserver.key''"
    "f ''embedded-k8s-authz-plugin.crt'' \<noteq> f ''embedded-k8s-authz-plugin.key''"
    "f ''embedded-k8s-authn-plugin.crt'' \<noteq> f ''embedded-k8s-authn-plugin.key''"
    using neq names by simp_all
  note can = canRead_pair(2) [OF unreadable unreadable]
  have can1: "canReadCertAndKey env (cuFS s) (f ''ca.crt'') (f ''ca.key'') = Inr False"
    by (rule can [OF f(1) none [OF names(1)] f(2) none [OF names(2)]])
  obtain ca key where ca: "NewSelfSignedCACert env ''embedded-apiserver-ca'' [''Grafana Labs''] key (ceNow env (cuClock s)) = Inr ca"
      "cuCaCert s1 = Some ca" "cuCaKey s1 = Some key" "cuClock s1 = Suc (cuClock s)"
      "stored env ca (f ''ca.crt'') key (f ''ca.key'') [] (cuFS s1)" "keeps_others (f ''ca.crt'') (f ''ca.key'') s s1"
    using init_fresh [of s env s1, unfolded d files, OF ready f(1,2) ne(1) can1 steps(1)] by blast
  have d1: "cuPath s1 = d" "dir_ready (cuFS s1) d" using keeps_others_sel [OF ca(6)] d by simp_all
  have n1: "fs_lookup (cuFS s1) (f n) = None" if "n \<in> set cert_names" "n \<noteq> ''ca.crt''" "n \<noteq> ''ca.key''" for n
    using kept [OF ca(6) in_d [OF that(1)]] that names neq none by simp
  obtain sc sk where sv: "sign env (server_template env DefaultAPIServerIp (ceNow env (cuClock s1)) (ceNow env (Suc (cuClock s1))))
      (keyPublic sk) (Some ca) (Some key) = Ret sc"
      "cuCaCert s2 = Some ca" "cuCaKey s2 = Some key" "cuClock s2 = cuClock s1 + 2"
      "stored env sc (f ''apiserver.crt'') sk (f ''apiserver.key'') [ca] (cuFS s2)"
      "keeps_others (f ''apiserver.crt'') (f ''apiserver.key'') s1 s2"
    using server_fresh [of s1 env ca key DefaultAPIServerIp s2, unfolded d1(1) files,
        OF d1(2) f(3,4) ne(2) unreadable [OF f(3) n1 [OF names(3)]] ca(2,3) steps(2)] by auto
  have d2: "cuPath s2 = d" "dir_ready (cuFS s2) d" using keeps_others_sel [OF sv(6)] d1 by simp_all
  have n2: "fs_lookup (cuFS s2) (f n) = None"
    if "n \<in> set cert_names" "n \<notin> {''ca.crt'', ''ca.key'', ''apiserver.crt'', ''apiserver.key''}" for n
    using kept [OF sv(6) in_d [OF that(1)]] that names neq n1 by simp
  obtain zc zk where az: "sign env (client_template env ''grafana-embedded-k8s-authz-plugin'' AuthzClientCertSerial
      (ceNow env (cuClock s2)) (ceNow env (Suc (cuClock s2)))) (keyPublic zk) (Some ca) (Some key) = Ret zc"
      "cuCaCert s3 = Some ca" "cuCaKey s3 = Some key" "cuClock s3 = cuClock s2 + 2"
      "stored env zc (f ''embedded-k8s-authz-plugin.crt'') zk (f ''embedded-k8s-authz-plugin.key'') [] (cuFS s3)"
      "keeps_others (f ''embedded-k8s-authz-plugin.crt'') (f ''embedded-k8s-authz-plugin.key'') s2 s3"
    using client_fresh [of s2, unfolded d2(1), OF d2(2) f(5,6) ne(3) can [OF f(5) n2 [OF names(5)] f(6) n2 [OF names(6)]]
        sv(2,3) steps(3) [unfolded EnsureAuthzClientPKI_def d2(1) files]] by auto
  have d3: "cuPath s3 = d" "dir_ready (cuFS s3) d" using keeps_others_sel [OF az(6)] d2 by simp_all
  have n3: "fs_lookup (cuFS s3) (f n) = None"
    if "n \<in> {''embedded-k8s-authn-plugin.crt'', ''embedded-k8s-authn-plugin.key''}" for n
    using kept [OF az(6) in_d [of n]] that names neq n2 by auto
  obtain nc nk where an: "sign env (client_template env ''grafana-embedded-k8s-authn-plugin'' AuthnClientCertSerial
      (ceNow env (cuClock s3)) (ceNow env (Suc (cuClock s3)))) (keyPublic nk) (Some ca) (Some key) = Ret nc"
      "cuCaCert s' = Some ca" "cuCaKey s' = Some key" "cuClock s' = cuClock s3 + 2"
      "stored env nc (f ''embedded-k8s-authn-plugin.crt'') nk (f ''embedded-k8s-authn-plugin.key'') [] (cuFS s')"
      "keeps_others (f ''embedded-k8s-authn-plugin.crt'') (f ''embedded-k8s-authn-plugin.key'') s3 s'"
    using client_fresh [of s3, unfolded d3(1), OF d3(2) f(7,8) ne(4) can [OF f(7) n3 f(8) n3]
        az(2,3) steps(4) [unfolded EnsureAuthnClientPKI_def d3(1) files]] by auto
  note keep = keeps_others_stored [where d = d]
  have "stored env ca (f ''ca.crt'') key (f ''ca.key'') [] (cuFS s2)"
    by (rule keep [OF sv(6) ca(5) f(1,2)]) (simp add: neq names)
  then have "stored env ca (f ''ca.crt'') key (f ''ca.key'') [] (cuFS s3)"
    by (rule keep [OF az(6) _ f(1,2)]) (simp add: neq names)
  then have ca': "stored env ca (f ''ca.crt'') key (f ''ca.key'') [] (cuFS s')"
    by (rule keep [OF an(6) _ f(1,2)]) (simp add: neq names)
  have "stored env sc (f ''apiserver.crt'') sk (f ''apiserver.key'') [ca] (cuFS s3)"
    by (rule keep [OF az(6) sv(5) f(3,4)]) (simp add: neq names)
  then have sv': "stored env sc (f ''apiserver.crt'') sk (f ''apiserver.key'') [ca] (cuFS s')"
    by (rule keep [OF an(6) _ f(3,4)]) (simp add: neq names)
  have az': "stored env zc (f ''embedded-k8s-authz-plugin.crt'') zk (f ''embedded-k8s-authz-plugin.key'') [] (cuFS s')"
    by (rule keep [OF an(6) az(5) f(5,6)]) (simp add: neq names)
  have clocks: "cuClock s1 = cuClock s + 1" "Suc (cuClock s1) = cuClock s + 2" "cuClock s2 = cuClock s + 3"
    "Suc (cuClock s2) = cuClock s + 4" "cuClock s3 = cuClock s + 5" "Suc (cuClock s3) = cuClock s + 6"
    "cuClock s' = cuClock s + 7"
    using ca(4) sv(4) az(4) an(4) by simp_all
  show ?thesis
    using that [OF ca(1) _ sv(1) [unfolded clocks(2), unfolded clocks(1)] _ az(1) [unfolded clocks(4), unfolded clocks(3)] _ an(1) [unfolded clocks(6), unfolded clocks(5)] _ _ _ an(2,3) clocks(7)]
      ca' sv' az' an(5) keeps_others_sel [OF an(6)] d3 unfolding files by simp
qed

lemma stored_pair_readable:
  "stored env cert cp key kp cas fs \<Longrightarrow> all_readable env \<Longrightarrow> canReadCertAndKey env fs cp kp = Inr True"
  using stored_readable [of env cert cp key kp cas fs] by (simp add: canRead_pair all_readable_def)

lemma restart_loads_ca:
  assumes "crypto_laws env" and "all_readable env" and "genuine env ca key"
    and "stored env ca (CACertFile (cuPath s)) key (CAKeyFile (cuPath s)) [] (cuFS s)" and "dir_ready (cuFS s) (cuPath s)"
    and "cuCaCert s = Some ca" and "cuCaKey s = Some key"
  shows "InitializeCACertPKI env (restart s) = (Ret (), s)"
proof -
  have "loadExistingCertPKI env (cuFS s) (CACertFile (cuPath s)) (CAKeyFile (cuPath s)) = Ret (ca, key)"
    using load_stored [OF assms(1,3,4)] assms(2) by (simp add: all_readable_def)
  then show ?thesis
    using assms(6,7) dir_ready_mkdir [OF assms(5)] stored_pair_readable [OF assms(4,2)]
    by (simp add: InitializeCACertPKI_def restart_def Let_def)
qed

text \<open>
  C17. A restart finds what the first start left: when a first start in an empty data directory
  succeeds, the next start, while the certificates are valid, succeeds too, with the same CA,
  without writing a file or generating a key.
\<close>

theorem restart_is_idempotent:
  assumes laws: "crypto_laws env" and chain: "chain_law env" and read: "all_readable env"
    and dir: "data_dir (cuPath s)" and ready: "dir_ready (cuFS s) (cuPath s)" and absent: "data_absent s"
    and clock: "mono (ceNow env)" and young: "\<And>n. ceNow env n \<le> ceNow env (cuClock s) + (duration365d - hour)"
    and first: "up env s = (Ret (), s')"
  shows "up env (restart s') = (Ret (), s'\<lparr>cuClock := cuClock s' + 3\<rparr>)"
proof -
  obtain ca key sc sk zc zk nc nk where ca: "NewSelfSignedCACert env ''embedded-apiserver-ca'' [''Grafana Labs''] key (ceNow env (cuClock s)) = Inr ca"
    and ca_st: "stored env ca (CACertFile (cuPath s)) key (CAKeyFile (cuPath s)) [] (cuFS s')"
    and sv: "sign env (server_template env DefaultAPIServerIp (ceNow env (cuClock s + 1)) (ceNow env (cuClock s + 2)))
      (keyPublic sk) (Some ca) (Some key) = Ret sc"
      "stored env sc (APIServerCertFile (cuPath s)) sk (APIServerKeyFile (cuPath s)) [ca] (cuFS s')"
    and az: "sign env (client_template env ''grafana-embedded-k8s-authz-plugin'' AuthzClientCertSerial
      (ceNow env (cuClock s + 3)) (ceNow env (cuClock s + 4))) (keyPublic zk) (Some ca) (Some key) = Ret zc"
      "stored env zc (K8sAuthzClientCertFile (cuPath s)) zk (K8sAuthzClientKeyFile (cuPath s)) [] (cuFS s')"
    and an: "sign env (client_template env ''grafana-embedded-k8s-authn-plugin'' AuthnClientCertSerial
      (ceNow env (cuClock s + 5)) (ceNow env (cuClock s + 6))) (keyPublic nk) (Some ca) (Some key) = Ret nc"
      "stored env nc (K8sAuthnClientCertFile (cuPath s)) nk (K8sAuthnClientKeyFile (cuPath s)) [] (cuFS s')"
    and s': "cuPath s' = cuPath s" "dir_ready (cuFS s') (cuPath s)" "cuCaCert s' = Some ca" "cuCaKey s' = Some key"
      "cuClock s' = cuClock s + 7"
    by (rule first_start [OF dir refl ready absent first])
  have late: "ceNow env m - hour \<le> ceNow env n" "ceNow env n \<le> ceNow env m - hour + hour * 24 * 365"
    "ceNow env (cuClock s) \<le> ceNow env m" "ceNow env n \<le> ceNow env (cuClock s) + duration365d * 10"
    if "cuClock s \<le> m" "m \<le> n" for m n
    using monoD [OF clock that(1)] monoD [OF clock that(2)] young [of n] by (simp_all add: duration365d_def hour_def)
  have verified: "\<exists>k. ceVerify env (ceNow env n) cert ca usages = (Suc k, None)"
    if "sign env tmpl pub (Some ca) (Some key) = Ret cert" "cuClock s \<le> m" "m \<le> n"
      "tNotBefore tmpl = ceNow env m - hour" "tNotAfter tmpl = ceNow env m - hour + hour * 24 * 365"
      "set (if usages = [] then [ExtKeyUsageServerAuth] else usages) \<subseteq> set (tExtKeyUsage tmpl)"
    for tmpl pub cert usages m n
  proof (rule chain [unfolded chain_law_def, rule_format, OF ca that(1)])
    show "ceNow env (cuClock s) \<le> ceNow env n" using monoD [OF clock] that(2,3) by simp
    show "ceNow env n \<le> ceNow env (cuClock s) + duration365d * 10" by (rule late(4) [OF that(2,3)])
    show "tNotBefore tmpl \<le> ceNow env n" "ceNow env n \<le> tNotAfter tmpl"
      using late(1,2) [OF that(2,3)] that(4,5) by simp_all
  qed (rule that(6))
  let ?t = "\<lambda>k. s'\<lparr>cuClock := cuClock s' + k\<rparr>"
  have readable: "ceReadable env p" for p using read by (simp add: all_readable_def)
  have "InitializeCACertPKI env (restart s') = (Ret (), s')"
    using restart_loads_ca [OF laws read self_signed_genuine [OF laws ca]] ca_st s' by simp
  moreover have "EnsureApiServerPKI env DefaultAPIServerIp s' = (Ret (), ?t 1)"
  proof -
    obtain k where "ceVerify env (ceNow env (cuClock s')) sc ca [] = (Suc k, None)"
      using verified [OF sv(1), of "cuClock s + 1" "cuClock s'" "[]"] s'(5)
      by auto
    then have "verify_existing env (APIServerCertFile (cuPath s')) (APIServerKeyFile (cuPath s')) [] s' = (Ret (), ?t 1)"
      using verify_existing_stored [OF laws sign_genuine [OF laws sv(1)] sv(2)] s' readable by simp
    moreover have "canReadFile env (cuFS s') (APIServerCertFile (cuPath s'))"
      using stored_readable [OF sv(2)] readable s'(1) by simp
    ultimately show ?thesis by (simp add: EnsureApiServerPKI_def canRead_pair)
  qed
  moreover have "EnsureAuthzClientPKI env (?t 1) = (Ret (), ?t 2)"
  proof -
    obtain k where "ceVerify env (ceNow env (cuClock s' + 1)) zc ca [ExtKeyUsageClientAuth] = (Suc k, None)"
      using verified [OF az(1), of "cuClock s + 3" "cuClock s' + 1" "[ExtKeyUsageClientAuth]"] s'(5)
      by auto
    then show ?thesis
      using verify_existing_stored [where s = "?t 1", OF laws sign_genuine [OF laws az(1)]] az(2) s' readable
        stored_pair_readable [OF az(2) read]
      by (simp add: EnsureAuthzClientPKI_def ensure_client_def)
  qed
  moreover have "EnsureAuthnClientPKI env (?t 2) = (Ret (), ?t 3)"
  proof -
    obtain k where "ceVerify env (ceNow env (cuClock s' + 2)) nc ca [ExtKeyUsageClientAuth] = (Suc k, None)"
      using verified [OF an(1), of "cuClock s + 5" "cuClock s' + 2" "[ExtKeyUsageClientAuth]"] s'(5)
      by auto
    then show ?thesis
      using verify_existing_stored [where s = "?t 2", OF laws sign_genuine [OF laws an(1)]] an(2) s' readable
        stored_pair_readable [OF an(2) read]
      by (simp add: EnsureAuthnClientPKI_def ensure_client_def)
  qed
  ultimately show ?thesis unfolding up_def and_then_Ret by blast
qed


section \<open>Damaged data directories\<close>

lemma cert_ReadFile_Inr:
  "cert_ReadFile env fs p = Inr b \<Longrightarrow> canReadFile env fs p"
  by (auto simp: cert_ReadFile_def os_ReadFile_def canReadFile_def exists_path_def split: if_splits option.splits)

text \<open>
  A CA file without PEM data, such as an empty \<open>ca.crt\<close> or \<open>ca.key\<close> left by an interrupted
  write, makes every start panic: \<open>pem.Decode\<close> returns a nil block for it, which is dereferenced
  unchecked.
\<close>

theorem garbled_ca_file_panics:
  assumes "os_MkdirAll (ceFault env) (cuFS s) (cuPath s) = Inr (cuFS s)"
    and "cert_ReadFile env (cuFS s) (CACertFile (cuPath s)) = Inr certPem"
    and "cert_ReadFile env (cuFS s) (CAKeyFile (cuPath s)) = Inr keyPem"
    and "cePemDecode env certPem = None \<or>
      (\<exists>b c. cePemDecode env certPem = Some b \<and> ceParseCertificate env b = Inr c \<and> cePemDecode env keyPem = None)"
  shows "up env s = (Panic, s)"
proof -
  have "canReadCertAndKey env (cuFS s) (CACertFile (cuPath s)) (CAKeyFile (cuPath s)) = Inr True"
    by (intro canRead_pair cert_ReadFile_Inr [OF assms(2)] cert_ReadFile_Inr [OF assms(3)])
  moreover have "loadExistingCertPKI env (cuFS s) (CACertFile (cuPath s)) (CAKeyFile (cuPath s)) = Panic"
    using assms(2-4) by (auto simp: loadExistingCertPKI_def)
  ultimately have "InitializeCACertPKI env s = (Panic, s)"
    using assms(1) by (simp add: InitializeCACertPKI_def Let_def)
  then show ?thesis by (simp add: up_def and_then_def)
qed

text \<open>
  A client pair of which only one half can be read is refused and nothing is written; for
  the serving pair the test looks at the certificate file twice, so a key without its
  certificate is not noticed and is overwritten by a new pair.
\<close>

theorem half_pair_detected_for_clients_only:
  assumes "data_dir (cuPath s)" and "dir_ready (cuFS s) (cuPath s)" and "ceFault env = (\<lambda>_. None)"
    and "fs_lookup (cuFS s) (APIServerCertFile (cuPath s)) = None"
    and "fs_lookup (cuFS s) (APIServerKeyFile (cuPath s)) = Some (FileEntry old)"
    and "canReadFile env (cuFS s) (K8sAuthzClientCertFile (cuPath s)) \<noteq> canReadFile env (cuFS s) (K8sAuthzClientKeyFile (cuPath s))"
    and "cuCaCert s = Some ca" and "cuCaKey s = Some caKey" and "ceGenerateKey env (cuKeys s) = Inr key"
    and "sign env (server_template env a (ceNow env (cuClock s)) (ceNow env (Suc (cuClock s)))) (keyPublic key)
      (Some ca) (Some caKey) = Ret cert"
    and "encode_certs env [cert, ca] = Inr cb"
    and "cePemEncode env RSAPrivateKeyBlockType (ceMarshalKey env key) = Inr kb"
  shows "(\<exists>m. EnsureAuthzClientPKI env s = (Err (PlainErr m), s)) \<and>
    (\<exists>s'. EnsureApiServerPKI env a s = (Ret (), s') \<and>
      fs_lookup (cuFS s') (APIServerKeyFile (cuPath s)) = Some (FileEntry kb))"
proof
  show "\<exists>m. EnsureAuthzClientPKI env s = (Err (PlainErr m), s)"
    using assms(6) by (auto simp: EnsureAuthzClientPKI_def ensure_client_def canReadCertAndKey_def Let_def)
next
  let ?c = "APIServerCertFile (cuPath s)" and ?k = "APIServerKeyFile (cuPath s)"
  have c: "in_dir (cuPath s) ?c" and k: "in_dir (cuPath s) ?k" and ne: "?c \<noteq> ?k"
    using data_file [OF assms(1)] data_file_eq [OF assms(1)] by (simp_all add: cert_file_defs cert_names_def)
  have nd: "\<not> is_dir (cuFS s) ?c" "\<not> is_dir (cuFS s) ?k"
    using c k assms(4,5) by (simp_all add: is_dir_def in_dir_def)
  let ?fs1 = "fs_put ?c (FileEntry cb) (cuFS s)"
  let ?t = "s\<lparr>cuKeys := Suc (cuKeys s), cuClock := Suc (Suc (cuClock s)), cuFS := fs_put ?k (FileEntry kb) ?fs1\<rparr>"
  have "\<not> is_dir ?fs1 ?k" using nd(2) c k ne by (simp add: is_dir_def in_dir_def)
  then have "writeToFile env ?k kb ?fs1 = (None, fs_put ?k (FileEntry kb) ?fs1)"
    using dir_ready_put [OF assms(2) nd(1)] k assms(3) by (intro writeToFile_ready) simp_all
  moreover have "writeToFile env ?c cb (cuFS s) = (None, ?fs1)"
    using nd c assms(2,3) by (intro writeToFile_ready) simp_all
  ultimately have "EnsureApiServerPKI env a s = (Ret (), ?t)"
    using absent_unreadable [where env = env, OF c assms(4)] assms(7-12)
    by (simp add: EnsureApiServerPKI_def canRead_pair GenerateKey_def Now_def persist_def persistCertKeyPairToDisk_def
        Let_def del: encode_certs.simps)
  moreover have "fs_lookup (cuFS ?t) ?k = Some (FileEntry kb)" by simp
  ultimately show "\<exists>s'. EnsureApiServerPKI env a s = (Ret (), s') \<and> fs_lookup (cuFS s') ?k = Some (FileEntry kb)"
    by (intro exI [of _ ?t] conjI)
qed


section \<open>Samples\<close>

text \<open>
  A toy cryptography: a key is the number of its generation, its bytes that many letters, and
  \<open>|\<close> ends a block.
\<close>

definition sample_cert_env :: "(nat, unit) cert_env" where
  "sample_cert_env = \<lparr>ceGenerateKey = (\<lambda>n. Inr \<lparr>keyPublic = Suc n, keyPrivate = ()\<rparr>), ceNow = (\<lambda>_. 0),
     ceUnixText = (\<lambda>_. ''0''), ceCreateCertificate = (\<lambda>_ _ pub _. Inr (replicate pub CHR ''x'')),
     ceParseCertificate = (\<lambda>der. Inr \<lparr>certRaw = der, certCommonName = [], certPublic = Some (length der)\<rparr>),
     ceMarshalKey = (\<lambda>k. replicate (keyPublic k) CHR ''x''),
     ceParseKey = (\<lambda>b. Inr \<lparr>keyPublic = length b, keyPrivate = ()\<rparr>),
     cePemEncode = (\<lambda>_ b. if CHR ''|'' \<in> set b then Inl (PlainErr ''bad'') else Inr (b @ ''|'')),
     cePemDecode = (\<lambda>t. if CHR ''|'' \<in> set t then Some (takeWhile (\<lambda>c. c \<noteq> CHR ''|'') t) else None),
     ceVerify = (\<lambda>_ _ _ _. (1, None)), ceParseIP = Some, ceReadable = (\<lambda>_. True), ceFault = (\<lambda>_. None),
     ceIsExist = (\<lambda>_. False), ceText = (\<lambda>_. ''failed'')\<rparr>"

definition sample_data :: "fs \<Rightarrow> (nat, unit) cert_state" where
  "sample_data files = CreateService ''/d'' (files @ [(''/d'', DirEntry)])"

lemma takeWhile_stop: "c \<notin> set b \<Longrightarrow> takeWhile (\<lambda>x. x \<noteq> c) (b @ c # rest) = b"
  by (induction b) auto

lemma sample_crypto_laws: "crypto_laws sample_cert_env"
  by (auto simp: crypto_laws_def sample_cert_env_def takeWhile_stop split: if_splits)

lemma sample_chain_law: "chain_law sample_cert_env"
  by (simp add: chain_law_def sample_cert_env_def)

lemma sample_data_dir: "data_dir (cuPath (sample_data files))"
  unfolding data_dir_def
  by (rule exI [of _ "[''d'']"]) (simp add: sample_data_def CreateService_def rooted_path_def plain_elem_def)

lemma sample_data_ready: "dir_ready (cuFS (sample_data [])) (cuPath (sample_data []))"
  by code_simp

lemma sample_data_absent: "data_absent (sample_data [])"
  by code_simp

theorem restart_is_idempotent_witness:
  "\<exists>s'. up sample_cert_env (sample_data []) = (Ret (), s') \<and>
    up sample_cert_env (restart s') = (Ret (), s'\<lparr>cuClock := cuClock s' + 3\<rparr>)"
proof -
  let ?s' = "snd (up sample_cert_env (sample_data []))"
  have "fst (up sample_cert_env (sample_data [])) = Ret ()" by code_simp
  then have up: "up sample_cert_env (sample_data []) = (Ret (), ?s')" by (metis prod.collapse)
  have "mono (ceNow sample_cert_env)" "all_readable sample_cert_env"
    "\<And>n. ceNow sample_cert_env n \<le> ceNow sample_cert_env (cuClock (sample_data [])) + (duration365d - hour)"
    by (simp_all add: sample_cert_env_def all_readable_def duration365d_def hour_def mono_def)
  then have "up sample_cert_env (restart ?s') = (Ret (), ?s'\<lparr>cuClock := cuClock ?s' + 3\<rparr>)"
    using restart_is_idempotent [OF sample_crypto_laws sample_chain_law _ sample_data_dir sample_data_ready
        sample_data_absent _ _ up] by blast
  with up show ?thesis by blast
qed

theorem garbled_ca_file_panics_witness:
  "up sample_cert_env (sample_data [(''/d/ca.crt'', FileEntry []), (''/d/ca.key'', FileEntry ''xx|'')]) =
    (Panic, sample_data [(''/d/ca.crt'', FileEntry []), (''/d/ca.key'', FileEntry ''xx|'')])"
proof (rule garbled_ca_file_panics)
  let ?s = "sample_data [(''/d/ca.crt'', FileEntry []), (''/d/ca.key'', FileEntry ''xx|'')]"
  show "os_MkdirAll (ceFault sample_cert_env) (cuFS ?s) (cuPath ?s) = Inr (cuFS ?s)" by code_simp
  show "cert_ReadFile sample_cert_env (cuFS ?s) (CACertFile (cuPath ?s)) = Inr []" by code_simp
  show "cert_ReadFile sample_cert_env (cuFS ?s) (CAKeyFile (cuPath ?s)) = Inr ''xx|''" by code_simp
qed (simp add: sample_cert_env_def)

definition half_data :: "(nat, unit) cert_state" where
  "half_data = (sample_data [(''/d/apiserver.key'', FileEntry ''old''),
     (''/d/embedded-k8s-authz-plugin.key'', FileEntry ''old'')])\<lparr>
       cuCaCert := Some \<lparr>certRaw = ''x'', certCommonName = [], certPublic = Some 1\<rparr>,
       cuCaKey := Some \<lparr>keyPublic = 1, keyPrivate = ()\<rparr>\<rparr>"

theorem half_pair_detected_for_clients_only_witness:
  "(\<exists>m. EnsureAuthzClientPKI sample_cert_env half_data = (Err (PlainErr m), half_data)) \<and>
    (\<exists>s'. EnsureApiServerPKI sample_cert_env ''h'' half_data = (Ret (), s') \<and>
      fs_lookup (cuFS s') (APIServerKeyFile (cuPath half_data)) = Some (FileEntry ''x|''))"
proof (rule half_pair_detected_for_clients_only [where cb = "''x|x|''" and kb = "''x|''"
      and key = "\<lparr>keyPublic = 1, keyPrivate = ()\<rparr>"
      and cert = "\<lparr>certRaw = ''x'', certCommonName = [], certPublic = Some 1\<rparr>"
      and ca = "\<lparr>certRaw = ''x'', certCommonName = [], certPublic = Some 1\<rparr>"])
  show "data_dir (cuPath half_data)" using sample_data_dir by (simp add: half_data_def)
  show "dir_ready (cuFS half_data) (cuPath half_data)" by code_simp
  show "fs_lookup (cuFS half_data) (APIServerCertFile (cuPath half_data)) = None" by code_simp
  show "fs_lookup (cuFS half_data) (APIServerKeyFile (cuPath half_data)) = Some (FileEntry ''old'')" by code_simp
  show "canReadFile sample_cert_env (cuFS half_data) (K8sAuthzClientCertFile (cuPath half_data)) \<noteq>
      canReadFile sample_cert_env (cuFS half_data) (K8sAuthzClientKeyFile (cuPath half_data))" by code_simp
qed (simp_all add: half_data_def sample_data_def CreateService_def sample_cert_env_def sign_def)

definition broken_env :: "(nat, unit) cert_env" where
  "broken_env = sample_cert_env\<lparr>ceFault := [''/d/ca.key'' \<mapsto> PlainErr ''disk full'']\<rparr>"


end
