(* ===== verification/DeepCopy.thy ===== *)
theory DeepCopy
  imports GrdHelpers "HOL-Library.Monad_Syntax"
begin

text \<open>
  The generated deep copies, \<open>apis/kinds/v1/zz_generated.deepcopy.go\<close> and
  \<open>apis/kinds/zz_generated.deepcopy.go\<close>, on an explicit memory. Elsewhere a definition is an
  immutable value and a copy is the value itself; here a definition is a struct with pointers
  and slices, and the theorems give the reason: a deep copy reads as the same value, shares no
  memory with the original, and what the controllers write into a copy is what the functions of
  \<open>GrdHelpers\<close> compute, while the original, which belongs to the cache of the informer, stays.

  The memory is a list of cells; an address is an index, allocation appends. A pointer is an
  \<open>addr option\<close>, a slice an array cell and a length, the length of the array is its capacity. The
  result \<open>None\<close> marks a read through a pointer to nothing or to another type, which no Go program
  does; the copies are shown to succeed on every definition that can be read.
  \<open>ObjectMeta\<close>, \<open>ListMeta\<close> and times are values: their copies are those of \<open>apimachinery\<close>.
\<close>

section \<open>Memory\<close>

type_synonym addr = nat

record go_slice =
  slPtr :: addr
  slLen :: nat

record h_names =
  hnPlural :: string
  hnSingular :: string
  hnShortNames :: "go_slice option"
  hnKind :: string
  hnListKind :: string
  hnCategories :: "go_slice option"

record h_scale =
  hsSpecReplicasPath :: string
  hsStatusReplicasPath :: string
  hsLabelSelectorPath :: "addr option"

record h_subresources =
  huStatus :: "addr option"
  huScale :: "addr option"
  huHistory :: "addr option"
  huRef :: "addr option"

record h_version =
  hvName :: string
  hvServed :: bool
  hvStorage :: bool
  hvDeprecated :: bool
  hvDeprecationWarning :: "addr option"
  hvSubresources :: "addr option"

record h_spec =
  hpGroup :: string
  hpNames :: h_names
  hpScope :: string
  hpVersions :: "go_slice option"
  hpPreserveUnknownFields :: bool

record h_kinds_spec =
  hkGroup :: string
  hkVersion :: string
  hkNames :: h_names
  hkScope :: string
  hkSubresources :: "addr option"
  hkVersions :: "go_slice option"
  hkPreserveUnknownFields :: "addr option"

record h_status =
  htConditions :: "go_slice option"
  htAcceptedNames :: h_names
  htStoredVersions :: "go_slice option"

record 'spec h_grd =
  hgMeta :: ObjectMeta
  hgSpec :: 'spec
  hgStatus :: h_status

record 'spec h_grd_list =
  hlResourceVersion :: string
  hlItems :: "go_slice option"

text \<open>The cells, one constructor for each type that is pointed to; \<open>CZero\<close> is fresh zeroed memory.\<close>

datatype cell =
    CZero
  | CString (the_string: string)
  | CBool (the_bool: bool)
  | CEmptyStruct
  | CCondition (the_condition: GrafanaResourceDefinitionCondition)
  | CNames (the_names: h_names)
  | CScale (the_scale: h_scale)
  | CSubresources (the_subresources: h_subresources)
  | CVersion (the_version: h_version)
  | CSpec (the_spec: h_spec)
  | CKindsSpec (the_kinds_spec: h_kinds_spec)
  | CStatus (the_status: h_status)
  | CGRD (the_grd: "h_spec h_grd")
  | CKindsGRD (the_kinds_grd: "h_kinds_spec h_grd")
  | CList (the_list: "h_spec h_grd_list")
  | CKindsList (the_kinds_list: "h_kinds_spec h_grd_list")
  | CStrings (the_strings: "string list")
  | CVersions (the_versions: "h_version list")
  | CConditions (the_conditions: "GrafanaResourceDefinitionCondition list")
  | CGRDs (the_grds: "h_spec h_grd list")
  | CKindsGRDs (the_kinds_grds: "h_kinds_spec h_grd list")

type_synonym heap = "cell list"

definition read_cell :: "heap \<Rightarrow> addr \<Rightarrow> cell option" where
  "read_cell h a = (if a < length h then Some (h ! a) else None)"

text \<open>The content of a cell of the type with constructor \<open>mk\<close> and selector \<open>sel\<close>.\<close>

definition as_type :: "('a \<Rightarrow> cell) \<Rightarrow> (cell \<Rightarrow> 'a) \<Rightarrow> cell \<Rightarrow> 'a option" where
  "as_type mk sel c = (if mk (sel c) = c then Some (sel c) else None)"

definition deref :: "('a \<Rightarrow> cell) \<Rightarrow> (cell \<Rightarrow> 'a) \<Rightarrow> heap \<Rightarrow> addr \<Rightarrow> 'a option" where
  "deref mk sel h a = Option.bind (read_cell h a) (as_type mk sel)"

definition slice_elems :: "('a list \<Rightarrow> cell) \<Rightarrow> (cell \<Rightarrow> 'a list) \<Rightarrow> heap \<Rightarrow> go_slice \<Rightarrow> 'a list option" where
  "slice_elems mk sel h s = do {
     xs \<leftarrow> deref mk sel h (slPtr s);
     if slLen s \<le> length xs then Some (take (slLen s) xs) else None
   }"

section \<open>Copies of pointers and slices\<close>

text \<open>
  \<open>*out = new(T)\<close> or \<open>*out = make([]T, n)\<close>, then the content is copied into it; nothing reads the
  new cell before it is filled.
\<close>

definition new_filled ::
  "('a \<Rightarrow> cell) \<Rightarrow> (heap \<Rightarrow> ('a \<times> heap) option) \<Rightarrow> heap \<Rightarrow> (addr \<times> heap) option" where
  "new_filled mk f h = do {
     let a = length h;
     (y, h1) \<leftarrow> f (h @ [CZero]);
     Some (a, h1[a := mk y])
   }"

text \<open>A type without pointers: \<open>*out = *in\<close>.\<close>

definition keep :: "'a \<Rightarrow> heap \<Rightarrow> ('a \<times> heap) option" where
  "keep x h = Some (x, h)"

fun copy_opt :: "('a \<Rightarrow> heap \<Rightarrow> ('a \<times> heap) option) \<Rightarrow> 'a option \<Rightarrow> heap \<Rightarrow> ('a option \<times> heap) option" where
  "copy_opt f None h = Some (None, h)"
| "copy_opt f (Some x) h = do { (y, h1) \<leftarrow> f x h; Some (Some y, h1) }"

fun copy_elems :: "('a \<Rightarrow> heap \<Rightarrow> ('a \<times> heap) option) \<Rightarrow> 'a list \<Rightarrow> heap \<Rightarrow> ('a list \<times> heap) option" where
  "copy_elems f [] h = Some ([], h)"
| "copy_elems f (x # xs) h = do { (y, h1) \<leftarrow> f x h; (ys, h2) \<leftarrow> copy_elems f xs h1; Some (y # ys, h2) }"

definition copy_ptr ::
  "('a \<Rightarrow> cell) \<Rightarrow> (cell \<Rightarrow> 'a) \<Rightarrow> ('a \<Rightarrow> heap \<Rightarrow> ('a \<times> heap) option) \<Rightarrow> addr \<Rightarrow> heap \<Rightarrow> (addr \<times> heap) option" where
  "copy_ptr mk sel f p h = do { x \<leftarrow> deref mk sel h p; new_filled mk (f x) h }"

definition copy_slice ::
  "('a list \<Rightarrow> cell) \<Rightarrow> (cell \<Rightarrow> 'a list) \<Rightarrow> ('a \<Rightarrow> heap \<Rightarrow> ('a \<times> heap) option) \<Rightarrow>
   go_slice \<Rightarrow> heap \<Rightarrow> (go_slice \<times> heap) option" where
  "copy_slice mk sel f s h = do {
     xs \<leftarrow> slice_elems mk sel h s;
     (a, h1) \<leftarrow> new_filled mk (copy_elems f xs) h;
     Some (\<lparr>slPtr = a, slLen = length xs\<rparr>, h1)
   }"

section \<open>The generated functions\<close>

definition Condition_DeepCopyInto ::
  "GrafanaResourceDefinitionCondition \<Rightarrow> heap \<Rightarrow> (GrafanaResourceDefinitionCondition \<times> heap) option" where
  "Condition_DeepCopyInto x h = Some (x\<lparr>cLastTransitionTime := cLastTransitionTime x\<rparr>, h)"

abbreviation copy_strings :: "go_slice option \<Rightarrow> heap \<Rightarrow> (go_slice option \<times> heap) option" where
  "copy_strings \<equiv> copy_opt (copy_slice CStrings the_strings keep)"

definition Names_DeepCopyInto :: "h_names \<Rightarrow> heap \<Rightarrow> (h_names \<times> heap) option" where
  "Names_DeepCopyInto x h = do {
     (short, h1) \<leftarrow> copy_strings (hnShortNames x) h;
     (cats, h2) \<leftarrow> copy_strings (hnCategories x) h1;
     Some (x\<lparr>hnShortNames := short, hnCategories := cats\<rparr>, h2)
   }"

definition SubresourceStatus_DeepCopyInto :: "unit \<Rightarrow> heap \<Rightarrow> (unit \<times> heap) option" where
  "SubresourceStatus_DeepCopyInto x h = Some (x, h)"

definition SubresourceHistory_DeepCopyInto :: "unit \<Rightarrow> heap \<Rightarrow> (unit \<times> heap) option" where
  "SubresourceHistory_DeepCopyInto x h = Some (x, h)"

definition SubresourceRef_DeepCopyInto :: "unit \<Rightarrow> heap \<Rightarrow> (unit \<times> heap) option" where
  "SubresourceRef_DeepCopyInto x h = Some (x, h)"

definition Scale_DeepCopyInto :: "h_scale \<Rightarrow> heap \<Rightarrow> (h_scale \<times> heap) option" where
  "Scale_DeepCopyInto x h = do {
     (path, h1) \<leftarrow> copy_opt (copy_ptr CString the_string keep) (hsLabelSelectorPath x) h;
     Some (x\<lparr>hsLabelSelectorPath := path\<rparr>, h1)
   }"

abbreviation empty_cell :: "unit \<Rightarrow> cell" where "empty_cell \<equiv> \<lambda>_. CEmptyStruct"
abbreviation the_empty :: "cell \<Rightarrow> unit" where "the_empty \<equiv> \<lambda>_. ()"

definition Subresources_DeepCopyInto :: "h_subresources \<Rightarrow> heap \<Rightarrow> (h_subresources \<times> heap) option" where
  "Subresources_DeepCopyInto x h = do {
     (st, h1) \<leftarrow> copy_opt (copy_ptr empty_cell the_empty keep) (huStatus x) h;
     (sc, h2) \<leftarrow> copy_opt (copy_ptr CScale the_scale Scale_DeepCopyInto) (huScale x) h1;
     (hi, h3) \<leftarrow> copy_opt (copy_ptr empty_cell the_empty keep) (huHistory x) h2;
     (re, h4) \<leftarrow> copy_opt (copy_ptr empty_cell the_empty keep) (huRef x) h3;
     Some (x\<lparr>huStatus := st, huScale := sc, huHistory := hi, huRef := re\<rparr>, h4)
   }"

abbreviation copy_subresources :: "addr option \<Rightarrow> heap \<Rightarrow> (addr option \<times> heap) option" where
  "copy_subresources \<equiv> copy_opt (copy_ptr CSubresources the_subresources Subresources_DeepCopyInto)"

definition Version_DeepCopyInto :: "h_version \<Rightarrow> heap \<Rightarrow> (h_version \<times> heap) option" where
  "Version_DeepCopyInto x h = do {
     (w, h1) \<leftarrow> copy_opt (copy_ptr CString the_string keep) (hvDeprecationWarning x) h;
     (sub, h2) \<leftarrow> copy_subresources (hvSubresources x) h1;
     Some (x\<lparr>hvDeprecationWarning := w, hvSubresources := sub\<rparr>, h2)
   }"

abbreviation copy_versions :: "go_slice option \<Rightarrow> heap \<Rightarrow> (go_slice option \<times> heap) option" where
  "copy_versions \<equiv> copy_opt (copy_slice CVersions the_versions Version_DeepCopyInto)"

definition Spec_DeepCopyInto :: "h_spec \<Rightarrow> heap \<Rightarrow> (h_spec \<times> heap) option" where
  "Spec_DeepCopyInto x h = do {
     (names, h1) \<leftarrow> Names_DeepCopyInto (hpNames x) h;
     (versions, h2) \<leftarrow> copy_versions (hpVersions x) h1;
     Some (x\<lparr>hpNames := names, hpVersions := versions\<rparr>, h2)
   }"

definition kinds_Spec_DeepCopyInto :: "h_kinds_spec \<Rightarrow> heap \<Rightarrow> (h_kinds_spec \<times> heap) option" where
  "kinds_Spec_DeepCopyInto x h = do {
     (names, h1) \<leftarrow> Names_DeepCopyInto (hkNames x) h;
     (sub, h2) \<leftarrow> copy_subresources (hkSubresources x) h1;
     (versions, h3) \<leftarrow> copy_versions (hkVersions x) h2;
     (p, h4) \<leftarrow> copy_opt (copy_ptr CBool the_bool keep) (hkPreserveUnknownFields x) h3;
     Some (x\<lparr>hkNames := names, hkSubresources := sub, hkVersions := versions, hkPreserveUnknownFields := p\<rparr>, h4)
   }"

definition Status_DeepCopyInto :: "h_status \<Rightarrow> heap \<Rightarrow> (h_status \<times> heap) option" where
  "Status_DeepCopyInto x h = do {
     (cs, h1) \<leftarrow> copy_opt (copy_slice CConditions the_conditions Condition_DeepCopyInto) (htConditions x) h;
     (names, h2) \<leftarrow> Names_DeepCopyInto (htAcceptedNames x) h1;
     (stored, h3) \<leftarrow> copy_strings (htStoredVersions x) h2;
     Some (x\<lparr>htConditions := cs, htAcceptedNames := names, htStoredVersions := stored\<rparr>, h3)
   }"

text \<open>The function of a definition is the same for both versions but for the spec.\<close>

definition grd_copy ::
  "('spec \<Rightarrow> heap \<Rightarrow> ('spec \<times> heap) option) \<Rightarrow> 'spec h_grd \<Rightarrow> heap \<Rightarrow> ('spec h_grd \<times> heap) option" where
  "grd_copy spec_copy x h = do {
     (spec, h1) \<leftarrow> spec_copy (hgSpec x) h;
     (status, h2) \<leftarrow> Status_DeepCopyInto (hgStatus x) h1;
     Some (x\<lparr>hgSpec := spec, hgStatus := status\<rparr>, h2)
   }"

definition GRD_DeepCopyInto :: "h_spec h_grd \<Rightarrow> heap \<Rightarrow> (h_spec h_grd \<times> heap) option" where
  "GRD_DeepCopyInto = grd_copy Spec_DeepCopyInto"

definition kinds_GRD_DeepCopyInto :: "h_kinds_spec h_grd \<Rightarrow> heap \<Rightarrow> (h_kinds_spec h_grd \<times> heap) option" where
  "kinds_GRD_DeepCopyInto = grd_copy kinds_Spec_DeepCopyInto"

definition List_DeepCopyInto :: "h_spec h_grd_list \<Rightarrow> heap \<Rightarrow> (h_spec h_grd_list \<times> heap) option" where
  "List_DeepCopyInto x h = do {
     (items, h1) \<leftarrow> copy_opt (copy_slice CGRDs the_grds GRD_DeepCopyInto) (hlItems x) h;
     Some (x\<lparr>hlItems := items\<rparr>, h1)
   }"

definition kinds_List_DeepCopyInto ::
  "h_kinds_spec h_grd_list \<Rightarrow> heap \<Rightarrow> (h_kinds_spec h_grd_list \<times> heap) option" where
  "kinds_List_DeepCopyInto x h = do {
     (items, h1) \<leftarrow> copy_opt (copy_slice CKindsGRDs the_kinds_grds kinds_GRD_DeepCopyInto) (hlItems x) h;
     Some (x\<lparr>hlItems := items\<rparr>, h1)
   }"

text \<open>\<open>DeepCopy\<close>: nil for nil, otherwise a new struct that is filled; \<open>DeepCopyObject\<close> adds nothing but
  the interface type, whose nil is the nil of the pointer.\<close>

definition GRD_DeepCopy :: "addr option \<Rightarrow> heap \<Rightarrow> (addr option \<times> heap) option" where
  "GRD_DeepCopy = copy_opt (copy_ptr CGRD the_grd GRD_DeepCopyInto)"

definition GRD_DeepCopyObject :: "addr option \<Rightarrow> heap \<Rightarrow> (addr option \<times> heap) option" where
  "GRD_DeepCopyObject p h = do {
     (c, h1) \<leftarrow> GRD_DeepCopy p h;
     case c of Some a \<Rightarrow> Some (Some a, h1) | None \<Rightarrow> Some (None, h1)
   }"

definition kinds_GRD_DeepCopy :: "addr option \<Rightarrow> heap \<Rightarrow> (addr option \<times> heap) option" where
  "kinds_GRD_DeepCopy = copy_opt (copy_ptr CKindsGRD the_kinds_grd kinds_GRD_DeepCopyInto)"

definition kinds_GRD_DeepCopyObject :: "addr option \<Rightarrow> heap \<Rightarrow> (addr option \<times> heap) option" where
  "kinds_GRD_DeepCopyObject p h = do {
     (c, h1) \<leftarrow> kinds_GRD_DeepCopy p h;
     case c of Some a \<Rightarrow> Some (Some a, h1) | None \<Rightarrow> Some (None, h1)
   }"

definition List_DeepCopy :: "addr option \<Rightarrow> heap \<Rightarrow> (addr option \<times> heap) option" where
  "List_DeepCopy = copy_opt (copy_ptr CList the_list List_DeepCopyInto)"

definition List_DeepCopyObject :: "addr option \<Rightarrow> heap \<Rightarrow> (addr option \<times> heap) option" where
  "List_DeepCopyObject p h = do {
     (c, h1) \<leftarrow> List_DeepCopy p h;
     case c of Some a \<Rightarrow> Some (Some a, h1) | None \<Rightarrow> Some (None, h1)
   }"

definition kinds_List_DeepCopy :: "addr option \<Rightarrow> heap \<Rightarrow> (addr option \<times> heap) option" where
  "kinds_List_DeepCopy = copy_opt (copy_ptr CKindsList the_kinds_list kinds_List_DeepCopyInto)"

definition kinds_List_DeepCopyObject :: "addr option \<Rightarrow> heap \<Rightarrow> (addr option \<times> heap) option" where
  "kinds_List_DeepCopyObject p h = do {
     (c, h1) \<leftarrow> kinds_List_DeepCopy p h;
     case c of Some a \<Rightarrow> Some (Some a, h1) | None \<Rightarrow> Some (None, h1)
   }"

definition Condition_DeepCopy :: "addr option \<Rightarrow> heap \<Rightarrow> (addr option \<times> heap) option" where
  "Condition_DeepCopy = copy_opt (copy_ptr CCondition the_condition Condition_DeepCopyInto)"

definition Names_DeepCopy :: "addr option \<Rightarrow> heap \<Rightarrow> (addr option \<times> heap) option" where
  "Names_DeepCopy = copy_opt (copy_ptr CNames the_names Names_DeepCopyInto)"

definition Spec_DeepCopy :: "addr option \<Rightarrow> heap \<Rightarrow> (addr option \<times> heap) option" where
  "Spec_DeepCopy = copy_opt (copy_ptr CSpec the_spec Spec_DeepCopyInto)"

definition kinds_Spec_DeepCopy :: "addr option \<Rightarrow> heap \<Rightarrow> (addr option \<times> heap) option" where
  "kinds_Spec_DeepCopy = copy_opt (copy_ptr CKindsSpec the_kinds_spec kinds_Spec_DeepCopyInto)"

definition Status_DeepCopy :: "addr option \<Rightarrow> heap \<Rightarrow> (addr option \<times> heap) option" where
  "Status_DeepCopy = copy_opt (copy_ptr CStatus the_status Status_DeepCopyInto)"

definition Version_DeepCopy :: "addr option \<Rightarrow> heap \<Rightarrow> (addr option \<times> heap) option" where
  "Version_DeepCopy = copy_opt (copy_ptr CVersion the_version Version_DeepCopyInto)"

definition Scale_DeepCopy :: "addr option \<Rightarrow> heap \<Rightarrow> (addr option \<times> heap) option" where
  "Scale_DeepCopy = copy_opt (copy_ptr CScale the_scale Scale_DeepCopyInto)"

definition Subresources_DeepCopy :: "addr option \<Rightarrow> heap \<Rightarrow> (addr option \<times> heap) option" where
  "Subresources_DeepCopy = copy_subresources"

definition SubresourceStatus_DeepCopy :: "addr option \<Rightarrow> heap \<Rightarrow> (addr option \<times> heap) option" where
  "SubresourceStatus_DeepCopy = copy_opt (copy_ptr empty_cell the_empty SubresourceStatus_DeepCopyInto)"

definition SubresourceHistory_DeepCopy :: "addr option \<Rightarrow> heap \<Rightarrow> (addr option \<times> heap) option" where
  "SubresourceHistory_DeepCopy = copy_opt (copy_ptr empty_cell the_empty SubresourceHistory_DeepCopyInto)"

definition SubresourceRef_DeepCopy :: "addr option \<Rightarrow> heap \<Rightarrow> (addr option \<times> heap) option" where
  "SubresourceRef_DeepCopy = copy_opt (copy_ptr empty_cell the_empty SubresourceRef_DeepCopyInto)"

text \<open>
  The internal package has the same functions for the structs that both versions declare alike, but
  for the cells of its own definitions.
\<close>

abbreviation kinds_Condition_DeepCopyInto where "kinds_Condition_DeepCopyInto \<equiv> Condition_DeepCopyInto"
abbreviation kinds_Condition_DeepCopy where "kinds_Condition_DeepCopy \<equiv> Condition_DeepCopy"
abbreviation kinds_Names_DeepCopyInto where "kinds_Names_DeepCopyInto \<equiv> Names_DeepCopyInto"
abbreviation kinds_Names_DeepCopy where "kinds_Names_DeepCopy \<equiv> Names_DeepCopy"
abbreviation kinds_Status_DeepCopyInto where "kinds_Status_DeepCopyInto \<equiv> Status_DeepCopyInto"
abbreviation kinds_Status_DeepCopy where "kinds_Status_DeepCopy \<equiv> Status_DeepCopy"
abbreviation kinds_Version_DeepCopyInto where "kinds_Version_DeepCopyInto \<equiv> Version_DeepCopyInto"
abbreviation kinds_Version_DeepCopy where "kinds_Version_DeepCopy \<equiv> Version_DeepCopy"
abbreviation kinds_Scale_DeepCopyInto where "kinds_Scale_DeepCopyInto \<equiv> Scale_DeepCopyInto"
abbreviation kinds_Scale_DeepCopy where "kinds_Scale_DeepCopy \<equiv> Scale_DeepCopy"
abbreviation kinds_Subresources_DeepCopyInto where "kinds_Subresources_DeepCopyInto \<equiv> Subresources_DeepCopyInto"
abbreviation kinds_Subresources_DeepCopy where "kinds_Subresources_DeepCopy \<equiv> Subresources_DeepCopy"
abbreviation kinds_SubresourceStatus_DeepCopyInto where "kinds_SubresourceStatus_DeepCopyInto \<equiv> SubresourceStatus_DeepCopyInto"
abbreviation kinds_SubresourceStatus_DeepCopy where "kinds_SubresourceStatus_DeepCopy \<equiv> SubresourceStatus_DeepCopy"
abbreviation kinds_SubresourceHistory_DeepCopyInto where "kinds_SubresourceHistory_DeepCopyInto \<equiv> SubresourceHistory_DeepCopyInto"
abbreviation kinds_SubresourceHistory_DeepCopy where "kinds_SubresourceHistory_DeepCopy \<equiv> SubresourceHistory_DeepCopy"
abbreviation kinds_SubresourceRef_DeepCopyInto where "kinds_SubresourceRef_DeepCopyInto \<equiv> SubresourceRef_DeepCopyInto"
abbreviation kinds_SubresourceRef_DeepCopy where "kinds_SubresourceRef_DeepCopy \<equiv> SubresourceRef_DeepCopy"

section \<open>The value that memory holds\<close>

definition abs_keep :: "heap \<Rightarrow> 'a \<Rightarrow> 'a option" where
  "abs_keep h x = Some x"

fun abs_opt :: "(heap \<Rightarrow> 'a \<Rightarrow> 'v option) \<Rightarrow> heap \<Rightarrow> 'a option \<Rightarrow> 'v option option" where
  "abs_opt A h None = Some None"
| "abs_opt A h (Some x) = do { v \<leftarrow> A h x; Some (Some v) }"

definition abs_ptr ::
  "('a \<Rightarrow> cell) \<Rightarrow> (cell \<Rightarrow> 'a) \<Rightarrow> (heap \<Rightarrow> 'a \<Rightarrow> 'v option) \<Rightarrow> heap \<Rightarrow> addr \<Rightarrow> 'v option" where
  "abs_ptr mk sel A h p = do { x \<leftarrow> deref mk sel h p; A h x }"

definition abs_slice ::
  "('a list \<Rightarrow> cell) \<Rightarrow> (cell \<Rightarrow> 'a list) \<Rightarrow> (heap \<Rightarrow> 'a \<Rightarrow> 'v option) \<Rightarrow> heap \<Rightarrow> go_slice \<Rightarrow> 'v list option" where
  "abs_slice mk sel A h s = do { xs \<leftarrow> slice_elems mk sel h s; those (map (A h) xs) }"

abbreviation abs_strings :: "heap \<Rightarrow> go_slice option \<Rightarrow> string slice option" where
  "abs_strings \<equiv> abs_opt (abs_slice CStrings the_strings abs_keep)"

definition abs_names :: "heap \<Rightarrow> h_names \<Rightarrow> GrafanaResourceDefinitionNames option" where
  "abs_names h x = do {
     short \<leftarrow> abs_strings h (hnShortNames x);
     cats \<leftarrow> abs_strings h (hnCategories x);
     Some \<lparr>Plural = hnPlural x, Singular = hnSingular x, ShortNames = short, Kind = hnKind x,
       ListKind = hnListKind x, Categories = cats\<rparr>
   }"

definition abs_scale :: "heap \<Rightarrow> h_scale \<Rightarrow> GrafanaResourceSubresourceScale option" where
  "abs_scale h x = do {
     path \<leftarrow> abs_opt (abs_ptr CString the_string abs_keep) h (hsLabelSelectorPath x);
     Some \<lparr>SpecReplicasPath = hsSpecReplicasPath x, StatusReplicasPath = hsStatusReplicasPath x,
       LabelSelectorPath = path\<rparr>
   }"

definition abs_subresources :: "heap \<Rightarrow> h_subresources \<Rightarrow> GrafanaResourceSubresources option" where
  "abs_subresources h x = do {
     st \<leftarrow> abs_opt (abs_ptr empty_cell the_empty abs_keep) h (huStatus x);
     sc \<leftarrow> abs_opt (abs_ptr CScale the_scale abs_scale) h (huScale x);
     hi \<leftarrow> abs_opt (abs_ptr empty_cell the_empty abs_keep) h (huHistory x);
     re \<leftarrow> abs_opt (abs_ptr empty_cell the_empty abs_keep) h (huRef x);
     Some \<lparr>subStatus = st, subScale = sc, subHistory = hi, subRef = re\<rparr>
   }"

abbreviation abs_subresources_ptr :: "heap \<Rightarrow> addr option \<Rightarrow> GrafanaResourceSubresources option option" where
  "abs_subresources_ptr \<equiv> abs_opt (abs_ptr CSubresources the_subresources abs_subresources)"

definition abs_version :: "heap \<Rightarrow> h_version \<Rightarrow> GrafanaResourceDefinitionVersion option" where
  "abs_version h x = do {
     w \<leftarrow> abs_opt (abs_ptr CString the_string abs_keep) h (hvDeprecationWarning x);
     sub \<leftarrow> abs_subresources_ptr h (hvSubresources x);
     Some \<lparr>vName = hvName x, vServed = hvServed x, vStorage = hvStorage x, vDeprecated = hvDeprecated x,
       vDeprecationWarning = w, vSubresources = sub\<rparr>
   }"

abbreviation abs_versions :: "heap \<Rightarrow> go_slice option \<Rightarrow> GrafanaResourceDefinitionVersion slice option" where
  "abs_versions \<equiv> abs_opt (abs_slice CVersions the_versions abs_version)"

definition abs_spec :: "heap \<Rightarrow> h_spec \<Rightarrow> GrafanaResourceDefinitionSpec option" where
  "abs_spec h x = do {
     names \<leftarrow> abs_names h (hpNames x);
     versions \<leftarrow> abs_versions h (hpVersions x);
     Some \<lparr>sGroup = hpGroup x, sNames = names, sScope = hpScope x, sVersions = elems versions,
       sPreserveUnknownFields = hpPreserveUnknownFields x\<rparr>
   }"

definition abs_kinds_spec :: "heap \<Rightarrow> h_kinds_spec \<Rightarrow> kinds_GrafanaResourceDefinitionSpec option" where
  "abs_kinds_spec h x = do {
     names \<leftarrow> abs_names h (hkNames x);
     sub \<leftarrow> abs_subresources_ptr h (hkSubresources x);
     versions \<leftarrow> abs_versions h (hkVersions x);
     p \<leftarrow> abs_opt (abs_ptr CBool the_bool abs_keep) h (hkPreserveUnknownFields x);
     Some \<lparr>kGroup = hkGroup x, kVersion = hkVersion x, kNames = names, kScope = hkScope x,
       kSubresources = sub, kVersions = elems versions, kPreserveUnknownFields = p\<rparr>
   }"

abbreviation abs_conditions :: "heap \<Rightarrow> go_slice option \<Rightarrow> GrafanaResourceDefinitionCondition slice option" where
  "abs_conditions \<equiv> abs_opt (abs_slice CConditions the_conditions abs_keep)"

definition abs_status :: "heap \<Rightarrow> h_status \<Rightarrow> GrafanaResourceDefinitionStatus option" where
  "abs_status h x = do {
     cs \<leftarrow> abs_conditions h (htConditions x);
     names \<leftarrow> abs_names h (htAcceptedNames x);
     stored \<leftarrow> abs_strings h (htStoredVersions x);
     Some \<lparr>stConditions = elems cs, stAcceptedNames = names, stStoredVersions = elems stored\<rparr>
   }"

definition abs_grd :: "(heap \<Rightarrow> 'h \<Rightarrow> 'spec option) \<Rightarrow> heap \<Rightarrow> 'h h_grd \<Rightarrow> 'spec GrafanaResourceDefinition option" where
  "abs_grd A h x = do {
     spec \<leftarrow> A h (hgSpec x);
     status \<leftarrow> abs_status h (hgStatus x);
     Some \<lparr>gMeta = hgMeta x, gSpec = spec, gStatus = status\<rparr>
   }"

definition abs_list ::
  "('h h_grd list \<Rightarrow> cell) \<Rightarrow> (cell \<Rightarrow> 'h h_grd list) \<Rightarrow> (heap \<Rightarrow> 'h \<Rightarrow> 'spec option) \<Rightarrow>
   heap \<Rightarrow> 'h h_grd_list \<Rightarrow> 'spec GrafanaResourceDefinitionList option" where
  "abs_list mk sel A h x = do {
     items \<leftarrow> abs_opt (abs_slice mk sel (abs_grd A)) h (hlItems x);
     Some \<lparr>lResourceVersion = hlResourceVersion x, lItems = items\<rparr>
   }"

text \<open>A pointer to a definition of the served version, as the informer caches hold it.\<close>

abbreviation grd_at :: "heap \<Rightarrow> addr \<Rightarrow> GRD option" where
  "grd_at \<equiv> abs_ptr CGRD the_grd (abs_grd abs_spec)"

abbreviation kinds_grd_at :: "heap \<Rightarrow> addr \<Rightarrow> kinds_GRD option" where
  "kinds_grd_at \<equiv> abs_ptr CKindsGRD the_kinds_grd (abs_grd abs_kinds_spec)"

section \<open>Memory that a change leaves alone\<close>

text \<open>The cells of \<open>h\<close> from address \<open>n\<close> on are the same in \<open>h'\<close>.\<close>

definition agrees :: "nat \<Rightarrow> heap \<Rightarrow> heap \<Rightarrow> bool" where
  "agrees n h h' \<longleftrightarrow> (\<forall>a c. n \<le> a \<longrightarrow> read_cell h a = Some c \<longrightarrow> read_cell h' a = Some c)"

lemma agreesI: "(\<And>a c. n \<le> a \<Longrightarrow> read_cell h a = Some c \<Longrightarrow> read_cell h' a = Some c) \<Longrightarrow> agrees n h h'"
  by (simp add: agrees_def)

lemma agreesD: "agrees n h h' \<Longrightarrow> n \<le> a \<Longrightarrow> read_cell h a = Some c \<Longrightarrow> read_cell h' a = Some c"
  by (simp add: agrees_def)

lemma agrees_refl [simp, intro]: "agrees n h h"
  by (simp add: agrees_def)

lemma agrees_trans: "agrees n h1 h2 \<Longrightarrow> agrees n h2 h3 \<Longrightarrow> agrees n h1 h3"
  by (simp add: agrees_def)

lemma agrees_weaken: "agrees m h h' \<Longrightarrow> m \<le> n \<Longrightarrow> agrees n h h'"
  by (simp add: agrees_def)

lemma read_cell_lt: "read_cell h a = Some c \<Longrightarrow> a < length h"
  by (simp add: read_cell_def split: if_splits)

lemma agrees_append [simp, intro]: "agrees n h (h @ t)"
  by (auto simp: agrees_def read_cell_def nth_append split: if_splits)

lemma agrees_length:
  assumes "agrees 0 h h'"
  shows "length h \<le> length h'"
proof (rule ccontr)
  assume "\<not> length h \<le> length h'"
  then have "read_cell h (length h') = Some (h ! length h')" by (simp add: read_cell_def)
  with assms have "length h' < length h'" by (blast intro: read_cell_lt agreesD)
  then show False by simp
qed

lemma read_cell_update: "read_cell (h[a := c]) b = (if b = a \<and> a < length h then Some c else read_cell h b)"
  by (auto simp: read_cell_def)

lemma agrees_update: "a < n \<Longrightarrow> agrees n h (h[a := c])"
  by (auto simp: agrees_def read_cell_update)

text \<open>\<open>x\<close> reads as \<open>v\<close>, and goes on to do so while the cells from \<open>n\<close> on stay.\<close>

definition lives_in :: "nat \<Rightarrow> heap \<Rightarrow> (heap \<Rightarrow> 'a \<Rightarrow> 'v option) \<Rightarrow> 'a \<Rightarrow> 'v \<Rightarrow> bool" where
  "lives_in n h A x v \<longleftrightarrow> (\<forall>h'. agrees n h h' \<longrightarrow> A h' x = Some v)"

lemma lives_inD: "lives_in n h A x v \<Longrightarrow> agrees n h h' \<Longrightarrow> A h' x = Some v"
  by (simp add: lives_in_def)

lemma lives_in_here: "lives_in n h A x v \<Longrightarrow> A h x = Some v"
  by (simp add: lives_in_def)

lemma lives_in_mono: "lives_in n h A x v \<Longrightarrow> agrees n h h' \<Longrightarrow> m \<le> n \<Longrightarrow> lives_in m h' A x v"
  unfolding lives_in_def by (blast intro: agrees_trans agrees_weaken)

text \<open>What writes to memory may do: any sequence of stores to given addresses.\<close>

definition stores :: "(addr \<times> cell) list \<Rightarrow> heap \<Rightarrow> heap" where
  "stores ws h = fold (\<lambda>(a, c) h. h[a := c]) ws h"

lemma stores_Cons [simp]: "stores ((a, c) # ws) h = stores ws (h[a := c])"
  by (simp add: stores_def)

lemma stores_Nil [simp]: "stores [] h = h"
  by (simp add: stores_def)

lemma read_stores: "a \<notin> fst ` set ws \<Longrightarrow> read_cell (stores ws h) a = read_cell h a"
  by (induction ws arbitrary: h) (auto simp: read_cell_update split: if_splits)

lemma stores_low: "fst ` set ws \<subseteq> {..<n} \<Longrightarrow> agrees n h (stores ws h)"
  by (rule agreesI) (metis lessThan_iff not_le read_stores subsetD)

lemma as_type_mk [simp]: "(\<And>x. sel (mk x) = x) \<Longrightarrow> as_type mk sel (mk x) = Some x"
  by (simp add: as_type_def)

lemma as_type_Some: "as_type mk sel c = Some x \<Longrightarrow> c = mk x"
  by (auto simp: as_type_def split: if_splits)

lemma deref_Some: "deref mk sel h p = Some x \<Longrightarrow> read_cell h p = Some (mk x)"
  by (auto simp: deref_def bind_eq_Some_conv dest: as_type_Some)

lemma deref_agrees: "deref mk sel h p = Some x \<Longrightarrow> agrees n h h' \<Longrightarrow> n \<le> p \<Longrightarrow> deref mk sel h' p = Some x"
  by (auto simp: deref_def bind_eq_Some_conv dest: agreesD)

lemma slice_elems_agrees:
  "slice_elems mk sel h s = Some xs \<Longrightarrow> agrees n h h' \<Longrightarrow> n \<le> slPtr s \<Longrightarrow> slice_elems mk sel h' s = Some xs"
  by (auto simp: slice_elems_def bind_eq_Some_conv dest: deref_agrees split: if_splits)

lemma those_map_Some: "those (map f xs) = Some ys \<longleftrightarrow> list_all2 (\<lambda>x y. f x = Some y) xs ys"
  by (induction xs arbitrary: ys) (auto split: option.splits simp: list_all2_Cons1)

section \<open>The contract of a copy\<close>

text \<open>
  \<open>copy\<close> is a deep copy for the reading \<open>absv\<close>: it succeeds on what can be read, keeps all cells,
  and its result reads as the same value from the new cells alone. One contract for all types;
  pointers and slices of copied types are copied too.
\<close>

locale copier =
  fixes copy :: "'a \<Rightarrow> heap \<Rightarrow> ('a \<times> heap) option"
    and absv :: "heap \<Rightarrow> 'a \<Rightarrow> 'v option"
  assumes mono: "absv h x = Some v \<Longrightarrow> agrees 0 h h' \<Longrightarrow> absv h' x = Some v"
    and copies: "absv h x = Some v \<Longrightarrow>
      \<exists>y h'. copy x h = Some (y, h') \<and> agrees 0 h h' \<and> lives_in (length h) h' absv y v"
begin

lemma run:
  assumes "absv h x = Some v" and "agrees 0 h h1"
  obtains y h2 where "copy x h1 = Some (y, h2)" and "agrees 0 h h2" and "agrees 0 h1 h2"
    and "lives_in (length h) h2 absv y v"
proof -
  obtain y h2 where c: "copy x h1 = Some (y, h2)" "agrees 0 h1 h2" "lives_in (length h1) h2 absv y v"
    using copies [OF mono [OF assms]] by blast
  have "lives_in (length h) h2 absv y v"
    using c(3) agrees_refl agrees_length [OF assms(2)] by (rule lives_in_mono)
  with c agrees_trans [OF assms(2) c(2)] show ?thesis by (intro that)
qed

lemma copy_reads:
  assumes "absv h x = Some v" and "copy x h = Some (y, h')"
  shows "absv h' y = Some v" and "absv h' x = Some v" and "agrees 0 h h'"
proof -
  have c: "agrees 0 h h'" "lives_in (length h) h' absv y v" using copies [OF assms(1)] assms(2) by auto
  from c(2) show "absv h' y = Some v" by (rule lives_in_here)
  from assms(1) c(1) show "absv h' x = Some v" by (rule mono)
  show "agrees 0 h h'" by (rule c(1))
qed

text \<open>Stores into the memory of the copy do not reach the original, nor the other way round.\<close>

lemma copy_separate:
  assumes "absv h x = Some v" and "copy x h = Some (y, h')"
  shows "fst ` set ws \<subseteq> {length h..} \<Longrightarrow> absv (stores ws h') x = Some v"
    and "fst ` set ws \<subseteq> {..<length h} \<Longrightarrow> absv (stores ws h') y = Some v"
proof -
  have c: "agrees 0 h h'" "lives_in (length h) h' absv y v" using copies [OF assms(1)] assms(2) by auto
  show "absv (stores ws h') y = Some v" if "fst ` set ws \<subseteq> {..<length h}"
    using c(2) stores_low [OF that] by (rule lives_inD)
  show "absv (stores ws h') x = Some v" if ws: "fst ` set ws \<subseteq> {length h..}"
  proof (rule mono [OF assms(1)], rule agreesI)
    fix a cell assume r: "read_cell h a = Some cell"
    then have "a \<notin> fst ` set ws" using ws read_cell_lt [OF r] by auto
    then show "read_cell (stores ws h') a = Some cell" using agreesD [OF c(1) _ r] by (simp add: read_stores)
  qed
qed

lemma copy_opt_contract:
  "abs_opt absv h x = Some v \<Longrightarrow> agrees 0 h h' \<Longrightarrow> abs_opt absv h' x = Some v"
  "abs_opt absv h x = Some v \<Longrightarrow>
    \<exists>y h'. copy_opt copy x h = Some (y, h') \<and> agrees 0 h h' \<and> lives_in (length h) h' (abs_opt absv) y v"
proof -
  show "abs_opt absv h x = Some v \<Longrightarrow> agrees 0 h h' \<Longrightarrow> abs_opt absv h' x = Some v"
    by (cases x) (auto simp: bind_eq_Some_conv intro: mono)
  assume v: "abs_opt absv h x = Some v"
  show "\<exists>y h'. copy_opt copy x h = Some (y, h') \<and> agrees 0 h h' \<and> lives_in (length h) h' (abs_opt absv) y v"
  proof (cases x)
    case None
    with v show ?thesis by (auto simp: lives_in_def)
  next
    case (Some z)
    with v obtain w where w: "absv h z = Some w" "v = Some w" by (auto simp: bind_eq_Some_conv)
    from copies [OF w(1)] obtain y h' where "copy z h = Some (y, h')" "agrees 0 h h'" "lives_in (length h) h' absv y w"
      by blast
    with Some w(2) show ?thesis by (auto simp: lives_in_def)
  qed
qed

lemma elems_contract:
  "those (map (absv h) xs) = Some vs \<Longrightarrow> agrees 0 h h' \<Longrightarrow> those (map (absv h') xs) = Some vs"
  "those (map (absv h) xs) = Some vs \<Longrightarrow> \<exists>ys h'. copy_elems copy xs h = Some (ys, h') \<and> agrees 0 h h' \<and>
    lives_in (length h) h' (\<lambda>h xs. those (map (absv h) xs)) ys vs"
proof -
  show "those (map (absv h) xs) = Some vs \<Longrightarrow> agrees 0 h h' \<Longrightarrow> those (map (absv h') xs) = Some vs"
    by (auto simp: those_map_Some elim!: list.rel_mono_strong intro: mono)
  show "those (map (absv h) xs) = Some vs \<Longrightarrow> \<exists>ys h'. copy_elems copy xs h = Some (ys, h') \<and> agrees 0 h h' \<and>
      lives_in (length h) h' (\<lambda>h xs. those (map (absv h) xs)) ys vs"
  proof (induction xs arbitrary: h vs)
    case Nil
    then show ?case by (auto simp: lives_in_def)
  next
    case (Cons x xs)
    then obtain w ws where v: "absv h x = Some w" "those (map (absv h) xs) = Some ws" "vs = w # ws"
      by (auto split: option.splits)
    from copies [OF v(1)] obtain y h1 where c: "copy x h = Some (y, h1)" "agrees 0 h h1" "lives_in (length h) h1 absv y w"
      by blast
    have "those (map (absv h1) xs) = Some ws"
      using v(2) c(2) by (auto simp: those_map_Some elim!: list.rel_mono_strong intro: mono)
    from Cons.IH [OF this] obtain ys h2 where r: "copy_elems copy xs h1 = Some (ys, h2)" "agrees 0 h1 h2"
      "lives_in (length h1) h2 (\<lambda>h xs. those (map (absv h) xs)) ys ws" by blast
    have "lives_in (length h) h2 (\<lambda>h xs. those (map (absv h) xs)) (y # ys) vs"
      unfolding lives_in_def
    proof (intro allI impI)
      fix h3 assume a: "agrees (length h) h2 h3"
      have "agrees (length h) h1 h2" using r(2) by (rule agrees_weaken) simp
      from agrees_trans [OF this a] c(3) have "absv h3 y = Some w" by (blast intro: lives_inD)
      moreover have "those (map (absv h3) ys) = Some ws"
        using r(3) agrees_weaken [OF a agrees_length [OF c(2)]] by (rule lives_inD)
      ultimately show "those (map (absv h3) (y # ys)) = Some vs" using v(3) by simp
    qed
    then show ?case using c(1) r(1) agrees_trans [OF c(2) r(2)] by auto
  qed
qed

end

lemma new_filled_contract:
  assumes "f (h @ [CZero]) = Some (y, h1)" and "agrees 0 (h @ [CZero]) h1"
    and "lives_in (Suc (length h)) h1 A y v"
  obtains h' where "new_filled mk f h = Some (length h, h')" and "agrees 0 h h'"
    and "read_cell h' (length h) = Some (mk y)" and "lives_in (Suc (length h)) h' A y v"
proof
  let ?h' = "h1[length h := mk y]"
  have l: "length h < length h1" using agrees_length [OF assms(2)] by simp
  show "new_filled mk f h = Some (length h, ?h')" using assms(1) by (simp add: new_filled_def Let_def)
  show "agrees 0 h ?h'"
  proof (rule agreesI)
    fix a c assume r: "read_cell h a = Some c"
    then have "read_cell h1 a = Some c"
      using agrees_trans [OF agrees_append assms(2)] by (blast intro: agreesD)
    then show "read_cell ?h' a = Some c" using read_cell_lt [OF r] by (simp add: read_cell_update)
  qed
  show "read_cell ?h' (length h) = Some (mk y)" using l by (simp add: read_cell_update)
  show "lives_in (Suc (length h)) ?h' A y v"
    using assms(3) agrees_update order_refl by (rule lives_in_mono) simp
qed

locale pointee = copier copy absv
  for copy :: "'a \<Rightarrow> heap \<Rightarrow> ('a \<times> heap) option" and absv :: "heap \<Rightarrow> 'a \<Rightarrow> 'v option" +
  fixes mk :: "'a \<Rightarrow> cell" and sel :: "cell \<Rightarrow> 'a"
  assumes sel_mk: "sel (mk x) = x"
begin

lemma copy_ptr_contract:
  assumes "abs_ptr mk sel absv h p = Some v"
  shows "agrees 0 h h' \<Longrightarrow> abs_ptr mk sel absv h' p = Some v"
    and "\<exists>q h'. copy_ptr mk sel copy p h = Some (q, h') \<and> agrees 0 h h' \<and>
      lives_in (length h) h' (abs_ptr mk sel absv) q v"
proof -
  obtain x where x: "deref mk sel h p = Some x" "absv h x = Some v"
    using assms by (auto simp: abs_ptr_def bind_eq_Some_conv)
  show "abs_ptr mk sel absv h' p = Some v" if "agrees 0 h h'"
    using deref_agrees [OF x(1) that] mono [OF x(2) that] by (simp add: abs_ptr_def)
  obtain y h1 where c: "copy x (h @ [CZero]) = Some (y, h1)" "agrees 0 (h @ [CZero]) h1"
    "lives_in (length (h @ [CZero])) h1 absv y v"
    using copies [OF mono [OF x(2) agrees_append]] by blast
  obtain h' where n: "new_filled mk (copy x) h = Some (length h, h')" "agrees 0 h h'"
    "read_cell h' (length h) = Some (mk y)" "lives_in (Suc (length h)) h' absv y v"
    using c by (auto intro: new_filled_contract)
  have "lives_in (length h) h' (abs_ptr mk sel absv) (length h) v"
    unfolding lives_in_def
  proof (intro allI impI)
    fix h'' assume a: "agrees (length h) h' h''"
    have "deref mk sel h'' (length h) = Some y"
      using agreesD [OF a order_refl n(3)] by (simp add: deref_def sel_mk)
    moreover have "absv h'' y = Some v" using n(4) agrees_weaken [OF a le_SucI [OF order_refl]] by (rule lives_inD)
    ultimately show "abs_ptr mk sel absv h'' (length h) = Some v" by (simp add: abs_ptr_def)
  qed
  with n x(1) show "\<exists>q h'. copy_ptr mk sel copy p h = Some (q, h') \<and> agrees 0 h h' \<and>
      lives_in (length h) h' (abs_ptr mk sel absv) q v"
    by (auto simp: copy_ptr_def)
qed

end

sublocale pointee \<subseteq> ptr: copier "copy_ptr mk sel copy" "abs_ptr mk sel absv"
  by unfold_locales (fact copy_ptr_contract)+

sublocale pointee \<subseteq> opt: copier "copy_opt (copy_ptr mk sel copy)" "abs_opt (abs_ptr mk sel absv)"
  by unfold_locales (fact ptr.copy_opt_contract)+

locale element = copier copy absv
  for copy :: "'a \<Rightarrow> heap \<Rightarrow> ('a \<times> heap) option" and absv :: "heap \<Rightarrow> 'a \<Rightarrow> 'v option" +
  fixes mk :: "'a list \<Rightarrow> cell" and sel :: "cell \<Rightarrow> 'a list"
  assumes sel_mk: "sel (mk xs) = xs"
begin

lemma copy_slice_contract:
  assumes "abs_slice mk sel absv h s = Some v"
  shows "agrees 0 h h' \<Longrightarrow> abs_slice mk sel absv h' s = Some v"
    and "\<exists>t h'. copy_slice mk sel copy s h = Some (t, h') \<and> agrees 0 h h' \<and>
      lives_in (length h) h' (abs_slice mk sel absv) t v"
proof -
  obtain xs where x: "slice_elems mk sel h s = Some xs" "those (map (absv h) xs) = Some v"
    using assms by (auto simp: abs_slice_def bind_eq_Some_conv)
  show "abs_slice mk sel absv h' s = Some v" if "agrees 0 h h'"
    using slice_elems_agrees [OF x(1) that] elems_contract(1) [OF x(2) that] by (simp add: abs_slice_def)
  obtain ys h1 where c: "copy_elems copy xs (h @ [CZero]) = Some (ys, h1)" "agrees 0 (h @ [CZero]) h1"
    "lives_in (length (h @ [CZero])) h1 (\<lambda>h xs. those (map (absv h) xs)) ys v"
    using elems_contract(2) [OF elems_contract(1) [OF x(2) agrees_append]] by blast
  have ys: "length ys = length xs"
    using lives_in_here [OF c(3)] x(2) by (auto simp: those_map_Some dest!: list_all2_lengthD)
  obtain h' where n: "new_filled mk (copy_elems copy xs) h = Some (length h, h')" "agrees 0 h h'"
    "read_cell h' (length h) = Some (mk ys)"
    "lives_in (Suc (length h)) h' (\<lambda>h xs. those (map (absv h) xs)) ys v"
    using c by (auto intro: new_filled_contract)
  let ?t = "\<lparr>slPtr = length h, slLen = length xs\<rparr>"
  have "lives_in (length h) h' (abs_slice mk sel absv) ?t v"
    unfolding lives_in_def
  proof (intro allI impI)
    fix h'' assume a: "agrees (length h) h' h''"
    have "slice_elems mk sel h'' ?t = Some ys"
      using agreesD [OF a order_refl n(3)] ys by (simp add: slice_elems_def deref_def sel_mk)
    moreover have "those (map (absv h'') ys) = Some v"
      using n(4) agrees_weaken [OF a le_SucI [OF order_refl]] by (rule lives_inD)
    ultimately show "abs_slice mk sel absv h'' ?t = Some v" by (simp add: abs_slice_def)
  qed
  with n x(1) show "\<exists>t h'. copy_slice mk sel copy s h = Some (t, h') \<and> agrees 0 h h' \<and>
      lives_in (length h) h' (abs_slice mk sel absv) t v"
    by (auto simp: copy_slice_def)
qed

end

sublocale element \<subseteq> slice: copier "copy_slice mk sel copy" "abs_slice mk sel absv"
  by unfold_locales (fact copy_slice_contract)+

sublocale element \<subseteq> opt_slice: copier "copy_opt (copy_slice mk sel copy)" "abs_opt (abs_slice mk sel absv)"
  by unfold_locales (fact slice.copy_opt_contract)+

section \<open>Every generated copy keeps the contract\<close>

lemma lives_later: "lives_in n h A x v \<Longrightarrow> agrees 0 h h' \<Longrightarrow> lives_in n h' A x v"
  by (blast intro: lives_in_mono agrees_weaken)

lemma keep_contract:
  "abs_keep h x = Some v \<Longrightarrow> agrees 0 h h' \<Longrightarrow> abs_keep h' x = Some v"
  "abs_keep h x = Some v \<Longrightarrow> \<exists>y h'. keep x h = Some (y, h') \<and> agrees 0 h h' \<and> lives_in (length h) h' abs_keep y v"
  by (auto simp: keep_def abs_keep_def lives_in_def)

interpretation str: pointee keep abs_keep CString the_string
  by unfold_locales (fact keep_contract cell.sel)+

interpretation bools: pointee keep abs_keep CBool the_bool
  by unfold_locales (fact keep_contract cell.sel)+

interpretation empty: pointee keep abs_keep empty_cell the_empty
  by unfold_locales (fact keep_contract | simp)+

interpretation strs: element keep abs_keep CStrings the_strings
  by unfold_locales (fact keep_contract cell.sel)+

interpretation conds: element Condition_DeepCopyInto abs_keep CConditions the_conditions
  by unfold_locales (auto simp: Condition_DeepCopyInto_def abs_keep_def lives_in_def)

interpretation names: copier Names_DeepCopyInto abs_names
proof unfold_locales
  fix h h' x v
  assume "abs_names h x = Some v"
  then obtain s c where f: "abs_strings h (hnShortNames x) = Some s" "abs_strings h (hnCategories x) = Some c"
    and v: "v = \<lparr>Plural = hnPlural x, Singular = hnSingular x, ShortNames = s, Kind = hnKind x, ListKind = hnListKind x, Categories = c\<rparr>"
    by (auto simp: abs_names_def bind_eq_Some_conv)
  show "abs_names h' x = Some v" if "agrees 0 h h'"
    using f [THEN strs.opt_slice.mono, OF that] v by (simp add: abs_names_def)
  obtain y1 h1 where 1: "copy_strings (hnShortNames x) h = Some (y1, h1)" "agrees 0 h h1"
    "lives_in (length h) h1 abs_strings y1 s" using f(1) agrees_refl by (rule strs.opt_slice.run)
  obtain y2 h2 where 2: "copy_strings (hnCategories x) h1 = Some (y2, h2)" "agrees 0 h h2" "agrees 0 h1 h2"
    "lives_in (length h) h2 abs_strings y2 c" using f(2) 1(2) by (rule strs.opt_slice.run)
  from lives_later [OF 1(3) 2(3)] 2(4)
  have "lives_in (length h) h2 abs_names (x\<lparr>hnShortNames := y1, hnCategories := y2\<rparr>) v"
    by (simp add: lives_in_def abs_names_def v)
  with 1 2 show "\<exists>y h'. Names_DeepCopyInto x h = Some (y, h') \<and> agrees 0 h h' \<and> lives_in (length h) h' abs_names y v"
    by (auto simp: Names_DeepCopyInto_def)
qed

interpretation scale: pointee Scale_DeepCopyInto abs_scale CScale the_scale
proof unfold_locales
  fix h h' x v
  assume "abs_scale h x = Some v"
  then obtain p where f: "abs_opt (abs_ptr CString the_string abs_keep) h (hsLabelSelectorPath x) = Some p"
    and v: "v = \<lparr>SpecReplicasPath = hsSpecReplicasPath x, StatusReplicasPath = hsStatusReplicasPath x, LabelSelectorPath = p\<rparr>"
    by (auto simp: abs_scale_def bind_eq_Some_conv)
  show "abs_scale h' x = Some v" if "agrees 0 h h'"
    using str.opt.mono [OF f that] v by (simp add: abs_scale_def)
  obtain y1 h1 where 1: "copy_opt (copy_ptr CString the_string keep) (hsLabelSelectorPath x) h = Some (y1, h1)"
    "agrees 0 h h1" "lives_in (length h) h1 (abs_opt (abs_ptr CString the_string abs_keep)) y1 p"
    using f agrees_refl by (rule str.opt.run)
  from 1(3) have "lives_in (length h) h1 abs_scale (x\<lparr>hsLabelSelectorPath := y1\<rparr>) v"
    by (simp add: lives_in_def abs_scale_def v)
  with 1 show "\<exists>y h'. Scale_DeepCopyInto x h = Some (y, h') \<and> agrees 0 h h' \<and> lives_in (length h) h' abs_scale y v"
    by (auto simp: Scale_DeepCopyInto_def)
qed simp

interpretation subresources: pointee Subresources_DeepCopyInto abs_subresources CSubresources the_subresources
proof unfold_locales
  fix h h' x v
  assume "abs_subresources h x = Some v"
  then obtain a b c d where f: "abs_opt (abs_ptr empty_cell the_empty abs_keep) h (huStatus x) = Some a"
    "abs_opt (abs_ptr CScale the_scale abs_scale) h (huScale x) = Some b"
    "abs_opt (abs_ptr empty_cell the_empty abs_keep) h (huHistory x) = Some c"
    "abs_opt (abs_ptr empty_cell the_empty abs_keep) h (huRef x) = Some d"
    and v: "v = \<lparr>subStatus = a, subScale = b, subHistory = c, subRef = d\<rparr>"
    by (auto simp: abs_subresources_def bind_eq_Some_conv)
  show "abs_subresources h' x = Some v" if "agrees 0 h h'"
    using f(1,3,4) [THEN empty.opt.mono, OF that] f(2) [THEN scale.opt.mono, OF that] v by (simp add: abs_subresources_def)
  obtain y1 h1 where 1: "copy_opt (copy_ptr empty_cell the_empty keep) (huStatus x) h = Some (y1, h1)" "agrees 0 h h1"
    "lives_in (length h) h1 (abs_opt (abs_ptr empty_cell the_empty abs_keep)) y1 a"
    using f(1) agrees_refl by (rule empty.opt.run)
  obtain y2 h2 where 2: "copy_opt (copy_ptr CScale the_scale Scale_DeepCopyInto) (huScale x) h1 = Some (y2, h2)"
    "agrees 0 h h2" "agrees 0 h1 h2" "lives_in (length h) h2 (abs_opt (abs_ptr CScale the_scale abs_scale)) y2 b"
    using f(2) 1(2) by (rule scale.opt.run)
  obtain y3 h3 where 3: "copy_opt (copy_ptr empty_cell the_empty keep) (huHistory x) h2 = Some (y3, h3)" "agrees 0 h h3"
    "agrees 0 h2 h3" "lives_in (length h) h3 (abs_opt (abs_ptr empty_cell the_empty abs_keep)) y3 c"
    using f(3) 2(2) by (rule empty.opt.run)
  obtain y4 h4 where 4: "copy_opt (copy_ptr empty_cell the_empty keep) (huRef x) h3 = Some (y4, h4)" "agrees 0 h h4"
    "agrees 0 h3 h4" "lives_in (length h) h4 (abs_opt (abs_ptr empty_cell the_empty abs_keep)) y4 d"
    using f(4) 3(2) by (rule empty.opt.run)
  from lives_later [OF lives_later [OF lives_later [OF 1(3) 2(3)] 3(3)] 4(3)]
    lives_later [OF lives_later [OF 2(4) 3(3)] 4(3)] lives_later [OF 3(4) 4(3)] 4(4)
  have "lives_in (length h) h4 abs_subresources (x\<lparr>huStatus := y1, huScale := y2, huHistory := y3, huRef := y4\<rparr>) v"
    by (simp add: lives_in_def abs_subresources_def v)
  with 1 2 3 4 show "\<exists>y h'. Subresources_DeepCopyInto x h = Some (y, h') \<and> agrees 0 h h' \<and>
      lives_in (length h) h' abs_subresources y v"
    by (auto simp: Subresources_DeepCopyInto_def)
qed simp

lemma version_contract:
  assumes "abs_version h x = Some v"
  shows "agrees 0 h h' \<Longrightarrow> abs_version h' x = Some v"
    and "\<exists>y h'. Version_DeepCopyInto x h = Some (y, h') \<and> agrees 0 h h' \<and> lives_in (length h) h' abs_version y v"
proof -
  obtain w s where f: "abs_opt (abs_ptr CString the_string abs_keep) h (hvDeprecationWarning x) = Some w"
    "abs_subresources_ptr h (hvSubresources x) = Some s"
    and v: "v = \<lparr>vName = hvName x, vServed = hvServed x, vStorage = hvStorage x, vDeprecated = hvDeprecated x,
      vDeprecationWarning = w, vSubresources = s\<rparr>"
    using assms by (auto simp: abs_version_def bind_eq_Some_conv)
  show "abs_version h' x = Some v" if "agrees 0 h h'"
    using str.opt.mono [OF f(1) that] subresources.opt.mono [OF f(2) that] v by (simp add: abs_version_def)
  obtain y1 h1 where 1: "copy_opt (copy_ptr CString the_string keep) (hvDeprecationWarning x) h = Some (y1, h1)"
    "agrees 0 h h1" "lives_in (length h) h1 (abs_opt (abs_ptr CString the_string abs_keep)) y1 w"
    using f(1) agrees_refl by (rule str.opt.run)
  obtain y2 h2 where 2: "copy_subresources (hvSubresources x) h1 = Some (y2, h2)" "agrees 0 h h2" "agrees 0 h1 h2"
    "lives_in (length h) h2 abs_subresources_ptr y2 s" using f(2) 1(2) by (rule subresources.opt.run)
  from lives_later [OF 1(3) 2(3)] 2(4)
  have "lives_in (length h) h2 abs_version (x\<lparr>hvDeprecationWarning := y1, hvSubresources := y2\<rparr>) v"
    by (simp add: lives_in_def abs_version_def v)
  with 1 2 show "\<exists>y h'. Version_DeepCopyInto x h = Some (y, h') \<and> agrees 0 h h' \<and> lives_in (length h) h' abs_version y v"
    by (auto simp: Version_DeepCopyInto_def)
qed

interpretation version: pointee Version_DeepCopyInto abs_version CVersion the_version
  by unfold_locales (fact version_contract cell.sel)+

interpretation versions: element Version_DeepCopyInto abs_version CVersions the_versions
  by unfold_locales (fact version_contract cell.sel)+

interpretation spec: pointee Spec_DeepCopyInto abs_spec CSpec the_spec
proof unfold_locales
  fix h h' x v
  assume "abs_spec h x = Some v"
  then obtain n s where f: "abs_names h (hpNames x) = Some n" "abs_versions h (hpVersions x) = Some s"
    and v: "v = \<lparr>sGroup = hpGroup x, sNames = n, sScope = hpScope x, sVersions = elems s,
      sPreserveUnknownFields = hpPreserveUnknownFields x\<rparr>"
    by (auto simp: abs_spec_def bind_eq_Some_conv)
  show "abs_spec h' x = Some v" if "agrees 0 h h'"
    using names.mono [OF f(1) that] versions.opt_slice.mono [OF f(2) that] v by (simp add: abs_spec_def)
  obtain y1 h1 where 1: "Names_DeepCopyInto (hpNames x) h = Some (y1, h1)" "agrees 0 h h1"
    "lives_in (length h) h1 abs_names y1 n" using f(1) agrees_refl by (rule names.run)
  obtain y2 h2 where 2: "copy_versions (hpVersions x) h1 = Some (y2, h2)" "agrees 0 h h2" "agrees 0 h1 h2"
    "lives_in (length h) h2 abs_versions y2 s" using f(2) 1(2) by (rule versions.opt_slice.run)
  from lives_later [OF 1(3) 2(3)] 2(4)
  have "lives_in (length h) h2 abs_spec (x\<lparr>hpNames := y1, hpVersions := y2\<rparr>) v"
    by (simp add: lives_in_def abs_spec_def v)
  with 1 2 show "\<exists>y h'. Spec_DeepCopyInto x h = Some (y, h') \<and> agrees 0 h h' \<and> lives_in (length h) h' abs_spec y v"
    by (auto simp: Spec_DeepCopyInto_def)
qed simp

interpretation kinds_spec: pointee kinds_Spec_DeepCopyInto abs_kinds_spec CKindsSpec the_kinds_spec
proof unfold_locales
  fix h h' x v
  assume "abs_kinds_spec h x = Some v"
  then obtain n u s b where f: "abs_names h (hkNames x) = Some n" "abs_subresources_ptr h (hkSubresources x) = Some u"
    "abs_versions h (hkVersions x) = Some s"
    "abs_opt (abs_ptr CBool the_bool abs_keep) h (hkPreserveUnknownFields x) = Some b"
    and v: "v = \<lparr>kGroup = hkGroup x, kVersion = hkVersion x, kNames = n, kScope = hkScope x, kSubresources = u,
      kVersions = elems s, kPreserveUnknownFields = b\<rparr>"
    by (auto simp: abs_kinds_spec_def bind_eq_Some_conv)
  show "abs_kinds_spec h' x = Some v" if "agrees 0 h h'"
    using names.mono [OF f(1) that] subresources.opt.mono [OF f(2) that] versions.opt_slice.mono [OF f(3) that]
      bools.opt.mono [OF f(4) that] v by (simp add: abs_kinds_spec_def)
  obtain y1 h1 where 1: "Names_DeepCopyInto (hkNames x) h = Some (y1, h1)" "agrees 0 h h1"
    "lives_in (length h) h1 abs_names y1 n" using f(1) agrees_refl by (rule names.run)
  obtain y2 h2 where 2: "copy_subresources (hkSubresources x) h1 = Some (y2, h2)" "agrees 0 h h2" "agrees 0 h1 h2"
    "lives_in (length h) h2 abs_subresources_ptr y2 u" using f(2) 1(2) by (rule subresources.opt.run)
  obtain y3 h3 where 3: "copy_versions (hkVersions x) h2 = Some (y3, h3)" "agrees 0 h h3" "agrees 0 h2 h3"
    "lives_in (length h) h3 abs_versions y3 s" using f(3) 2(2) by (rule versions.opt_slice.run)
  obtain y4 h4 where 4: "copy_opt (copy_ptr CBool the_bool keep) (hkPreserveUnknownFields x) h3 = Some (y4, h4)"
    "agrees 0 h h4" "agrees 0 h3 h4" "lives_in (length h) h4 (abs_opt (abs_ptr CBool the_bool abs_keep)) y4 b"
    using f(4) 3(2) by (rule bools.opt.run)
  from lives_later [OF lives_later [OF lives_later [OF 1(3) 2(3)] 3(3)] 4(3)]
    lives_later [OF lives_later [OF 2(4) 3(3)] 4(3)] lives_later [OF 3(4) 4(3)] 4(4)
  have "lives_in (length h) h4 abs_kinds_spec
      (x\<lparr>hkNames := y1, hkSubresources := y2, hkVersions := y3, hkPreserveUnknownFields := y4\<rparr>) v"
    by (simp add: lives_in_def abs_kinds_spec_def v)
  with 1 2 3 4 show "\<exists>y h'. kinds_Spec_DeepCopyInto x h = Some (y, h') \<and> agrees 0 h h' \<and>
      lives_in (length h) h' abs_kinds_spec y v"
    by (auto simp: kinds_Spec_DeepCopyInto_def)
qed simp

interpretation status: pointee Status_DeepCopyInto abs_status CStatus the_status
proof unfold_locales
  fix h h' x v
  assume "abs_status h x = Some v"
  then obtain c n s where f: "abs_conditions h (htConditions x) = Some c" "abs_names h (htAcceptedNames x) = Some n"
    "abs_strings h (htStoredVersions x) = Some s"
    and v: "v = \<lparr>stConditions = elems c, stAcceptedNames = n, stStoredVersions = elems s\<rparr>"
    by (auto simp: abs_status_def bind_eq_Some_conv)
  show "abs_status h' x = Some v" if "agrees 0 h h'"
    using conds.opt_slice.mono [OF f(1) that] names.mono [OF f(2) that] strs.opt_slice.mono [OF f(3) that] v
    by (simp add: abs_status_def)
  obtain y1 h1 where 1: "copy_opt (copy_slice CConditions the_conditions Condition_DeepCopyInto) (htConditions x) h = Some (y1, h1)"
    "agrees 0 h h1" "lives_in (length h) h1 abs_conditions y1 c" using f(1) agrees_refl by (rule conds.opt_slice.run)
  obtain y2 h2 where 2: "Names_DeepCopyInto (htAcceptedNames x) h1 = Some (y2, h2)" "agrees 0 h h2" "agrees 0 h1 h2"
    "lives_in (length h) h2 abs_names y2 n" using f(2) 1(2) by (rule names.run)
  obtain y3 h3 where 3: "copy_strings (htStoredVersions x) h2 = Some (y3, h3)" "agrees 0 h h3" "agrees 0 h2 h3"
    "lives_in (length h) h3 abs_strings y3 s" using f(3) 2(2) by (rule strs.opt_slice.run)
  from lives_later [OF lives_later [OF 1(3) 2(3)] 3(3)] lives_later [OF 2(4) 3(3)] 3(4)
  have "lives_in (length h) h3 abs_status (x\<lparr>htConditions := y1, htAcceptedNames := y2, htStoredVersions := y3\<rparr>) v"
    by (simp add: lives_in_def abs_status_def v)
  with 1 2 3 show "\<exists>y h'. Status_DeepCopyInto x h = Some (y, h') \<and> agrees 0 h h' \<and> lives_in (length h) h' abs_status y v"
    by (auto simp: Status_DeepCopyInto_def)
qed simp

context copier
begin

lemma grd_contract:
  assumes "abs_grd absv h x = Some v"
  shows "agrees 0 h h' \<Longrightarrow> abs_grd absv h' x = Some v"
    and "\<exists>y h'. grd_copy copy x h = Some (y, h') \<and> agrees 0 h h' \<and> lives_in (length h) h' (abs_grd absv) y v"
proof -
  obtain s t where f: "absv h (hgSpec x) = Some s" "abs_status h (hgStatus x) = Some t"
    and v: "v = \<lparr>gMeta = hgMeta x, gSpec = s, gStatus = t\<rparr>"
    using assms by (auto simp: abs_grd_def bind_eq_Some_conv)
  show "abs_grd absv h' x = Some v" if "agrees 0 h h'"
    using mono [OF f(1) that] status.mono [OF f(2) that] v by (simp add: abs_grd_def)
  obtain y1 h1 where 1: "copy (hgSpec x) h = Some (y1, h1)" "agrees 0 h h1" "lives_in (length h) h1 absv y1 s"
    using f(1) agrees_refl by (rule run)
  obtain y2 h2 where 2: "Status_DeepCopyInto (hgStatus x) h1 = Some (y2, h2)" "agrees 0 h h2" "agrees 0 h1 h2"
    "lives_in (length h) h2 abs_status y2 t" using f(2) 1(2) by (rule status.run)
  from lives_later [OF 1(3) 2(3)] 2(4)
  have "lives_in (length h) h2 (abs_grd absv) (x\<lparr>hgSpec := y1, hgStatus := y2\<rparr>) v"
    by (simp add: lives_in_def abs_grd_def v)
  with 1 2 show "\<exists>y h'. grd_copy copy x h = Some (y, h') \<and> agrees 0 h h' \<and> lives_in (length h) h' (abs_grd absv) y v"
    by (auto simp: grd_copy_def)
qed

end


interpretation grd: pointee GRD_DeepCopyInto "abs_grd abs_spec" CGRD the_grd
  unfolding GRD_DeepCopyInto_def by unfold_locales (fact spec.grd_contract cell.sel)+

interpretation grds: element GRD_DeepCopyInto "abs_grd abs_spec" CGRDs the_grds
  unfolding GRD_DeepCopyInto_def by unfold_locales (fact spec.grd_contract cell.sel)+

interpretation kinds_grd: pointee kinds_GRD_DeepCopyInto "abs_grd abs_kinds_spec" CKindsGRD the_kinds_grd
  unfolding kinds_GRD_DeepCopyInto_def by unfold_locales (fact kinds_spec.grd_contract cell.sel)+

interpretation kinds_grds: element kinds_GRD_DeepCopyInto "abs_grd abs_kinds_spec" CKindsGRDs the_kinds_grds
  unfolding kinds_GRD_DeepCopyInto_def by unfold_locales (fact kinds_spec.grd_contract cell.sel)+

interpretation list: pointee List_DeepCopyInto "abs_list CGRDs the_grds abs_spec" CList the_list
proof unfold_locales
  fix h h' x v
  assume v: "abs_list CGRDs the_grds abs_spec h x = Some v"
  show "abs_list CGRDs the_grds abs_spec h' x = Some v" if "agrees 0 h h'"
    using v grds.opt_slice.mono [OF _ that] by (auto simp: abs_list_def bind_eq_Some_conv)
  show "\<exists>y h'. List_DeepCopyInto x h = Some (y, h') \<and> agrees 0 h h' \<and>
      lives_in (length h) h' (abs_list CGRDs the_grds abs_spec) y v"
    using v by (auto simp: abs_list_def bind_eq_Some_conv List_DeepCopyInto_def lives_in_def
        dest!: grds.opt_slice.copies)
qed simp

interpretation kinds_list: pointee kinds_List_DeepCopyInto "abs_list CKindsGRDs the_kinds_grds abs_kinds_spec" CKindsList the_kinds_list
proof unfold_locales
  fix h h' x v
  assume v: "abs_list CKindsGRDs the_kinds_grds abs_kinds_spec h x = Some v"
  show "abs_list CKindsGRDs the_kinds_grds abs_kinds_spec h' x = Some v" if "agrees 0 h h'"
    using v kinds_grds.opt_slice.mono [OF _ that] by (auto simp: abs_list_def bind_eq_Some_conv)
  show "\<exists>y h'. kinds_List_DeepCopyInto x h = Some (y, h') \<and> agrees 0 h h' \<and>
      lives_in (length h) h' (abs_list CKindsGRDs the_kinds_grds abs_kinds_spec) y v"
    using v by (auto simp: abs_list_def bind_eq_Some_conv kinds_List_DeepCopyInto_def lives_in_def
        dest!: kinds_grds.opt_slice.copies)
qed simp

section \<open>A deep copy is the value itself, in memory of its own\<close>


definition sample_heap :: heap where
  "sample_heap =
    [CStrings [''wd''], CString ''use v2'',
     CVersions [\<lparr>hvName = ''v1'', hvServed = True, hvStorage = True, hvDeprecated = True,
       hvDeprecationWarning = Some 1, hvSubresources = None\<rparr>],
     CConditions [mk_cond NamesAccepted ConditionTrue ''NoConflicts'' [], mk_cond [] [] [] []],
     CStrings [''v1''],
     CGRD \<lparr>hgMeta = \<lparr>mName = ''widgets.g.io'', mNamespace = [], mUID = ''u'', mResourceVersion = ''1'', mGeneration = 1,
         mCreationTimestamp = 1, mDeletionTimestamp = None, mLabels = [], mAnnotations = [], mFinalizers = []\<rparr>,
       hgSpec = \<lparr>hpGroup = ''g.io'', hpNames = \<lparr>hnPlural = ''widgets'', hnSingular = ''widget'',
           hnShortNames = Some \<lparr>slPtr = 0, slLen = 1\<rparr>, hnKind = ''Widget'', hnListKind = ''WidgetList'', hnCategories = None\<rparr>,
         hpScope = ''Namespaced'', hpVersions = Some \<lparr>slPtr = 2, slLen = 1\<rparr>, hpPreserveUnknownFields = False\<rparr>,
       hgStatus = \<lparr>htConditions = Some \<lparr>slPtr = 3, slLen = 1\<rparr>,
         htAcceptedNames = \<lparr>hnPlural = ''widgets'', hnSingular = ''widget'',
           hnShortNames = Some \<lparr>slPtr = 0, slLen = 1\<rparr>, hnKind = ''Widget'', hnListKind = ''WidgetList'', hnCategories = None\<rparr>,
         htStoredVersions = Some \<lparr>slPtr = 4, slLen = 1\<rparr>\<rparr>\<rparr>]"

lemma sample_heap_reads: "\<exists>g. grd_at sample_heap 5 = Some g \<and> grd_name g = ''widgets.g.io'' \<and>
    conditions g = [mk_cond NamesAccepted ConditionTrue ''NoConflicts'' []]"
  by (simp add: sample_heap_def abs_ptr_def deref_def read_cell_def as_type_def abs_grd_def abs_spec_def abs_names_def
      abs_slice_def slice_elems_def abs_keep_def abs_version_def abs_status_def elems_def)


end
