(* ===== verification/CacheSafety.thy ===== *)
theory CacheSafety
  imports DeepCopy Establish
begin

text \<open>
  What the controllers write into a deep copy of a cached definition, on the memory of \<open>DeepCopy\<close>:
  \<open>FindGRDCondition\<close> and \<open>SetGRDCondition\<close> of \<open>apihelpers/helpers.go\<close> with their pointer into the array
  of conditions and the \<open>append\<close> of Go, and the sync of the establishing controller on a cache of
  pointers. The pure models of \<open>GrdHelpers\<close> and \<open>Establish\<close> are what these compute, and the cache,
  which all controllers share, reads the same afterwards.
\<close>

section \<open>Writing conditions in memory\<close>

fun first_index :: "('a \<Rightarrow> bool) \<Rightarrow> 'a list \<Rightarrow> nat option" where
  "first_index P [] = None"
| "first_index P (x # xs) = (if P x then Some 0 else map_option Suc (first_index P xs))"

text \<open>\<open>FindGRDCondition\<close> answers a pointer to an element: the array and the index.\<close>

definition h_FindGRDCondition :: "heap \<Rightarrow> 'spec h_grd \<Rightarrow> string \<Rightarrow> (addr \<times> nat) option option" where
  "h_FindGRDCondition h g t =
    (case htConditions (hgStatus g) of
       None \<Rightarrow> Some None
     | Some s \<Rightarrow> do {
         xs \<leftarrow> slice_elems CConditions the_conditions h s;
         Some (map_option (Pair (slPtr s)) (first_index (\<lambda>c. cType c = t) xs))
       })"

text \<open>
  \<open>append\<close>: in place while the array has room behind the slice, else into a larger array;
  \<open>spare\<close> is the room the runtime adds, \<open>zero\<close> what fills it.
\<close>

definition append_slice ::
  "('a list \<Rightarrow> cell) \<Rightarrow> (cell \<Rightarrow> 'a list) \<Rightarrow> 'a \<Rightarrow> (nat \<Rightarrow> nat) \<Rightarrow> go_slice option \<Rightarrow> 'a \<Rightarrow> heap \<Rightarrow>
   (go_slice \<times> heap) option" where
  "append_slice mk sel zero spare s0 x h =
    (case s0 of
       None \<Rightarrow> Some (\<lparr>slPtr = length h, slLen = 1\<rparr>, h @ [mk (x # replicate (spare 0) zero)])
     | Some s \<Rightarrow> do {
         xs \<leftarrow> deref mk sel h (slPtr s);
         if slLen s < length xs
         then Some (s\<lparr>slLen := Suc (slLen s)\<rparr>, h[slPtr s := mk (xs[slLen s := x])])
         else Some (\<lparr>slPtr = length h, slLen = Suc (slLen s)\<rparr>,
                    h @ [mk (take (slLen s) xs @ x # replicate (spare (slLen s)) zero)])
       })"

definition h_SetGRDCondition ::
  "(nat \<Rightarrow> nat) \<Rightarrow> time \<Rightarrow> addr \<Rightarrow> GrafanaResourceDefinitionCondition \<Rightarrow> heap \<Rightarrow> heap option" where
  "h_SetGRDCondition spare now p newCondition0 h = do {
     grd \<leftarrow> deref CGRD the_grd h p;
     let newCondition = newCondition0\<lparr>cLastTransitionTime := now\<rparr>;
     existing \<leftarrow> h_FindGRDCondition h grd (cType newCondition);
     case existing of
       None \<Rightarrow> do {
         (s, h1) \<leftarrow> append_slice CConditions the_conditions (mk_cond [] [] [] []) spare
                     (htConditions (hgStatus grd)) newCondition h;
         Some (h1[p := CGRD (grd\<lparr>hgStatus := (hgStatus grd)\<lparr>htConditions := Some s\<rparr>\<rparr>)])
       }
     | Some (a, i) \<Rightarrow> do {
         xs \<leftarrow> deref CConditions the_conditions h a;
         let e = xs ! i;
         let t = (if cStatus e \<noteq> cStatus newCondition \<or> IsZero (cLastTransitionTime e)
                  then cLastTransitionTime newCondition else cLastTransitionTime e);
         Some (h[a := CConditions (xs[i := e\<lparr>cLastTransitionTime := t, cStatus := cStatus newCondition,
                                             cReason := cReason newCondition, cMessage := cMessage newCondition\<rparr>])])
       }
   }"

text \<open>
  The cells that a condition write changes are those of conditions and of definitions; names,
  versions and subresources are read from the others.
\<close>

fun stable_cell :: "cell \<Rightarrow> bool" where
  "stable_cell (CConditions _) = False"
| "stable_cell (CGRD _) = False"
| "stable_cell _ = True"

definition keeps :: "heap \<Rightarrow> heap \<Rightarrow> bool" where
  "keeps h h' \<longleftrightarrow> (\<forall>a c. stable_cell c \<longrightarrow> read_cell h a = Some c \<longrightarrow> read_cell h' a = Some c)"

locale stable_reader =
  fixes absv :: "heap \<Rightarrow> 'a \<Rightarrow> 'v option"
  assumes stable: "absv h x = Some v \<Longrightarrow> keeps h h' \<Longrightarrow> absv h' x = Some v"
begin

lemma stable_opt: "abs_opt absv h x = Some v \<Longrightarrow> keeps h h' \<Longrightarrow> abs_opt absv h' x = Some v"
  by (cases x) (auto simp: bind_eq_Some_conv intro: stable)

lemma stable_ptr:
  assumes "\<And>x. stable_cell (mk x)" and "abs_ptr mk sel absv h p = Some v" and "keeps h h'"
  shows "abs_ptr mk sel absv h' p = Some v"
proof -
  obtain x where x: "deref mk sel h p = Some x" "absv h x = Some v"
    using assms(2) by (auto simp: abs_ptr_def bind_eq_Some_conv)
  have "read_cell h' p = Some (mk x)" using deref_Some [OF x(1)] assms(1,3) by (simp add: keeps_def)
  then have "deref mk sel h' p = Some x" using x(1) deref_Some [OF x(1)] by (simp add: deref_def)
  with stable [OF x(2) assms(3)] show ?thesis by (simp add: abs_ptr_def)
qed

lemma stable_slice:
  assumes "\<And>x. stable_cell (mk x)" and "abs_slice mk sel absv h s = Some v" and "keeps h h'"
  shows "abs_slice mk sel absv h' s = Some v"
proof -
  obtain xs where x: "slice_elems mk sel h s = Some xs" "those (map (absv h) xs) = Some v"
    using assms(2) by (auto simp: abs_slice_def bind_eq_Some_conv)
  then obtain ys where ys: "deref mk sel h (slPtr s) = Some ys" by (auto simp: slice_elems_def bind_eq_Some_conv)
  have "read_cell h' (slPtr s) = Some (mk ys)" using deref_Some [OF ys] assms(1,3) by (simp add: keeps_def)
  then have "deref mk sel h' (slPtr s) = Some ys" using ys deref_Some [OF ys] by (simp add: deref_def)
  moreover have "those (map (absv h') xs) = Some v"
    using x(2) assms(3) by (auto simp: those_map_Some elim!: list.rel_mono_strong intro: stable)
  ultimately show ?thesis using x(1) ys by (simp add: abs_slice_def slice_elems_def)
qed

lemma stable_opt_ptr:
  "(\<And>x. stable_cell (mk x)) \<Longrightarrow> abs_opt (abs_ptr mk sel absv) h p = Some v \<Longrightarrow> keeps h h' \<Longrightarrow>
    abs_opt (abs_ptr mk sel absv) h' p = Some v"
  by (cases p) (auto simp: bind_eq_Some_conv intro: stable_ptr)

lemma stable_opt_slice:
  "(\<And>x. stable_cell (mk x)) \<Longrightarrow> abs_opt (abs_slice mk sel absv) h p = Some v \<Longrightarrow> keeps h h' \<Longrightarrow>
    abs_opt (abs_slice mk sel absv) h' p = Some v"
  by (cases p) (auto simp: bind_eq_Some_conv intro: stable_slice)

end

interpretation keep_stable: stable_reader abs_keep
  by unfold_locales (simp add: abs_keep_def)

interpretation names_stable: stable_reader abs_names
proof unfold_locales
  fix h h' x v
  assume v: "abs_names h x = Some v" and k: "keeps h h'"
  show "abs_names h' x = Some v"
    using v keep_stable.stable_opt_slice [where mk = CStrings, OF _ _ k]
    by (auto simp: abs_names_def bind_eq_Some_conv)
qed

interpretation scale_stable: stable_reader abs_scale
proof unfold_locales
  fix h h' x v
  assume v: "abs_scale h x = Some v" and k: "keeps h h'"
  show "abs_scale h' x = Some v"
    using v keep_stable.stable_opt_ptr [where mk = CString, OF _ _ k]
    by (auto simp: abs_scale_def bind_eq_Some_conv)
qed

interpretation subresources_stable: stable_reader abs_subresources
proof unfold_locales
  fix h h' x v
  assume v: "abs_subresources h x = Some v" and k: "keeps h h'"
  show "abs_subresources h' x = Some v"
    using v keep_stable.stable_opt_ptr [where mk = empty_cell, OF _ _ k] scale_stable.stable_opt_ptr [where mk = CScale, OF _ _ k]
    by (auto simp: abs_subresources_def bind_eq_Some_conv)
qed

interpretation version_stable: stable_reader abs_version
proof unfold_locales
  fix h h' x v
  assume v: "abs_version h x = Some v" and k: "keeps h h'"
  show "abs_version h' x = Some v"
    using v keep_stable.stable_opt_ptr [where mk = CString, OF _ _ k]
      subresources_stable.stable_opt_ptr [where mk = CSubresources, OF _ _ k]
    by (auto simp: abs_version_def bind_eq_Some_conv)
qed

interpretation spec_stable: stable_reader abs_spec
proof unfold_locales
  fix h h' x v
  assume v: "abs_spec h x = Some v" and k: "keeps h h'"
  show "abs_spec h' x = Some v"
    using v names_stable.stable [OF _ k] version_stable.stable_opt_slice [where mk = CVersions, OF _ _ k]
    by (auto simp: abs_spec_def bind_eq_Some_conv)
qed

lemma first_index_None: "first_index P xs = None \<longleftrightarrow> List.find P xs = None"
  by (induction xs) auto

lemma first_index_Some:
  "first_index P xs = Some i \<Longrightarrow> i < length xs \<and> List.find P xs = Some (xs ! i) \<and> upd_first P f xs = xs[i := f (xs ! i)]"
  by (induction xs arbitrary: i) (auto split: if_splits)

lemma those_keep [simp]: "those (map (abs_keep h) xs) = Some xs"
  by (induction xs) (auto simp: abs_keep_def)

lemma abs_slice_keep [simp]: "abs_slice mk sel abs_keep h s = slice_elems mk sel h s"
  by (simp add: abs_slice_def)

lemma slice_elemsD:
  assumes "slice_elems mk sel h s = Some xs"
  obtains ys where "read_cell h (slPtr s) = Some (mk ys)" and "deref mk sel h (slPtr s) = Some ys"
    and "slLen s \<le> length ys" and "xs = take (slLen s) ys"
  using assms by (auto simp: slice_elems_def bind_eq_Some_conv dest: deref_Some split: if_splits)

lemma deref_mk: "(\<And>x. sel (mk x) = x) \<Longrightarrow> read_cell h a = Some (mk x) \<Longrightarrow> deref mk sel h a = Some x"
  by (simp add: deref_def)

text \<open>The addresses outside \<open>A\<close> keep their cells.\<close>

definition same_outside :: "addr set \<Rightarrow> heap \<Rightarrow> heap \<Rightarrow> bool" where
  "same_outside A h h' \<longleftrightarrow> (\<forall>a c. a \<notin> A \<longrightarrow> read_cell h a = Some c \<longrightarrow> read_cell h' a = Some c)"

lemma same_outside_append: "same_outside A h (h @ t)"
  using agrees_append [of 0 h t] by (simp add: same_outside_def agrees_def)

lemma same_outside_update: "a \<in> A \<Longrightarrow> same_outside A h (h[a := c])"
  by (auto simp: same_outside_def read_cell_update)

lemma read_cell_append: "read_cell (h @ [c]) a = (if a = length h then Some c else read_cell h a)"
  by (auto simp: read_cell_def nth_append)

lemma append_slice_contract:
  assumes "abs_conditions h s0 = Some cs"
  obtains s h1 where "append_slice CConditions the_conditions z spare s0 x h = Some (s, h1)"
    and "abs_conditions h1 (Some s) = Some (Some (elems cs @ [x]))"
    and "slPtr s = length h \<or> (\<exists>s1. s0 = Some s1 \<and> slPtr s = slPtr s1)"
    and "same_outside (slPtr ` set_option s0) h h1"
    and "\<And>a c. stable_cell c \<or> (\<exists>g. c = CGRD g) \<Longrightarrow> read_cell h a = Some c \<Longrightarrow> read_cell h1 a = Some c"
    and "length h \<le> length h1"
proof (cases s0)
  case None
  let ?h = "h @ [CConditions (x # replicate (spare 0) z)]" and ?s = "\<lparr>slPtr = length h, slLen = 1\<rparr>"
  have "slice_elems CConditions the_conditions ?h ?s = Some [x]"
    by (simp add: slice_elems_def deref_def read_cell_append)
  moreover have "read_cell ?h a = Some c" if "read_cell h a = Some c" for a c
    using that read_cell_lt [OF that] by (auto simp: read_cell_append)
  ultimately show ?thesis
    using that [of ?s ?h] None assms by (auto simp: append_slice_def same_outside_append elems_def)
next
  case (Some s1)
  with assms obtain xs where xs: "cs = Some xs" "slice_elems CConditions the_conditions h s1 = Some xs"
    by (auto simp: bind_eq_Some_conv)
  from xs(2) obtain ys where ys: "read_cell h (slPtr s1) = Some (CConditions ys)"
    "deref CConditions the_conditions h (slPtr s1) = Some ys" "slLen s1 \<le> length ys" "xs = take (slLen s1) ys"
    by (rule slice_elemsD)
  show ?thesis
  proof (cases "slLen s1 < length ys")
    case True
    let ?h = "h[slPtr s1 := CConditions (ys[slLen s1 := x])]" and ?s = "s1\<lparr>slLen := Suc (slLen s1)\<rparr>"
    have "slice_elems CConditions the_conditions ?h ?s = Some (xs @ [x])"
      using ys True read_cell_lt [OF ys(1)]
      by (simp add: slice_elems_def deref_def read_cell_update take_Suc_conv_app_nth)
    moreover have "read_cell ?h a = Some c" if "stable_cell c \<or> (\<exists>g. c = CGRD g)" "read_cell h a = Some c" for a c
      using that ys(1) by (auto simp: read_cell_update)
    ultimately show ?thesis
      using that [of ?s ?h] Some xs(1) ys True by (auto simp: append_slice_def same_outside_update elems_def)
  next
    case False
    let ?h = "h @ [CConditions (take (slLen s1) ys @ x # replicate (spare (slLen s1)) z)]"
      and ?s = "\<lparr>slPtr = length h, slLen = Suc (slLen s1)\<rparr>"
    have "slice_elems CConditions the_conditions ?h ?s = Some (xs @ [x])"
      using ys False by (simp add: slice_elems_def deref_def read_cell_append)
    moreover have "read_cell ?h a = Some c" if "read_cell h a = Some c" for a c
      using that read_cell_lt [OF that] by (auto simp: read_cell_append)
    ultimately show ?thesis
      using that [of ?s ?h] Some xs(1) ys False by (auto simp: append_slice_def same_outside_append elems_def)
  qed
qed

lemma grd_atD:
  assumes "grd_at h p = Some g"
  obtains gg cs st where "deref CGRD the_grd h p = Some gg" and "hgMeta gg = gMeta g"
    and "abs_spec h (hgSpec gg) = Some (gSpec g)"
    and "abs_conditions h (htConditions (hgStatus gg)) = Some cs" and "elems cs = conditions g"
    and "abs_names h (htAcceptedNames (hgStatus gg)) = Some (accepted g)"
    and "abs_strings h (htStoredVersions (hgStatus gg)) = Some st" and "elems st = stStoredVersions (gStatus g)"
  using assms by (auto simp: abs_ptr_def abs_grd_def abs_status_def bind_eq_Some_conv)

text \<open>A heap in which the struct has other conditions, and nothing stable has changed.\<close>

lemma grd_at_conditions:
  assumes "grd_at h p = Some g" and "deref CGRD the_grd h p = Some gg" and "keeps h h'"
    and "deref CGRD the_grd h' p = Some (gg\<lparr>hgStatus := (hgStatus gg)\<lparr>htConditions := sl\<rparr>\<rparr>)"
    and "abs_conditions h' sl = Some cs"
  shows "grd_at h' p = Some (set_conditions (elems cs) g)"
proof -
  from assms(1) obtain cs0 st where g: "hgMeta gg = gMeta g" "abs_spec h (hgSpec gg) = Some (gSpec g)"
    "abs_names h (htAcceptedNames (hgStatus gg)) = Some (accepted g)"
    "abs_strings h (htStoredVersions (hgStatus gg)) = Some st" "elems st = stStoredVersions (gStatus g)"
    using assms(2) by (auto elim!: grd_atD)
  have "abs_strings h' (htStoredVersions (hgStatus gg)) = Some st"
    using keep_stable.stable_opt_slice [where mk = CStrings, OF _ g(4) assms(3)] by simp
  then show ?thesis
    using g names_stable.stable [OF g(3) assms(3)] spec_stable.stable [OF g(2) assms(3)] assms(4,5)
    by (simp add: abs_ptr_def abs_grd_def abs_status_def set_conditions_def)
qed

definition cond_array :: "heap \<Rightarrow> addr \<Rightarrow> addr set" where
  "cond_array h p = (case deref CGRD the_grd h p of
     None \<Rightarrow> {} | Some g \<Rightarrow> slPtr ` set_option (htConditions (hgStatus g)))"

lemma find_condition:
  assumes "abs_conditions h (htConditions (hgStatus gg)) = Some cs"
  shows "case List.find (\<lambda>c. cType c = t) (elems cs) of
      None \<Rightarrow> h_FindGRDCondition h gg t = Some None
    | Some e \<Rightarrow> \<exists>s xs i. h_FindGRDCondition h gg t = Some (Some (slPtr s, i)) \<and> htConditions (hgStatus gg) = Some s \<and>
        slice_elems CConditions the_conditions h s = Some xs \<and> elems cs = xs \<and> i < length xs \<and> xs ! i = e \<and>
        (\<forall>f. upd_first (\<lambda>c. cType c = t) f xs = xs[i := f e])"
proof (cases "htConditions (hgStatus gg)")
  case None
  with assms show ?thesis by (auto simp: h_FindGRDCondition_def elems_def)
next
  case (Some s)
  with assms obtain xs where xs: "cs = Some xs" "slice_elems CConditions the_conditions h s = Some xs"
    by (auto simp: bind_eq_Some_conv)
  show ?thesis
  proof (cases "first_index (\<lambda>c. cType c = t) xs")
    case None
    with xs Some show ?thesis by (simp add: h_FindGRDCondition_def elems_def first_index_None)
  next
    case (Some i)
    with xs \<open>htConditions (hgStatus gg) = Some s\<close> first_index_Some [OF Some] show ?thesis
      by (auto simp: h_FindGRDCondition_def elems_def)
  qed
qed

lemma same_outside_trans: "same_outside A h h' \<Longrightarrow> same_outside B h' h'' \<Longrightarrow> same_outside (A \<union> B) h h''"
  by (simp add: same_outside_def)

lemma same_outside_mono: "same_outside A h h' \<Longrightarrow> A \<subseteq> B \<Longrightarrow> same_outside B h h'"
  by (auto simp: same_outside_def)

text \<open>What a condition write does: only the struct and the array of its conditions change.\<close>

definition writes_condition :: "heap \<Rightarrow> addr \<Rightarrow> GRD \<Rightarrow> heap \<Rightarrow> bool" where
  "writes_condition h p g' h' \<longleftrightarrow> grd_at h' p = Some g' \<and> same_outside (insert p (cond_array h p)) h h' \<and>
    cond_array h' p \<subseteq> cond_array h p \<union> {length h..} \<and> length h \<le> length h'"

lemma set_new_condition:
  assumes g: "grd_at h p = Some g" and new: "FindGRDCondition g (cType c) = None"
  shows "\<exists>h'. h_SetGRDCondition spare now p c h = Some h' \<and> writes_condition h p (SetGRDCondition now g c) h'"
proof -
  let ?c = "c\<lparr>cLastTransitionTime := now\<rparr>"
  from g obtain gg cs where gg: "deref CGRD the_grd h p = Some gg"
    and cs: "abs_conditions h (htConditions (hgStatus gg)) = Some cs" "elems cs = conditions g"
    by (rule grd_atD)
  have p: "read_cell h p = Some (CGRD gg)" using gg by (rule deref_Some)
  have ca: "cond_array h p = slPtr ` set_option (htConditions (hgStatus gg))" by (simp add: cond_array_def gg)
  note f = find_condition [OF cs(1), of "cType c", unfolded cs(2), folded FindGRDCondition_def]
  obtain s h1 where a: "append_slice CConditions the_conditions (mk_cond [] [] [] []) spare (htConditions (hgStatus gg)) ?c h = Some (s, h1)"
    "abs_conditions h1 (Some s) = Some (Some (elems cs @ [?c]))"
    "slPtr s = length h \<or> (\<exists>s1. htConditions (hgStatus gg) = Some s1 \<and> slPtr s = slPtr s1)"
    "same_outside (slPtr ` set_option (htConditions (hgStatus gg))) h h1"
    "\<And>a c. stable_cell c \<or> (\<exists>g. c = CGRD g) \<Longrightarrow> read_cell h a = Some c \<Longrightarrow> read_cell h1 a = Some c"
    "length h \<le> length h1"
    using cs(1) by (rule append_slice_contract) blast
  let ?gg = "gg\<lparr>hgStatus := (hgStatus gg)\<lparr>htConditions := Some s\<rparr>\<rparr>"
  let ?h = "h1[p := CGRD ?gg]"
  have p1: "read_cell h1 p = Some (CGRD gg)" using p by (intro a(5)) auto
  have r: "read_cell ?h b = (if b = p then Some (CGRD ?gg) else read_cell h1 b)" for b
    using read_cell_lt [OF p1] by (simp add: read_cell_update)
  have k: "keeps h ?h" unfolding keeps_def r using p a(5) by auto
  have d: "deref CGRD the_grd ?h p = Some ?gg" by (simp add: deref_def r)
  have "slPtr s \<noteq> p"
    using a(2) p1 by (auto simp: bind_eq_Some_conv elim!: slice_elemsD)
  then have "slice_elems CConditions the_conditions ?h s = slice_elems CConditions the_conditions h1 s"
    by (simp add: slice_elems_def deref_def r)
  then have "abs_conditions ?h (Some s) = Some (Some (elems cs @ [?c]))" using a(2) by simp
  from grd_at_conditions [OF g gg k d this]
  have "grd_at ?h p = Some (SetGRDCondition now g c)"
    using new cs(2) by (simp add: SetGRDCondition_def Let_def elems_def)
  moreover have "h_SetGRDCondition spare now p c h = Some ?h"
    using f new gg a(1) by (simp add: h_SetGRDCondition_def Let_def)
  moreover have "same_outside (insert p (cond_array h p)) h ?h"
    using a(4) by (auto simp: same_outside_def r ca)
  moreover have "cond_array ?h p \<subseteq> cond_array h p \<union> {length h..}"
    using a(3) unfolding ca by (auto simp: cond_array_def d)
  moreover have "length h \<le> length ?h" using a(6) by simp
  ultimately show ?thesis unfolding writes_condition_def by blast
qed

lemma set_old_condition:
  assumes g: "grd_at h p = Some g" and old: "FindGRDCondition g (cType c) = Some e"
  shows "\<exists>h'. h_SetGRDCondition spare now p c h = Some h' \<and> writes_condition h p (SetGRDCondition now g c) h'"
proof -
  from g obtain gg cs where gg: "deref CGRD the_grd h p = Some gg"
    and cs: "abs_conditions h (htConditions (hgStatus gg)) = Some cs" "elems cs = conditions g"
    by (rule grd_atD)
  have p: "read_cell h p = Some (CGRD gg)" using gg by (rule deref_Some)
  have ca: "cond_array h p = slPtr ` set_option (htConditions (hgStatus gg))" by (simp add: cond_array_def gg)
  note f = find_condition [OF cs(1), of "cType c", unfolded cs(2), folded FindGRDCondition_def]
  from f old obtain s xs i where e: "h_FindGRDCondition h gg (cType c) = Some (Some (slPtr s, i))"
    "htConditions (hgStatus gg) = Some s" "slice_elems CConditions the_conditions h s = Some xs" "conditions g = xs"
    "i < length xs" "xs ! i = e" "\<And>f. upd_first (\<lambda>d. cType d = cType c) f xs = xs[i := f e]" by auto
  from e(3) obtain ys where ys: "read_cell h (slPtr s) = Some (CConditions ys)"
    "deref CConditions the_conditions h (slPtr s) = Some ys" "slLen s \<le> length ys" "xs = take (slLen s) ys"
    by (rule slice_elemsD)
  let ?t = "if cStatus e \<noteq> cStatus c \<or> IsZero (cLastTransitionTime e) then now else cLastTransitionTime e"
  define e' where "e' = e\<lparr>cLastTransitionTime := ?t, cStatus := cStatus c, cReason := cReason c, cMessage := cMessage c\<rparr>"
  let ?h = "h[slPtr s := CConditions (ys[i := e'])]"
  have e'2: "e' = e\<lparr>cStatus := cStatus c, cLastTransitionTime := ?t, cReason := cReason c, cMessage := cMessage c\<rparr>"
    by (simp add: e'_def)
  have yi: "ys ! i = e" using e(5,6) ys(4) by auto
  have r: "read_cell ?h b = (if b = slPtr s then Some (CConditions (ys[i := e'])) else read_cell h b)" for b
    using read_cell_lt [OF ys(1)] by (simp add: read_cell_update)
  have k: "keeps h ?h" unfolding keeps_def r using ys(1) by auto
  have "slPtr s \<noteq> p" using p ys(1) by auto
  then have d: "deref CGRD the_grd ?h p = Some gg" using gg by (simp add: deref_def r)
  have "slice_elems CConditions the_conditions ?h s = Some (xs[i := e'])"
    using ys(3,4) by (simp add: slice_elems_def deref_def r take_update_swap)
  then have ac: "abs_conditions ?h (htConditions (hgStatus gg)) = Some (Some (xs[i := e']))" by (simp add: e(2))
  have "grd_at ?h p = Some (set_conditions (elems (Some (xs[i := e']))) g)"
    using d by (intro grd_at_conditions [OF g gg k _ ac]) simp
  moreover have "set_conditions (elems (Some (xs[i := e']))) g = SetGRDCondition now g c"
    using old e(4,7) unfolding e'2 by (simp add: SetGRDCondition_def Let_def elems_def)
  ultimately have "grd_at ?h p = Some (SetGRDCondition now g c)" by simp
  moreover have "h_SetGRDCondition spare now p c h = Some ?h"
    using gg e(1) ys(2) yi by (simp add: h_SetGRDCondition_def Let_def e'_def)
  moreover have "same_outside (insert p (cond_array h p)) h ?h"
    unfolding ca e(2) by (intro same_outside_update) simp
  moreover have "cond_array ?h p \<subseteq> cond_array h p \<union> {length h..}"
    by (simp add: cond_array_def d gg)
  moreover have "length h \<le> length ?h" by simp
  ultimately show ?thesis unfolding writes_condition_def by blast
qed

lemma set_condition_in_memory:
  assumes "grd_at h p = Some g"
  obtains h' where "h_SetGRDCondition spare now p c h = Some h'" and "writes_condition h p (SetGRDCondition now g c) h'"
  using set_new_condition [OF assms, of c spare now] set_old_condition [OF assms, of c _ spare now]
  by (cases "FindGRDCondition g (cType c)") auto

text \<open>The struct and the conditions of a definition that lives from \<open>n\<close> on are there.\<close>

lemma lives_in_cond_array:
  assumes "lives_in n h (abs_ptr CGRD the_grd (abs_grd abs_spec)) q g"
  shows "insert q (cond_array h q) \<subseteq> {n..}"
proof -
  have g: "grd_at h q = Some g" using assms by (rule lives_in_here)
  then obtain gg cs st where gg: "deref CGRD the_grd h q = Some gg"
    "abs_conditions h (htConditions (hgStatus gg)) = Some cs" by (elim grd_atD)
  have alive: "grd_at (h[a := CZero]) q = Some g" if "a < n" for a
    using assms agrees_update [OF that] by (rule lives_inD)
  have "n \<le> q"
  proof (rule ccontr)
    assume "\<not> n \<le> q"
    then show False
      using alive [of q] read_cell_lt [OF deref_Some [OF gg(1)]]
      by (auto simp: read_cell_update dest!: deref_Some elim!: grd_atD)
  qed
  moreover have "n \<le> slPtr s" if s: "htConditions (hgStatus gg) = Some s" for s
  proof (rule ccontr)
    assume l: "\<not> n \<le> slPtr s"
    obtain ys where ys: "read_cell h (slPtr s) = Some (CConditions ys)"
      using gg(2) s by (auto simp: bind_eq_Some_conv elim!: slice_elemsD)
    then have "slPtr s \<noteq> q" using deref_Some [OF gg(1)] by auto
    then have "deref CGRD the_grd (h[slPtr s := CZero]) q = Some gg"
      using gg(1) by (simp add: deref_def read_cell_update)
    with alive [of "slPtr s"] l s show False
      using read_cell_lt [OF ys]
      by (auto simp: bind_eq_Some_conv read_cell_update elim!: grd_atD slice_elemsD)
  qed
  ultimately show ?thesis by (auto simp: cond_array_def gg(1))
qed

text \<open>A sequence of condition writes, each with its time.\<close>

fun h_set_conditions ::
  "(nat \<Rightarrow> nat) \<Rightarrow> addr \<Rightarrow> (time \<times> GrafanaResourceDefinitionCondition) list \<Rightarrow> heap \<Rightarrow> heap option" where
  "h_set_conditions spare p [] h = Some h"
| "h_set_conditions spare p ((now, c) # ws) h = do {
     h1 \<leftarrow> h_SetGRDCondition spare now p c h;
     h_set_conditions spare p ws h1
   }"

lemma set_conditions_in_memory:
  assumes "grd_at h q = Some g" and "insert q (cond_array h q) \<subseteq> {n..}" and "n \<le> length h"
  shows "\<exists>h'. h_set_conditions spare q ws h = Some h' \<and>
    grd_at h' q = Some (fold (\<lambda>(now, c) g. SetGRDCondition now g c) ws g) \<and> same_outside {n..} h h'"
  using assms
proof (induction ws arbitrary: h g)
  case Nil
  then show ?case by (auto simp: same_outside_def)
next
  case (Cons w ws)
  obtain now c where w: "w = (now, c)" by (cases w)
  obtain h1 where h1: "h_SetGRDCondition spare now q c h = Some h1" "writes_condition h q (SetGRDCondition now g c) h1"
    using Cons.prems(1) by (rule set_condition_in_memory)
  have a: "insert q (cond_array h1 q) \<subseteq> {n..}" "n \<le> length h1" "same_outside {n..} h h1"
    using h1(2) Cons.prems(2,3) by (auto simp: writes_condition_def elim!: same_outside_mono)
  have "grd_at h1 q = Some (SetGRDCondition now g c)" using h1(2) by (simp add: writes_condition_def)
  from Cons.IH [OF this a(1,2)] h1(1) a(3) show ?case
    by (auto simp: w same_outside_def)
qed

lemma deep_copy_runs:
  assumes "grd_at h p = Some g"
  shows "\<exists>q h'. GRD_DeepCopy (Some p) h = Some (Some q, h')"
  using grd.ptr.copies [OF assms] by (auto simp: GRD_DeepCopy_def)

lemma copy_write:
  assumes "grd_at h p = Some g" and "GRD_DeepCopy (Some p) h = Some (Some q, h1)"
  shows "\<exists>h2. h_set_conditions spare q ws h1 = Some h2 \<and>
    grd_at h2 q = Some (fold (\<lambda>(now, c) g. SetGRDCondition now g c) ws g) \<and>
    (\<forall>p' g'. grd_at h p' = Some g' \<longrightarrow> grd_at h2 p' = Some g')"
proof -
  have c: "copy_ptr CGRD the_grd GRD_DeepCopyInto p h = Some (q, h1)"
    using assms(2) by (auto simp: GRD_DeepCopy_def bind_eq_Some_conv)
  have l: "agrees 0 h h1" "lives_in (length h) h1 grd_at q g"
    using grd.ptr.copies [OF assms(1)] c by auto
  have "insert q (cond_array h1 q) \<subseteq> {length h..}" using l(2) by (rule lives_in_cond_array)
  from set_conditions_in_memory [OF lives_in_here [OF l(2)] this agrees_length [OF l(1)], of spare ws]
  obtain h2 where h2: "h_set_conditions spare q ws h1 = Some h2"
    "grd_at h2 q = Some (fold (\<lambda>(now, c) g. SetGRDCondition now g c) ws g)" "same_outside {length h..} h1 h2" by blast
  have "agrees 0 h h2"
  proof (rule agreesI)
    fix a cell assume r: "read_cell h a = Some cell"
    then have "read_cell h1 a = Some cell" using l(1) by (blast intro: agreesD)
    with h2(3) read_cell_lt [OF r] show "read_cell h2 a = Some cell" by (simp add: same_outside_def)
  qed
  then have "\<forall>p' g'. grd_at h p' = Some g' \<longrightarrow> grd_at h2 p' = Some g'" using grd.ptr.mono by blast
  with h2 show ?thesis by blast
qed

text \<open>
  Conditions written into a deep copy are what \<open>SetGRDCondition\<close> computes on the value, for any
  sequence of them, and none of them reaches the original: the definition in the informer's cache
  reads as before. Whether \<open>append\<close> finds room in the array does not matter.
\<close>

theorem writes_to_copy_spare_cache:
  assumes "grd_at h p = Some g" and "GRD_DeepCopy (Some p) h = Some (Some q, h1)"
  shows "\<exists>h2. h_set_conditions spare q ws h1 = Some h2 \<and>
    grd_at h2 q = Some (fold (\<lambda>(now, c) g. SetGRDCondition now g c) ws g) \<and>
    (\<forall>p' g'. grd_at h p' = Some g' \<longrightarrow> grd_at h2 p' = Some g')"
  using assms by (rule copy_write)

text \<open>
  Without the copy the same write changes the cached definition: a shallow copy, \<open>*out = *in\<close>, has
  the array of conditions in common with the original.
\<close>

lemma shallow_copy_changes_cache:
  "\<exists>h2 g g2. grd_at sample_heap 5 = Some g \<and>
    h_SetGRDCondition (\<lambda>_. 0) 9 6 (mk_cond NamesAccepted ConditionFalse ''r'' ''m'') (sample_heap @ [sample_heap ! 5]) = Some h2 \<and>
    grd_at h2 5 = Some g2 \<and> conditions g2 \<noteq> conditions g"
  by (simp add: sample_heap_def h_SetGRDCondition_def h_FindGRDCondition_def abs_ptr_def deref_def read_cell_def as_type_def
      abs_grd_def abs_spec_def abs_names_def abs_slice_def slice_elems_def abs_keep_def abs_version_def abs_status_def
      elems_def mk_cond_def Let_def)

section \<open>The establishing controller on a cache of pointers\<close>

definition h_IsGRDConditionPresentAndEqual :: "heap \<Rightarrow> addr \<Rightarrow> string \<Rightarrow> string \<Rightarrow> bool option" where
  "h_IsGRDConditionPresentAndEqual h p t status = do {
     grd \<leftarrow> deref CGRD the_grd h p;
     cs \<leftarrow> abs_conditions h (htConditions (hgStatus grd));
     Some (case List.find (\<lambda>c. cType c = t) (elems cs) of
             None \<Rightarrow> False | Some condition \<Rightarrow> cStatus condition = status)
   }"

text \<open>
  \<open>sync\<close>: \<open>cache\<close> is the lister, which answers pointers; the client sends what the pointer holds
  when it is called. The result is the definition sent, the outcome and the memory.
\<close>

definition h_establish_sync ::
  "(nat \<Rightarrow> nat) \<Rightarrow> (string \<Rightarrow> go_error + addr) \<Rightarrow> (GRD \<Rightarrow> go_error + GRD) \<Rightarrow> time \<Rightarrow> string \<Rightarrow> heap \<Rightarrow>
   ((grd_effect list \<times> unit outcome) \<times> heap) option" where
  "h_establish_sync spare cache update clock key h =
    (case cache key of
       Inl err \<Rightarrow> Some (if IsNotFound err then ([], Ret ()) else ([], Err err), h)
     | Inr cachedGRD \<Rightarrow> do {
         accepted \<leftarrow> h_IsGRDConditionPresentAndEqual h cachedGRD NamesAccepted ConditionTrue;
         established \<leftarrow> h_IsGRDConditionPresentAndEqual h cachedGRD Established ConditionTrue;
         if \<not> accepted \<or> established then Some (([], Ret ()), h)
         else do {
           (copy, h1) \<leftarrow> GRD_DeepCopy (Some cachedGRD) h;
           grd \<leftarrow> copy;
           h2 \<leftarrow> h_SetGRDCondition spare clock grd establishedCondition h1;
           sent \<leftarrow> grd_at h2 grd;
           Some (case update sent of
                   Inl err \<Rightarrow>
                     if IsNotFound err \<or> IsConflict err then ([UpdateStatus sent], Ret ())
                     else ([UpdateStatus sent], Err err)
                 | Inr _ \<Rightarrow> ([UpdateStatus sent], Ret ()), h2)
         }
       })"

lemma h_IsGRDConditionPresentAndEqual:
  assumes "grd_at h p = Some g"
  shows "h_IsGRDConditionPresentAndEqual h p t s = Some (IsGRDConditionPresentAndEqual g t s)"
  using assms
  by (elim grd_atD) (simp add: h_IsGRDConditionPresentAndEqual_def IsGRDConditionPresentAndEqual_def)

text \<open>The lister and the cache of pointers show the same definitions.\<close>

definition same_cache :: "heap \<Rightarrow> (string \<Rightarrow> go_error + addr) \<Rightarrow> lister \<Rightarrow> bool" where
  "same_cache h cache lister \<longleftrightarrow> (\<forall>key. case cache key of
     Inl err \<Rightarrow> lister_get lister key = Inl err
   | Inr p \<Rightarrow> \<exists>g. grd_at h p = Some g \<and> lister_get lister key = Inr g)"

lemma same_cacheD:
  "same_cache h cache lister \<Longrightarrow> cache key = Inl err \<Longrightarrow> lister_get lister key = Inl err"
  "same_cache h cache lister \<Longrightarrow> cache key = Inr p \<Longrightarrow> \<exists>g. grd_at h p = Some g \<and> lister_get lister key = Inr g"
  unfolding same_cache_def by (erule allE [of _ key], simp)+

text \<open>
  The sync of the establishing controller, run on pointers into the shared cache, sends the
  updates and has the outcome of its model on values, and the cache shows the same definitions
  before and after it.
\<close>

theorem establish_in_memory:
  assumes "same_cache h cache (ee_lister env)"
  shows "\<exists>h'. h_establish_sync spare cache (ee_update env) (ee_clock env) key h = Some (establish_sync env key, h') \<and>
    same_cache h' cache (ee_lister env)"
proof (cases "cache key")
  case (Inl err)
  then have "lister_get (ee_lister env) key = Inl err"
    using assms by (intro same_cacheD(1))
  with Inl assms show ?thesis by (simp add: h_establish_sync_def establish_sync_def)
next
  case (Inr p)
  then obtain g where g: "grd_at h p = Some g" "lister_get (ee_lister env) key = Inr g"
    using same_cacheD(2) [OF assms Inr] by blast
  note conds = h_IsGRDConditionPresentAndEqual [OF g(1)]
  show ?thesis
  proof (cases "\<not> IsGRDConditionTrue g NamesAccepted \<or> IsGRDConditionTrue g Established")
    case True
    with Inr g assms show ?thesis
      by (auto simp: h_establish_sync_def establish_sync_def conds IsGRDConditionTrue_def)
  next
    case False
    obtain q h1 where c: "GRD_DeepCopy (Some p) h = Some (Some q, h1)"
      using deep_copy_runs [OF g(1)] by blast
    from copy_write [OF g(1) c, of spare "[(ee_clock env, establishedCondition)]"]
    obtain h2 where h2: "h_SetGRDCondition spare (ee_clock env) q establishedCondition h1 = Some h2"
      "grd_at h2 q = Some (SetGRDCondition (ee_clock env) g establishedCondition)"
      "\<And>p' g'. grd_at h p' = Some g' \<Longrightarrow> grd_at h2 p' = Some g'" by (auto simp: bind_eq_Some_conv)
    have "same_cache h2 cache (ee_lister env)"
      using assms h2(3) by (fastforce simp: same_cache_def split: sum.splits)
    with Inr g c h2(1,2) False show ?thesis
      by (auto simp: h_establish_sync_def establish_sync_def conds IsGRDConditionTrue_def Let_def split: sum.split)
  qed
qed

section \<open>Witnesses\<close>

theorem writes_to_copy_spare_cache_witness:
  "\<exists>g q h1 h2. grd_at sample_heap 5 = Some g \<and> GRD_DeepCopy (Some 5) sample_heap = Some (Some q, h1) \<and>
    h_set_conditions (\<lambda>_. 1) q [(7, establishedCondition), (8, mk_cond NamesAccepted ConditionFalse ''r'' ''m'')] h1 = Some h2 \<and>
    grd_at h2 5 = Some g"
proof -
  obtain g where g: "grd_at sample_heap 5 = Some g" using sample_heap_reads by blast
  obtain q h1 where c: "GRD_DeepCopy (Some 5) sample_heap = Some (Some q, h1)" using deep_copy_runs [OF g] by blast
  from writes_to_copy_spare_cache [OF g c] g c show ?thesis by blast
qed

definition sample_cache :: "string \<Rightarrow> go_error + addr" where
  "sample_cache key = (if key = ''widgets.g.io'' then Inr 5 else Inl (NotFound key))"

definition sample_establish_env :: establish_env where
  "sample_establish_env = \<lparr>ee_lister = \<lparr>lister_get = (\<lambda>key. map_sum id (\<lambda>p. the (grd_at sample_heap p)) (sample_cache key)),
     lister_list = Inr []\<rparr>, ee_update = Inr, ee_clock = 7\<rparr>"

theorem establish_in_memory_witness:
  "\<exists>g h'. grd_at sample_heap 5 = Some g \<and>
    h_establish_sync (\<lambda>_. 0) sample_cache Inr 7 ''widgets.g.io'' sample_heap =
      Some (([UpdateStatus (SetGRDCondition 7 g establishedCondition)], Ret ()), h')"
proof -
  obtain g where g: "grd_at sample_heap 5 = Some g" "conditions g = [mk_cond NamesAccepted ConditionTrue ''NoConflicts'' []]"
    using sample_heap_reads by blast
  have "same_cache sample_heap sample_cache (ee_lister sample_establish_env)"
    using g(1) by (simp add: same_cache_def sample_cache_def sample_establish_env_def)
  from establish_in_memory [OF this, of "\<lambda>_. 0" "''widgets.g.io''"] obtain h' where
    "h_establish_sync (\<lambda>_. 0) sample_cache Inr 7 ''widgets.g.io'' sample_heap =
      Some (establish_sync sample_establish_env ''widgets.g.io'', h')"
    by (auto simp: sample_establish_env_def)
  moreover have "establish_sync sample_establish_env ''widgets.g.io'' =
      ([UpdateStatus (SetGRDCondition 7 g establishedCondition)], Ret ())"
    using g by (simp add: establish_sync_def sample_establish_env_def sample_cache_def IsGRDConditionTrue_def
        IsGRDConditionPresentAndEqual_def Let_def)
  ultimately show ?thesis using g(1) by auto
qed

end
