(* ===== verification/SyncMemory.thy ===== *)
theory SyncMemory
  imports CacheSafety Naming ApiApproval Finalizer
begin

text \<open>
  The syncs of the naming, the approval and the finalizer controller on a cache of pointers, as
  \<open>CacheSafety\<close> has that of the establishing controller: each sends what its model on values sends,
  and the cache shows the same definitions afterwards. The naming controller goes further than the
  others: it puts slices of the cached definition into its copy, so that the two share memory
  (\<open>naming_copy_shares_categories\<close>); it is safe because nothing writes to those slices.
\<close>

section \<open>Approval and finalizer\<close>

text \<open>The part that the controllers have in common: copy, write conditions, send what the copy holds.\<close>

definition h_copy_and_set ::
  "(nat \<Rightarrow> nat) \<Rightarrow> addr \<Rightarrow> (time \<times> GrafanaResourceDefinitionCondition) list \<Rightarrow> heap \<Rightarrow> (GRD \<times> heap) option" where
  "h_copy_and_set spare p ws h = do {
     (copy, h1) \<leftarrow> GRD_DeepCopy (Some p) h;
     grd \<leftarrow> copy;
     h2 \<leftarrow> h_set_conditions spare grd ws h1;
     sent \<leftarrow> grd_at h2 grd;
     Some (sent, h2)
   }"

lemma same_cache_mono:
  assumes "same_cache h cache lister" and "\<And>p g. grd_at h p = Some g \<Longrightarrow> grd_at h' p = Some g"
  shows "same_cache h' cache lister"
  using assms by (fastforce simp: same_cache_def split: sum.splits)

lemma copy_and_set:
  assumes "grd_at h p = Some g" and "same_cache h cache lister"
  obtains h' where "h_copy_and_set spare p ws h = Some (fold (\<lambda>(now, c) g. SetGRDCondition now g c) ws g, h')"
    and "same_cache h' cache lister"
proof -
  obtain q h1 where c: "GRD_DeepCopy (Some p) h = Some (Some q, h1)" using deep_copy_runs [OF assms(1)] by blast
  from copy_write [OF assms(1) c, of spare ws] obtain h2 where h2: "h_set_conditions spare q ws h1 = Some h2"
    "grd_at h2 q = Some (fold (\<lambda>(now, c) g. SetGRDCondition now g c) ws g)"
    "\<And>p' g'. grd_at h p' = Some g' \<Longrightarrow> grd_at h2 p' = Some g'" by blast
  have "h_copy_and_set spare p ws h = Some (fold (\<lambda>(now, c) g. SetGRDCondition now g c) ws g, h2)"
    using c h2(1,2) by (simp add: h_copy_and_set_def)
  with same_cache_mono [OF assms(2) h2(3)] show ?thesis using that by blast
qed

definition h_approval_sync ::
  "(nat \<Rightarrow> nat) \<Rightarrow> (string \<Rightarrow> go_error + addr) \<Rightarrow> approval_env \<Rightarrow> last_seen \<Rightarrow> string \<Rightarrow> heap \<Rightarrow>
   ((grd_effect list \<times> last_seen \<times> unit outcome) \<times> heap) option" where
  "h_approval_sync spare cache env seen key h =
    (case cache key of
       Inl err \<Rightarrow> Some (if IsNotFound err then ([], seen, Ret ()) else ([], seen, Err err), h)
     | Inr p \<Rightarrow> do {
         inp \<leftarrow> grd_at h p;
         let protectionAnnotationValue = map_get (mAnnotations (gMeta inp)) KubeAPIApprovedAnnotation;
         if seen (grd_name inp) = Some protectionAnnotationValue then Some (([], seen, Ret ()), h)
         else (case calculateCondition inp of
           None \<Rightarrow> Some (([], seen, Ret ()), h)
         | Some cond \<Rightarrow>
             if (case FindGRDCondition inp KubernetesAPIApprovalPolicyConformant of
                   None \<Rightarrow> False
                 | Some old \<Rightarrow> cStatus old = cStatus cond \<and> cReason old = cReason cond \<and> cMessage old = cMessage cond)
             then Some (([], seen, Ret ()), h)
             else do {
               (grd, h1) \<leftarrow> h_copy_and_set spare p [(ae_clock env, cond)] h;
               Some (case ae_update env grd of
                       Inl err \<Rightarrow>
                         if IsNotFound err \<or> IsConflict err then ([UpdateStatus grd], seen, Ret ())
                         else ([UpdateStatus grd], seen, Err err)
                     | Inr _ \<Rightarrow> ([UpdateStatus grd], seen(grd_name grd \<mapsto> protectionAnnotationValue), Ret ()), h1)
             })
       })"

lemma approval_in_memory:
  assumes "same_cache h cache (ae_lister env)"
  shows "\<exists>h'. h_approval_sync spare cache env seen key h = Some (approval_sync env seen key, h') \<and>
    same_cache h' cache (ae_lister env)"
proof (cases "cache key")
  case (Inl err)
  with same_cacheD(1) [OF assms Inl] assms show ?thesis by (simp add: h_approval_sync_def approval_sync_def)
next
  case (Inr p)
  then obtain g where g: "grd_at h p = Some g" "lister_get (ae_lister env) key = Inr g"
    using same_cacheD(2) [OF assms Inr] by blast
  show ?thesis
  proof (cases "\<exists>cond. calculateCondition g = Some cond")
    case True
    then obtain cond where cond: "calculateCondition g = Some cond" ..
    obtain h' where h': "h_copy_and_set spare p [(ae_clock env, cond)] h = Some (SetGRDCondition (ae_clock env) g cond, h')"
      "same_cache h' cache (ae_lister env)" using copy_and_set [OF g(1) assms, of spare "[(ae_clock env, cond)]"] by auto
    show ?thesis
      using Inr g cond h' assms
      by (simp add: h_approval_sync_def approval_sync_def Let_def split: option.split sum.split)
  next
    case False
    then show ?thesis using Inr g assms by (simp add: h_approval_sync_def approval_sync_def Let_def)
  qed
qed

text \<open>
  The object that the client returns after the first update is its own, so that the rest of the
  finalizer's sync works on a value.
\<close>

definition h_finalizer_sync ::
  "(nat \<Rightarrow> nat) \<Rightarrow> (string \<Rightarrow> go_error + addr) \<Rightarrow> 'w finalizer_env \<Rightarrow> string \<Rightarrow> 'w \<Rightarrow> heap \<Rightarrow>
   ((grd_effect list \<times> 'w \<times> unit outcome) \<times> heap) option" where
  "h_finalizer_sync spare cache env key w h =
    (case cache key of
       Inl err \<Rightarrow> Some (if IsNotFound err then ([], w, Ret ()) else ([], w, Err err), h)
     | Inr p \<Rightarrow> do {
         cachedGRD \<leftarrow> grd_at h p;
         if deletion_is_zero (gMeta cachedGRD) \<or> \<not> GRDHasFinalizer cachedGRD GrafanaResourceCleanupFinalizer
         then Some (([], w, Ret ()), h)
         else do {
           (grd, h1) \<leftarrow> h_copy_and_set spare p [(fe_clock env 0,
             terminating ConditionTrue ''InstanceDeletionInProgress'' ''GrafanaResource deletion is in progress'')] h;
           Some (case fe_update env 0 grd of
                   Inl err \<Rightarrow>
                     if IsNotFound err \<or> IsConflict err then ([UpdateStatus grd], w, Ret ())
                     else ([UpdateStatus grd], w, Err err)
                 | Inr returned \<Rightarrow> finalize_returned env grd returned w, h1)
         }
       })"

lemma finalizer_in_memory:
  assumes "same_cache h cache (fe_lister env)"
  shows "\<exists>h'. h_finalizer_sync spare cache env key w h = Some (finalizer_sync env key w, h') \<and>
    same_cache h' cache (fe_lister env)"
proof (cases "cache key")
  case (Inl err)
  with same_cacheD(1) [OF assms Inl] assms show ?thesis by (simp add: h_finalizer_sync_def finalizer_sync_def)
next
  case (Inr p)
  then obtain g where g: "grd_at h p = Some g" "lister_get (fe_lister env) key = Inr g"
    using same_cacheD(2) [OF assms Inr] by blast
  let ?c = "terminating ConditionTrue ''InstanceDeletionInProgress'' ''GrafanaResource deletion is in progress''"
  obtain h' where h': "h_copy_and_set spare p [(fe_clock env 0, ?c)] h = Some (SetGRDCondition (fe_clock env 0) g ?c, h')"
    "same_cache h' cache (fe_lister env)" using copy_and_set [OF g(1) assms, of spare "[(fe_clock env 0, ?c)]"] by auto
  show ?thesis
    using Inr g h' assms by (simp add: h_finalizer_sync_def finalizer_sync_def Let_def split: sum.split)
qed

section \<open>Naming\<close>

text \<open>
  The new names as the code builds them: the struct of the accepted names, in which strings and the
  two slices are replaced by those of the requested names, slices by reference.
\<close>

definition h_decide_names ::
  "(string list \<Rightarrow> string) \<Rightarrow> h_names \<Rightarrow> h_names \<Rightarrow> GrafanaResourceDefinitionNames \<Rightarrow> GrafanaResourceDefinitionNames \<Rightarrow>
   string set \<Rightarrow> string set \<Rightarrow> h_names" where
  "h_decide_names aggregate requestedNames acceptedNames requested acc R K =
    (let new = fst (decide_names aggregate requested acc R K)
     in acceptedNames\<lparr>hnPlural := Plural new, hnSingular := Singular new,
          hnShortNames :=
            (if ShortNames requested = ShortNames acc \<or>
                short_name_errors (elems (ShortNames requested)) (elems (ShortNames acc)) R \<noteq> []
             then hnShortNames acceptedNames else hnShortNames requestedNames),
          hnKind := Kind new, hnListKind := ListKind new, hnCategories := hnCategories requestedNames\<rparr>)"

definition h_set_names :: "addr \<Rightarrow> h_names \<Rightarrow> heap \<Rightarrow> heap option" where
  "h_set_names p names h = do {
     grd \<leftarrow> deref CGRD the_grd h p;
     Some (h[p := CGRD (grd\<lparr>hgStatus := (hgStatus grd)\<lparr>htAcceptedNames := names\<rparr>\<rparr>)])
   }"

definition h_naming_sync ::
  "(nat \<Rightarrow> nat) \<Rightarrow> (string \<Rightarrow> go_error + addr) \<Rightarrow> naming_env \<Rightarrow> string \<Rightarrow> heap \<Rightarrow>
   ((grd_effect list \<times> unit outcome) \<times> heap) option" where
  "h_naming_sync spare cache env key h =
    (case cache key of
       Inl err \<Rightarrow>
         Some (if IsNotFound err
               then requeue_effects [] (requeueAllOtherGroupGRDs (ne_lister env) key)
               else ([], Err err), h)
     | Inr p \<Rightarrow> do {
         inp \<leftarrow> grd_at h p;
         inGRD \<leftarrow> deref CGRD the_grd h p;
         if ne_semantic_equal env (sNames (gSpec inp)) (accepted inp) then Some (([], Ret ()), h)
         else (case getAcceptedNamesForGroup env (sGroup (gSpec inp)) of
             Panic \<Rightarrow> Some (([], Panic), h)
           | Err e \<Rightarrow> Some (([], Err e), h)
           | Ret (R, K) \<Rightarrow> do {
               let (new, namingCondition) = decide_names (ne_aggregate env) (sNames (gSpec inp)) (accepted inp) R K;
               let acceptedNames = h_decide_names (ne_aggregate env) (hpNames (hgSpec inGRD)) (htAcceptedNames (hgStatus inGRD))
                     (sNames (gSpec inp)) (accepted inp) R K;
               let establishedCondition = decide_established (FindGRDCondition inp Established) namingCondition;
               if accepted inp = new \<and> IsGRDConditionEquivalent (Some namingCondition) (FindGRDCondition inp NamesAccepted)
               then Some (([], Ret ()), h)
               else do {
                 (copy, h1) \<leftarrow> GRD_DeepCopy (Some p) h;
                 grd \<leftarrow> copy;
                 h2 \<leftarrow> h_set_names grd acceptedNames h1;
                 h3 \<leftarrow> h_set_conditions spare grd [(ne_clock env 0, namingCondition), (ne_clock env 1, establishedCondition)] h2;
                 sent \<leftarrow> grd_at h3 grd;
                 Some (case ne_update env sent of
                         Inl err \<Rightarrow>
                           if IsNotFound err \<or> IsConflict err then ([UpdateStatus sent], Ret ())
                           else ([UpdateStatus sent], Err err)
                       | Inr updatedObj \<Rightarrow>
                           requeue_effects [UpdateStatus sent, Mutation updatedObj]
                             (requeueAllOtherGroupGRDs (ne_lister env) key), h3)
               }
             })
       })"

lemma claim_name_slices:
  assumes "\<And>n. ShortNames (take_it n) = ShortNames n" and "\<And>n. Categories (take_it n) = Categories n"
  shows "ShortNames (fst (claim_name r a u reason take_it st)) = ShortNames (fst st)"
    and "Categories (fst (claim_name r a u reason take_it st)) = Categories (fst st)"
  using assms by (simp_all add: claim_name_def split: option.split)

lemma claim_short_names_slices:
  "ShortNames (fst (claim_short_names aggregate r a u st)) =
    (if r = a \<or> short_name_errors (elems r) (elems a) u \<noteq> [] then ShortNames (fst st) else r)"
  by (auto simp: claim_short_names_def Let_def)

lemma decide_names_slices:
  "ShortNames (fst (decide_names aggregate requested acc R K)) =
    (if ShortNames requested = ShortNames acc \<or>
        short_name_errors (elems (ShortNames requested)) (elems (ShortNames acc)) R \<noteq> []
     then ShortNames acc else ShortNames requested)"
  "Categories (fst (decide_names aggregate requested acc R K)) = Categories requested"
  unfolding decide_names_def Let_def fst_conv
  by (simp_all add: claim_name_slices claim_short_names_slices)

lemma abs_decided_names:
  assumes "abs_names h requestedNames = Some requested" and "abs_names h acceptedNames = Some acc"
  shows "abs_names h (h_decide_names aggregate requestedNames acceptedNames requested acc R K) =
    Some (fst (decide_names aggregate requested acc R K))"
proof -
  obtain short cats short' cats' where a:
    "abs_strings h (hnShortNames requestedNames) = Some short" "abs_strings h (hnCategories requestedNames) = Some cats"
    "abs_strings h (hnShortNames acceptedNames) = Some short'" "abs_strings h (hnCategories acceptedNames) = Some cats'"
    "ShortNames requested = short" "Categories requested = cats" "ShortNames acc = short'"
    using assms by (auto simp: abs_names_def bind_eq_Some_conv)
  obtain new where new: "fst (decide_names aggregate requested acc R K) = new" by blast
  with decide_names_slices [of aggregate requested acc R K] a show ?thesis
    by (cases new) (auto simp: abs_names_def h_decide_names_def Let_def)
qed

lemma set_names_in_memory:
  assumes g: "grd_at h q = Some g" and n: "abs_names h names = Some new"
  shows "\<exists>h'. h_set_names q names h = Some h' \<and> grd_at h' q = Some (set_accepted new g) \<and>
    same_outside {q} h h' \<and> cond_array h' q = cond_array h q \<and> length h' = length h"
proof -
  from g obtain gg cs st where gg: "deref CGRD the_grd h q = Some gg" "hgMeta gg = gMeta g"
    "abs_spec h (hgSpec gg) = Some (gSpec g)" "abs_conditions h (htConditions (hgStatus gg)) = Some cs"
    "elems cs = conditions g" "abs_strings h (htStoredVersions (hgStatus gg)) = Some st"
    "elems st = stStoredVersions (gStatus g)" by (rule grd_atD)
  let ?gg = "gg\<lparr>hgStatus := (hgStatus gg)\<lparr>htAcceptedNames := names\<rparr>\<rparr>"
  let ?h = "h[q := CGRD ?gg]"
  have q: "read_cell h q = Some (CGRD gg)" using gg(1) by (rule deref_Some)
  have r: "read_cell ?h b = (if b = q then Some (CGRD ?gg) else read_cell h b)" for b
    using read_cell_lt [OF q] by (simp add: read_cell_update)
  have k: "keeps h ?h" unfolding keeps_def r using q by auto
  have d: "deref CGRD the_grd ?h q = Some ?gg" by (simp add: deref_def r)
  have cs: "abs_conditions ?h (htConditions (hgStatus gg)) = Some cs"
  proof (cases "htConditions (hgStatus gg)")
    case (Some s)
    with gg(4) obtain xs where xs: "cs = Some xs" "slice_elems CConditions the_conditions h s = Some xs"
      by (auto simp: bind_eq_Some_conv)
    then have "slPtr s \<noteq> q" using q by (auto elim!: slice_elemsD)
    then have "slice_elems CConditions the_conditions ?h s = slice_elems CConditions the_conditions h s"
      by (simp add: slice_elems_def deref_def r)
    with Some xs show ?thesis by simp
  qed (use gg(4) in simp)
  have "abs_strings ?h (htStoredVersions (hgStatus gg)) = Some st"
    using keep_stable.stable_opt_slice [where mk = CStrings, OF _ gg(6) k] by simp
  then have "grd_at ?h q = Some (set_accepted new g)"
    using gg cs d names_stable.stable [OF n k] spec_stable.stable [OF gg(3) k]
    by (simp add: abs_ptr_def abs_grd_def abs_status_def set_accepted_def)
  moreover have "same_outside {q} h ?h" by (auto simp: same_outside_def r)
  moreover have "cond_array ?h q = cond_array h q" by (simp add: cond_array_def d gg(1))
  ultimately show ?thesis using gg(1) by (simp add: h_set_names_def)
qed

lemma copy_names_and_conditions:
  assumes "grd_at h p = Some g" and "GRD_DeepCopy (Some p) h = Some (Some q, h1)" and "abs_names h names = Some new"
  shows "\<exists>h2 h3. h_set_names q names h1 = Some h2 \<and> h_set_conditions spare q ws h2 = Some h3 \<and>
    grd_at h3 q = Some (fold (\<lambda>(now, c) g. SetGRDCondition now g c) ws (set_accepted new g)) \<and>
    (\<forall>p' g'. grd_at h p' = Some g' \<longrightarrow> grd_at h3 p' = Some g')"
proof -
  have c: "copy_ptr CGRD the_grd GRD_DeepCopyInto p h = Some (q, h1)"
    using assms(2) by (auto simp: GRD_DeepCopy_def bind_eq_Some_conv)
  have l: "agrees 0 h h1" "lives_in (length h) h1 grd_at q g"
    using grd.ptr.copies [OF assms(1)] c by auto
  have a: "insert q (cond_array h1 q) \<subseteq> {length h..}" using l(2) by (rule lives_in_cond_array)
  have "abs_names h1 names = Some new" using names.mono [OF assms(3) l(1)] .
  from set_names_in_memory [OF lives_in_here [OF l(2)] this] obtain h2 where h2: "h_set_names q names h1 = Some h2"
    "grd_at h2 q = Some (set_accepted new g)" "same_outside {q} h1 h2" "cond_array h2 q = cond_array h1 q"
    "length h2 = length h1" by blast
  from set_conditions_in_memory [OF h2(2), of "length h" spare ws] a agrees_length [OF l(1)] h2(4,5)
  obtain h3 where h3: "h_set_conditions spare q ws h2 = Some h3"
    "grd_at h3 q = Some (fold (\<lambda>(now, c) g. SetGRDCondition now g c) ws (set_accepted new g))"
    "same_outside {length h..} h2 h3" by auto
  have "agrees 0 h h3"
  proof (rule agreesI)
    fix b cell assume r: "read_cell h b = Some cell"
    then have "read_cell h1 b = Some cell" using l(1) by (blast intro: agreesD)
    moreover have "b < length h" using r by (rule read_cell_lt)
    moreover from this a have "b \<noteq> q" by auto
    ultimately have "read_cell h2 b = Some cell" using h2(3) by (simp add: same_outside_def)
    with h3(3) \<open>b < length h\<close> show "read_cell h3 b = Some cell" by (simp add: same_outside_def)
  qed
  then have "\<forall>p' g'. grd_at h p' = Some g' \<longrightarrow> grd_at h3 p' = Some g'" using grd.ptr.mono by blast
  with h2(1) h3(1,2) show ?thesis by blast
qed

lemma abs_spec_names: "abs_spec h x = Some s \<Longrightarrow> abs_names h (hpNames x) = Some (sNames s)"
  by (auto simp: abs_spec_def bind_eq_Some_conv)

lemma naming_in_memory:
  assumes "same_cache h cache (ne_lister env)"
  shows "\<exists>h'. h_naming_sync spare cache env key h = Some (naming_sync env key, h') \<and>
    same_cache h' cache (ne_lister env)"
proof (cases "cache key")
  case (Inl err)
  with same_cacheD(1) [OF assms Inl] assms show ?thesis by (simp add: h_naming_sync_def naming_sync_def)
next
  case (Inr p)
  then obtain g where g: "grd_at h p = Some g" "lister_get (ne_lister env) key = Inr g"
    using same_cacheD(2) [OF assms Inr] by blast
  obtain gg where gg: "deref CGRD the_grd h p = Some gg" "abs_names h (hpNames (hgSpec gg)) = Some (sNames (gSpec g))"
    "abs_names h (htAcceptedNames (hgStatus gg)) = Some (accepted g)"
    using g(1) by (elim grd_atD) (blast intro: abs_spec_names)
  show ?thesis
  proof (cases "getAcceptedNamesForGroup env (sGroup (gSpec g))")
    case (Ret used)
    obtain R K where RK: "used = (R, K)" by (cases used)
    obtain new nc where d: "decide_names (ne_aggregate env) (sNames (gSpec g)) (accepted g) R K = (new, nc)"
      by (cases "decide_names (ne_aggregate env) (sNames (gSpec g)) (accepted g) R K")
    let ?names = "h_decide_names (ne_aggregate env) (hpNames (hgSpec gg)) (htAcceptedNames (hgStatus gg))
      (sNames (gSpec g)) (accepted g) R K"
    let ?ec = "decide_established (FindGRDCondition g Established) nc"
    have n: "abs_names h ?names = Some new" using abs_decided_names [OF gg(2,3)] d by simp
    obtain q h1 where c: "GRD_DeepCopy (Some p) h = Some (Some q, h1)" using deep_copy_runs [OF g(1)] by blast
    from copy_names_and_conditions [OF g(1) c n, of spare "[(ne_clock env 0, nc), (ne_clock env 1, ?ec)]"]
    obtain h2 h3 where h: "h_set_names q ?names h1 = Some h2"
      "h_set_conditions spare q [(ne_clock env 0, nc), (ne_clock env 1, ?ec)] h2 = Some h3"
      "grd_at h3 q = Some (SetGRDCondition (ne_clock env 1) (SetGRDCondition (ne_clock env 0) (set_accepted new g) nc) ?ec)"
      "\<And>p' g'. grd_at h p' = Some g' \<Longrightarrow> grd_at h3 p' = Some g'" by auto
    have "same_cache h3 cache (ne_lister env)" using assms h(4) by (rule same_cache_mono)
    with Inr g gg(1) Ret RK d c h(1-3) assms show ?thesis
      by (simp add: h_naming_sync_def naming_sync_def calculateNamesAndConditions_def Let_def del: h_set_conditions.simps split: sum.split)
  qed (use Inr g gg(1) assms in \<open>simp_all add: h_naming_sync_def naming_sync_def calculateNamesAndConditions_def\<close>)
qed

text \<open>
  C40. The syncs of the naming, establishing, approval and finalizer controllers, run on pointers
  into the cache that they share, send the updates and have the outcomes of their models on values,
  and the cache shows the same definitions before and after each of them.
\<close>

theorem syncs_spare_the_cache:
  assumes "same_cache h cache lister"
  shows "(ne_lister nenv = lister \<longrightarrow> (\<exists>h'. h_naming_sync spare cache nenv key h = Some (naming_sync nenv key, h') \<and>
      same_cache h' cache lister)) \<and>
    (ee_lister eenv = lister \<longrightarrow> (\<exists>h'. h_establish_sync spare cache (ee_update eenv) (ee_clock eenv) key h =
      Some (establish_sync eenv key, h') \<and> same_cache h' cache lister)) \<and>
    (ae_lister aenv = lister \<longrightarrow> (\<exists>h'. h_approval_sync spare cache aenv seen key h = Some (approval_sync aenv seen key, h') \<and>
      same_cache h' cache lister)) \<and>
    (fe_lister fenv = lister \<longrightarrow> (\<exists>h'. h_finalizer_sync spare cache fenv key w h = Some (finalizer_sync fenv key w, h') \<and>
      same_cache h' cache lister))"
  using naming_in_memory [of h cache nenv spare key] establish_in_memory [of h cache eenv spare key]
    approval_in_memory [of h cache aenv spare seen key] finalizer_in_memory [of h cache fenv spare key w] assms
  by (intro conjI impI) simp_all

text \<open>The copy that the naming controller sends has the categories of the cached definition, not a copy of them.\<close>

lemma naming_copy_shares_categories:
  "hnCategories (h_decide_names aggregate requestedNames acceptedNames requested acc R K) = hnCategories requestedNames"
  by (simp add: h_decide_names_def Let_def)

definition sample_naming_env :: naming_env where
  "sample_naming_env = \<lparr>ne_lister = ee_lister sample_establish_env, ne_mutation = (\<lambda>_. None), ne_update = Inr,
     ne_clock = (\<lambda>_. 5), ne_semantic_equal = (\<lambda>a b. False), ne_aggregate = concat\<rparr>"

theorem syncs_spare_the_cache_witness:
  "\<exists>h'. h_naming_sync (\<lambda>_. 0) sample_cache sample_naming_env ''widgets.g.io'' sample_heap =
      Some (naming_sync sample_naming_env ''widgets.g.io'', h') \<and> same_cache h' sample_cache (ne_lister sample_naming_env)"
proof -
  obtain g where g: "grd_at sample_heap 5 = Some g" using sample_heap_reads by blast
  then have "same_cache sample_heap sample_cache (ee_lister sample_establish_env)"
    by (simp add: same_cache_def sample_cache_def sample_establish_env_def)
  moreover have "ne_lister sample_naming_env = ee_lister sample_establish_env" by (simp add: sample_naming_env_def)
  ultimately show ?thesis using syncs_spare_the_cache [THEN conjunct1] by metis
qed

end
