(* ===== verification/Json.thy ===== *)
theory Json
  imports Kinds "HOL-Library.Monad_Syntax"
begin

text \<open>
  Definitions as JSON documents: what \<open>encoding/json\<close> makes of the structs of
  \<open>apis/kinds/v1/types.go\<close> by their field tags, and back. This is the form in which a definition is
  stored in a file and sent to clients.

  A name with \<open>omitempty\<close> is left out for false, the empty string, a nil pointer and a slice without
  elements; a nil slice without \<open>omitempty\<close> is \<open>null\<close>. On the way back, a missing name and \<open>null\<close> leave
  the zero value, unknown names are skipped, and a value of another type is an error; the names of a
  document are taken to be distinct. The model of a definition does not tell a nil slice from an
  empty one for versions, conditions and stored versions, so \<open>nils\<close> says which are nil. The JSON of
  \<open>metav1.ObjectMeta\<close> and of a time that is not zero are those of \<open>apimachinery\<close>: parameters.
\<close>

section \<open>Documents\<close>

datatype json = JNull | JBool bool | JNum int | JString string | JArray "json list" | JObject "(string \<times> json) list"

type_synonym fields = "(string \<times> json) list"

definition omit_string :: "string \<Rightarrow> string \<Rightarrow> fields" where
  "omit_string k s = (if s = [] then [] else [(k, JString s)])"

definition omit_false :: "string \<Rightarrow> bool \<Rightarrow> fields" where
  "omit_false k b = (if b then [(k, JBool True)] else [])"

definition omit_nil :: "string \<Rightarrow> ('a \<Rightarrow> json) \<Rightarrow> 'a option \<Rightarrow> fields" where
  "omit_nil k enc p = (case p of None \<Rightarrow> [] | Some x \<Rightarrow> [(k, enc x)])"

definition omit_empty :: "string \<Rightarrow> ('a \<Rightarrow> json) \<Rightarrow> 'a slice \<Rightarrow> fields" where
  "omit_empty k enc s = (if elems s = [] then [] else [(k, JArray (map enc (elems s)))])"

definition slice_json :: "('a \<Rightarrow> json) \<Rightarrow> 'a slice \<Rightarrow> json" where
  "slice_json enc s = (case s of None \<Rightarrow> JNull | Some xs \<Rightarrow> JArray (map enc xs))"

text \<open>A decoder gets the value of its name, if there is one; \<open>None\<close> is the error.\<close>

type_synonym 'a decoder = "json option \<Rightarrow> 'a option"

fun to_string :: "string decoder" where
  "to_string (Some (JString s)) = Some s"
| "to_string (Some JNull) = Some []"
| "to_string None = Some []"
| "to_string _ = None"

fun to_bool :: "bool decoder" where
  "to_bool (Some (JBool b)) = Some b"
| "to_bool (Some JNull) = Some False"
| "to_bool None = Some False"
| "to_bool _ = None"

fun to_pointer :: "'a decoder \<Rightarrow> 'a option decoder" where
  "to_pointer dec None = Some None"
| "to_pointer dec (Some JNull) = Some None"
| "to_pointer dec (Some j) = map_option Some (dec (Some j))"

fun to_slice :: "'a decoder \<Rightarrow> 'a slice decoder" where
  "to_slice dec None = Some None"
| "to_slice dec (Some JNull) = Some None"
| "to_slice dec (Some (JArray xs)) = map_option Some (those (map (\<lambda>x. dec (Some x)) xs))"
| "to_slice dec _ = None"

fun to_fields :: "fields decoder" where
  "to_fields (Some (JObject kvs)) = Some kvs"
| "to_fields (Some JNull) = Some []"
| "to_fields None = Some []"
| "to_fields _ = None"

definition to_empty_struct :: "unit decoder" where
  "to_empty_struct j = map_option (\<lambda>_. ()) (to_fields j)"

lemma those_map_Some_conv: "(\<And>x. x \<in> set xs \<Longrightarrow> f x = Some (g x)) \<Longrightarrow> those (map f xs) = Some (map g xs)"
  by (induction xs) auto

section \<open>Structs\<close>

definition marshal_Names :: "GrafanaResourceDefinitionNames \<Rightarrow> json" where
  "marshal_Names n = JObject
    ([(''plural'', JString (Plural n))] @ omit_string ''singular'' (Singular n) @
     omit_empty ''shortNames'' JString (ShortNames n) @ [(''kind'', JString (Kind n))] @
     omit_string ''listKind'' (ListKind n) @ omit_empty ''categories'' JString (Categories n))"

definition unmarshal_Names :: "GrafanaResourceDefinitionNames decoder" where
  "unmarshal_Names j = do {
     kvs \<leftarrow> to_fields j;
     plural \<leftarrow> to_string (map_of kvs ''plural'');
     singular \<leftarrow> to_string (map_of kvs ''singular'');
     shortNames \<leftarrow> to_slice to_string (map_of kvs ''shortNames'');
     kind \<leftarrow> to_string (map_of kvs ''kind'');
     listKind \<leftarrow> to_string (map_of kvs ''listKind'');
     categories \<leftarrow> to_slice to_string (map_of kvs ''categories'');
     Some \<lparr>Plural = plural, Singular = singular, ShortNames = shortNames, Kind = kind, ListKind = listKind,
       Categories = categories\<rparr>
   }"

definition marshal_Scale :: "GrafanaResourceSubresourceScale \<Rightarrow> json" where
  "marshal_Scale s = JObject
    ([(''specReplicasPath'', JString (SpecReplicasPath s)), (''statusReplicasPath'', JString (StatusReplicasPath s))] @
     omit_nil ''labelSelectorPath'' JString (LabelSelectorPath s))"

definition unmarshal_Scale :: "GrafanaResourceSubresourceScale decoder" where
  "unmarshal_Scale j = do {
     kvs \<leftarrow> to_fields j;
     spec \<leftarrow> to_string (map_of kvs ''specReplicasPath'');
     status \<leftarrow> to_string (map_of kvs ''statusReplicasPath'');
     label \<leftarrow> to_pointer to_string (map_of kvs ''labelSelectorPath'');
     Some \<lparr>SpecReplicasPath = spec, StatusReplicasPath = status, LabelSelectorPath = label\<rparr>
   }"

definition marshal_Subresources :: "GrafanaResourceSubresources \<Rightarrow> json" where
  "marshal_Subresources s = JObject
    (omit_nil ''status'' (\<lambda>_. JObject []) (subStatus s) @ omit_nil ''scale'' marshal_Scale (subScale s) @
     omit_nil ''history'' (\<lambda>_. JObject []) (subHistory s) @ omit_nil ''ref'' (\<lambda>_. JObject []) (subRef s))"

definition unmarshal_Subresources :: "GrafanaResourceSubresources decoder" where
  "unmarshal_Subresources j = do {
     kvs \<leftarrow> to_fields j;
     status \<leftarrow> to_pointer to_empty_struct (map_of kvs ''status'');
     scale \<leftarrow> to_pointer unmarshal_Scale (map_of kvs ''scale'');
     history \<leftarrow> to_pointer to_empty_struct (map_of kvs ''history'');
     ref \<leftarrow> to_pointer to_empty_struct (map_of kvs ''ref'');
     Some \<lparr>subStatus = status, subScale = scale, subHistory = history, subRef = ref\<rparr>
   }"

definition marshal_Version :: "GrafanaResourceDefinitionVersion \<Rightarrow> json" where
  "marshal_Version v = JObject
    ([(''name'', JString (vName v)), (''served'', JBool (vServed v)), (''storage'', JBool (vStorage v))] @
     omit_false ''deprecated'' (vDeprecated v) @ omit_nil ''deprecationWarning'' JString (vDeprecationWarning v) @
     omit_nil ''subresources'' marshal_Subresources (vSubresources v))"

definition unmarshal_Version :: "GrafanaResourceDefinitionVersion decoder" where
  "unmarshal_Version j = do {
     kvs \<leftarrow> to_fields j;
     name \<leftarrow> to_string (map_of kvs ''name'');
     served \<leftarrow> to_bool (map_of kvs ''served'');
     storage \<leftarrow> to_bool (map_of kvs ''storage'');
     deprecated \<leftarrow> to_bool (map_of kvs ''deprecated'');
     warning \<leftarrow> to_pointer to_string (map_of kvs ''deprecationWarning'');
     subs \<leftarrow> to_pointer unmarshal_Subresources (map_of kvs ''subresources'');
     Some \<lparr>vName = name, vServed = served, vStorage = storage, vDeprecated = deprecated, vDeprecationWarning = warning,
       vSubresources = subs\<rparr>
   }"

text \<open>Which of the slices of a definition are nil, and what the JSON of apimachinery is.\<close>

record nils =
  nilVersions :: bool
  nilConditions :: bool
  nilStored :: bool

definition slice_of :: "bool \<Rightarrow> 'a list \<Rightarrow> 'a slice" where
  "slice_of is_nil xs = (if is_nil \<and> xs = [] then None else Some xs)"

record json_env =
  jeTime :: "time \<Rightarrow> string"
  jeParseTime :: "string \<Rightarrow> time option"
  jeMeta :: "ObjectMeta \<Rightarrow> json"
  jeParseMeta :: "json \<Rightarrow> ObjectMeta option"

text \<open>The zero time is \<open>null\<close>, also where \<open>omitempty\<close> is set: a struct is never empty.\<close>

definition time_json :: "json_env \<Rightarrow> time \<Rightarrow> json" where
  "time_json env t = (if IsZero t then JNull else JString (jeTime env t))"

fun to_time :: "json_env \<Rightarrow> time decoder" where
  "to_time env None = Some 0"
| "to_time env (Some JNull) = Some 0"
| "to_time env (Some (JString s)) = jeParseTime env s"
| "to_time env _ = None"

definition marshal_Spec :: "nils \<Rightarrow> GrafanaResourceDefinitionSpec \<Rightarrow> json" where
  "marshal_Spec ns s = JObject
    ([(''group'', JString (sGroup s)), (''names'', marshal_Names (sNames s)), (''scope'', JString (sScope s)),
      (''versions'', slice_json marshal_Version (slice_of (nilVersions ns) (sVersions s)))] @
     omit_false ''preserveUnknownFields'' (sPreserveUnknownFields s))"

definition unmarshal_Spec :: "(GrafanaResourceDefinitionSpec \<times> bool) decoder" where
  "unmarshal_Spec j = do {
     kvs \<leftarrow> to_fields j;
     group \<leftarrow> to_string (map_of kvs ''group'');
     names \<leftarrow> unmarshal_Names (map_of kvs ''names'');
     scope \<leftarrow> to_string (map_of kvs ''scope'');
     versions \<leftarrow> to_slice unmarshal_Version (map_of kvs ''versions'');
     preserve \<leftarrow> to_bool (map_of kvs ''preserveUnknownFields'');
     Some (\<lparr>sGroup = group, sNames = names, sScope = scope, sVersions = elems versions,
       sPreserveUnknownFields = preserve\<rparr>, versions = None)
   }"

definition marshal_Condition :: "json_env \<Rightarrow> GrafanaResourceDefinitionCondition \<Rightarrow> json" where
  "marshal_Condition env c = JObject
    ([(''type'', JString (cType c)), (''status'', JString (cStatus c)),
      (''lastTransitionTime'', time_json env (cLastTransitionTime c))] @
     omit_string ''reason'' (cReason c) @ omit_string ''message'' (cMessage c))"

definition unmarshal_Condition :: "json_env \<Rightarrow> GrafanaResourceDefinitionCondition decoder" where
  "unmarshal_Condition env j = do {
     kvs \<leftarrow> to_fields j;
     t \<leftarrow> to_string (map_of kvs ''type'');
     status \<leftarrow> to_string (map_of kvs ''status'');
     time \<leftarrow> to_time env (map_of kvs ''lastTransitionTime'');
     reason \<leftarrow> to_string (map_of kvs ''reason'');
     message \<leftarrow> to_string (map_of kvs ''message'');
     Some \<lparr>cType = t, cStatus = status, cLastTransitionTime = time, cReason = reason, cMessage = message\<rparr>
   }"

definition marshal_Status :: "json_env \<Rightarrow> nils \<Rightarrow> GrafanaResourceDefinitionStatus \<Rightarrow> json" where
  "marshal_Status env ns s = JObject
    [(''conditions'', slice_json (marshal_Condition env) (slice_of (nilConditions ns) (stConditions s))),
     (''acceptedNames'', marshal_Names (stAcceptedNames s)),
     (''storedVersions'', slice_json JString (slice_of (nilStored ns) (stStoredVersions s)))]"

definition unmarshal_Status :: "json_env \<Rightarrow> (GrafanaResourceDefinitionStatus \<times> bool \<times> bool) decoder" where
  "unmarshal_Status env j = do {
     kvs \<leftarrow> to_fields j;
     conditions \<leftarrow> to_slice (unmarshal_Condition env) (map_of kvs ''conditions'');
     names \<leftarrow> unmarshal_Names (map_of kvs ''acceptedNames'');
     stored \<leftarrow> to_slice to_string (map_of kvs ''storedVersions'');
     Some (\<lparr>stConditions = elems conditions, stAcceptedNames = names, stStoredVersions = elems stored\<rparr>,
       conditions = None, stored = None)
   }"

record TypeMeta =
  tmKind :: string
  tmAPIVersion :: string

definition marshal_GRD :: "json_env \<Rightarrow> TypeMeta \<Rightarrow> nils \<Rightarrow> GRD \<Rightarrow> json" where
  "marshal_GRD env tm ns g = JObject
    (omit_string ''kind'' (tmKind tm) @ omit_string ''apiVersion'' (tmAPIVersion tm) @
     [(''metadata'', jeMeta env (gMeta g)), (''spec'', marshal_Spec ns (gSpec g)),
      (''status'', marshal_Status env ns (gStatus g))])"

definition to_meta :: "json_env \<Rightarrow> ObjectMeta \<Rightarrow> ObjectMeta decoder" where
  "to_meta env zero j = (case j of None \<Rightarrow> Some zero | Some JNull \<Rightarrow> Some zero | Some m \<Rightarrow> jeParseMeta env m)"

definition unmarshal_GRD :: "json_env \<Rightarrow> ObjectMeta \<Rightarrow> (TypeMeta \<times> nils \<times> GRD) decoder" where
  "unmarshal_GRD env zero j = do {
     kvs \<leftarrow> to_fields j;
     kind \<leftarrow> to_string (map_of kvs ''kind'');
     version \<leftarrow> to_string (map_of kvs ''apiVersion'');
     meta \<leftarrow> to_meta env zero (map_of kvs ''metadata'');
     (spec, nv) \<leftarrow> unmarshal_Spec (map_of kvs ''spec'');
     (status, nc, nst) \<leftarrow> unmarshal_Status env (map_of kvs ''status'');
     Some (\<lparr>tmKind = kind, tmAPIVersion = version\<rparr>, \<lparr>nilVersions = nv, nilConditions = nc, nilStored = nst\<rparr>,
       \<lparr>gMeta = meta, gSpec = spec, gStatus = status\<rparr>)
   }"

section \<open>Round trip\<close>

text \<open>What becomes of a definition on its way through JSON: empty slices that \<open>omitempty\<close> leaves out come back as nil.\<close>

definition stored_slice :: "'a slice \<Rightarrow> 'a slice" where
  "stored_slice s = (if elems s = [] then None else s)"

definition stored_names :: "GrafanaResourceDefinitionNames \<Rightarrow> GrafanaResourceDefinitionNames" where
  "stored_names n = n\<lparr>ShortNames := stored_slice (ShortNames n), Categories := stored_slice (Categories n)\<rparr>"

definition stored_form :: "GRD \<Rightarrow> GRD" where
  "stored_form g = g\<lparr>gSpec := (gSpec g)\<lparr>sNames := stored_names (sNames (gSpec g))\<rparr>,
     gStatus := (gStatus g)\<lparr>stAcceptedNames := stored_names (stAcceptedNames (gStatus g))\<rparr>\<rparr>"

definition stored_nils :: "nils \<Rightarrow> GRD \<Rightarrow> nils" where
  "stored_nils ns g = \<lparr>nilVersions = (nilVersions ns \<and> sVersions (gSpec g) = []),
     nilConditions = (nilConditions ns \<and> conditions g = []), nilStored = (nilStored ns \<and> stStoredVersions (gStatus g) = [])\<rparr>"

lemma map_of_omit [simp]:
  "map_of (omit_string k s) k' = (if k' = k \<and> s \<noteq> [] then Some (JString s) else None)"
  "map_of (omit_false k b) k' = (if k' = k \<and> b then Some (JBool True) else None)"
  "map_of (omit_nil k enc x) k' = (if k' = k then map_option enc x else None)"
  "map_of (omit_empty k e y) k' = (if k' = k \<and> elems y \<noteq> [] then Some (JArray (map e (elems y))) else None)"
  by (auto simp: omit_string_def omit_false_def omit_nil_def omit_empty_def split: option.split)

lemma map_add_omit [simp]:
  "(m ++ map_of (omit_string k s)) k' = (if k' = k \<and> s \<noteq> [] then Some (JString s) else m k')"
  "(m ++ map_of (omit_false k b)) k' = (if k' = k \<and> b then Some (JBool True) else m k')"
  "(m ++ map_of (omit_nil k enc x)) k' = (if k' = k \<and> x \<noteq> None then map_option enc x else m k')"
  "(m ++ map_of (omit_empty k e y)) k' = (if k' = k \<and> elems y \<noteq> [] then Some (JArray (map e (elems y))) else m k')"
  by (auto simp: map_add_def split: option.split)

lemma to_string_omitted [simp]: "to_string (if s \<noteq> [] then Some (JString s) else None) = Some s"
  by simp

lemma to_bool_omitted [simp]: "to_bool (if b then Some (JBool True) else None) = Some b"
  by simp

lemma to_pointer_inner: "dec (Some j) = Some x \<Longrightarrow> j \<noteq> JNull \<Longrightarrow> to_pointer dec (Some j) = Some (Some x)"
  by (cases j) simp_all

lemma to_pointer_omitted:
  assumes "\<And>y. dec (Some (enc y)) = Some y" and "\<And>y. enc y \<noteq> JNull"
  shows "to_pointer dec (map_option enc x) = Some x" and
    "to_pointer dec (if x \<noteq> None then map_option enc x else None) = Some x"
  using assms by (cases x; simp add: to_pointer_inner)+

lemma those_strings [simp]: "those (map ((\<lambda>x. to_string (Some x)) \<circ> JString) xs) = Some xs"
  by (induction xs) auto

lemma stored_slice_eq: "stored_slice s = (if elems s = [] then None else Some (elems s))"
  by (cases s) (simp_all add: stored_slice_def elems_def)

lemma not_Some_unit [simp]: "x \<noteq> Some () \<longleftrightarrow> x = None"
  by (cases x) simp_all

lemma to_slice_kept:
  assumes "\<And>x. x \<in> set xs \<Longrightarrow> dec (Some (enc x)) = Some (f x)"
  shows "to_slice dec (Some (slice_json enc (slice_of is_nil xs))) =
    Some (if is_nil \<and> xs = [] then None else Some (map f xs))"
  using assms by (auto simp: slice_json_def slice_of_def those_map_Some_conv [where g = f] comp_def
      those_map_Some_conv [of xs "\<lambda>x. dec (Some (enc x))" f])

lemma names_roundtrip: "unmarshal_Names (Some (marshal_Names n)) = Some (stored_names n)"
  by (cases n) (auto simp: unmarshal_Names_def marshal_Names_def stored_names_def stored_slice_eq)

lemma scale_roundtrip: "unmarshal_Scale (Some (marshal_Scale s)) = Some s"
  by (simp add: unmarshal_Scale_def marshal_Scale_def to_pointer_omitted)

lemma marshal_not_null [simp]:
  "marshal_Names n \<noteq> JNull" "marshal_Scale s \<noteq> JNull" "marshal_Subresources u \<noteq> JNull" "marshal_Version v \<noteq> JNull"
  by (simp_all add: marshal_Names_def marshal_Scale_def marshal_Subresources_def marshal_Version_def)

lemma empty_struct_roundtrip: "to_empty_struct (Some (JObject [])) = Some ()"
  by (simp add: to_empty_struct_def)

lemma subresources_roundtrip: "unmarshal_Subresources (Some (marshal_Subresources s)) = Some s"
  by (cases s) (auto simp: unmarshal_Subresources_def marshal_Subresources_def to_pointer_omitted empty_struct_roundtrip
      scale_roundtrip)

lemma version_roundtrip: "unmarshal_Version (Some (marshal_Version v)) = Some v"
  by (cases v) (auto simp: unmarshal_Version_def marshal_Version_def to_pointer_omitted subresources_roundtrip)

lemma spec_roundtrip:
  "unmarshal_Spec (Some (marshal_Spec ns s)) =
    Some (s\<lparr>sNames := stored_names (sNames s)\<rparr>, nilVersions ns \<and> sVersions s = [])"
proof -
  have "to_slice unmarshal_Version (Some (slice_json marshal_Version (slice_of (nilVersions ns) (sVersions s)))) =
      Some (if nilVersions ns \<and> sVersions s = [] then None else Some (sVersions s))"
    using to_slice_kept [of _ unmarshal_Version marshal_Version "\<lambda>v. v"] by (simp add: version_roundtrip)
  then show ?thesis
    by (cases s) (auto simp: unmarshal_Spec_def marshal_Spec_def names_roundtrip elems_def)
qed

text \<open>The times that a definition holds are those that \<open>apimachinery\<close> prints and reads back.\<close>

definition times_ok :: "json_env \<Rightarrow> GRD \<Rightarrow> bool" where
  "times_ok env g \<longleftrightarrow> (\<forall>c \<in> set (conditions g). IsZero (cLastTransitionTime c) \<or>
     jeParseTime env (jeTime env (cLastTransitionTime c)) = Some (cLastTransitionTime c))"

lemma condition_roundtrip:
  assumes "IsZero (cLastTransitionTime c) \<or> jeParseTime env (jeTime env (cLastTransitionTime c)) = Some (cLastTransitionTime c)"
  shows "unmarshal_Condition env (Some (marshal_Condition env c)) = Some c"
  using assms by (cases c) (auto simp: unmarshal_Condition_def marshal_Condition_def time_json_def IsZero_def)

lemma status_roundtrip:
  assumes "\<And>c. c \<in> set (stConditions s) \<Longrightarrow> unmarshal_Condition env (Some (marshal_Condition env c)) = Some c"
  shows "unmarshal_Status env (Some (marshal_Status env ns s)) =
    Some (s\<lparr>stAcceptedNames := stored_names (stAcceptedNames s)\<rparr>, nilConditions ns \<and> stConditions s = [],
      nilStored ns \<and> stStoredVersions s = [])"
  using to_slice_kept [of "stConditions s" "unmarshal_Condition env" "marshal_Condition env" "\<lambda>c. c" "nilConditions ns"]
    to_slice_kept [of "stStoredVersions s" to_string JString "\<lambda>c. c" "nilStored ns"]
  by (cases s) (auto simp: unmarshal_Status_def marshal_Status_def names_roundtrip elems_def assms)


lemma stored_form_idem [simp]: "stored_form (stored_form g) = stored_form g"
  by (simp add: stored_form_def stored_names_def stored_slice_def elems_def)

text \<open>Exactly the definitions without empty slices in their names come back unchanged.\<close>

lemma stored_form_id:
  "stored_form g = g \<longleftrightarrow> (\<forall>n \<in> {sNames (gSpec g), accepted g}. ShortNames n \<noteq> Some [] \<and> Categories n \<noteq> Some [])"
proof -
  have "stored_names n = n \<longleftrightarrow> ShortNames n \<noteq> Some [] \<and> Categories n \<noteq> Some []" for n :: GrafanaResourceDefinitionNames
    by (cases n) (auto simp: stored_names_def stored_slice_def elems_def split: option.splits)
  moreover have "stored_form g = g \<longleftrightarrow> stored_names (sNames (gSpec g)) = sNames (gSpec g) \<and> stored_names (accepted g) = accepted g"
    by (cases g; cases "gSpec g"; cases "gStatus g") (auto simp: stored_form_def)
  ultimately show ?thesis by auto
qed

end
