(* ===== verification/OpenAPI.thy ===== *)
theory OpenAPI
  imports Prelude
begin

text \<open>
  The OpenAPI documents of the server, \<open>client/openapi/zz_generated.openapi.go\<close>: one function per
  type, for the definitions of this API and for the types of Kubernetes it refers to. Descriptions
  are left out. A name is its package and the type; a reference is the name that the code gives to
  the callback \<open>ref\<close>. Types and formats that the code asks of \<open>apimachinery\<close> (of \<open>Time\<close>, \<open>MicroTime\<close> and
  \<open>Duration\<close>) are the parameter \<open>openapi_env\<close>.
\<close>

section \<open>Schemas\<close>

datatype def_name = Kinds_v1 string | Meta_v1 string | Runtime string | Version_pkg string

fun def_name_string :: "def_name \<Rightarrow> string" where
  "def_name_string (Kinds_v1 n) = ''github.com/grafana/grafana-apiserver/pkg/apis/kinds/v1.'' @ n"
| "def_name_string (Meta_v1 n) = ''k8s.io/apimachinery/pkg/apis/meta/v1.'' @ n"
| "def_name_string (Runtime n) = ''k8s.io/apimachinery/pkg/runtime.'' @ n"
| "def_name_string (Version_pkg n) = ''k8s.io/apimachinery/pkg/version.'' @ n"

datatype default_value = DString string | DBool bool | DInt int | DObject

datatype extension = ExtString string | ExtList "string list"

datatype schema = Schema
  (schType: "string list") (schFormat: string) (schDefault: "default_value option")
  (schProperties: "(string \<times> schema) list") (schRequired: "string list") (schItems: "schema option")
  (schAdditional: "schema option") (schRef: "def_name option") (schExtensions: "(string \<times> extension) list")

record openapi_definition =
  odSchema :: schema
  odDependencies :: "def_name list"

record openapi_env =
  oeType :: "string \<Rightarrow> string list"
  oeFormat :: "string \<Rightarrow> string"

text \<open>The composite literals that occur; what they do not set is empty.\<close>

definition of_type :: "string list \<Rightarrow> string \<Rightarrow> default_value option \<Rightarrow> schema" where
  "of_type t fmt d = Schema t fmt d [] [] None None None []"

definition ref_to :: "default_value option \<Rightarrow> def_name \<Rightarrow> schema" where
  "ref_to d r = Schema [] [] d [] [] None None (Some r) []"

definition array_of :: "schema \<Rightarrow> schema" where
  "array_of s = Schema [''array''] [] None [] [] (Some s) None None []"

definition map_of_values :: "schema \<Rightarrow> schema" where
  "map_of_values s = Schema [''object''] [] None [] [] None (Some s) None []"

definition object_of :: "(string \<times> schema) list \<Rightarrow> string list \<Rightarrow> schema" where
  "object_of props required = Schema [''object''] [] None props required None None None []"

definition with_extensions :: "(string \<times> extension) list \<Rightarrow> schema \<Rightarrow> schema" where
  "with_extensions ext s =
    Schema (schType s) (schFormat s) (schDefault s) (schProperties s) (schRequired s) (schItems s) (schAdditional s)
      (schRef s) ext"

section \<open>The types of this API\<close>

definition schema_pkg_apis_kinds_v1_GrafanaResourceDefinition :: "openapi_definition" where
  "schema_pkg_apis_kinds_v1_GrafanaResourceDefinition = \<lparr>odSchema =
    object_of
      [(''kind'', of_type [''string''] [] None),
       (''apiVersion'', of_type [''string''] [] None),
       (''metadata'', ref_to (Some DObject) (Meta_v1 ''ObjectMeta'')),
       (''spec'', ref_to (Some DObject) (Kinds_v1 ''GrafanaResourceDefinitionSpec'')),
       (''status'', ref_to (Some DObject) (Kinds_v1 ''GrafanaResourceDefinitionStatus''))]
      [''spec''],
    odDependencies = [Kinds_v1 ''GrafanaResourceDefinitionSpec'', Kinds_v1 ''GrafanaResourceDefinitionStatus'', Meta_v1 ''ObjectMeta'']\<rparr>"

definition schema_pkg_apis_kinds_v1_GrafanaResourceDefinitionCondition :: "openapi_definition" where
  "schema_pkg_apis_kinds_v1_GrafanaResourceDefinitionCondition = \<lparr>odSchema =
    object_of
      [(''type'', of_type [''string''] [] (Some (DString ''''))),
       (''status'', of_type [''string''] [] (Some (DString ''''))),
       (''lastTransitionTime'', ref_to (Some DObject) (Meta_v1 ''Time'')),
       (''reason'', of_type [''string''] [] None),
       (''message'', of_type [''string''] [] None)]
      [''type'', ''status''],
    odDependencies = [Meta_v1 ''Time'']\<rparr>"

definition schema_pkg_apis_kinds_v1_GrafanaResourceDefinitionList :: "openapi_definition" where
  "schema_pkg_apis_kinds_v1_GrafanaResourceDefinitionList = \<lparr>odSchema =
    object_of
      [(''kind'', of_type [''string''] [] None),
       (''apiVersion'', of_type [''string''] [] None),
       (''metadata'', ref_to (Some DObject) (Meta_v1 ''ListMeta'')),
       (''items'', array_of (ref_to (Some DObject) (Kinds_v1 ''GrafanaResourceDefinition'')))]
      [''items''],
    odDependencies = [Kinds_v1 ''GrafanaResourceDefinition'', Meta_v1 ''ListMeta'']\<rparr>"

definition schema_pkg_apis_kinds_v1_GrafanaResourceDefinitionNames :: "openapi_definition" where
  "schema_pkg_apis_kinds_v1_GrafanaResourceDefinitionNames = \<lparr>odSchema =
    object_of
      [(''plural'', of_type [''string''] [] (Some (DString ''''))),
       (''singular'', of_type [''string''] [] None),
       (''shortNames'', array_of (of_type [''string''] [] (Some (DString '''')))),
       (''kind'', of_type [''string''] [] (Some (DString ''''))),
       (''listKind'', of_type [''string''] [] None),
       (''categories'', array_of (of_type [''string''] [] (Some (DString ''''))))]
      [''plural'', ''kind''],
    odDependencies = []\<rparr>"

definition schema_pkg_apis_kinds_v1_GrafanaResourceDefinitionSpec :: "openapi_definition" where
  "schema_pkg_apis_kinds_v1_GrafanaResourceDefinitionSpec = \<lparr>odSchema =
    object_of
      [(''group'', of_type [''string''] [] (Some (DString ''''))),
       (''names'', ref_to (Some DObject) (Kinds_v1 ''GrafanaResourceDefinitionNames'')),
       (''scope'', of_type [''string''] [] (Some (DString ''''))),
       (''versions'', array_of (ref_to (Some DObject) (Kinds_v1 ''GrafanaResourceDefinitionVersion''))),
       (''preserveUnknownFields'', of_type [''boolean''] [] None)]
      [''group'', ''names'', ''scope'', ''versions''],
    odDependencies = [Kinds_v1 ''GrafanaResourceDefinitionNames'', Kinds_v1 ''GrafanaResourceDefinitionVersion'']\<rparr>"

definition schema_pkg_apis_kinds_v1_GrafanaResourceDefinitionStatus :: "openapi_definition" where
  "schema_pkg_apis_kinds_v1_GrafanaResourceDefinitionStatus = \<lparr>odSchema =
    object_of
      [(''conditions'', with_extensions
         [(''x-kubernetes-list-map-keys'', ExtList [''type'']), (''x-kubernetes-list-type'', ExtString ''map'')]
         (array_of (ref_to (Some DObject) (Kinds_v1 ''GrafanaResourceDefinitionCondition'')))),
       (''acceptedNames'', ref_to (Some DObject) (Kinds_v1 ''GrafanaResourceDefinitionNames'')),
       (''storedVersions'', array_of (of_type [''string''] [] (Some (DString ''''))))]
      [],
    odDependencies = [Kinds_v1 ''GrafanaResourceDefinitionCondition'', Kinds_v1 ''GrafanaResourceDefinitionNames'']\<rparr>"

definition schema_pkg_apis_kinds_v1_GrafanaResourceDefinitionVersion :: "openapi_definition" where
  "schema_pkg_apis_kinds_v1_GrafanaResourceDefinitionVersion = \<lparr>odSchema =
    object_of
      [(''name'', of_type [''string''] [] (Some (DString ''''))),
       (''served'', of_type [''boolean''] [] (Some (DBool False))),
       (''storage'', of_type [''boolean''] [] (Some (DBool False))),
       (''deprecated'', of_type [''boolean''] [] None),
       (''deprecationWarning'', of_type [''string''] [] None),
       (''subresources'', ref_to None (Kinds_v1 ''GrafanaResourceSubresources''))]
      [''name'', ''served'', ''storage''],
    odDependencies = [Kinds_v1 ''GrafanaResourceSubresources'']\<rparr>"

definition schema_pkg_apis_kinds_v1_GrafanaResourceSubresourceHistory :: "openapi_definition" where
  "schema_pkg_apis_kinds_v1_GrafanaResourceSubresourceHistory = \<lparr>odSchema =
    of_type [''object''] [] None,
    odDependencies = []\<rparr>"

definition schema_pkg_apis_kinds_v1_GrafanaResourceSubresourceRef :: "openapi_definition" where
  "schema_pkg_apis_kinds_v1_GrafanaResourceSubresourceRef = \<lparr>odSchema =
    of_type [''object''] [] None,
    odDependencies = []\<rparr>"

definition schema_pkg_apis_kinds_v1_GrafanaResourceSubresourceScale :: "openapi_definition" where
  "schema_pkg_apis_kinds_v1_GrafanaResourceSubresourceScale = \<lparr>odSchema =
    object_of
      [(''specReplicasPath'', of_type [''string''] [] (Some (DString ''''))),
       (''statusReplicasPath'', of_type [''string''] [] (Some (DString ''''))),
       (''labelSelectorPath'', of_type [''string''] [] None)]
      [''specReplicasPath'', ''statusReplicasPath''],
    odDependencies = []\<rparr>"

definition schema_pkg_apis_kinds_v1_GrafanaResourceSubresourceStatus :: "openapi_definition" where
  "schema_pkg_apis_kinds_v1_GrafanaResourceSubresourceStatus = \<lparr>odSchema =
    of_type [''object''] [] None,
    odDependencies = []\<rparr>"

definition schema_pkg_apis_kinds_v1_GrafanaResourceSubresources :: "openapi_definition" where
  "schema_pkg_apis_kinds_v1_GrafanaResourceSubresources = \<lparr>odSchema =
    object_of
      [(''status'', ref_to None (Kinds_v1 ''GrafanaResourceSubresourceStatus'')),
       (''scale'', ref_to None (Kinds_v1 ''GrafanaResourceSubresourceScale'')),
       (''history'', ref_to None (Kinds_v1 ''GrafanaResourceSubresourceHistory'')),
       (''ref'', ref_to None (Kinds_v1 ''GrafanaResourceSubresourceRef''))]
      [],
    odDependencies = [Kinds_v1 ''GrafanaResourceSubresourceHistory'', Kinds_v1 ''GrafanaResourceSubresourceRef'', Kinds_v1 ''GrafanaResourceSubresourceScale'', Kinds_v1 ''GrafanaResourceSubresourceStatus'']\<rparr>"

section \<open>The types of Kubernetes\<close>

definition schema_pkg_apis_meta_v1_APIGroup :: "openapi_definition" where
  "schema_pkg_apis_meta_v1_APIGroup = \<lparr>odSchema =
    object_of
      [(''kind'', of_type [''string''] [] None),
       (''apiVersion'', of_type [''string''] [] None),
       (''name'', of_type [''string''] [] (Some (DString ''''))),
       (''versions'', array_of (ref_to (Some DObject) (Meta_v1 ''GroupVersionForDiscovery''))),
       (''preferredVersion'', ref_to (Some DObject) (Meta_v1 ''GroupVersionForDiscovery'')),
       (''serverAddressByClientCIDRs'', array_of (ref_to (Some DObject) (Meta_v1 ''ServerAddressByClientCIDR'')))]
      [''name'', ''versions''],
    odDependencies = [Meta_v1 ''GroupVersionForDiscovery'', Meta_v1 ''ServerAddressByClientCIDR'']\<rparr>"

definition schema_pkg_apis_meta_v1_APIGroupList :: "openapi_definition" where
  "schema_pkg_apis_meta_v1_APIGroupList = \<lparr>odSchema =
    object_of
      [(''kind'', of_type [''string''] [] None),
       (''apiVersion'', of_type [''string''] [] None),
       (''groups'', array_of (ref_to (Some DObject) (Meta_v1 ''APIGroup'')))]
      [''groups''],
    odDependencies = [Meta_v1 ''APIGroup'']\<rparr>"

definition schema_pkg_apis_meta_v1_APIResource :: "openapi_definition" where
  "schema_pkg_apis_meta_v1_APIResource = \<lparr>odSchema =
    object_of
      [(''name'', of_type [''string''] [] (Some (DString ''''))),
       (''singularName'', of_type [''string''] [] (Some (DString ''''))),
       (''namespaced'', of_type [''boolean''] [] (Some (DBool False))),
       (''group'', of_type [''string''] [] None),
       (''version'', of_type [''string''] [] None),
       (''kind'', of_type [''string''] [] (Some (DString ''''))),
       (''verbs'', array_of (of_type [''string''] [] (Some (DString '''')))),
       (''shortNames'', array_of (of_type [''string''] [] (Some (DString '''')))),
       (''categories'', array_of (of_type [''string''] [] (Some (DString '''')))),
       (''storageVersionHash'', of_type [''string''] [] None)]
      [''name'', ''singularName'', ''namespaced'', ''kind'', ''verbs''],
    odDependencies = []\<rparr>"

definition schema_pkg_apis_meta_v1_APIResourceList :: "openapi_definition" where
  "schema_pkg_apis_meta_v1_APIResourceList = \<lparr>odSchema =
    object_of
      [(''kind'', of_type [''string''] [] None),
       (''apiVersion'', of_type [''string''] [] None),
       (''groupVersion'', of_type [''string''] [] (Some (DString ''''))),
       (''resources'', array_of (ref_to (Some DObject) (Meta_v1 ''APIResource'')))]
      [''groupVersion'', ''resources''],
    odDependencies = [Meta_v1 ''APIResource'']\<rparr>"

definition schema_pkg_apis_meta_v1_APIVersions :: "openapi_definition" where
  "schema_pkg_apis_meta_v1_APIVersions = \<lparr>odSchema =
    object_of
      [(''kind'', of_type [''string''] [] None),
       (''apiVersion'', of_type [''string''] [] None),
       (''versions'', array_of (of_type [''string''] [] (Some (DString '''')))),
       (''serverAddressByClientCIDRs'', array_of (ref_to (Some DObject) (Meta_v1 ''ServerAddressByClientCIDR'')))]
      [''versions'', ''serverAddressByClientCIDRs''],
    odDependencies = [Meta_v1 ''ServerAddressByClientCIDR'']\<rparr>"

definition schema_pkg_apis_meta_v1_ApplyOptions :: "openapi_definition" where
  "schema_pkg_apis_meta_v1_ApplyOptions = \<lparr>odSchema =
    object_of
      [(''kind'', of_type [''string''] [] None),
       (''apiVersion'', of_type [''string''] [] None),
       (''dryRun'', array_of (of_type [''string''] [] (Some (DString '''')))),
       (''force'', of_type [''boolean''] [] (Some (DBool False))),
       (''fieldManager'', of_type [''string''] [] (Some (DString '''')))]
      [''force'', ''fieldManager''],
    odDependencies = []\<rparr>"

definition schema_pkg_apis_meta_v1_Condition :: "openapi_definition" where
  "schema_pkg_apis_meta_v1_Condition = \<lparr>odSchema =
    object_of
      [(''type'', of_type [''string''] [] (Some (DString ''''))),
       (''status'', of_type [''string''] [] (Some (DString ''''))),
       (''observedGeneration'', of_type [''integer''] ''int64'' None),
       (''lastTransitionTime'', ref_to (Some DObject) (Meta_v1 ''Time'')),
       (''reason'', of_type [''string''] [] (Some (DString ''''))),
       (''message'', of_type [''string''] [] (Some (DString '''')))]
      [''type'', ''status'', ''lastTransitionTime'', ''reason'', ''message''],
    odDependencies = [Meta_v1 ''Time'']\<rparr>"

definition schema_pkg_apis_meta_v1_CreateOptions :: "openapi_definition" where
  "schema_pkg_apis_meta_v1_CreateOptions = \<lparr>odSchema =
    object_of
      [(''kind'', of_type [''string''] [] None),
       (''apiVersion'', of_type [''string''] [] None),
       (''dryRun'', array_of (of_type [''string''] [] (Some (DString '''')))),
       (''fieldManager'', of_type [''string''] [] None),
       (''fieldValidation'', of_type [''string''] [] None)]
      [],
    odDependencies = []\<rparr>"

definition schema_pkg_apis_meta_v1_DeleteOptions :: "openapi_definition" where
  "schema_pkg_apis_meta_v1_DeleteOptions = \<lparr>odSchema =
    object_of
      [(''kind'', of_type [''string''] [] None),
       (''apiVersion'', of_type [''string''] [] None),
       (''gracePeriodSeconds'', of_type [''integer''] ''int64'' None),
       (''preconditions'', ref_to None (Meta_v1 ''Preconditions'')),
       (''orphanDependents'', of_type [''boolean''] [] None),
       (''propagationPolicy'', of_type [''string''] [] None),
       (''dryRun'', array_of (of_type [''string''] [] (Some (DString ''''))))]
      [],
    odDependencies = [Meta_v1 ''Preconditions'']\<rparr>"

definition schema_pkg_apis_meta_v1_Duration :: "openapi_env \<Rightarrow> openapi_definition" where
  "schema_pkg_apis_meta_v1_Duration env = \<lparr>odSchema =
    of_type (oeType env ''Duration'') (oeFormat env ''Duration'') None,
    odDependencies = []\<rparr>"

definition schema_pkg_apis_meta_v1_FieldsV1 :: "openapi_definition" where
  "schema_pkg_apis_meta_v1_FieldsV1 = \<lparr>odSchema =
    of_type [''object''] [] None,
    odDependencies = []\<rparr>"

definition schema_pkg_apis_meta_v1_GetOptions :: "openapi_definition" where
  "schema_pkg_apis_meta_v1_GetOptions = \<lparr>odSchema =
    object_of
      [(''kind'', of_type [''string''] [] None),
       (''apiVersion'', of_type [''string''] [] None),
       (''resourceVersion'', of_type [''string''] [] None)]
      [],
    odDependencies = []\<rparr>"

definition schema_pkg_apis_meta_v1_GroupKind :: "openapi_definition" where
  "schema_pkg_apis_meta_v1_GroupKind = \<lparr>odSchema =
    object_of
      [(''group'', of_type [''string''] [] (Some (DString ''''))),
       (''kind'', of_type [''string''] [] (Some (DString '''')))]
      [''group'', ''kind''],
    odDependencies = []\<rparr>"

definition schema_pkg_apis_meta_v1_GroupResource :: "openapi_definition" where
  "schema_pkg_apis_meta_v1_GroupResource = \<lparr>odSchema =
    object_of
      [(''group'', of_type [''string''] [] (Some (DString ''''))),
       (''resource'', of_type [''string''] [] (Some (DString '''')))]
      [''group'', ''resource''],
    odDependencies = []\<rparr>"

definition schema_pkg_apis_meta_v1_GroupVersion :: "openapi_definition" where
  "schema_pkg_apis_meta_v1_GroupVersion = \<lparr>odSchema =
    object_of
      [(''group'', of_type [''string''] [] (Some (DString ''''))),
       (''version'', of_type [''string''] [] (Some (DString '''')))]
      [''group'', ''version''],
    odDependencies = []\<rparr>"

definition schema_pkg_apis_meta_v1_GroupVersionForDiscovery :: "openapi_definition" where
  "schema_pkg_apis_meta_v1_GroupVersionForDiscovery = \<lparr>odSchema =
    object_of
      [(''groupVersion'', of_type [''string''] [] (Some (DString ''''))),
       (''version'', of_type [''string''] [] (Some (DString '''')))]
      [''groupVersion'', ''version''],
    odDependencies = []\<rparr>"

definition schema_pkg_apis_meta_v1_GroupVersionKind :: "openapi_definition" where
  "schema_pkg_apis_meta_v1_GroupVersionKind = \<lparr>odSchema =
    object_of
      [(''group'', of_type [''string''] [] (Some (DString ''''))),
       (''version'', of_type [''string''] [] (Some (DString ''''))),
       (''kind'', of_type [''string''] [] (Some (DString '''')))]
      [''group'', ''version'', ''kind''],
    odDependencies = []\<rparr>"

definition schema_pkg_apis_meta_v1_GroupVersionResource :: "openapi_definition" where
  "schema_pkg_apis_meta_v1_GroupVersionResource = \<lparr>odSchema =
    object_of
      [(''group'', of_type [''string''] [] (Some (DString ''''))),
       (''version'', of_type [''string''] [] (Some (DString ''''))),
       (''resource'', of_type [''string''] [] (Some (DString '''')))]
      [''group'', ''version'', ''resource''],
    odDependencies = []\<rparr>"

definition schema_pkg_apis_meta_v1_InternalEvent :: "openapi_definition" where
  "schema_pkg_apis_meta_v1_InternalEvent = \<lparr>odSchema =
    object_of
      [(''Type'', of_type [''string''] [] (Some (DString ''''))),
       (''Object'', ref_to None (Runtime ''Object''))]
      [''Type'', ''Object''],
    odDependencies = [Runtime ''Object'']\<rparr>"

definition schema_pkg_apis_meta_v1_LabelSelector :: "openapi_definition" where
  "schema_pkg_apis_meta_v1_LabelSelector = \<lparr>odSchema =
    with_extensions [(''x-kubernetes-map-type'', ExtString ''atomic'')] (object_of
      [(''matchLabels'', map_of_values (of_type [''string''] [] (Some (DString '''')))),
       (''matchExpressions'', array_of (ref_to (Some DObject) (Meta_v1 ''LabelSelectorRequirement'')))]
      []),
    odDependencies = [Meta_v1 ''LabelSelectorRequirement'']\<rparr>"

definition schema_pkg_apis_meta_v1_LabelSelectorRequirement :: "openapi_definition" where
  "schema_pkg_apis_meta_v1_LabelSelectorRequirement = \<lparr>odSchema =
    object_of
      [(''key'', with_extensions [(''x-kubernetes-patch-merge-key'', ExtString ''key''), (''x-kubernetes-patch-strategy'', ExtString ''merge'')] (of_type [''string''] [] (Some (DString '''')))),
       (''operator'', of_type [''string''] [] (Some (DString ''''))),
       (''values'', array_of (of_type [''string''] [] (Some (DString ''''))))]
      [''key'', ''operator''],
    odDependencies = []\<rparr>"

definition schema_pkg_apis_meta_v1_List :: "openapi_definition" where
  "schema_pkg_apis_meta_v1_List = \<lparr>odSchema =
    object_of
      [(''kind'', of_type [''string''] [] None),
       (''apiVersion'', of_type [''string''] [] None),
       (''metadata'', ref_to (Some DObject) (Meta_v1 ''ListMeta'')),
       (''items'', array_of (ref_to (Some DObject) (Runtime ''RawExtension'')))]
      [''items''],
    odDependencies = [Meta_v1 ''ListMeta'', Runtime ''RawExtension'']\<rparr>"

definition schema_pkg_apis_meta_v1_ListMeta :: "openapi_definition" where
  "schema_pkg_apis_meta_v1_ListMeta = \<lparr>odSchema =
    object_of
      [(''selfLink'', of_type [''string''] [] None),
       (''resourceVersion'', of_type [''string''] [] None),
       (''continue'', of_type [''string''] [] None),
       (''remainingItemCount'', of_type [''integer''] ''int64'' None)]
      [],
    odDependencies = []\<rparr>"

definition schema_pkg_apis_meta_v1_ListOptions :: "openapi_definition" where
  "schema_pkg_apis_meta_v1_ListOptions = \<lparr>odSchema =
    object_of
      [(''kind'', of_type [''string''] [] None),
       (''apiVersion'', of_type [''string''] [] None),
       (''labelSelector'', of_type [''string''] [] None),
       (''fieldSelector'', of_type [''string''] [] None),
       (''watch'', of_type [''boolean''] [] None),
       (''allowWatchBookmarks'', of_type [''boolean''] [] None),
       (''resourceVersion'', of_type [''string''] [] None),
       (''resourceVersionMatch'', of_type [''string''] [] None),
       (''timeoutSeconds'', of_type [''integer''] ''int64'' None),
       (''limit'', of_type [''integer''] ''int64'' None),
       (''continue'', of_type [''string''] [] None),
       (''sendInitialEvents'', of_type [''boolean''] [] None)]
      [],
    odDependencies = []\<rparr>"

definition schema_pkg_apis_meta_v1_ManagedFieldsEntry :: "openapi_definition" where
  "schema_pkg_apis_meta_v1_ManagedFieldsEntry = \<lparr>odSchema =
    object_of
      [(''manager'', of_type [''string''] [] None),
       (''operation'', of_type [''string''] [] None),
       (''apiVersion'', of_type [''string''] [] None),
       (''time'', ref_to None (Meta_v1 ''Time'')),
       (''fieldsType'', of_type [''string''] [] None),
       (''fieldsV1'', ref_to None (Meta_v1 ''FieldsV1'')),
       (''subresource'', of_type [''string''] [] None)]
      [],
    odDependencies = [Meta_v1 ''FieldsV1'', Meta_v1 ''Time'']\<rparr>"

definition schema_pkg_apis_meta_v1_MicroTime :: "openapi_env \<Rightarrow> openapi_definition" where
  "schema_pkg_apis_meta_v1_MicroTime env = \<lparr>odSchema =
    of_type (oeType env ''MicroTime'') (oeFormat env ''MicroTime'') None,
    odDependencies = []\<rparr>"

definition schema_pkg_apis_meta_v1_ObjectMeta :: "openapi_definition" where
  "schema_pkg_apis_meta_v1_ObjectMeta = \<lparr>odSchema =
    object_of
      [(''name'', of_type [''string''] [] None),
       (''generateName'', of_type [''string''] [] None),
       (''namespace'', of_type [''string''] [] None),
       (''selfLink'', of_type [''string''] [] None),
       (''uid'', of_type [''string''] [] None),
       (''resourceVersion'', of_type [''string''] [] None),
       (''generation'', of_type [''integer''] ''int64'' None),
       (''creationTimestamp'', ref_to (Some DObject) (Meta_v1 ''Time'')),
       (''deletionTimestamp'', ref_to None (Meta_v1 ''Time'')),
       (''deletionGracePeriodSeconds'', of_type [''integer''] ''int64'' None),
       (''labels'', map_of_values (of_type [''string''] [] (Some (DString '''')))),
       (''annotations'', map_of_values (of_type [''string''] [] (Some (DString '''')))),
       (''ownerReferences'', with_extensions [(''x-kubernetes-patch-merge-key'', ExtString ''uid''), (''x-kubernetes-patch-strategy'', ExtString ''merge'')] (array_of (ref_to (Some DObject) (Meta_v1 ''OwnerReference'')))),
       (''finalizers'', with_extensions [(''x-kubernetes-patch-strategy'', ExtString ''merge'')] (array_of (of_type [''string''] [] (Some (DString ''''))))),
       (''managedFields'', array_of (ref_to (Some DObject) (Meta_v1 ''ManagedFieldsEntry'')))]
      [],
    odDependencies = [Meta_v1 ''ManagedFieldsEntry'', Meta_v1 ''OwnerReference'', Meta_v1 ''Time'']\<rparr>"

definition schema_pkg_apis_meta_v1_OwnerReference :: "openapi_definition" where
  "schema_pkg_apis_meta_v1_OwnerReference = \<lparr>odSchema =
    with_extensions [(''x-kubernetes-map-type'', ExtString ''atomic'')] (object_of
      [(''apiVersion'', of_type [''string''] [] (Some (DString ''''))),
       (''kind'', of_type [''string''] [] (Some (DString ''''))),
       (''name'', of_type [''string''] [] (Some (DString ''''))),
       (''uid'', of_type [''string''] [] (Some (DString ''''))),
       (''controller'', of_type [''boolean''] [] None),
       (''blockOwnerDeletion'', of_type [''boolean''] [] None)]
      [''apiVersion'', ''kind'', ''name'', ''uid'']),
    odDependencies = []\<rparr>"

definition schema_pkg_apis_meta_v1_PartialObjectMetadata :: "openapi_definition" where
  "schema_pkg_apis_meta_v1_PartialObjectMetadata = \<lparr>odSchema =
    object_of
      [(''kind'', of_type [''string''] [] None),
       (''apiVersion'', of_type [''string''] [] None),
       (''metadata'', ref_to (Some DObject) (Meta_v1 ''ObjectMeta''))]
      [],
    odDependencies = [Meta_v1 ''ObjectMeta'']\<rparr>"

definition schema_pkg_apis_meta_v1_PartialObjectMetadataList :: "openapi_definition" where
  "schema_pkg_apis_meta_v1_PartialObjectMetadataList = \<lparr>odSchema =
    object_of
      [(''kind'', of_type [''string''] [] None),
       (''apiVersion'', of_type [''string''] [] None),
       (''metadata'', ref_to (Some DObject) (Meta_v1 ''ListMeta'')),
       (''items'', array_of (ref_to (Some DObject) (Meta_v1 ''PartialObjectMetadata'')))]
      [''items''],
    odDependencies = [Meta_v1 ''ListMeta'', Meta_v1 ''PartialObjectMetadata'']\<rparr>"

definition schema_pkg_apis_meta_v1_Patch :: "openapi_definition" where
  "schema_pkg_apis_meta_v1_Patch = \<lparr>odSchema =
    of_type [''object''] [] None,
    odDependencies = []\<rparr>"

definition schema_pkg_apis_meta_v1_PatchOptions :: "openapi_definition" where
  "schema_pkg_apis_meta_v1_PatchOptions = \<lparr>odSchema =
    object_of
      [(''kind'', of_type [''string''] [] None),
       (''apiVersion'', of_type [''string''] [] None),
       (''dryRun'', array_of (of_type [''string''] [] (Some (DString '''')))),
       (''force'', of_type [''boolean''] [] None),
       (''fieldManager'', of_type [''string''] [] None),
       (''fieldValidation'', of_type [''string''] [] None)]
      [],
    odDependencies = []\<rparr>"

definition schema_pkg_apis_meta_v1_Preconditions :: "openapi_definition" where
  "schema_pkg_apis_meta_v1_Preconditions = \<lparr>odSchema =
    object_of
      [(''uid'', of_type [''string''] [] None),
       (''resourceVersion'', of_type [''string''] [] None)]
      [],
    odDependencies = []\<rparr>"

definition schema_pkg_apis_meta_v1_RootPaths :: "openapi_definition" where
  "schema_pkg_apis_meta_v1_RootPaths = \<lparr>odSchema =
    object_of
      [(''paths'', array_of (of_type [''string''] [] (Some (DString ''''))))]
      [''paths''],
    odDependencies = []\<rparr>"

definition schema_pkg_apis_meta_v1_ServerAddressByClientCIDR :: "openapi_definition" where
  "schema_pkg_apis_meta_v1_ServerAddressByClientCIDR = \<lparr>odSchema =
    object_of
      [(''clientCIDR'', of_type [''string''] [] (Some (DString ''''))),
       (''serverAddress'', of_type [''string''] [] (Some (DString '''')))]
      [''clientCIDR'', ''serverAddress''],
    odDependencies = []\<rparr>"

definition schema_pkg_apis_meta_v1_Status :: "openapi_definition" where
  "schema_pkg_apis_meta_v1_Status = \<lparr>odSchema =
    object_of
      [(''kind'', of_type [''string''] [] None),
       (''apiVersion'', of_type [''string''] [] None),
       (''metadata'', ref_to (Some DObject) (Meta_v1 ''ListMeta'')),
       (''status'', of_type [''string''] [] None),
       (''message'', of_type [''string''] [] None),
       (''reason'', of_type [''string''] [] None),
       (''details'', ref_to None (Meta_v1 ''StatusDetails'')),
       (''code'', of_type [''integer''] ''int32'' None)]
      [],
    odDependencies = [Meta_v1 ''ListMeta'', Meta_v1 ''StatusDetails'']\<rparr>"

definition schema_pkg_apis_meta_v1_StatusCause :: "openapi_definition" where
  "schema_pkg_apis_meta_v1_StatusCause = \<lparr>odSchema =
    object_of
      [(''reason'', of_type [''string''] [] None),
       (''message'', of_type [''string''] [] None),
       (''field'', of_type [''string''] [] None)]
      [],
    odDependencies = []\<rparr>"

definition schema_pkg_apis_meta_v1_StatusDetails :: "openapi_definition" where
  "schema_pkg_apis_meta_v1_StatusDetails = \<lparr>odSchema =
    object_of
      [(''name'', of_type [''string''] [] None),
       (''group'', of_type [''string''] [] None),
       (''kind'', of_type [''string''] [] None),
       (''uid'', of_type [''string''] [] None),
       (''causes'', array_of (ref_to (Some DObject) (Meta_v1 ''StatusCause''))),
       (''retryAfterSeconds'', of_type [''integer''] ''int32'' None)]
      [],
    odDependencies = [Meta_v1 ''StatusCause'']\<rparr>"

definition schema_pkg_apis_meta_v1_Table :: "openapi_definition" where
  "schema_pkg_apis_meta_v1_Table = \<lparr>odSchema =
    object_of
      [(''kind'', of_type [''string''] [] None),
       (''apiVersion'', of_type [''string''] [] None),
       (''metadata'', ref_to (Some DObject) (Meta_v1 ''ListMeta'')),
       (''columnDefinitions'', array_of (ref_to (Some DObject) (Meta_v1 ''TableColumnDefinition''))),
       (''rows'', array_of (ref_to (Some DObject) (Meta_v1 ''TableRow'')))]
      [''columnDefinitions'', ''rows''],
    odDependencies = [Meta_v1 ''ListMeta'', Meta_v1 ''TableColumnDefinition'', Meta_v1 ''TableRow'']\<rparr>"

definition schema_pkg_apis_meta_v1_TableColumnDefinition :: "openapi_definition" where
  "schema_pkg_apis_meta_v1_TableColumnDefinition = \<lparr>odSchema =
    object_of
      [(''name'', of_type [''string''] [] (Some (DString ''''))),
       (''type'', of_type [''string''] [] (Some (DString ''''))),
       (''format'', of_type [''string''] [] (Some (DString ''''))),
       (''description'', of_type [''string''] [] (Some (DString ''''))),
       (''priority'', of_type [''integer''] ''int32'' (Some (DInt 0)))]
      [''name'', ''type'', ''format'', ''description'', ''priority''],
    odDependencies = []\<rparr>"

definition schema_pkg_apis_meta_v1_TableOptions :: "openapi_definition" where
  "schema_pkg_apis_meta_v1_TableOptions = \<lparr>odSchema =
    object_of
      [(''kind'', of_type [''string''] [] None),
       (''apiVersion'', of_type [''string''] [] None),
       (''includeObject'', of_type [''string''] [] None)]
      [],
    odDependencies = []\<rparr>"

definition schema_pkg_apis_meta_v1_TableRow :: "openapi_definition" where
  "schema_pkg_apis_meta_v1_TableRow = \<lparr>odSchema =
    object_of
      [(''cells'', array_of (of_type [''object''] [] None)),
       (''conditions'', array_of (ref_to (Some DObject) (Meta_v1 ''TableRowCondition''))),
       (''object'', ref_to (Some DObject) (Runtime ''RawExtension''))]
      [''cells''],
    odDependencies = [Meta_v1 ''TableRowCondition'', Runtime ''RawExtension'']\<rparr>"

definition schema_pkg_apis_meta_v1_TableRowCondition :: "openapi_definition" where
  "schema_pkg_apis_meta_v1_TableRowCondition = \<lparr>odSchema =
    object_of
      [(''type'', of_type [''string''] [] (Some (DString ''''))),
       (''status'', of_type [''string''] [] (Some (DString ''''))),
       (''reason'', of_type [''string''] [] None),
       (''message'', of_type [''string''] [] None)]
      [''type'', ''status''],
    odDependencies = []\<rparr>"

definition schema_pkg_apis_meta_v1_Time :: "openapi_env \<Rightarrow> openapi_definition" where
  "schema_pkg_apis_meta_v1_Time env = \<lparr>odSchema =
    of_type (oeType env ''Time'') (oeFormat env ''Time'') None,
    odDependencies = []\<rparr>"

definition schema_pkg_apis_meta_v1_Timestamp :: "openapi_definition" where
  "schema_pkg_apis_meta_v1_Timestamp = \<lparr>odSchema =
    object_of
      [(''seconds'', of_type [''integer''] ''int64'' (Some (DInt 0))),
       (''nanos'', of_type [''integer''] ''int32'' (Some (DInt 0)))]
      [''seconds'', ''nanos''],
    odDependencies = []\<rparr>"

definition schema_pkg_apis_meta_v1_TypeMeta :: "openapi_definition" where
  "schema_pkg_apis_meta_v1_TypeMeta = \<lparr>odSchema =
    object_of
      [(''kind'', of_type [''string''] [] None),
       (''apiVersion'', of_type [''string''] [] None)]
      [],
    odDependencies = []\<rparr>"

definition schema_pkg_apis_meta_v1_UpdateOptions :: "openapi_definition" where
  "schema_pkg_apis_meta_v1_UpdateOptions = \<lparr>odSchema =
    object_of
      [(''kind'', of_type [''string''] [] None),
       (''apiVersion'', of_type [''string''] [] None),
       (''dryRun'', array_of (of_type [''string''] [] (Some (DString '''')))),
       (''fieldManager'', of_type [''string''] [] None),
       (''fieldValidation'', of_type [''string''] [] None)]
      [],
    odDependencies = []\<rparr>"

definition schema_pkg_apis_meta_v1_WatchEvent :: "openapi_definition" where
  "schema_pkg_apis_meta_v1_WatchEvent = \<lparr>odSchema =
    object_of
      [(''type'', of_type [''string''] [] (Some (DString ''''))),
       (''object'', ref_to (Some DObject) (Runtime ''RawExtension''))]
      [''type'', ''object''],
    odDependencies = [Runtime ''RawExtension'']\<rparr>"

definition schema_k8sio_apimachinery_pkg_runtime_RawExtension :: "openapi_definition" where
  "schema_k8sio_apimachinery_pkg_runtime_RawExtension = \<lparr>odSchema =
    of_type [''object''] [] None,
    odDependencies = []\<rparr>"

definition schema_k8sio_apimachinery_pkg_runtime_TypeMeta :: "openapi_definition" where
  "schema_k8sio_apimachinery_pkg_runtime_TypeMeta = \<lparr>odSchema =
    object_of
      [(''apiVersion'', of_type [''string''] [] None),
       (''kind'', of_type [''string''] [] None)]
      [],
    odDependencies = []\<rparr>"

definition schema_k8sio_apimachinery_pkg_runtime_Unknown :: "openapi_definition" where
  "schema_k8sio_apimachinery_pkg_runtime_Unknown = \<lparr>odSchema =
    object_of
      [(''apiVersion'', of_type [''string''] [] None),
       (''kind'', of_type [''string''] [] None),
       (''ContentEncoding'', of_type [''string''] [] (Some (DString ''''))),
       (''ContentType'', of_type [''string''] [] (Some (DString '''')))]
      [''ContentEncoding'', ''ContentType''],
    odDependencies = []\<rparr>"

definition schema_k8sio_apimachinery_pkg_version_Info :: "openapi_definition" where
  "schema_k8sio_apimachinery_pkg_version_Info = \<lparr>odSchema =
    object_of
      [(''major'', of_type [''string''] [] (Some (DString ''''))),
       (''minor'', of_type [''string''] [] (Some (DString ''''))),
       (''gitVersion'', of_type [''string''] [] (Some (DString ''''))),
       (''gitCommit'', of_type [''string''] [] (Some (DString ''''))),
       (''gitTreeState'', of_type [''string''] [] (Some (DString ''''))),
       (''buildDate'', of_type [''string''] [] (Some (DString ''''))),
       (''goVersion'', of_type [''string''] [] (Some (DString ''''))),
       (''compiler'', of_type [''string''] [] (Some (DString ''''))),
       (''platform'', of_type [''string''] [] (Some (DString '''')))]
      [''major'', ''minor'', ''gitVersion'', ''gitCommit'', ''gitTreeState'', ''buildDate'', ''goVersion'', ''compiler'', ''platform''],
    odDependencies = []\<rparr>"

section \<open>The table\<close>

definition GetOpenAPIDefinitions :: "openapi_env \<Rightarrow> (def_name \<times> openapi_definition) list" where
  "GetOpenAPIDefinitions env =
    [(Kinds_v1 ''GrafanaResourceDefinition'', schema_pkg_apis_kinds_v1_GrafanaResourceDefinition),
     (Kinds_v1 ''GrafanaResourceDefinitionCondition'', schema_pkg_apis_kinds_v1_GrafanaResourceDefinitionCondition),
     (Kinds_v1 ''GrafanaResourceDefinitionList'', schema_pkg_apis_kinds_v1_GrafanaResourceDefinitionList),
     (Kinds_v1 ''GrafanaResourceDefinitionNames'', schema_pkg_apis_kinds_v1_GrafanaResourceDefinitionNames),
     (Kinds_v1 ''GrafanaResourceDefinitionSpec'', schema_pkg_apis_kinds_v1_GrafanaResourceDefinitionSpec),
     (Kinds_v1 ''GrafanaResourceDefinitionStatus'', schema_pkg_apis_kinds_v1_GrafanaResourceDefinitionStatus),
     (Kinds_v1 ''GrafanaResourceDefinitionVersion'', schema_pkg_apis_kinds_v1_GrafanaResourceDefinitionVersion),
     (Kinds_v1 ''GrafanaResourceSubresourceHistory'', schema_pkg_apis_kinds_v1_GrafanaResourceSubresourceHistory),
     (Kinds_v1 ''GrafanaResourceSubresourceRef'', schema_pkg_apis_kinds_v1_GrafanaResourceSubresourceRef),
     (Kinds_v1 ''GrafanaResourceSubresourceScale'', schema_pkg_apis_kinds_v1_GrafanaResourceSubresourceScale),
     (Kinds_v1 ''GrafanaResourceSubresourceStatus'', schema_pkg_apis_kinds_v1_GrafanaResourceSubresourceStatus),
     (Kinds_v1 ''GrafanaResourceSubresources'', schema_pkg_apis_kinds_v1_GrafanaResourceSubresources),
     (Meta_v1 ''APIGroup'', schema_pkg_apis_meta_v1_APIGroup),
     (Meta_v1 ''APIGroupList'', schema_pkg_apis_meta_v1_APIGroupList),
     (Meta_v1 ''APIResource'', schema_pkg_apis_meta_v1_APIResource),
     (Meta_v1 ''APIResourceList'', schema_pkg_apis_meta_v1_APIResourceList),
     (Meta_v1 ''APIVersions'', schema_pkg_apis_meta_v1_APIVersions),
     (Meta_v1 ''ApplyOptions'', schema_pkg_apis_meta_v1_ApplyOptions),
     (Meta_v1 ''Condition'', schema_pkg_apis_meta_v1_Condition),
     (Meta_v1 ''CreateOptions'', schema_pkg_apis_meta_v1_CreateOptions),
     (Meta_v1 ''DeleteOptions'', schema_pkg_apis_meta_v1_DeleteOptions),
     (Meta_v1 ''Duration'', schema_pkg_apis_meta_v1_Duration env),
     (Meta_v1 ''FieldsV1'', schema_pkg_apis_meta_v1_FieldsV1),
     (Meta_v1 ''GetOptions'', schema_pkg_apis_meta_v1_GetOptions),
     (Meta_v1 ''GroupKind'', schema_pkg_apis_meta_v1_GroupKind),
     (Meta_v1 ''GroupResource'', schema_pkg_apis_meta_v1_GroupResource),
     (Meta_v1 ''GroupVersion'', schema_pkg_apis_meta_v1_GroupVersion),
     (Meta_v1 ''GroupVersionForDiscovery'', schema_pkg_apis_meta_v1_GroupVersionForDiscovery),
     (Meta_v1 ''GroupVersionKind'', schema_pkg_apis_meta_v1_GroupVersionKind),
     (Meta_v1 ''GroupVersionResource'', schema_pkg_apis_meta_v1_GroupVersionResource),
     (Meta_v1 ''InternalEvent'', schema_pkg_apis_meta_v1_InternalEvent),
     (Meta_v1 ''LabelSelector'', schema_pkg_apis_meta_v1_LabelSelector),
     (Meta_v1 ''LabelSelectorRequirement'', schema_pkg_apis_meta_v1_LabelSelectorRequirement),
     (Meta_v1 ''List'', schema_pkg_apis_meta_v1_List),
     (Meta_v1 ''ListMeta'', schema_pkg_apis_meta_v1_ListMeta),
     (Meta_v1 ''ListOptions'', schema_pkg_apis_meta_v1_ListOptions),
     (Meta_v1 ''ManagedFieldsEntry'', schema_pkg_apis_meta_v1_ManagedFieldsEntry),
     (Meta_v1 ''MicroTime'', schema_pkg_apis_meta_v1_MicroTime env),
     (Meta_v1 ''ObjectMeta'', schema_pkg_apis_meta_v1_ObjectMeta),
     (Meta_v1 ''OwnerReference'', schema_pkg_apis_meta_v1_OwnerReference),
     (Meta_v1 ''PartialObjectMetadata'', schema_pkg_apis_meta_v1_PartialObjectMetadata),
     (Meta_v1 ''PartialObjectMetadataList'', schema_pkg_apis_meta_v1_PartialObjectMetadataList),
     (Meta_v1 ''Patch'', schema_pkg_apis_meta_v1_Patch),
     (Meta_v1 ''PatchOptions'', schema_pkg_apis_meta_v1_PatchOptions),
     (Meta_v1 ''Preconditions'', schema_pkg_apis_meta_v1_Preconditions),
     (Meta_v1 ''RootPaths'', schema_pkg_apis_meta_v1_RootPaths),
     (Meta_v1 ''ServerAddressByClientCIDR'', schema_pkg_apis_meta_v1_ServerAddressByClientCIDR),
     (Meta_v1 ''Status'', schema_pkg_apis_meta_v1_Status),
     (Meta_v1 ''StatusCause'', schema_pkg_apis_meta_v1_StatusCause),
     (Meta_v1 ''StatusDetails'', schema_pkg_apis_meta_v1_StatusDetails),
     (Meta_v1 ''Table'', schema_pkg_apis_meta_v1_Table),
     (Meta_v1 ''TableColumnDefinition'', schema_pkg_apis_meta_v1_TableColumnDefinition),
     (Meta_v1 ''TableOptions'', schema_pkg_apis_meta_v1_TableOptions),
     (Meta_v1 ''TableRow'', schema_pkg_apis_meta_v1_TableRow),
     (Meta_v1 ''TableRowCondition'', schema_pkg_apis_meta_v1_TableRowCondition),
     (Meta_v1 ''Time'', schema_pkg_apis_meta_v1_Time env),
     (Meta_v1 ''Timestamp'', schema_pkg_apis_meta_v1_Timestamp),
     (Meta_v1 ''TypeMeta'', schema_pkg_apis_meta_v1_TypeMeta),
     (Meta_v1 ''UpdateOptions'', schema_pkg_apis_meta_v1_UpdateOptions),
     (Meta_v1 ''WatchEvent'', schema_pkg_apis_meta_v1_WatchEvent),
     (Runtime ''RawExtension'', schema_k8sio_apimachinery_pkg_runtime_RawExtension),
     (Runtime ''TypeMeta'', schema_k8sio_apimachinery_pkg_runtime_TypeMeta),
     (Runtime ''Unknown'', schema_k8sio_apimachinery_pkg_runtime_Unknown),
     (Version_pkg ''Info'', schema_k8sio_apimachinery_pkg_version_Info)]"

section \<open>Properties\<close>

text \<open>The references of a schema, in all its parts.\<close>

fun refs :: "schema \<Rightarrow> def_name list" where
  "refs (Schema t fmt d props req items additional r ext) =
    concat (map (\<lambda>(k, s). refs s) props) @ (case items of None \<Rightarrow> [] | Some s \<Rightarrow> refs s) @
    (case additional of None \<Rightarrow> [] | Some s \<Rightarrow> refs s) @ (case r of None \<Rightarrow> [] | Some n \<Rightarrow> [n])"

lemma refs_literals [simp]:
  "refs (of_type t fmt d) = []" "refs (ref_to d r) = [r]" "refs (array_of s) = refs s" "refs (map_of_values s) = refs s"
  "refs (object_of props req) = concat (map (\<lambda>(k, s). refs s) props)"
  by (simp_all add: of_type_def ref_to_def array_of_def map_of_values_def object_of_def)

lemma refs_with_extensions [simp]: "refs (with_extensions ext s) = refs s"
  by (cases s) (simp add: with_extensions_def)

text \<open>Property names are distinct and what is required is a property, in all parts.\<close>

fun well_formed :: "schema \<Rightarrow> bool" where
  "well_formed (Schema t fmt d props req items additional r ext) \<longleftrightarrow>
    distinct (map fst props) \<and> list_all (\<lambda>k. k \<in> set (map fst props)) req \<and>
    list_all (\<lambda>(k, s). well_formed s) props \<and> pred_option well_formed items \<and> pred_option well_formed additional"

lemma well_formed_literals [simp]:
  "well_formed (of_type t fmt d)" "well_formed (ref_to d r)"
  "well_formed (array_of s) = well_formed s" "well_formed (map_of_values s) = well_formed s"
  "well_formed (object_of props req) \<longleftrightarrow>
    distinct (map fst props) \<and> list_all (\<lambda>k. k \<in> set (map fst props)) req \<and> list_all (\<lambda>(k, s). well_formed s) props"
  by (simp_all add: of_type_def ref_to_def array_of_def map_of_values_def object_of_def)

lemma well_formed_with_extensions [simp]: "well_formed (with_extensions ext s) = well_formed s"
  by (cases s) (simp add: with_extensions_def)

definition definition_ok :: "def_name list \<Rightarrow> openapi_definition \<Rightarrow> bool" where
  "definition_ok names d \<longleftrightarrow> well_formed (odSchema d) \<and>
    list_all (\<lambda>n. n \<in> set (odDependencies d)) (refs (odSchema d)) \<and>
    list_all (\<lambda>n. n \<in> set (refs (odSchema d))) (odDependencies d) \<and>
    list_all (\<lambda>n. n \<in> set names) (odDependencies d)"

definition openapi_names :: "def_name list" where
  "openapi_names =
    [Kinds_v1 ''GrafanaResourceDefinition'', Kinds_v1 ''GrafanaResourceDefinitionCondition'', Kinds_v1 ''GrafanaResourceDefinitionList'',
     Kinds_v1 ''GrafanaResourceDefinitionNames'', Kinds_v1 ''GrafanaResourceDefinitionSpec'', Kinds_v1 ''GrafanaResourceDefinitionStatus'',
     Kinds_v1 ''GrafanaResourceDefinitionVersion'', Kinds_v1 ''GrafanaResourceSubresourceHistory'', Kinds_v1 ''GrafanaResourceSubresourceRef'',
     Kinds_v1 ''GrafanaResourceSubresourceScale'', Kinds_v1 ''GrafanaResourceSubresourceStatus'', Kinds_v1 ''GrafanaResourceSubresources'',
     Meta_v1 ''APIGroup'', Meta_v1 ''APIGroupList'', Meta_v1 ''APIResource'',
     Meta_v1 ''APIResourceList'', Meta_v1 ''APIVersions'', Meta_v1 ''ApplyOptions'',
     Meta_v1 ''Condition'', Meta_v1 ''CreateOptions'', Meta_v1 ''DeleteOptions'',
     Meta_v1 ''Duration'', Meta_v1 ''FieldsV1'', Meta_v1 ''GetOptions'',
     Meta_v1 ''GroupKind'', Meta_v1 ''GroupResource'', Meta_v1 ''GroupVersion'',
     Meta_v1 ''GroupVersionForDiscovery'', Meta_v1 ''GroupVersionKind'', Meta_v1 ''GroupVersionResource'',
     Meta_v1 ''InternalEvent'', Meta_v1 ''LabelSelector'', Meta_v1 ''LabelSelectorRequirement'',
     Meta_v1 ''List'', Meta_v1 ''ListMeta'', Meta_v1 ''ListOptions'',
     Meta_v1 ''ManagedFieldsEntry'', Meta_v1 ''MicroTime'', Meta_v1 ''ObjectMeta'',
     Meta_v1 ''OwnerReference'', Meta_v1 ''PartialObjectMetadata'', Meta_v1 ''PartialObjectMetadataList'',
     Meta_v1 ''Patch'', Meta_v1 ''PatchOptions'', Meta_v1 ''Preconditions'',
     Meta_v1 ''RootPaths'', Meta_v1 ''ServerAddressByClientCIDR'', Meta_v1 ''Status'',
     Meta_v1 ''StatusCause'', Meta_v1 ''StatusDetails'', Meta_v1 ''Table'',
     Meta_v1 ''TableColumnDefinition'', Meta_v1 ''TableOptions'', Meta_v1 ''TableRow'',
     Meta_v1 ''TableRowCondition'', Meta_v1 ''Time'', Meta_v1 ''Timestamp'',
     Meta_v1 ''TypeMeta'', Meta_v1 ''UpdateOptions'', Meta_v1 ''WatchEvent'',
     Runtime ''RawExtension'', Runtime ''TypeMeta'', Runtime ''Unknown'',
     Version_pkg ''Info'']"

lemmas openapi_types =
  schema_pkg_apis_kinds_v1_GrafanaResourceDefinition_def
  schema_pkg_apis_kinds_v1_GrafanaResourceDefinitionCondition_def
  schema_pkg_apis_kinds_v1_GrafanaResourceDefinitionNames_def
  schema_pkg_apis_kinds_v1_GrafanaResourceDefinitionSpec_def
  schema_pkg_apis_kinds_v1_GrafanaResourceDefinitionStatus_def
  schema_pkg_apis_kinds_v1_GrafanaResourceDefinitionVersion_def
  schema_pkg_apis_kinds_v1_GrafanaResourceSubresourceHistory_def
  schema_pkg_apis_kinds_v1_GrafanaResourceSubresourceRef_def
  schema_pkg_apis_kinds_v1_GrafanaResourceSubresourceScale_def
  schema_pkg_apis_kinds_v1_GrafanaResourceSubresourceStatus_def
  schema_pkg_apis_kinds_v1_GrafanaResourceSubresources_def
  schema_pkg_apis_meta_v1_ObjectMeta_def
  schema_pkg_apis_meta_v1_Time_def

lemma openapi_names: "map fst (GetOpenAPIDefinitions env) = openapi_names"
  by (simp add: GetOpenAPIDefinitions_def openapi_names_def)

lemma openapi_names_distinct: "distinct openapi_names"
  by (simp add: openapi_names_def)

lemma known_names [simp]:
  "Kinds_v1 ''GrafanaResourceDefinition'' \<in> set openapi_names" "Kinds_v1 ''GrafanaResourceDefinitionCondition'' \<in> set openapi_names"
  "Kinds_v1 ''GrafanaResourceDefinitionNames'' \<in> set openapi_names" "Kinds_v1 ''GrafanaResourceDefinitionSpec'' \<in> set openapi_names"
  "Kinds_v1 ''GrafanaResourceDefinitionStatus'' \<in> set openapi_names" "Kinds_v1 ''GrafanaResourceDefinitionVersion'' \<in> set openapi_names"
  "Kinds_v1 ''GrafanaResourceSubresourceHistory'' \<in> set openapi_names" "Kinds_v1 ''GrafanaResourceSubresourceRef'' \<in> set openapi_names"
  "Kinds_v1 ''GrafanaResourceSubresourceScale'' \<in> set openapi_names" "Kinds_v1 ''GrafanaResourceSubresourceStatus'' \<in> set openapi_names"
  "Kinds_v1 ''GrafanaResourceSubresources'' \<in> set openapi_names" "Meta_v1 ''APIGroup'' \<in> set openapi_names"
  "Meta_v1 ''APIResource'' \<in> set openapi_names" "Meta_v1 ''FieldsV1'' \<in> set openapi_names"
  "Meta_v1 ''GroupVersionForDiscovery'' \<in> set openapi_names" "Meta_v1 ''LabelSelectorRequirement'' \<in> set openapi_names"
  "Meta_v1 ''ListMeta'' \<in> set openapi_names" "Meta_v1 ''ManagedFieldsEntry'' \<in> set openapi_names"
  "Meta_v1 ''ObjectMeta'' \<in> set openapi_names" "Meta_v1 ''OwnerReference'' \<in> set openapi_names"
  "Meta_v1 ''PartialObjectMetadata'' \<in> set openapi_names" "Meta_v1 ''Preconditions'' \<in> set openapi_names"
  "Meta_v1 ''ServerAddressByClientCIDR'' \<in> set openapi_names" "Meta_v1 ''StatusCause'' \<in> set openapi_names"
  "Meta_v1 ''StatusDetails'' \<in> set openapi_names" "Meta_v1 ''TableColumnDefinition'' \<in> set openapi_names"
  "Meta_v1 ''TableRow'' \<in> set openapi_names" "Meta_v1 ''TableRowCondition'' \<in> set openapi_names"
  "Meta_v1 ''Time'' \<in> set openapi_names" "Runtime ''RawExtension'' \<in> set openapi_names"
  by (simp_all add: openapi_names_def)

lemma dangling_name: "Runtime ''Object'' \<notin> set openapi_names"
  by (simp add: openapi_names_def)

lemma kinds_definitions_ok [simp]:
  "definition_ok openapi_names schema_pkg_apis_kinds_v1_GrafanaResourceDefinition"
  "definition_ok openapi_names schema_pkg_apis_kinds_v1_GrafanaResourceDefinitionCondition"
  "definition_ok openapi_names schema_pkg_apis_kinds_v1_GrafanaResourceDefinitionList"
  "definition_ok openapi_names schema_pkg_apis_kinds_v1_GrafanaResourceDefinitionNames"
  "definition_ok openapi_names schema_pkg_apis_kinds_v1_GrafanaResourceDefinitionSpec"
  "definition_ok openapi_names schema_pkg_apis_kinds_v1_GrafanaResourceDefinitionStatus"
  "definition_ok openapi_names schema_pkg_apis_kinds_v1_GrafanaResourceDefinitionVersion"
  "definition_ok openapi_names schema_pkg_apis_kinds_v1_GrafanaResourceSubresourceHistory"
  "definition_ok openapi_names schema_pkg_apis_kinds_v1_GrafanaResourceSubresourceRef"
  "definition_ok openapi_names schema_pkg_apis_kinds_v1_GrafanaResourceSubresourceScale"
  "definition_ok openapi_names schema_pkg_apis_kinds_v1_GrafanaResourceSubresourceStatus"
  "definition_ok openapi_names schema_pkg_apis_kinds_v1_GrafanaResourceSubresources"
  by (simp_all add: definition_ok_def
    schema_pkg_apis_kinds_v1_GrafanaResourceDefinition_def schema_pkg_apis_kinds_v1_GrafanaResourceDefinitionCondition_def
    schema_pkg_apis_kinds_v1_GrafanaResourceDefinitionList_def schema_pkg_apis_kinds_v1_GrafanaResourceDefinitionNames_def
    schema_pkg_apis_kinds_v1_GrafanaResourceDefinitionSpec_def schema_pkg_apis_kinds_v1_GrafanaResourceDefinitionStatus_def
    schema_pkg_apis_kinds_v1_GrafanaResourceDefinitionVersion_def schema_pkg_apis_kinds_v1_GrafanaResourceSubresourceHistory_def
    schema_pkg_apis_kinds_v1_GrafanaResourceSubresourceRef_def schema_pkg_apis_kinds_v1_GrafanaResourceSubresourceScale_def
    schema_pkg_apis_kinds_v1_GrafanaResourceSubresourceStatus_def schema_pkg_apis_kinds_v1_GrafanaResourceSubresources_def)

lemma meta_definitions_ok_1 [simp]:
  "definition_ok openapi_names schema_pkg_apis_meta_v1_APIGroup"
  "definition_ok openapi_names schema_pkg_apis_meta_v1_APIGroupList"
  "definition_ok openapi_names schema_pkg_apis_meta_v1_APIResource"
  "definition_ok openapi_names schema_pkg_apis_meta_v1_APIResourceList"
  "definition_ok openapi_names schema_pkg_apis_meta_v1_APIVersions"
  "definition_ok openapi_names schema_pkg_apis_meta_v1_ApplyOptions"
  "definition_ok openapi_names schema_pkg_apis_meta_v1_Condition"
  "definition_ok openapi_names schema_pkg_apis_meta_v1_CreateOptions"
  "definition_ok openapi_names schema_pkg_apis_meta_v1_DeleteOptions"
  "definition_ok openapi_names (schema_pkg_apis_meta_v1_Duration env)"
  "definition_ok openapi_names schema_pkg_apis_meta_v1_FieldsV1"
  "definition_ok openapi_names schema_pkg_apis_meta_v1_GetOptions"
  "definition_ok openapi_names schema_pkg_apis_meta_v1_GroupKind"
  by (simp_all add: definition_ok_def
    schema_pkg_apis_meta_v1_APIGroup_def schema_pkg_apis_meta_v1_APIGroupList_def
    schema_pkg_apis_meta_v1_APIResource_def schema_pkg_apis_meta_v1_APIResourceList_def
    schema_pkg_apis_meta_v1_APIVersions_def schema_pkg_apis_meta_v1_ApplyOptions_def
    schema_pkg_apis_meta_v1_Condition_def schema_pkg_apis_meta_v1_CreateOptions_def
    schema_pkg_apis_meta_v1_DeleteOptions_def schema_pkg_apis_meta_v1_Duration_def
    schema_pkg_apis_meta_v1_FieldsV1_def schema_pkg_apis_meta_v1_GetOptions_def
    schema_pkg_apis_meta_v1_GroupKind_def)

lemma meta_definitions_ok_2 [simp]:
  "definition_ok openapi_names schema_pkg_apis_meta_v1_GroupResource"
  "definition_ok openapi_names schema_pkg_apis_meta_v1_GroupVersion"
  "definition_ok openapi_names schema_pkg_apis_meta_v1_GroupVersionForDiscovery"
  "definition_ok openapi_names schema_pkg_apis_meta_v1_GroupVersionKind"
  "definition_ok openapi_names schema_pkg_apis_meta_v1_GroupVersionResource"
  "definition_ok openapi_names schema_pkg_apis_meta_v1_LabelSelector"
  "definition_ok openapi_names schema_pkg_apis_meta_v1_LabelSelectorRequirement"
  "definition_ok openapi_names schema_pkg_apis_meta_v1_List"
  "definition_ok openapi_names schema_pkg_apis_meta_v1_ListMeta"
  "definition_ok openapi_names schema_pkg_apis_meta_v1_ListOptions"
  "definition_ok openapi_names schema_pkg_apis_meta_v1_ManagedFieldsEntry"
  "definition_ok openapi_names (schema_pkg_apis_meta_v1_MicroTime env)"
  "definition_ok openapi_names schema_pkg_apis_meta_v1_ObjectMeta"
  by (simp_all add: definition_ok_def
    schema_pkg_apis_meta_v1_GroupResource_def schema_pkg_apis_meta_v1_GroupVersion_def
    schema_pkg_apis_meta_v1_GroupVersionForDiscovery_def schema_pkg_apis_meta_v1_GroupVersionKind_def
    schema_pkg_apis_meta_v1_GroupVersionResource_def schema_pkg_apis_meta_v1_LabelSelector_def
    schema_pkg_apis_meta_v1_LabelSelectorRequirement_def schema_pkg_apis_meta_v1_List_def
    schema_pkg_apis_meta_v1_ListMeta_def schema_pkg_apis_meta_v1_ListOptions_def
    schema_pkg_apis_meta_v1_ManagedFieldsEntry_def schema_pkg_apis_meta_v1_MicroTime_def
    schema_pkg_apis_meta_v1_ObjectMeta_def)

lemma meta_definitions_ok_3 [simp]:
  "definition_ok openapi_names schema_pkg_apis_meta_v1_OwnerReference"
  "definition_ok openapi_names schema_pkg_apis_meta_v1_PartialObjectMetadata"
  "definition_ok openapi_names schema_pkg_apis_meta_v1_PartialObjectMetadataList"
  "definition_ok openapi_names schema_pkg_apis_meta_v1_Patch"
  "definition_ok openapi_names schema_pkg_apis_meta_v1_PatchOptions"
  "definition_ok openapi_names schema_pkg_apis_meta_v1_Preconditions"
  "definition_ok openapi_names schema_pkg_apis_meta_v1_RootPaths"
  "definition_ok openapi_names schema_pkg_apis_meta_v1_ServerAddressByClientCIDR"
  "definition_ok openapi_names schema_pkg_apis_meta_v1_Status"
  "definition_ok openapi_names schema_pkg_apis_meta_v1_StatusCause"
  "definition_ok openapi_names schema_pkg_apis_meta_v1_StatusDetails"
  "definition_ok openapi_names schema_pkg_apis_meta_v1_Table"
  "definition_ok openapi_names schema_pkg_apis_meta_v1_TableColumnDefinition"
  by (simp_all add: definition_ok_def
    schema_pkg_apis_meta_v1_OwnerReference_def schema_pkg_apis_meta_v1_PartialObjectMetadata_def
    schema_pkg_apis_meta_v1_PartialObjectMetadataList_def schema_pkg_apis_meta_v1_Patch_def
    schema_pkg_apis_meta_v1_PatchOptions_def schema_pkg_apis_meta_v1_Preconditions_def
    schema_pkg_apis_meta_v1_RootPaths_def schema_pkg_apis_meta_v1_ServerAddressByClientCIDR_def
    schema_pkg_apis_meta_v1_Status_def schema_pkg_apis_meta_v1_StatusCause_def
    schema_pkg_apis_meta_v1_StatusDetails_def schema_pkg_apis_meta_v1_Table_def
    schema_pkg_apis_meta_v1_TableColumnDefinition_def)

lemma meta_definitions_ok_4 [simp]:
  "definition_ok openapi_names schema_pkg_apis_meta_v1_TableOptions"
  "definition_ok openapi_names schema_pkg_apis_meta_v1_TableRow"
  "definition_ok openapi_names schema_pkg_apis_meta_v1_TableRowCondition"
  "definition_ok openapi_names (schema_pkg_apis_meta_v1_Time env)"
  "definition_ok openapi_names schema_pkg_apis_meta_v1_Timestamp"
  "definition_ok openapi_names schema_pkg_apis_meta_v1_TypeMeta"
  "definition_ok openapi_names schema_pkg_apis_meta_v1_UpdateOptions"
  "definition_ok openapi_names schema_pkg_apis_meta_v1_WatchEvent"
  "definition_ok openapi_names schema_k8sio_apimachinery_pkg_runtime_RawExtension"
  "definition_ok openapi_names schema_k8sio_apimachinery_pkg_runtime_TypeMeta"
  "definition_ok openapi_names schema_k8sio_apimachinery_pkg_runtime_Unknown"
  "definition_ok openapi_names schema_k8sio_apimachinery_pkg_version_Info"
  by (simp_all add: definition_ok_def
    schema_pkg_apis_meta_v1_TableOptions_def schema_pkg_apis_meta_v1_TableRow_def
    schema_pkg_apis_meta_v1_TableRowCondition_def schema_pkg_apis_meta_v1_Time_def
    schema_pkg_apis_meta_v1_Timestamp_def schema_pkg_apis_meta_v1_TypeMeta_def
    schema_pkg_apis_meta_v1_UpdateOptions_def schema_pkg_apis_meta_v1_WatchEvent_def
    schema_k8sio_apimachinery_pkg_runtime_RawExtension_def schema_k8sio_apimachinery_pkg_runtime_TypeMeta_def
    schema_k8sio_apimachinery_pkg_runtime_Unknown_def schema_k8sio_apimachinery_pkg_version_Info_def)

lemma internal_event_dangles:
  "well_formed (odSchema schema_pkg_apis_meta_v1_InternalEvent)"
  "set (odDependencies schema_pkg_apis_meta_v1_InternalEvent) = {Runtime ''Object''}"
  "\<not> definition_ok openapi_names schema_pkg_apis_meta_v1_InternalEvent"
  by (simp_all add: schema_pkg_apis_meta_v1_InternalEvent_def definition_ok_def dangling_name)

text \<open>
  C38. The published documents are consistent and, but for one type, closed: the 64 types have
  different names; the references of a type are exactly its dependencies, each of them has a
  document, and what a type requires is one of its properties. The exception is \<open>InternalEvent\<close>,
  whose reference to \<open>runtime.Object\<close> leads nowhere.
\<close>

theorem openapi_closed:
  "distinct (map fst (GetOpenAPIDefinitions env)) \<and>
    filter (\<lambda>(n, d). \<not> definition_ok (map fst (GetOpenAPIDefinitions env)) d) (GetOpenAPIDefinitions env) =
      [(Meta_v1 ''InternalEvent'', schema_pkg_apis_meta_v1_InternalEvent)] \<and>
    odDependencies schema_pkg_apis_meta_v1_InternalEvent = [Runtime ''Object''] \<and>
    Runtime ''Object'' \<notin> fst ` set (GetOpenAPIDefinitions env)"
proof (intro conjI)
  show "filter (\<lambda>(n, d). \<not> definition_ok (map fst (GetOpenAPIDefinitions env)) d) (GetOpenAPIDefinitions env) =
      [(Meta_v1 ''InternalEvent'', schema_pkg_apis_meta_v1_InternalEvent)]"
    unfolding openapi_names by (simp add: GetOpenAPIDefinitions_def internal_event_dangles(3))
  show "odDependencies schema_pkg_apis_meta_v1_InternalEvent = [Runtime ''Object'']"
    by (simp add: schema_pkg_apis_meta_v1_InternalEvent_def)
  show "Runtime ''Object'' \<notin> fst ` set (GetOpenAPIDefinitions env)"
    using dangling_name unfolding openapi_names [symmetric, of env] by simp
qed (simp add: openapi_names openapi_names_distinct)

end
