(* ===== verification/Published.thy ===== *)
theory Published
  imports Json OpenAPI Naming GrdRegistry
begin

text \<open>
  The JSON form of a definition against the schema that the server publishes for it. \<open>conforms\<close> is what
  OpenAPI documents mean, as far as the documents of this server use it: types, properties, required
  names, items, additional properties, references, and the keys of a list that is a map
  (\<open>x-kubernetes-list-map-keys\<close>). Formats and defaults do not restrict documents.
\<close>

section \<open>Conformance\<close>

fun json_type :: "json \<Rightarrow> string" where
  "json_type JNull = ''null''"
| "json_type (JBool _) = ''boolean''"
| "json_type (JNum _) = ''integer''"
| "json_type (JString _) = ''string''"
| "json_type (JArray _) = ''array''"
| "json_type (JObject _) = ''object''"

definition type_ok :: "string list \<Rightarrow> json \<Rightarrow> bool" where
  "type_ok ts j \<longleftrightarrow> ts = [] \<or> json_type j \<in> set ts"

definition list_keys :: "schema \<Rightarrow> string list option" where
  "list_keys s =
    (case map_of (schExtensions s) ''x-kubernetes-list-map-keys'' of Some (ExtList ks) \<Rightarrow> Some ks | _ \<Rightarrow> None)"

fun key_values :: "string list \<Rightarrow> json \<Rightarrow> json option list" where
  "key_values ks (JObject kvs) = map (map_of kvs) ks"
| "key_values ks _ = []"

definition list_map_ok :: "schema \<Rightarrow> json list \<Rightarrow> bool" where
  "list_map_ok s xs \<longleftrightarrow> (case list_keys s of None \<Rightarrow> True | Some ks \<Rightarrow> distinct (map (key_values ks) xs))"

definition resolve :: "(def_name \<Rightarrow> schema option) \<Rightarrow> schema \<Rightarrow> schema option" where
  "resolve defs s = (case schRef s of None \<Rightarrow> Some s | Some n \<Rightarrow> defs n)"

definition property_schema :: "schema \<Rightarrow> string \<Rightarrow> schema option" where
  "property_schema s k = (case map_of (schProperties s) k of Some p \<Rightarrow> Some p | None \<Rightarrow> schAdditional s)"

fun conforms :: "(def_name \<Rightarrow> schema option) \<Rightarrow> schema option \<Rightarrow> json \<Rightarrow> bool" where
  "conforms defs s0 (JArray xs) \<longleftrightarrow>
    (case s0 of None \<Rightarrow> True
     | Some s1 \<Rightarrow> (case resolve defs s1 of None \<Rightarrow> False
        | Some s \<Rightarrow> type_ok (schType s) (JArray xs) \<and> list_map_ok s xs \<and> list_all (\<lambda>x. conforms defs (schItems s) x) xs))"
| "conforms defs s0 (JObject kvs) \<longleftrightarrow>
    (case s0 of None \<Rightarrow> True
     | Some s1 \<Rightarrow> (case resolve defs s1 of None \<Rightarrow> False
        | Some s \<Rightarrow> type_ok (schType s) (JObject kvs) \<and> list_all (\<lambda>k. k \<in> fst ` set kvs) (schRequired s) \<and>
            list_all (\<lambda>(k, v). conforms defs (property_schema s k) v) kvs))"
| "conforms defs s0 j \<longleftrightarrow>
    (case s0 of None \<Rightarrow> True
     | Some s1 \<Rightarrow> (case resolve defs s1 of None \<Rightarrow> False | Some s \<Rightarrow> type_ok (schType s) j))"

definition published :: "openapi_env \<Rightarrow> def_name \<Rightarrow> schema option" where
  "published env n = map_option odSchema (map_of (GetOpenAPIDefinitions env) n)"

lemma published_kinds [simp]:
  "published env (Kinds_v1 ''GrafanaResourceDefinition'') = Some (odSchema schema_pkg_apis_kinds_v1_GrafanaResourceDefinition)"
  "published env (Kinds_v1 ''GrafanaResourceDefinitionCondition'') =
     Some (odSchema schema_pkg_apis_kinds_v1_GrafanaResourceDefinitionCondition)"
  "published env (Kinds_v1 ''GrafanaResourceDefinitionNames'') = Some (odSchema schema_pkg_apis_kinds_v1_GrafanaResourceDefinitionNames)"
  "published env (Kinds_v1 ''GrafanaResourceDefinitionSpec'') = Some (odSchema schema_pkg_apis_kinds_v1_GrafanaResourceDefinitionSpec)"
  "published env (Kinds_v1 ''GrafanaResourceDefinitionStatus'') = Some (odSchema schema_pkg_apis_kinds_v1_GrafanaResourceDefinitionStatus)"
  "published env (Kinds_v1 ''GrafanaResourceDefinitionVersion'') = Some (odSchema schema_pkg_apis_kinds_v1_GrafanaResourceDefinitionVersion)"
  "published env (Kinds_v1 ''GrafanaResourceSubresourceHistory'') = Some (odSchema schema_pkg_apis_kinds_v1_GrafanaResourceSubresourceHistory)"
  "published env (Kinds_v1 ''GrafanaResourceSubresourceRef'') = Some (odSchema schema_pkg_apis_kinds_v1_GrafanaResourceSubresourceRef)"
  "published env (Kinds_v1 ''GrafanaResourceSubresourceScale'') = Some (odSchema schema_pkg_apis_kinds_v1_GrafanaResourceSubresourceScale)"
  "published env (Kinds_v1 ''GrafanaResourceSubresourceStatus'') = Some (odSchema schema_pkg_apis_kinds_v1_GrafanaResourceSubresourceStatus)"
  "published env (Kinds_v1 ''GrafanaResourceSubresources'') = Some (odSchema schema_pkg_apis_kinds_v1_GrafanaResourceSubresources)"
  "published env (Meta_v1 ''Time'') = Some (odSchema (schema_pkg_apis_meta_v1_Time env))"
  "published env (Meta_v1 ''ObjectMeta'') = Some (odSchema schema_pkg_apis_meta_v1_ObjectMeta)"
  by (simp_all add: published_def GetOpenAPIDefinitions_def)

lemma conforms_of_type [simp]:
  "conforms defs (Some (of_type [''string''] f d)) j \<longleftrightarrow> (\<exists>s. j = JString s)"
  "conforms defs (Some (of_type [''boolean''] f d)) j \<longleftrightarrow> (\<exists>b. j = JBool b)"
  by (cases j; simp add: resolve_def of_type_def type_ok_def list_map_ok_def list_keys_def property_schema_def)+

lemma conforms_empty_object [simp]: "conforms defs (Some (of_type [''object''] f d)) (JObject [])"
  by (simp add: resolve_def of_type_def type_ok_def)

lemma conforms_anything [simp]: "conforms defs None j"
  by (cases j) simp_all

lemma conforms_ref:
  assumes "defs n = Some s" and "schRef s = None"
  shows "conforms defs (Some (ref_to d n)) j = conforms defs (Some s) j"
  using assms by (cases j) (simp_all add: resolve_def ref_to_def)

lemma conforms_array [simp]:
  "conforms defs (Some (array_of s)) j \<longleftrightarrow> (\<exists>xs. j = JArray xs \<and> list_all (conforms defs (Some s)) xs)"
  by (cases j) (simp_all add: resolve_def array_of_def type_ok_def list_map_ok_def list_keys_def)

lemma conforms_keyed_array:
  "conforms defs (Some (with_extensions [(''x-kubernetes-list-map-keys'', ExtList ks), e] (array_of s))) j \<longleftrightarrow>
    (\<exists>xs. j = JArray xs \<and> list_all (conforms defs (Some s)) xs \<and> distinct (map (key_values ks) xs))"
  by (cases j) (auto simp: resolve_def array_of_def with_extensions_def type_ok_def list_map_ok_def list_keys_def)

lemma property_of_object: "property_schema (object_of props req) k = map_of props k"
  by (cases "map_of props k") (simp_all add: property_schema_def object_of_def)

lemma conforms_object:
  "conforms defs (Some (object_of props req)) (JObject kvs) \<longleftrightarrow>
    list_all (\<lambda>k. k \<in> fst ` set kvs) req \<and> list_all (\<lambda>(k, v). conforms defs (map_of props k) v) kvs"
proof -
  have "resolve defs (object_of props req) = Some (object_of props req)" by (simp add: resolve_def object_of_def)
  then show ?thesis by (simp add: property_of_object) (simp add: object_of_def type_ok_def)
qed

declare conforms.simps [simp del]

lemma conforms_strings [simp]: "list_all (conforms defs (Some (of_type [''string''] f d))) (map JString xs)"
  by (simp add: list_all_iff)

lemma schRef_literals [simp]:
  "schRef (object_of props req) = None" "schRef (of_type t f d) = None"
  by (simp_all add: object_of_def of_type_def)

lemma schRef_published [simp]:
  "schRef (odSchema schema_pkg_apis_kinds_v1_GrafanaResourceDefinition) = None"
  "schRef (odSchema schema_pkg_apis_kinds_v1_GrafanaResourceDefinitionCondition) = None"
  "schRef (odSchema schema_pkg_apis_kinds_v1_GrafanaResourceDefinitionNames) = None"
  "schRef (odSchema schema_pkg_apis_kinds_v1_GrafanaResourceDefinitionSpec) = None"
  "schRef (odSchema schema_pkg_apis_kinds_v1_GrafanaResourceDefinitionStatus) = None"
  "schRef (odSchema schema_pkg_apis_kinds_v1_GrafanaResourceDefinitionVersion) = None"
  "schRef (odSchema schema_pkg_apis_kinds_v1_GrafanaResourceSubresourceHistory) = None"
  "schRef (odSchema schema_pkg_apis_kinds_v1_GrafanaResourceSubresourceRef) = None"
  "schRef (odSchema schema_pkg_apis_kinds_v1_GrafanaResourceSubresourceScale) = None"
  "schRef (odSchema schema_pkg_apis_kinds_v1_GrafanaResourceSubresourceStatus) = None"
  "schRef (odSchema schema_pkg_apis_kinds_v1_GrafanaResourceSubresources) = None"
  "schRef (odSchema schema_pkg_apis_meta_v1_ObjectMeta) = None"
  "schRef (odSchema (schema_pkg_apis_meta_v1_Time env)) = None"
  by (simp_all add: openapi_types)

lemma list_all_omit [simp]:
  "list_all P (omit_string k s) \<longleftrightarrow> (s \<noteq> [] \<longrightarrow> P (k, JString s))"
  "list_all P (omit_false k b) \<longleftrightarrow> (b \<longrightarrow> P (k, JBool True))"
  "list_all P (omit_nil k enc x) \<longleftrightarrow> (\<forall>y. x = Some y \<longrightarrow> P (k, enc y))"
  "list_all P (omit_empty k e y) \<longleftrightarrow> (elems y \<noteq> [] \<longrightarrow> P (k, JArray (map e (elems y))))"
  by (auto simp: omit_string_def omit_false_def omit_nil_def omit_empty_def split: option.split)

section \<open>The structs conform\<close>

lemma names_conform [simp]:
  "conforms (published env) (Some (odSchema schema_pkg_apis_kinds_v1_GrafanaResourceDefinitionNames)) (marshal_Names n)"
  by (simp add: schema_pkg_apis_kinds_v1_GrafanaResourceDefinitionNames_def marshal_Names_def conforms_object)

lemma scale_conforms [simp]:
  "conforms (published env) (Some (odSchema schema_pkg_apis_kinds_v1_GrafanaResourceSubresourceScale)) (marshal_Scale s)"
  by (simp add: schema_pkg_apis_kinds_v1_GrafanaResourceSubresourceScale_def marshal_Scale_def conforms_object)

lemma empty_structs_conform [simp]:
  "conforms (published env) (Some (odSchema schema_pkg_apis_kinds_v1_GrafanaResourceSubresourceStatus)) (JObject [])"
  "conforms (published env) (Some (odSchema schema_pkg_apis_kinds_v1_GrafanaResourceSubresourceRef)) (JObject [])"
  "conforms (published env) (Some (odSchema schema_pkg_apis_kinds_v1_GrafanaResourceSubresourceHistory)) (JObject [])"
  by (simp_all add: schema_pkg_apis_kinds_v1_GrafanaResourceSubresourceStatus_def
      schema_pkg_apis_kinds_v1_GrafanaResourceSubresourceRef_def schema_pkg_apis_kinds_v1_GrafanaResourceSubresourceHistory_def)

lemma subresources_conform [simp]:
  "conforms (published env) (Some (odSchema schema_pkg_apis_kinds_v1_GrafanaResourceSubresources)) (marshal_Subresources s)"
  by (simp add: schema_pkg_apis_kinds_v1_GrafanaResourceSubresources_def marshal_Subresources_def conforms_object conforms_ref)

lemma version_conforms [simp]:
  "conforms (published env) (Some (odSchema schema_pkg_apis_kinds_v1_GrafanaResourceDefinitionVersion)) (marshal_Version v)"
  by (auto simp: schema_pkg_apis_kinds_v1_GrafanaResourceDefinitionVersion_def marshal_Version_def conforms_object conforms_ref)

lemma all_conform: "(\<And>x. conforms defs s (enc x)) \<Longrightarrow> list_all (conforms defs s) (map enc xs)"
  by (simp add: list_all_iff)

lemma slice_json_array: "(\<exists>ys. slice_json enc s = JArray ys \<and> P ys) \<longleftrightarrow> (\<exists>xs. s = Some xs \<and> P (map enc xs))"
  by (cases s) (simp_all add: slice_json_def)

lemma slice_of_Some: "slice_of b xs = Some ys \<longleftrightarrow> ys = xs \<and> (b \<longrightarrow> xs \<noteq> [])"
  by (auto simp: slice_of_def)

lemma spec_conforms:
  "conforms (published env) (Some (odSchema schema_pkg_apis_kinds_v1_GrafanaResourceDefinitionSpec)) (marshal_Spec ns s) \<longleftrightarrow>
    (nilVersions ns \<longrightarrow> sVersions s \<noteq> [])"
proof -
  have "list_all (conforms (published env) (Some (ref_to d (Kinds_v1 ''GrafanaResourceDefinitionVersion'')))) (map marshal_Version vs)"
    for d vs by (intro all_conform) (simp add: conforms_ref)
  then show ?thesis
    by (auto simp: schema_pkg_apis_kinds_v1_GrafanaResourceDefinitionSpec_def marshal_Spec_def conforms_object conforms_ref
        slice_json_array slice_of_Some)
qed

text \<open>What apimachinery says of a time: a string.\<close>

definition time_is_string :: "openapi_env \<Rightarrow> bool" where
  "time_is_string env \<longleftrightarrow> oeType env ''Time'' = [''string'']"

lemma time_conforms:
  assumes "time_is_string env"
  shows "conforms (published env) (Some (ref_to d (Meta_v1 ''Time''))) (time_json je t) \<longleftrightarrow> \<not> IsZero t"
  using assms by (simp add: conforms_ref schema_pkg_apis_meta_v1_Time_def time_is_string_def time_json_def)

lemma condition_conforms:
  assumes "time_is_string env"
  shows "conforms (published env) (Some (ref_to d (Kinds_v1 ''GrafanaResourceDefinitionCondition''))) (marshal_Condition je c) \<longleftrightarrow>
    \<not> IsZero (cLastTransitionTime c)"
  using time_conforms [OF assms]
  by (auto simp: conforms_ref schema_pkg_apis_kinds_v1_GrafanaResourceDefinitionCondition_def marshal_Condition_def conforms_object)

lemma condition_key: "key_values [''type''] (marshal_Condition je c) = [Some (JString (cType c))]"
  by (simp add: marshal_Condition_def)

lemma condition_keys:
  "distinct (map (key_values [''type''] \<circ> marshal_Condition je) cs) \<longleftrightarrow> distinct (map cType cs)"
proof -
  have "map (key_values [''type''] \<circ> marshal_Condition je) cs = map (\<lambda>t. [Some (JString t)]) (map cType cs)"
    by (simp add: condition_key)
  then show ?thesis by (simp only: distinct_map) (auto simp: inj_on_def)
qed

lemma status_conforms:
  assumes "time_is_string env"
  shows "conforms (published env) (Some (odSchema schema_pkg_apis_kinds_v1_GrafanaResourceDefinitionStatus)) (marshal_Status je ns s) \<longleftrightarrow>
    (nilConditions ns \<longrightarrow> stConditions s \<noteq> []) \<and> (nilStored ns \<longrightarrow> stStoredVersions s \<noteq> []) \<and>
    distinct (map cType (stConditions s)) \<and> (\<forall>c \<in> set (stConditions s). \<not> IsZero (cLastTransitionTime c))"
  using condition_conforms [OF assms]
  by (auto simp: schema_pkg_apis_kinds_v1_GrafanaResourceDefinitionStatus_def marshal_Status_def conforms_object conforms_ref
      conforms_keyed_array slice_json_array slice_of_Some condition_keys list_all_iff)

lemma served_conforms:
  assumes "time_is_string env"
  shows "conforms (published env) (Some (ref_to None (Kinds_v1 ''GrafanaResourceDefinition''))) (marshal_GRD je tm ns g) \<longleftrightarrow>
    conforms (published env) (Some (ref_to None (Meta_v1 ''ObjectMeta''))) (jeMeta je (gMeta g)) \<and>
    (nilVersions ns \<longrightarrow> sVersions (gSpec g) \<noteq> []) \<and> (nilConditions ns \<longrightarrow> conditions g \<noteq> []) \<and>
    (nilStored ns \<longrightarrow> stStoredVersions (gStatus g) \<noteq> []) \<and> distinct (map cType (conditions g)) \<and>
    (\<forall>c \<in> set (conditions g). \<not> IsZero (cLastTransitionTime c))"
  using spec_conforms [of env ns "gSpec g"] status_conforms [OF assms, of je ns "gStatus g"]
  by (auto simp: conforms_ref schema_pkg_apis_kinds_v1_GrafanaResourceDefinition_def marshal_GRD_def conforms_object)

text \<open>
  C36. Which definitions are served in the form that is published: the document of a definition
  conforms to the schema exactly when its versions, conditions and stored versions are not nil, its
  conditions are a map by type with transition times that are set, and its metadata conforms.
\<close>

theorem served_form_is_published_form:
  assumes "time_is_string env"
  shows "conforms (published env) (Some (ref_to None (Kinds_v1 ''GrafanaResourceDefinition''))) (marshal_GRD je tm ns g) \<longleftrightarrow>
    conforms (published env) (Some (ref_to None (Meta_v1 ''ObjectMeta''))) (jeMeta je (gMeta g)) \<and>
    (nilVersions ns \<longrightarrow> sVersions (gSpec g) \<noteq> []) \<and> (nilConditions ns \<longrightarrow> conditions g \<noteq> []) \<and>
    (nilStored ns \<longrightarrow> stStoredVersions (gStatus g) \<noteq> []) \<and> distinct (map cType (conditions g)) \<and>
    (\<forall>c \<in> set (conditions g). \<not> IsZero (cLastTransitionTime c))"
  by (rule served_conforms [OF assms])

section \<open>When a definition becomes publishable\<close>

definition dated :: "GRD \<Rightarrow> bool" where
  "dated g \<longleftrightarrow> (\<forall>c \<in> set (conditions g). \<not> IsZero (cLastTransitionTime c))"

lemma set_upd_first: "set (upd_first P f xs) \<subseteq> set xs \<union> f ` set xs"
  by (induction xs) (auto split: if_splits)

lemma dated_Set: "dated g \<Longrightarrow> \<not> IsZero now \<Longrightarrow> dated (SetGRDCondition now g c)"
proof (cases "FindGRDCondition g (cType c)")
  case None
  then show "dated g \<Longrightarrow> \<not> IsZero now \<Longrightarrow> ?thesis" by (auto simp: dated_def SetGRDCondition_def Let_def)
next
  case (Some e)
  assume d: "dated g" and n: "\<not> IsZero now"
  from Some have "e \<in> set (conditions g)" by (auto simp: FindGRDCondition_def find_Some_iff)
  with d have e: "\<not> IsZero (cLastTransitionTime e)" by (simp add: dated_def)
  show ?thesis
    using d n e Some by (auto simp: dated_def SetGRDCondition_def Let_def dest!: set_upd_first [THEN subsetD])
qed

lemma upd_first_empty [simp]: "upd_first P f xs = [] \<longleftrightarrow> xs = []"
  by (cases xs) simp_all

lemma conditions_Set_nonempty [simp]: "conditions (SetGRDCondition now g c) \<noteq> []"
  by (cases "FindGRDCondition g (cType c)") (auto simp: SetGRDCondition_def Let_def FindGRDCondition_def)

lemma stored_Set [simp]: "stStoredVersions (gStatus (SetGRDCondition now g c)) = stStoredVersions (gStatus g)"
  by (simp add: SetGRDCondition_def Let_def split: option.split)

text \<open>The status of a new definition is zero, its conditions are nil: its document has \<open>null\<close> for an array.\<close>

lemma created_form_is_not_published_form:
  assumes "time_is_string env" and "gStatus g = gStatus (grd_PrepareForCreate kg)" and "nilConditions ns"
  shows "\<not> conforms (published env) (Some (ref_to None (Kinds_v1 ''GrafanaResourceDefinition''))) (marshal_GRD je tm ns g)"
proof -
  have "conditions g = []"
    by (simp add: assms(2) grd_PrepareForCreate_def record_stored_def empty_status_def split: option.split)
  then show ?thesis using assms(3) by (simp add: served_conforms [OF assms(1)])
qed

text \<open>
  C37. The naming controller makes a definition publishable: what its sync sends for a definition
  with versions and stored versions, whose conditions so far are a map by type with times that are
  set, conforms to the published schema, whichever slices are nil. Before that, the document of a
  new definition does not (\<open>created_form_is_not_published_form\<close>).
\<close>

theorem naming_makes_publishable:
  assumes "grd \<in> set (status_updates (fst (naming_sync nenv key)))" and "lister_get (ne_lister nenv) key = Inr inp"
    and "unique_conditions inp" and "dated inp" and "\<not> IsZero (ne_clock nenv 0)" and "\<not> IsZero (ne_clock nenv 1)"
    and "sVersions (gSpec inp) \<noteq> []" and "stStoredVersions (gStatus inp) \<noteq> []" and "time_is_string env"
    and "conforms (published env) (Some (ref_to None (Meta_v1 ''ObjectMeta''))) (jeMeta je (gMeta inp))"
  shows "conforms (published env) (Some (ref_to None (Kinds_v1 ''GrafanaResourceDefinition''))) (marshal_GRD je tm ns grd)"
proof -
  from naming_sync_update [OF assms(1)] assms(2) obtain R K where g: "grd = naming_update nenv inp R K"
    by (metis sum.inject(2))
  have "unique_conditions grd"
    unfolding g naming_update_eq Let_def
    by (intro unique_conditions_Set) (use assms(3) in \<open>simp add: unique_conditions_def\<close>)
  moreover have "dated grd"
    unfolding g naming_update_eq Let_def
    by (intro dated_Set) (use assms(4,5,6) in \<open>simp_all add: dated_def\<close>)
  moreover have "conditions grd \<noteq> []" "stStoredVersions (gStatus grd) \<noteq> []"
    using assms(8) unfolding g naming_update_eq Let_def by (simp_all add: set_accepted_def)
  ultimately show ?thesis
    using assms(7,10) g by (simp add: served_conforms [OF assms(9)] naming_update_sel unique_conditions_def dated_def)
qed

section \<open>Witnesses\<close>

definition sample_openapi :: openapi_env where
  "sample_openapi = \<lparr>oeType = (\<lambda>_. [''string'']), oeFormat = (\<lambda>_. ''date-time'')\<rparr>"

definition sample_json :: json_env where
  "sample_json = \<lparr>jeTime = (\<lambda>t. if t = 5 then ''5'' else ''?''), jeParseTime = (\<lambda>s. if s = ''5'' then Some 5 else None),
     jeMeta = (\<lambda>m. JObject [(''name'', JString (mName m))]),
     jeParseMeta = (\<lambda>j. if j = JObject [(''name'', JString ''ds.g.io'')] then Some (sample_meta ''ds.g.io'') else None)\<rparr>"

abbreviation no_type_meta :: TypeMeta where "no_type_meta \<equiv> \<lparr>tmKind = [], tmAPIVersion = []\<rparr>"
abbreviation all_nil :: nils where "all_nil \<equiv> \<lparr>nilVersions = True, nilConditions = True, nilStored = True\<rparr>"

definition categorized :: GRD where
  "categorized = (let g = sample_grd ''ds'' ''D'' ''g.io'' in
     g\<lparr>gSpec := (gSpec g)\<lparr>sNames := (sNames (gSpec g))\<lparr>Categories := Some []\<rparr>\<rparr>\<rparr>)"


lemma sample_meta_conforms:
  "conforms (published sample_openapi) (Some (ref_to None (Meta_v1 ''ObjectMeta''))) (jeMeta sample_json m)"
  by (simp add: conforms_ref sample_json_def schema_pkg_apis_meta_v1_ObjectMeta_def conforms_object)

lemma sample_time_string: "time_is_string sample_openapi"
  by (simp add: time_is_string_def sample_openapi_def)

theorem served_form_is_published_form_witness:
  "\<not> conforms (published sample_openapi) (Some (ref_to None (Kinds_v1 ''GrafanaResourceDefinition'')))
     (marshal_GRD sample_json no_type_meta all_nil (sample_grd ''ds'' ''D'' ''g.io''))"
  by (simp add: served_form_is_published_form [OF sample_time_string] sample_grd_def empty_status_def)

definition stored_sample :: GRD where
  "stored_sample = (let g = sample_grd ''ds'' ''D'' ''g.io'' in g\<lparr>gStatus := (gStatus g)\<lparr>stStoredVersions := [''v1'']\<rparr>\<rparr>)"

lemma stored_sync:
  "\<exists>grd. grd \<in> set (status_updates (fst (naming_sync (sample_env [stored_sample]) ''ds.g.io'')))"
  by (simp add: stored_sample_def Let_def naming_sync_def sample_env_def calculateNamesAndConditions_def
      getAcceptedNamesForGroup_def decide_names_def claim_name_def
      claim_short_names_def equalToAcceptedOrFresh_def sample_grd_def sample_names_def sample_meta_def
      empty_status_def empty_names_def cached_item_def resource_names_def kind_names_def)

theorem naming_makes_publishable_witness:
  "\<exists>grd. grd \<in> set (status_updates (fst (naming_sync (sample_env [stored_sample]) ''ds.g.io''))) \<and>
     conforms (published sample_openapi) (Some (ref_to None (Kinds_v1 ''GrafanaResourceDefinition'')))
       (marshal_GRD sample_json no_type_meta all_nil grd)"
proof -
  obtain grd where g: "grd \<in> set (status_updates (fst (naming_sync (sample_env [stored_sample]) ''ds.g.io'')))"
    using stored_sync by blast
  moreover have "conforms (published sample_openapi) (Some (ref_to None (Kinds_v1 ''GrafanaResourceDefinition'')))
       (marshal_GRD sample_json no_type_meta all_nil grd)"
    by (rule naming_makes_publishable [OF g _ _ _ _ _ _ _ sample_time_string sample_meta_conforms, of stored_sample])
      (simp_all add: sample_env_def stored_sample_def Let_def sample_grd_def sample_meta_def empty_status_def
        unique_conditions_def dated_def IsZero_def)
  ultimately show ?thesis by blast
qed

end
