(* ===== verification/Wiring.thy ===== *)
theory Wiring
  imports Handler FilePathStorage
begin

text \<open>
  How the server is put together: \<open>cmd/server/start.go\<close>, \<open>cmd/server/options/options.go\<close> and
  \<open>apiserver/apiserver.go\<close>. Options become a configuration, the configuration is completed, and
  \<open>New\<close> builds the server: which storage backs definitions and defined resources, what is
  mounted where, which controllers run.

  The Kubernetes objects in between are opaque; each call on them that can fail is a field of
  \<open>wiring_env\<close> with its error, in the order of the code. A REST options getter is its backend and
  its codec.
\<close>

section \<open>Options and configuration\<close>

datatype codec = UnstructuredJSONScheme | LegacyV1Codec

datatype rest_getter = FileGetter string codec | EtcdGetter "string list" codec

record server_options =
  oEtcdServers :: "string list option"
  oCoreAPIKubeconfig :: "string option"

record generic_config =
  cfgRESTOptionsGetter :: "rest_getter option"
  cfgVersion :: "(string \<times> string) option"
  cfgEnableDiscovery :: bool
  cfgFakeClients :: bool

record 'k extra_config =
  xRESTOptionsGetter :: "rest_getter option"
  xMasterCount :: int
  xRemoteKubeConfig :: "'k option"

record 'k server_config =
  scGeneric :: generic_config
  scExtra :: "'k extra_config"

text \<open>\<open>InClusterConfig\<close> tells the error of not running in a cluster from the others.\<close>

datatype 'k in_cluster = InCluster 'k | NotInCluster | InClusterErr go_error

record 'k wiring_env =
  weSelfSigned :: "go_error option"
  weServerRunApply :: "generic_config \<Rightarrow> go_error + generic_config"
  weRecommendedApply :: "server_options \<Rightarrow> generic_config \<Rightarrow> go_error + generic_config"
  weAPIEnablementApply :: "generic_config \<Rightarrow> go_error + generic_config"
  weLoadKubeconfig :: "string \<Rightarrow> go_error + 'k"
  weInCluster :: "'k in_cluster"
  weEtcdApply :: "string list \<Rightarrow> codec \<Rightarrow> go_error + rest_getter option \<times> bool"
  weServerRunErrors :: "go_error list"
  weRecommendedErrors :: "server_options \<Rightarrow> go_error list"
  weAPIEnablementErrors :: "go_error list"
  weNewGeneric :: "go_error option"
  weRegisterSignal :: "go_error option"
  weResourceEnabled :: bool
  weNewREST :: "rest_getter option \<Rightarrow> go_error option"
  weInstallAPIGroup :: "go_error option"
  weLoopbackClient :: "go_error option"
  weNewHandler :: "rest_getter option \<Rightarrow> go_error option"
  weHostPort :: "go_error + int"
  weRemoteClient :: "'k \<Rightarrow> go_error option"

text \<open>
  \<open>Validate\<close>: the receiver is a copy, but the options it clears are behind a pointer, so that
  clearing etcd when it has no servers outlives the call. \<open>NewAggregate\<close> gives nil for no errors.
\<close>

definition options_Validate :: "'k wiring_env \<Rightarrow> server_options \<Rightarrow> go_error list \<times> server_options" where
  "options_Validate env opts =
    (let o1 = (if oEtcdServers opts = Some [] then opts\<lparr>oEtcdServers := None\<rparr> else opts)
     in (weServerRunErrors env @ weRecommendedErrors env o1 @ weAPIEnablementErrors env, o1))"

definition options_Complete :: "server_options \<Rightarrow> go_error option" where
  "options_Complete opts = None"

definition getCoreAPIRESTConfig :: "'k wiring_env \<Rightarrow> server_options \<Rightarrow> go_error + 'k option" where
  "getCoreAPIRESTConfig env opts =
    (case oCoreAPIKubeconfig opts of
       Some path \<Rightarrow>
         if length path > 0
         then (case weLoadKubeconfig env path of Inl e \<Rightarrow> Inl e | Inr k \<Rightarrow> Inr (Some k))
         else (case weInCluster env of InCluster k \<Rightarrow> Inr (Some k) | NotInCluster \<Rightarrow> Inr None | InClusterErr e \<Rightarrow> Inl e)
     | None \<Rightarrow>
         (case weInCluster env of InCluster k \<Rightarrow> Inr (Some k) | NotInCluster \<Rightarrow> Inr None | InClusterErr e \<Rightarrow> Inl e))"

text \<open>The check that only the getter was set compares the whole configuration (\<open>True\<close>: it was).\<close>

definition NewGRDRESTOptionsGetter :: "'k wiring_env \<Rightarrow> string list \<Rightarrow> go_error + rest_getter" where
  "NewGRDRESTOptionsGetter env servers =
    (case weEtcdApply env servers UnstructuredJSONScheme of
       Inl e \<Rightarrow> Inl e
     | Inr (None, _) \<Rightarrow> Inl (PlainErr ''server.Config RESTOptionsGetter should not be nil'')
     | Inr (Some g, only) \<Rightarrow>
         if \<not> only then Inl (PlainErr ''only RESTOptionsGetter should have been mutated in server.Config'') else Inr g)"

text \<open>
  \<open>Config\<close>: without CoreAPI options the informers and the client of the generic configuration are
  fakes; \<open>MasterCount\<close> keeps its zero value, no caller sets it.
\<close>

definition options_Config :: "'k wiring_env \<Rightarrow> server_options \<Rightarrow> go_error + 'k server_config" where
  "options_Config env opts =
    (case weSelfSigned env of
       Some _ \<Rightarrow> Inl (PlainErr ''error creating self-signed certificates'')
     | None \<Rightarrow>
    (case weServerRunApply env \<lparr>cfgRESTOptionsGetter = None, cfgVersion = None, cfgEnableDiscovery = False,
       cfgFakeClients = (oCoreAPIKubeconfig opts = None)\<rparr> of
       Inl e \<Rightarrow> Inl e
     | Inr c1 \<Rightarrow>
    (case weRecommendedApply env opts c1 of
       Inl e \<Rightarrow> Inl e
     | Inr c2 \<Rightarrow>
    (case weAPIEnablementApply env c2 of
       Inl e \<Rightarrow> Inl e
     | Inr c3 \<Rightarrow>
    (case getCoreAPIRESTConfig env opts of
       Inl e \<Rightarrow> Inl e
     | Inr kube \<Rightarrow>
    (case (case oEtcdServers opts of
             None \<Rightarrow> Inr None
           | Some servers \<Rightarrow>
               (case NewGRDRESTOptionsGetter env servers of Inl e \<Rightarrow> Inl e | Inr g \<Rightarrow> Inr (Some g))) of
       Inl e \<Rightarrow> Inl e
     | Inr getter \<Rightarrow>
         Inr \<lparr>scGeneric = c3, scExtra = \<lparr>xRESTOptionsGetter = getter, xMasterCount = 0, xRemoteKubeConfig = kube\<rparr>\<rparr>))))))"

definition default_file_path :: string where "default_file_path = ''/tmp/grafana-apiserver''"

text \<open>\<open>Complete\<close>: without a getter for defined resources, both kinds go to files.\<close>

definition config_Complete :: "'k server_config \<Rightarrow> 'k server_config" where
  "config_Complete cfg =
    (let g1 = (scGeneric cfg)\<lparr>cfgEnableDiscovery := True\<rparr>;
         g2 = (if cfgVersion g1 = None then g1\<lparr>cfgVersion := Some (''0'', ''1'')\<rparr> else g1)
     in if xRESTOptionsGetter (scExtra cfg) = None
        then cfg\<lparr>scGeneric := g2\<lparr>cfgRESTOptionsGetter :=
                     Some (FileGetter (NewRESTOptionsGetter default_file_path) LegacyV1Codec)\<rparr>,
                 scExtra := (scExtra cfg)\<lparr>xRESTOptionsGetter :=
                     Some (FileGetter (NewRESTOptionsGetter default_file_path) UnstructuredJSONScheme)\<rparr>\<rparr>
        else cfg\<lparr>scGeneric := g2\<rparr>)"

section \<open>The server\<close>

datatype controller =
    AutoRegistration | GRDRegistration | NamingC | EstablishingC | ApiApprovalC | FinalizingC | DiscoveryC

record server =
  svStorage :: "(string \<times> rest_getter option) list"
  svHandlerGetter :: "rest_getter option"
  svMasterCount :: int
  svMux :: "string list"
  svHooks :: "string list"
  svControllers :: "(controller \<times> nat) list"
  svRegistrationPort :: "int option"

text \<open>
  \<open>New\<close>: the number of a controller is the number of its workers. The aggregated discovery
  manager is left to \<open>Discovery\<close>; the third hook only closes the channel that \<open>New\<close> registered, when
  the informer has synced.
\<close>

definition server_New :: "'k wiring_env \<Rightarrow> 'k server_config \<Rightarrow> go_error + server" where
  "server_New env c =
    (case weNewGeneric env of Some e \<Rightarrow> Inl e | None \<Rightarrow>
    (case weRegisterSignal env of Some e \<Rightarrow> Inl e | None \<Rightarrow>
    (let getter = cfgRESTOptionsGetter (scGeneric c) in
     case (if weResourceEnabled env
           then (case weNewREST env getter of
                   Some e \<Rightarrow> Inl e
                 | None \<Rightarrow> Inr [(''grafanaresourcedefinitions'', getter), (''grafanaresourcedefinitions/status'', getter)])
           else Inr []) of Inl e \<Rightarrow> Inl e | Inr storage \<Rightarrow>
    (case weInstallAPIGroup env of Some e \<Rightarrow> Inl e | None \<Rightarrow>
    (case weLoopbackClient env of Some _ \<Rightarrow> Inl (PlainErr ''failed to create clientset'') | None \<Rightarrow>
    (case weNewHandler env (xRESTOptionsGetter (scExtra c)) of Some e \<Rightarrow> Inl e | None \<Rightarrow>
    (case weHostPort env of Inl e \<Rightarrow> Inl e | Inr hostPort \<Rightarrow>
    (case (case xRemoteKubeConfig (scExtra c) of
             None \<Rightarrow> Inr []
           | Some k \<Rightarrow> (case weRemoteClient env k of
                          Some _ \<Rightarrow> Inl (PlainErr ''failed to create clientset'')
                        | None \<Rightarrow> Inr [(AutoRegistration, 5), (GRDRegistration, 5)])) of
       Inl e \<Rightarrow> Inl e
     | Inr registration \<Rightarrow>
         Inr \<lparr>svStorage = storage, svHandlerGetter = xRESTOptionsGetter (scExtra c),
              svMasterCount = xMasterCount (scExtra c), svMux = [''/apis'', ''/apis/''],
              svHooks = [''start-grafana-apiserver-informers'', ''start-grafana-apiserver-controllers'', ''grd-informer-synced''],
              svControllers = registration @
                [(NamingC, 1), (EstablishingC, 1), (ApiApprovalC, 5), (FinalizingC, 5), (DiscoveryC, 1)],
              svRegistrationPort = (if registration = [] then None else Some hostPort)\<rparr>))))))))"

definition options_Run :: "'k wiring_env \<Rightarrow> server_options \<Rightarrow> go_error + server" where
  "options_Run env opts =
    (case options_Config env opts of Inl e \<Rightarrow> Inl e | Inr config \<Rightarrow> server_New env (config_Complete config))"

text \<open>The command: complete, validate, run.\<close>

definition NewServerCommand_RunE :: "'k wiring_env \<Rightarrow> server_options \<Rightarrow> go_error list + server" where
  "NewServerCommand_RunE env opts =
    (case options_Complete opts of
       Some e \<Rightarrow> Inl [e]
     | None \<Rightarrow>
         (case options_Validate env opts of
            (e # es, _) \<Rightarrow> Inl (e # es)
          | ([], o1) \<Rightarrow> (case options_Run env o1 of Inl e \<Rightarrow> Inl [e] | Inr srv \<Rightarrow> Inr srv)))"

section \<open>Properties\<close>

lemma command_config:
  assumes "NewServerCommand_RunE env opts = Inr srv"
  obtains config where "options_Config env (snd (options_Validate env opts)) = Inr config"
    and "server_New env (config_Complete config) = Inr srv"
  using assms
  by (auto simp: NewServerCommand_RunE_def options_Complete_def options_Run_def split: prod.splits list.splits sum.splits)

lemma server_New_parts:
  assumes "server_New env c = Inr srv"
  shows "svMasterCount srv = xMasterCount (scExtra c) \<and> svHandlerGetter srv = xRESTOptionsGetter (scExtra c) \<and>
    snd ` set (svStorage srv) \<subseteq> {cfgRESTOptionsGetter (scGeneric c)} \<and>
    svControllers srv = (case xRemoteKubeConfig (scExtra c) of None \<Rightarrow> [] | Some _ \<Rightarrow> [(AutoRegistration, 5), (GRDRegistration, 5)]) @
      [(NamingC, 1), (EstablishingC, 1), (ApiApprovalC, 5), (FinalizingC, 5), (DiscoveryC, 1)]"
  using assms
  by (auto simp: server_New_def Let_def split: option.splits sum.splits if_splits)

lemma options_Config_parts:
  assumes "options_Config env opts = Inr c"
  shows "xMasterCount (scExtra c) = 0 \<and> getCoreAPIRESTConfig env opts = Inr (xRemoteKubeConfig (scExtra c)) \<and>
    (xRESTOptionsGetter (scExtra c) = None \<longleftrightarrow> oEtcdServers opts = None)"
  using assms
  by (auto simp: options_Config_def split: option.splits sum.splits)

lemma config_Complete_parts:
  "xMasterCount (scExtra (config_Complete c)) = xMasterCount (scExtra c)"
  "xRemoteKubeConfig (scExtra (config_Complete c)) = xRemoteKubeConfig (scExtra c)"
  "xRESTOptionsGetter (scExtra c) = None \<Longrightarrow>
    xRESTOptionsGetter (scExtra (config_Complete c)) = Some (FileGetter default_file_path UnstructuredJSONScheme) \<and>
    cfgRESTOptionsGetter (scGeneric (config_Complete c)) = Some (FileGetter default_file_path LegacyV1Codec)"
  by (simp_all add: config_Complete_def NewRESTOptionsGetter_def default_file_path_def Let_def)

text \<open>
  The standalone server: when etcd has no servers, there is no kubeconfig and the process
  does not run in a cluster, a server that the command builds keeps definitions and defined
  resources in files under one root, with different codecs, and runs the five controllers of
  definitions and no registration; names are granted by a single worker.
\<close>

theorem standalone_server_wiring:
  assumes "NewServerCommand_RunE env opts = Inr srv"
    and "oEtcdServers opts = None \<or> oEtcdServers opts = Some []"
    and "oCoreAPIKubeconfig opts = None \<or> oCoreAPIKubeconfig opts = Some []" and "weInCluster env = NotInCluster"
  shows "svHandlerGetter srv = Some (FileGetter default_file_path UnstructuredJSONScheme) \<and>
    snd ` set (svStorage srv) \<subseteq> {Some (FileGetter default_file_path LegacyV1Codec)} \<and>
    svControllers srv = [(NamingC, 1), (EstablishingC, 1), (ApiApprovalC, 5), (FinalizingC, 5), (DiscoveryC, 1)]"
proof -
  let ?o = "snd (options_Validate env opts)"
  obtain config where c: "options_Config env ?o = Inr config" "server_New env (config_Complete config) = Inr srv"
    using assms(1) by (rule command_config)
  have o: "oEtcdServers ?o = None" "oCoreAPIKubeconfig ?o = oCoreAPIKubeconfig opts"
    using assms(2) by (auto simp: options_Validate_def Let_def)
  have "getCoreAPIRESTConfig env ?o = Inr None"
    using assms(3,4) o(2) by (auto simp: getCoreAPIRESTConfig_def)
  then have "xRemoteKubeConfig (scExtra config) = None" "xRESTOptionsGetter (scExtra config) = None"
    using options_Config_parts [OF c(1)] o(1) by simp_all
  then show ?thesis
    using server_New_parts [OF c(2)] config_Complete_parts [of config] by simp
qed

text \<open>
  The command never builds a highly available server: \<open>MasterCount\<close> is zero in every server it
  builds, so the five seconds that establishing is to wait in a cluster of several servers are
  never waited.
\<close>

theorem establishing_is_never_delayed:
  assumes "NewServerCommand_RunE env opts = Inr srv" and "he_masterCount henv = svMasterCount srv"
  shows "set (snd (handler_updateGrafanaResourceDefinition henv oldGRD newGRD st)) \<subseteq> {QAddAfter (grd_name newGRD) 0}"
proof -
  obtain config where c: "options_Config env (snd (options_Validate env opts)) = Inr config"
    "server_New env (config_Complete config) = Inr srv"
    using assms(1) by (rule command_config)
  have "he_masterCount henv = 0"
    using assms(2) server_New_parts [OF c(2)] options_Config_parts [OF c(1)] config_Complete_parts(1) [of config] by simp
  then show ?thesis
    by (auto simp: handler_updateGrafanaResourceDefinition_def establish_QueueGRD_def Let_def split: if_splits)
qed

definition sample_wiring :: "unit wiring_env" where
  "sample_wiring = \<lparr>weSelfSigned = None, weServerRunApply = Inr, weRecommendedApply = (\<lambda>_. Inr), weAPIEnablementApply = Inr,
     weLoadKubeconfig = (\<lambda>_. Inr ()), weInCluster = NotInCluster, weEtcdApply = (\<lambda>s c. Inr (Some (EtcdGetter s c), True)),
     weServerRunErrors = [], weRecommendedErrors = (\<lambda>_. []), weAPIEnablementErrors = [], weNewGeneric = None,
     weRegisterSignal = None, weResourceEnabled = True, weNewREST = (\<lambda>_. None), weInstallAPIGroup = None,
     weLoopbackClient = None, weNewHandler = (\<lambda>_. None), weHostPort = Inr 6443, weRemoteClient = (\<lambda>_. None)\<rparr>"

definition standalone :: server_options where
  "standalone = \<lparr>oEtcdServers = Some [], oCoreAPIKubeconfig = None\<rparr>"

lemma sample_server:
  "NewServerCommand_RunE sample_wiring standalone = Inr (projr (NewServerCommand_RunE sample_wiring standalone))"
  by (simp add: NewServerCommand_RunE_def options_Complete_def options_Validate_def options_Run_def options_Config_def
      config_Complete_def server_New_def getCoreAPIRESTConfig_def sample_wiring_def standalone_def Let_def)

theorem standalone_server_wiring_witness:
  "svControllers (projr (NewServerCommand_RunE sample_wiring standalone)) =
    [(NamingC, 1), (EstablishingC, 1), (ApiApprovalC, 5), (FinalizingC, 5), (DiscoveryC, 1)]"
  using standalone_server_wiring [OF sample_server] by (simp add: standalone_def sample_wiring_def)

theorem establishing_is_never_delayed_witness:
  "set (snd (handler_updateGrafanaResourceDefinition ((sample_handler_env [])\<lparr>he_masterCount :=
      svMasterCount (projr (NewServerCommand_RunE sample_wiring standalone))\<rparr>)
      (sample_grd ''ds'' ''D'' ''g.io'') (sample_grd ''ds'' ''D'' ''g.io'') NewGrafanaResourceDefinitionHandler))
    \<subseteq> {QAddAfter (grd_name (sample_grd ''ds'' ''D'' ''g.io'')) 0}"
  by (rule establishing_is_never_delayed [OF sample_server]) simp

end
