(* ===== verification/Informers.thy ===== *)
theory Informers
  imports Wiring
begin

text \<open>
  The generated informer factory and lister, \<open>client/informers/externalversions\<close> and
  \<open>client/listers/kinds/v1\<close>, which feed every controller: one informer per type, shared by all who
  ask; \<open>Start\<close> runs in a goroutine each informer that was asked for and not started yet; \<open>Shutdown\<close>
  forbids further starts and waits for the goroutines.

  An informer is client-go's; here it is the record of how it is built, and its identity is its
  place in \<open>fHeap\<close>. Every operation holds the lock of the factory and is one step, but for the
  wait of \<open>Shutdown\<close>. \<open>fRuns\<close> and \<open>fReturned\<close> record history and decide nothing.
\<close>

section \<open>Informers of definitions\<close>

record ('o, 'l, 'w) client =
  clList :: "'o \<Rightarrow> 'l"
  clWatch :: "'o \<Rightarrow> 'w"

record ('o, 'l, 'w) shared_informer =
  siListFunc :: "'o \<Rightarrow> 'l"
  siWatchFunc :: "'o \<Rightarrow> 'w"
  siObject :: string
  siResync :: int
  siIndexers :: "string list"

definition GRD_type :: string where "GRD_type = ''GrafanaResourceDefinition''"

definition tweaked :: "('o \<Rightarrow> 'o) option \<Rightarrow> 'o \<Rightarrow> 'o" where
  "tweaked tweakListOptions options = (case tweakListOptions of None \<Rightarrow> options | Some f \<Rightarrow> f options)"

definition NewFilteredGrafanaResourceDefinitionInformer ::
  "('o, 'l, 'w) client \<Rightarrow> int \<Rightarrow> string list \<Rightarrow> ('o \<Rightarrow> 'o) option \<Rightarrow> ('o, 'l, 'w) shared_informer" where
  "NewFilteredGrafanaResourceDefinitionInformer client resyncPeriod indexers tweakListOptions =
    \<lparr>siListFunc = (\<lambda>options. clList client (tweaked tweakListOptions options)),
     siWatchFunc = (\<lambda>options. clWatch client (tweaked tweakListOptions options)),
     siObject = GRD_type, siResync = resyncPeriod, siIndexers = indexers\<rparr>"

definition NewGrafanaResourceDefinitionInformer ::
  "('o, 'l, 'w) client \<Rightarrow> int \<Rightarrow> string list \<Rightarrow> ('o, 'l, 'w) shared_informer" where
  "NewGrafanaResourceDefinitionInformer client resyncPeriod indexers =
    NewFilteredGrafanaResourceDefinitionInformer client resyncPeriod indexers None"

definition defaultInformer ::
  "('o \<Rightarrow> 'o) option \<Rightarrow> ('o, 'l, 'w) client \<Rightarrow> int \<Rightarrow> ('o, 'l, 'w) shared_informer" where
  "defaultInformer tweakListOptions client resyncPeriod =
    NewFilteredGrafanaResourceDefinitionInformer client resyncPeriod [''namespace''] tweakListOptions"

section \<open>The factory\<close>

record ('o, 'l, 'w) factory =
  fClient :: "('o, 'l, 'w) client"
  fNamespace :: string
  fTweak :: "('o \<Rightarrow> 'o) option"
  fDefaultResync :: int
  fCustomResync :: "string \<rightharpoonup> int"
  fInformers :: "(string \<times> nat) list"
  fStarted :: "string set"
  fWg :: nat
  fShuttingDown :: bool
  fHeap :: "('o, 'l, 'w) shared_informer list"
  fRunning :: "nat list"
  fWaiting :: nat
  fRuns :: "nat list"
  fReturned :: bool

type_synonym ('o, 'l, 'w) factory_option = "('o, 'l, 'w) factory \<Rightarrow> ('o, 'l, 'w) factory"

definition WithCustomResyncConfig :: "(string \<times> int) list \<Rightarrow> ('o, 'l, 'w) factory_option" where
  "WithCustomResyncConfig resyncConfig f =
    fold (\<lambda>(k, v) f. f\<lparr>fCustomResync := (fCustomResync f)(k \<mapsto> v)\<rparr>) resyncConfig f"

definition WithTweakListOptions :: "('o \<Rightarrow> 'o) option \<Rightarrow> ('o, 'l, 'w) factory_option" where
  "WithTweakListOptions tweakListOptions f = f\<lparr>fTweak := tweakListOptions\<rparr>"

definition WithNamespace :: "string \<Rightarrow> ('o, 'l, 'w) factory_option" where
  "WithNamespace namespace f = f\<lparr>fNamespace := namespace\<rparr>"

definition NewSharedInformerFactoryWithOptions ::
  "('o, 'l, 'w) client \<Rightarrow> int \<Rightarrow> ('o, 'l, 'w) factory_option list \<Rightarrow> ('o, 'l, 'w) factory" where
  "NewSharedInformerFactoryWithOptions client defaultResync options =
    fold (\<lambda>opt factory. opt factory) options
      \<lparr>fClient = client, fNamespace = [], fTweak = None, fDefaultResync = defaultResync, fCustomResync = Map.empty,
       fInformers = [], fStarted = {}, fWg = 0, fShuttingDown = False, fHeap = [], fRunning = [], fWaiting = 0,
       fRuns = [], fReturned = False\<rparr>"

definition NewSharedInformerFactory :: "('o, 'l, 'w) client \<Rightarrow> int \<Rightarrow> ('o, 'l, 'w) factory" where
  "NewSharedInformerFactory client defaultResync = NewSharedInformerFactoryWithOptions client defaultResync []"

definition NewFilteredSharedInformerFactory ::
  "('o, 'l, 'w) client \<Rightarrow> int \<Rightarrow> string \<Rightarrow> ('o \<Rightarrow> 'o) option \<Rightarrow> ('o, 'l, 'w) factory" where
  "NewFilteredSharedInformerFactory client defaultResync namespace tweakListOptions =
    NewSharedInformerFactoryWithOptions client defaultResync
      [WithNamespace namespace, WithTweakListOptions tweakListOptions]"

definition InformerFor ::
  "string \<Rightarrow> (('o, 'l, 'w) client \<Rightarrow> int \<Rightarrow> ('o, 'l, 'w) shared_informer) \<Rightarrow> ('o, 'l, 'w) factory \<Rightarrow>
   nat \<times> ('o, 'l, 'w) factory" where
  "InformerFor informerType newFunc f =
    (case map_of (fInformers f) informerType of
       Some informer \<Rightarrow> (informer, f)
     | None \<Rightarrow>
         let resyncPeriod = (case fCustomResync f informerType of Some r \<Rightarrow> r | None \<Rightarrow> fDefaultResync f);
             informer = length (fHeap f)
         in (informer, f\<lparr>fHeap := fHeap f @ [newFunc (fClient f) resyncPeriod],
                         fInformers := fInformers f @ [(informerType, informer)]\<rparr>))"

text \<open>\<open>f.Kinds().V1().GrafanaResourceDefinitions().Informer()\<close>; the namespace is handed down to nobody.\<close>

definition grd_Informer :: "('o, 'l, 'w) factory \<Rightarrow> nat \<times> ('o, 'l, 'w) factory" where
  "grd_Informer f = InformerFor GRD_type (defaultInformer (fTweak f)) f"

definition ForResource ::
  "string \<times> string \<times> string \<Rightarrow> ('o, 'l, 'w) factory \<Rightarrow> (go_error + nat) \<times> ('o, 'l, 'w) factory" where
  "ForResource resource f =
    (if resource = (''kinds.grafana.com'', ''v1'', ''grafanaresourcedefinitions'')
     then (let (informer, f1) = grd_Informer f in (Inr informer, f1))
     else (Inl (PlainErr ''no informer found''), f))"

text \<open>The body of the loop of \<open>Start\<close>: \<open>wg.Add\<close>, a goroutine with \<open>informer.Run\<close>, and the mark.\<close>

definition start_informer :: "string \<times> nat \<Rightarrow> ('o, 'l, 'w) factory \<Rightarrow> ('o, 'l, 'w) factory" where
  "start_informer = (\<lambda>(informerType, informer) f.
    if informerType \<in> fStarted f then f
    else f\<lparr>fWg := fWg f + 1, fRunning := informer # fRunning f, fRuns := fRuns f @ [informer],
           fStarted := insert informerType (fStarted f)\<rparr>)"

definition factory_Start :: "('o, 'l, 'w) factory \<Rightarrow> ('o, 'l, 'w) factory" where
  "factory_Start f = (if fShuttingDown f then f else fold start_informer (fInformers f) f)"

definition Shutdown_begin :: "('o, 'l, 'w) factory \<Rightarrow> ('o, 'l, 'w) factory" where
  "Shutdown_begin f = f\<lparr>fShuttingDown := True, fWaiting := fWaiting f + 1\<rparr>"

text \<open>\<open>wg.Wait()\<close> returns.\<close>

definition Shutdown_return :: "('o, 'l, 'w) factory \<Rightarrow> ('o, 'l, 'w) factory option" where
  "Shutdown_return f =
    (if fWaiting f > 0 \<and> fWg f = 0 then Some (f\<lparr>fWaiting := fWaiting f - 1, fReturned := True\<rparr>) else None)"

text \<open>A goroutine ends: \<open>Run\<close> returned, then the deferred \<open>wg.Done()\<close>.\<close>

definition informer_ends :: "nat \<Rightarrow> ('o, 'l, 'w) factory \<Rightarrow> ('o, 'l, 'w) factory option" where
  "informer_ends i f =
    (if i \<in> set (fRunning f) then Some (f\<lparr>fRunning := remove1 i (fRunning f), fWg := fWg f - 1\<rparr>) else None)"

text \<open>\<open>WaitForCacheSync\<close>: only the started informers are waited for; \<open>synced\<close> is client-go's answer.\<close>

definition WaitForCacheSync :: "(nat \<Rightarrow> bool) \<Rightarrow> ('o, 'l, 'w) factory \<Rightarrow> (string \<times> bool) list" where
  "WaitForCacheSync synced f =
    map (\<lambda>(t, i). (t, synced i)) (filter (\<lambda>(t, i). t \<in> fStarted f) (fInformers f))"

section \<open>The lister\<close>

text \<open>The indexer of an informer is client-go's: \<open>GetByKey\<close> and the order of \<open>cache.ListAll\<close>.\<close>

record indexer =
  ixGetByKey :: "string \<Rightarrow> go_error + GRD option"
  ixListAll :: "go_error + GRD list"

definition lister_Get :: "indexer \<Rightarrow> string \<Rightarrow> go_error + GRD" where
  "lister_Get s name =
    (case ixGetByKey s name of
       Inl err \<Rightarrow> Inl err
     | Inr None \<Rightarrow> Inl (NotFound name)
     | Inr (Some obj) \<Rightarrow> Inr obj)"

definition lister_List :: "indexer \<Rightarrow> (GRD \<Rightarrow> bool) \<Rightarrow> go_error + GRD list" where
  "lister_List s selector =
    (case ixListAll s of Inl err \<Rightarrow> Inl err | Inr objs \<Rightarrow> Inr (filter selector objs))"

definition NewGrafanaResourceDefinitionLister :: "indexer \<Rightarrow> lister" where
  "NewGrafanaResourceDefinitionLister s = \<lparr>lister_get = lister_Get s, lister_list = lister_List s (\<lambda>_. True)\<rparr>"

section \<open>Steps and invariant\<close>

inductive factory_step :: "('o, 'l, 'w) factory \<Rightarrow> ('o, 'l, 'w) factory \<Rightarrow> bool" where
  informer_for: "factory_step f (snd (InformerFor t newFunc f))"
| start: "factory_step f (factory_Start f)"
| shutdown: "factory_step f (Shutdown_begin f)"
| shutdown_return: "Shutdown_return f = Some f' \<Longrightarrow> factory_step f f'"
| ends: "informer_ends i f = Some f' \<Longrightarrow> factory_step f f'"

inductive_cases factory_stepE: "factory_step f f'"

definition factory_inv :: "('o, 'l, 'w) factory \<Rightarrow> bool" where
  "factory_inv f \<longleftrightarrow> distinct (map fst (fInformers f)) \<and> map snd (fInformers f) = [0..<length (fHeap f)] \<and>
    fStarted f \<subseteq> fst ` set (fInformers f) \<and>
    fWg f = length (fRunning f) \<and> distinct (fRuns f) \<and>
    set (fRuns f) = {i. \<exists>t \<in> fStarted f. (t, i) \<in> set (fInformers f)} \<and> set (fRunning f) \<subseteq> set (fRuns f) \<and>
    distinct (fRunning f) \<and> (fReturned f \<longrightarrow> fShuttingDown f \<and> fRunning f = []) \<and> (fWaiting f > 0 \<longrightarrow> fShuttingDown f)"

text \<open>Options configure a new factory and start nothing.\<close>

definition fresh_factory :: "('o, 'l, 'w) factory \<Rightarrow> bool" where
  "fresh_factory f \<longleftrightarrow> (\<exists>client resync options. f = NewSharedInformerFactoryWithOptions client resync options \<and>
    set options \<subseteq> range WithCustomResyncConfig \<union> range WithTweakListOptions \<union> range WithNamespace)"

lemma start_informer_inv:
  assumes inv: "factory_inv f" and new: "\<not> fShuttingDown f" and x: "x \<in> set (fInformers f)"
  shows "factory_inv (start_informer x f)"
proof (cases "fst x \<in> fStarted f")
  case True
  then show ?thesis using inv by (cases x) (simp add: start_informer_def)
next
  case False
  obtain t i where ti: "x = (t, i)" by (cases x)
  have d: "distinct (map fst (fInformers f))" "distinct (map snd (fInformers f))"
    and m: "map snd (fInformers f) = [0..<length (fHeap f)]"
    using inv by (simp_all add: factory_inv_def)
  have t: "i' = i" if "(t, i') \<in> set (fInformers f)" for i'
    using eq_key_imp_eq_value [OF d(1)] that x ti by blast
  have i: "i \<notin> set (fRuns f)"
  proof
    assume "i \<in> set (fRuns f)"
    then obtain t' where "t' \<in> fStarted f" "(t', i) \<in> set (fInformers f)" using inv by (auto simp: factory_inv_def)
    moreover from this(2) x ti d(2) have "t' = t" by (metis distinct_map inj_onD prod.inject snd_conv)
    ultimately show False using False ti by simp
  qed
  let ?f = "start_informer x f"
  have f: "fInformers ?f = fInformers f" "fHeap ?f = fHeap f" "fStarted ?f = insert t (fStarted f)" "fWg ?f = fWg f + 1"
    "fRunning ?f = i # fRunning f" "fRuns ?f = fRuns f @ [i]" "fReturned ?f = fReturned f" "fShuttingDown ?f = fShuttingDown f"
    using False by (simp_all add: ti start_informer_def)
  have inv': "fStarted f \<subseteq> fst ` set (fInformers f)" "fWg f = length (fRunning f)" "distinct (fRuns f)"
    "set (fRuns f) = {j. \<exists>t' \<in> fStarted f. (t', j) \<in> set (fInformers f)}" "set (fRunning f) \<subseteq> set (fRuns f)"
    "distinct (fRunning f)" "\<not> fReturned f" "fWaiting f = 0"
    using inv new unfolding factory_inv_def by (blast | simp)+
  have "t \<in> fst ` set (fInformers f)" using x ti by force
  then have "fStarted ?f \<subseteq> fst ` set (fInformers ?f)" using inv'(1) by (simp add: f)
  moreover have "set (fRuns ?f) = {j. \<exists>t' \<in> fStarted ?f. (t', j) \<in> set (fInformers ?f)}"
  proof -
    have "{j. (t, j) \<in> set (fInformers f)} = {i}" using t x unfolding ti by blast
    then show ?thesis unfolding f set_append inv'(4) by (simp only: bex_simps Collect_disj_eq list.set) simp
  qed
  moreover have "set (fRunning ?f) \<subseteq> set (fRuns ?f)" "distinct (fRunning ?f)" "distinct (fRuns ?f)" "fWg ?f = length (fRunning ?f)"
    unfolding f using inv'(2,3,5,6) i by auto
  ultimately show ?thesis unfolding factory_inv_def using d(1) m inv'(7,8) by (simp only: f) (simp add: start_informer_def ti False)
qed

lemma start_informer_frame [simp]:
  "fInformers (start_informer x f) = fInformers f" "fShuttingDown (start_informer x f) = fShuttingDown f"
  "fHeap (start_informer x f) = fHeap f" "fStarted (start_informer x f) = insert (fst x) (fStarted f)"
  "fReturned (start_informer x f) = fReturned f" "fWaiting (start_informer x f) = fWaiting f"
  by (auto simp: start_informer_def split: prod.split)

lemma start_loop_frame [simp]:
  "fInformers (fold start_informer xs f) = fInformers f" "fShuttingDown (fold start_informer xs f) = fShuttingDown f"
  "fHeap (fold start_informer xs f) = fHeap f" "fStarted (fold start_informer xs f) = fStarted f \<union> fst ` set xs"
  "fReturned (fold start_informer xs f) = fReturned f" "fWaiting (fold start_informer xs f) = fWaiting f"
  by (induction xs arbitrary: f) auto

lemma start_loop_inv:
  "factory_inv f \<Longrightarrow> \<not> fShuttingDown f \<Longrightarrow> set xs \<subseteq> set (fInformers f) \<Longrightarrow> factory_inv (fold start_informer xs f)"
proof (induction xs arbitrary: f)
  case (Cons x xs)
  then have "factory_inv (start_informer x f)" by (intro start_informer_inv) simp_all
  with Cons show ?case by simp
qed simp

lemma InformerFor_inv:
  assumes "factory_inv f"
  shows "factory_inv (snd (InformerFor t newFunc f))"
proof (cases "map_of (fInformers f) t")
  case None
  then have "t \<notin> fst ` set (fInformers f)" by (simp add: map_of_eq_None_iff)
  moreover from this have "t \<notin> fStarted f" using assms by (auto simp: factory_inv_def)
  ultimately show ?thesis
    using assms None by (auto simp: factory_inv_def InformerFor_def Let_def)
next
  case (Some i)
  with assms show ?thesis by (simp add: InformerFor_def)
qed

lemma factory_step_inv:
  assumes "factory_step f f'" and "factory_inv f"
  shows "factory_inv f'"
  using assms
proof (cases rule: factory_step.cases)
  case start
  with assms(2) show ?thesis by (auto simp: factory_Start_def intro: start_loop_inv)
next
  case (ends i)
  then show ?thesis
    using assms(2) by (auto simp: informer_ends_def factory_inv_def length_remove1 dest: set_remove1_subset [THEN subsetD]
        split: if_splits)
next
  case (informer_for t newFunc)
  with assms(2) show ?thesis by (simp only: InformerFor_inv)
next
  case shutdown
  with assms(2) show ?thesis by (auto simp: factory_inv_def Shutdown_begin_def)
next
  case shutdown_return
  with assms(2) show ?thesis by (auto simp: factory_inv_def Shutdown_return_def split: if_splits)
qed

lemma factory_inv_options [simp]:
  "factory_inv (f\<lparr>fCustomResync := m\<rparr>) = factory_inv f"
  "factory_inv (f\<lparr>fTweak := tw\<rparr>) = factory_inv f" "factory_inv (f\<lparr>fNamespace := ns\<rparr>) = factory_inv f"
  by (simp_all add: factory_inv_def)

lemma WithCustomResyncConfig_only: "\<exists>m. WithCustomResyncConfig cfg f = f\<lparr>fCustomResync := m\<rparr>"
proof (induction cfg arbitrary: f)
  case Nil
  show ?case by (rule exI [of _ "fCustomResync f"]) (simp add: WithCustomResyncConfig_def)
next
  case (Cons kv cfg)
  from Cons [of "f\<lparr>fCustomResync := (fCustomResync f)(fst kv \<mapsto> snd kv)\<rparr>"] show ?case
    by (auto simp: WithCustomResyncConfig_def split: prod.split)
qed

lemma fresh_inv:
  assumes "fresh_factory f"
  shows "factory_inv f"
proof -
  obtain client resync options where f: "f = NewSharedInformerFactoryWithOptions client resync options"
    and o: "set options \<subseteq> range WithCustomResyncConfig \<union> range WithTweakListOptions \<union> range WithNamespace"
    using assms by (auto simp: fresh_factory_def)
  have keep: "factory_inv (opt g) = factory_inv g" if "opt \<in> set options" for opt and g :: "('a, 'b, 'c) factory"
  proof -
    have "factory_inv (WithCustomResyncConfig cfg g) = factory_inv g" for cfg
      using WithCustomResyncConfig_only [of cfg g] by auto
    with o that show ?thesis by (auto simp: WithTweakListOptions_def WithNamespace_def)
  qed
  have "factory_inv (fold (\<lambda>opt factory. opt factory) os g) = factory_inv g" if "set os \<subseteq> set options"
    for os and g :: "('a, 'b, 'c) factory"
    using that by (induction os arbitrary: g) (auto simp: keep)
  then show ?thesis
    unfolding f NewSharedInformerFactoryWithOptions_def by (simp add: factory_inv_def)
qed

lemma reachable_inv: "factory_step\<^sup>*\<^sup>* f0 f \<Longrightarrow> factory_inv f0 \<Longrightarrow> factory_inv f"
  by (induction rule: rtranclp_induct) (auto intro: factory_step_inv)

section \<open>Properties\<close>

text \<open>An informer that was handed out stays the informer of its type.\<close>

lemma step_keeps_informers:
  "factory_step f f' \<Longrightarrow> map_of (fInformers f) t = Some i \<Longrightarrow> map_of (fInformers f') t = Some i"
  by (induction rule: factory_step.induct)
    (auto simp: InformerFor_def factory_Start_def Shutdown_begin_def Shutdown_return_def informer_ends_def Let_def
      map_add_def split: option.splits if_splits)

lemma steps_keep_informers:
  "factory_step\<^sup>*\<^sup>* f f' \<Longrightarrow> map_of (fInformers f) t = Some i \<Longrightarrow> map_of (fInformers f') t = Some i"
  by (induction rule: rtranclp_induct) (auto intro: step_keeps_informers)

lemma InformerFor_answer: "map_of (fInformers (snd (InformerFor t newFunc f))) t = Some (fst (InformerFor t newFunc f))"
  by (auto simp: InformerFor_def Let_def map_add_def split: option.split)

lemma step_after_shutdown:
  assumes "factory_step f f'" and "fShuttingDown f"
  shows "fShuttingDown f'" and "fRuns f' = fRuns f" and "set (fRunning f') \<subseteq> set (fRunning f)"
    and "fReturned f \<Longrightarrow> fReturned f'"
  using assms
  by (induction rule: factory_step.induct)
    (auto simp: InformerFor_def factory_Start_def Shutdown_begin_def Shutdown_return_def informer_ends_def Let_def
      dest: set_remove1_subset [THEN subsetD] split: option.splits if_splits)

lemma steps_after_shutdown:
  assumes "factory_step\<^sup>*\<^sup>* f f'" and "fShuttingDown f"
  shows "fShuttingDown f' \<and> fRuns f' = fRuns f \<and> (fReturned f \<longrightarrow> fReturned f')"
  using assms by (induction rule: rtranclp_induct) (auto simp: step_after_shutdown)

text \<open>
  C33. One informer per type: whatever happens in between, two calls of \<open>InformerFor\<close> for a type get
  the same informer, and no informer is run twice, however often \<open>Start\<close> is called. After a \<open>Start\<close>
  that is not forbidden, every informer asked for so far has been run.
\<close>

theorem informers_are_shared_and_run_once:
  assumes "fresh_factory f0" and "factory_step\<^sup>*\<^sup>* f0 f" and "factory_step\<^sup>*\<^sup>* (snd (InformerFor t newFunc f)) f'"
  shows "fst (InformerFor t newFunc' f') = fst (InformerFor t newFunc f) \<and> distinct (fRuns f') \<and>
    (\<not> fShuttingDown f' \<longrightarrow> fst (InformerFor t newFunc f) \<in> set (fRuns (factory_Start f')))"
proof -
  let ?i = "fst (InformerFor t newFunc f)"
  have "factory_step\<^sup>*\<^sup>* f0 f'"
    using assms(2,3) by (meson factory_step.informer_for rtranclp.rtrancl_into_rtrancl rtranclp_trans)
  then have inv: "factory_inv f'" using fresh_inv [OF assms(1)] by (rule reachable_inv)
  have i: "map_of (fInformers f') t = Some ?i"
    using assms(3) InformerFor_answer by (rule steps_keep_informers)
  have "?i \<in> set (fRuns (factory_Start f'))" if s: "\<not> fShuttingDown f'"
  proof -
    have "factory_inv (factory_Start f')" using inv by (blast intro: factory_step_inv factory_step.start)
    then show ?thesis
      using s map_of_SomeD [OF i] by (force simp: factory_inv_def factory_Start_def)
  qed
  with i inv show ?thesis by (simp add: InformerFor_def factory_inv_def)
qed

text \<open>
  Once \<open>Shutdown\<close> has returned no informer runs, and none will: whatever is called afterwards,
  \<open>Start\<close> included, no informer is started again.
\<close>

theorem nothing_runs_after_shutdown:
  assumes "fresh_factory f0" and "factory_step\<^sup>*\<^sup>* f0 f" and "fReturned f" and "factory_step\<^sup>*\<^sup>* f f'"
  shows "fRunning f' = [] \<and> fRuns f' = fRuns f"
proof -
  have inv: "factory_inv f" using assms(2) fresh_inv [OF assms(1)] by (rule reachable_inv)
  have sd: "fShuttingDown f" using inv assms(3) by (simp add: factory_inv_def)
  have "fReturned f' \<and> fRuns f' = fRuns f" using steps_after_shutdown [OF assms(4) sd] assms(3) by simp
  moreover have "factory_inv f'" using assms(4) inv by (rule reachable_inv)
  ultimately show ?thesis by (simp add: factory_inv_def)
qed

text \<open>An informer asked for after \<open>Start\<close> is not run by that \<open>Start\<close>, and \<open>WaitForCacheSync\<close> does not wait for it.\<close>

lemma late_informer_is_not_awaited:
  assumes "map_of (fInformers (factory_Start f)) t = None" and "t \<notin> fStarted f"
  shows "t \<notin> fst ` set (WaitForCacheSync synced (snd (InformerFor t newFunc (factory_Start f))))"
  using assms
  by (auto simp: WaitForCacheSync_def InformerFor_def Let_def factory_Start_def map_of_eq_None_iff image_iff
      split: if_splits option.splits)

section \<open>The informers of the server\<close>

text \<open>
  \<open>New\<close> asks for the informer of definitions for the handler and for every controller but the one
  that registers API services; the hook \<open>start-grafana-apiserver-informers\<close> starts the factory.
\<close>

definition request_informers :: "server \<Rightarrow> ('o, 'l, 'w) factory \<Rightarrow> ('o, 'l, 'w) factory" where
  "request_informers srv f =
    fold (\<lambda>(c, workers) f. if c = AutoRegistration then f else snd (grd_Informer f)) (svControllers srv) (snd (grd_Informer f))"

lemma grd_Informer_again: "snd (grd_Informer (snd (grd_Informer f))) = snd (grd_Informer f)"
  by (simp add: grd_Informer_def InformerFor_def Let_def map_add_def split: option.split)

lemma server_runs_one_informer:
  "factory_Start (request_informers srv (NewSharedInformerFactory client 300)) =
     factory_Start (snd (grd_Informer (NewSharedInformerFactory client 300)))"
  "fRuns (factory_Start (request_informers srv (NewSharedInformerFactory client 300))) = [0]"
  "map siResync (fHeap (factory_Start (request_informers srv (NewSharedInformerFactory client 300)))) = [300]"
proof -
  let ?f = "NewSharedInformerFactory client 300"
  have "fold (\<lambda>(c, workers) f. if c = AutoRegistration then f else snd (grd_Informer f)) cs (snd (grd_Informer ?f)) =
      snd (grd_Informer ?f)" for cs :: "(controller \<times> nat) list"
    by (induction cs) (auto simp: grd_Informer_again)
  then have r: "request_informers srv ?f = snd (grd_Informer ?f)" by (simp add: request_informers_def)
  then show "factory_Start (request_informers srv ?f) = factory_Start (snd (grd_Informer ?f))" by simp
  show "fRuns (factory_Start (request_informers srv ?f)) = [0]"
    "map siResync (fHeap (factory_Start (request_informers srv ?f))) = [300]"
    unfolding r
    by (simp_all add: grd_Informer_def InformerFor_def NewSharedInformerFactory_def NewSharedInformerFactoryWithOptions_def
        factory_Start_def start_informer_def defaultInformer_def NewFilteredGrafanaResourceDefinitionInformer_def)
qed

section \<open>Witnesses\<close>

definition sample_factory :: "(nat, nat, nat) factory" where
  "sample_factory = NewSharedInformerFactory \<lparr>clList = id, clWatch = id\<rparr> 300"

lemma sample_factory_fresh: "fresh_factory sample_factory"
  unfolding fresh_factory_def sample_factory_def NewSharedInformerFactory_def
  by (intro exI conjI) (rule refl, simp)

theorem informers_are_shared_and_run_once_witness:
  "fst (grd_Informer (factory_Start (snd (grd_Informer sample_factory)))) = fst (grd_Informer sample_factory) \<and>
    distinct (fRuns (factory_Start (snd (grd_Informer sample_factory))))"
  using informers_are_shared_and_run_once [OF sample_factory_fresh rtranclp.rtrancl_refl
      r_into_rtranclp [of factory_step, OF factory_step.start], where t = GRD_type
      and newFunc = "defaultInformer (fTweak sample_factory)"
      and newFunc' = "defaultInformer (fTweak (factory_Start (snd (grd_Informer sample_factory))))"]
  by (simp add: grd_Informer_def)

definition sample_stopped :: "(nat, nat, nat) factory" where
  "sample_stopped = the (Shutdown_return (the (informer_ends 0 (Shutdown_begin (factory_Start (snd (grd_Informer sample_factory)))))))"

lemma sample_stopped_reachable: "factory_step\<^sup>*\<^sup>* sample_factory sample_stopped" "fReturned sample_stopped"
proof -
  let ?f1 = "snd (grd_Informer sample_factory)" and ?f2 = "factory_Start (snd (grd_Informer sample_factory))"
  note defs = sample_factory_def grd_Informer_def InformerFor_def NewSharedInformerFactory_def
    NewSharedInformerFactoryWithOptions_def factory_Start_def start_informer_def Shutdown_begin_def informer_ends_def
    Shutdown_return_def
  obtain f4 where f4: "informer_ends 0 (Shutdown_begin ?f2) = Some f4" "Shutdown_return f4 \<noteq> None" "fReturned (the (Shutdown_return f4))"
    by (simp add: defs)
  have "factory_step sample_factory ?f1" unfolding grd_Informer_def by (rule factory_step.informer_for)
  moreover have "factory_step ?f1 ?f2" by (rule factory_step.start)
  moreover have "factory_step ?f2 (Shutdown_begin ?f2)" by (rule factory_step.shutdown)
  moreover have "factory_step (Shutdown_begin ?f2) f4" using f4(1) by (rule factory_step.ends)
  moreover have "factory_step f4 sample_stopped"
    using f4 by (intro factory_step.shutdown_return) (auto simp: sample_stopped_def)
  ultimately show "factory_step\<^sup>*\<^sup>* sample_factory sample_stopped"
    by (intro rtranclp.rtrancl_into_rtrancl [OF rtranclp.rtrancl_into_rtrancl [OF rtranclp.rtrancl_into_rtrancl
      [OF rtranclp.rtrancl_into_rtrancl [OF r_into_rtranclp]]]])
  show "fReturned sample_stopped" using f4 by (simp add: sample_stopped_def)
qed

theorem nothing_runs_after_shutdown_witness:
  "fRunning (factory_Start (snd (InformerFor ''T'' (defaultInformer None) sample_stopped))) = []"
  using nothing_runs_after_shutdown [OF sample_factory_fresh sample_stopped_reachable
      rtranclp.rtrancl_into_rtrancl [OF r_into_rtranclp [of factory_step, OF factory_step.informer_for] factory_step.start]]
  by blast

end
