(* ===== verification/ApplyConfig.thy ===== *)
theory ApplyConfig
  imports Json
begin

text \<open>
  The apply configurations of definitions, \<open>client/applyconfiguration/kinds/v1\<close>: for each struct one
  with pointers for fields, so that a client states only what it wants to own, and builders that set
  one field each. A builder changes its receiver and returns it; here it is a function from the
  configuration to the changed one, and a configuration handed to another is the value it has then.
  \<open>ObjectMetaApplyConfiguration\<close> and its owner references (\<open>'o\<close>) are types of client-go. A nil element
  among the arguments of a variadic builder panics.
\<close>

section \<open>Configurations\<close>

record names_ac =
  naPlural :: "string option"
  naSingular :: "string option"
  naShortNames :: "string list"
  naKind :: "string option"
  naListKind :: "string option"
  naCategories :: "string list"

record scale_ac =
  caSpecReplicasPath :: "string option"
  caStatusReplicasPath :: "string option"
  caLabelSelectorPath :: "string option"

record subresources_ac =
  uaStatus :: "unit option"
  uaScale :: "scale_ac option"
  uaHistory :: "unit option"
  uaRef :: "unit option"

record version_ac =
  vaName :: "string option"
  vaServed :: "bool option"
  vaStorage :: "bool option"
  vaDeprecated :: "bool option"
  vaDeprecationWarning :: "string option"
  vaSubresources :: "subresources_ac option"

record spec_ac =
  paGroup :: "string option"
  paNames :: "names_ac option"
  paScope :: "string option"
  paVersions :: "version_ac list"
  paPreserveUnknownFields :: "bool option"

record condition_ac =
  daType :: "string option"
  daStatus :: "string option"
  daLastTransitionTime :: "time option"
  daReason :: "string option"
  daMessage :: "string option"

record status_ac =
  taConditions :: "condition_ac list"
  taAcceptedNames :: "names_ac option"
  taStoredVersions :: "string list"

record 'o meta_ac =
  maName :: "string option"
  maGenerateName :: "string option"
  maNamespace :: "string option"
  maUID :: "string option"
  maResourceVersion :: "string option"
  maGeneration :: "int option"
  maCreationTimestamp :: "time option"
  maDeletionTimestamp :: "time option"
  maDeletionGracePeriodSeconds :: "int option"
  maLabels :: "(string \<rightharpoonup> string) option"
  maAnnotations :: "(string \<rightharpoonup> string) option"
  maOwnerReferences :: "'o list"
  maFinalizers :: "string list"

record 'o grd_ac =
  gaKind :: "string option"
  gaAPIVersion :: "string option"
  gaMeta :: "'o meta_ac option"
  gaSpec :: "spec_ac option"
  gaStatus :: "status_ac option"

text \<open>The values of a variadic builder, appended one by one.\<close>

fun append_values :: "'a option list \<Rightarrow> 'a list \<Rightarrow> 'a list outcome" where
  "append_values [] acc = Ret acc"
| "append_values (None # vs) acc = Panic"
| "append_values (Some v # vs) acc = append_values vs (acc @ [v])"

section \<open>Constructors and builders\<close>

definition Names_ac :: "names_ac" where
  "Names_ac = \<lparr>naPlural = None, naSingular = None, naShortNames = [], naKind = None, naListKind = None, naCategories = []\<rparr>"

definition Names_WithPlural :: "string \<Rightarrow> names_ac \<Rightarrow> names_ac" where
  "Names_WithPlural value b = b\<lparr>naPlural := Some value\<rparr>"

definition Names_WithSingular :: "string \<Rightarrow> names_ac \<Rightarrow> names_ac" where
  "Names_WithSingular value b = b\<lparr>naSingular := Some value\<rparr>"

definition Names_WithShortNames :: "string list \<Rightarrow> names_ac \<Rightarrow> names_ac" where
  "Names_WithShortNames values b = b\<lparr>naShortNames := naShortNames b @ values\<rparr>"

definition Names_WithKind :: "string \<Rightarrow> names_ac \<Rightarrow> names_ac" where
  "Names_WithKind value b = b\<lparr>naKind := Some value\<rparr>"

definition Names_WithListKind :: "string \<Rightarrow> names_ac \<Rightarrow> names_ac" where
  "Names_WithListKind value b = b\<lparr>naListKind := Some value\<rparr>"

definition Names_WithCategories :: "string list \<Rightarrow> names_ac \<Rightarrow> names_ac" where
  "Names_WithCategories values b = b\<lparr>naCategories := naCategories b @ values\<rparr>"

definition Scale_ac :: "scale_ac" where
  "Scale_ac = \<lparr>caSpecReplicasPath = None, caStatusReplicasPath = None, caLabelSelectorPath = None\<rparr>"

definition Scale_WithSpecReplicasPath :: "string \<Rightarrow> scale_ac \<Rightarrow> scale_ac" where
  "Scale_WithSpecReplicasPath value b = b\<lparr>caSpecReplicasPath := Some value\<rparr>"

definition Scale_WithStatusReplicasPath :: "string \<Rightarrow> scale_ac \<Rightarrow> scale_ac" where
  "Scale_WithStatusReplicasPath value b = b\<lparr>caStatusReplicasPath := Some value\<rparr>"

definition Scale_WithLabelSelectorPath :: "string \<Rightarrow> scale_ac \<Rightarrow> scale_ac" where
  "Scale_WithLabelSelectorPath value b = b\<lparr>caLabelSelectorPath := Some value\<rparr>"

definition Subresources_ac :: "subresources_ac" where
  "Subresources_ac = \<lparr>uaStatus = None, uaScale = None, uaHistory = None, uaRef = None\<rparr>"

definition Subresources_WithStatus :: "unit \<Rightarrow> subresources_ac \<Rightarrow> subresources_ac" where
  "Subresources_WithStatus value b = b\<lparr>uaStatus := Some value\<rparr>"

definition Subresources_WithScale :: "scale_ac option \<Rightarrow> subresources_ac \<Rightarrow> subresources_ac" where
  "Subresources_WithScale value b = b\<lparr>uaScale := value\<rparr>"

definition Subresources_WithHistory :: "unit \<Rightarrow> subresources_ac \<Rightarrow> subresources_ac" where
  "Subresources_WithHistory value b = b\<lparr>uaHistory := Some value\<rparr>"

definition Subresources_WithRef :: "unit \<Rightarrow> subresources_ac \<Rightarrow> subresources_ac" where
  "Subresources_WithRef value b = b\<lparr>uaRef := Some value\<rparr>"

definition Version_ac :: "version_ac" where
  "Version_ac = \<lparr>vaName = None, vaServed = None, vaStorage = None, vaDeprecated = None, vaDeprecationWarning = None, vaSubresources = None\<rparr>"

definition Version_WithName :: "string \<Rightarrow> version_ac \<Rightarrow> version_ac" where
  "Version_WithName value b = b\<lparr>vaName := Some value\<rparr>"

definition Version_WithServed :: "bool \<Rightarrow> version_ac \<Rightarrow> version_ac" where
  "Version_WithServed value b = b\<lparr>vaServed := Some value\<rparr>"

definition Version_WithStorage :: "bool \<Rightarrow> version_ac \<Rightarrow> version_ac" where
  "Version_WithStorage value b = b\<lparr>vaStorage := Some value\<rparr>"

definition Version_WithDeprecated :: "bool \<Rightarrow> version_ac \<Rightarrow> version_ac" where
  "Version_WithDeprecated value b = b\<lparr>vaDeprecated := Some value\<rparr>"

definition Version_WithDeprecationWarning :: "string \<Rightarrow> version_ac \<Rightarrow> version_ac" where
  "Version_WithDeprecationWarning value b = b\<lparr>vaDeprecationWarning := Some value\<rparr>"

definition Version_WithSubresources :: "subresources_ac option \<Rightarrow> version_ac \<Rightarrow> version_ac" where
  "Version_WithSubresources value b = b\<lparr>vaSubresources := value\<rparr>"

definition Spec_ac :: "spec_ac" where
  "Spec_ac = \<lparr>paGroup = None, paNames = None, paScope = None, paVersions = [], paPreserveUnknownFields = None\<rparr>"

definition Spec_WithGroup :: "string \<Rightarrow> spec_ac \<Rightarrow> spec_ac" where
  "Spec_WithGroup value b = b\<lparr>paGroup := Some value\<rparr>"

definition Spec_WithNames :: "names_ac option \<Rightarrow> spec_ac \<Rightarrow> spec_ac" where
  "Spec_WithNames value b = b\<lparr>paNames := value\<rparr>"

definition Spec_WithScope :: "string \<Rightarrow> spec_ac \<Rightarrow> spec_ac" where
  "Spec_WithScope value b = b\<lparr>paScope := Some value\<rparr>"

definition Spec_WithVersions :: "version_ac option list \<Rightarrow> spec_ac \<Rightarrow> spec_ac outcome" where
  "Spec_WithVersions values b =
    (case append_values values (paVersions b) of Ret vs \<Rightarrow> Ret (b\<lparr>paVersions := vs\<rparr>) | Panic \<Rightarrow> Panic | Err e \<Rightarrow> Err e)"

definition Spec_WithPreserveUnknownFields :: "bool \<Rightarrow> spec_ac \<Rightarrow> spec_ac" where
  "Spec_WithPreserveUnknownFields value b = b\<lparr>paPreserveUnknownFields := Some value\<rparr>"

definition Condition_ac :: "condition_ac" where
  "Condition_ac = \<lparr>daType = None, daStatus = None, daLastTransitionTime = None, daReason = None, daMessage = None\<rparr>"

definition Condition_WithType :: "string \<Rightarrow> condition_ac \<Rightarrow> condition_ac" where
  "Condition_WithType value b = b\<lparr>daType := Some value\<rparr>"

definition Condition_WithStatus :: "string \<Rightarrow> condition_ac \<Rightarrow> condition_ac" where
  "Condition_WithStatus value b = b\<lparr>daStatus := Some value\<rparr>"

definition Condition_WithLastTransitionTime :: "time \<Rightarrow> condition_ac \<Rightarrow> condition_ac" where
  "Condition_WithLastTransitionTime value b = b\<lparr>daLastTransitionTime := Some value\<rparr>"

definition Condition_WithReason :: "string \<Rightarrow> condition_ac \<Rightarrow> condition_ac" where
  "Condition_WithReason value b = b\<lparr>daReason := Some value\<rparr>"

definition Condition_WithMessage :: "string \<Rightarrow> condition_ac \<Rightarrow> condition_ac" where
  "Condition_WithMessage value b = b\<lparr>daMessage := Some value\<rparr>"

definition Status_ac :: "status_ac" where
  "Status_ac = \<lparr>taConditions = [], taAcceptedNames = None, taStoredVersions = []\<rparr>"

definition Status_WithConditions :: "condition_ac option list \<Rightarrow> status_ac \<Rightarrow> status_ac outcome" where
  "Status_WithConditions values b =
    (case append_values values (taConditions b) of Ret vs \<Rightarrow> Ret (b\<lparr>taConditions := vs\<rparr>) | Panic \<Rightarrow> Panic | Err e \<Rightarrow> Err e)"

definition Status_WithAcceptedNames :: "names_ac option \<Rightarrow> status_ac \<Rightarrow> status_ac" where
  "Status_WithAcceptedNames value b = b\<lparr>taAcceptedNames := value\<rparr>"

definition Status_WithStoredVersions :: "string list \<Rightarrow> status_ac \<Rightarrow> status_ac" where
  "Status_WithStoredVersions values b = b\<lparr>taStoredVersions := taStoredVersions b @ values\<rparr>"

definition empty_meta_ac :: "'o meta_ac" where
  "empty_meta_ac = \<lparr>maName = None, maGenerateName = None, maNamespace = None, maUID = None, maResourceVersion = None,
     maGeneration = None, maCreationTimestamp = None, maDeletionTimestamp = None, maDeletionGracePeriodSeconds = None,
     maLabels = None, maAnnotations = None, maOwnerReferences = [], maFinalizers = []\<rparr>"

definition ensureObjectMetaApplyConfigurationExists :: "'o grd_ac \<Rightarrow> 'o grd_ac" where
  "ensureObjectMetaApplyConfigurationExists b = (if gaMeta b = None then b\<lparr>gaMeta := Some empty_meta_ac\<rparr> else b)"

text \<open>A write to a field of the embedded metadata, after \<open>ensureObjectMetaApplyConfigurationExists\<close>.\<close>

definition in_meta :: "('o meta_ac \<Rightarrow> 'o meta_ac) \<Rightarrow> 'o grd_ac \<Rightarrow> 'o grd_ac" where
  "in_meta f b = (let b1 = ensureObjectMetaApplyConfigurationExists b in b1\<lparr>gaMeta := map_option f (gaMeta b1)\<rparr>)"

definition with_entries :: "(string \<rightharpoonup> string) \<Rightarrow> (string \<rightharpoonup> string) option \<Rightarrow> (string \<rightharpoonup> string) option" where
  "with_entries entries m =
    (case m of None \<Rightarrow> (if entries = Map.empty then None else Some entries) | Some old \<Rightarrow> Some (old ++ entries))"

definition GRD_WithKind :: "string \<Rightarrow> 'o grd_ac \<Rightarrow> 'o grd_ac" where
  "GRD_WithKind value b = b\<lparr>gaKind := Some value\<rparr>"

definition GRD_WithAPIVersion :: "string \<Rightarrow> 'o grd_ac \<Rightarrow> 'o grd_ac" where
  "GRD_WithAPIVersion value b = b\<lparr>gaAPIVersion := Some value\<rparr>"

definition GRD_WithName :: "string \<Rightarrow> 'o grd_ac \<Rightarrow> 'o grd_ac" where
  "GRD_WithName value = in_meta (\<lambda>m. m\<lparr>maName := Some value\<rparr>)"

definition GRD_WithGenerateName :: "string \<Rightarrow> 'o grd_ac \<Rightarrow> 'o grd_ac" where
  "GRD_WithGenerateName value = in_meta (\<lambda>m. m\<lparr>maGenerateName := Some value\<rparr>)"

definition GRD_WithNamespace :: "string \<Rightarrow> 'o grd_ac \<Rightarrow> 'o grd_ac" where
  "GRD_WithNamespace value = in_meta (\<lambda>m. m\<lparr>maNamespace := Some value\<rparr>)"

definition GRD_WithUID :: "string \<Rightarrow> 'o grd_ac \<Rightarrow> 'o grd_ac" where
  "GRD_WithUID value = in_meta (\<lambda>m. m\<lparr>maUID := Some value\<rparr>)"

definition GRD_WithResourceVersion :: "string \<Rightarrow> 'o grd_ac \<Rightarrow> 'o grd_ac" where
  "GRD_WithResourceVersion value = in_meta (\<lambda>m. m\<lparr>maResourceVersion := Some value\<rparr>)"

definition GRD_WithGeneration :: "int \<Rightarrow> 'o grd_ac \<Rightarrow> 'o grd_ac" where
  "GRD_WithGeneration value = in_meta (\<lambda>m. m\<lparr>maGeneration := Some value\<rparr>)"

definition GRD_WithCreationTimestamp :: "time \<Rightarrow> 'o grd_ac \<Rightarrow> 'o grd_ac" where
  "GRD_WithCreationTimestamp value = in_meta (\<lambda>m. m\<lparr>maCreationTimestamp := Some value\<rparr>)"

definition GRD_WithDeletionTimestamp :: "time \<Rightarrow> 'o grd_ac \<Rightarrow> 'o grd_ac" where
  "GRD_WithDeletionTimestamp value = in_meta (\<lambda>m. m\<lparr>maDeletionTimestamp := Some value\<rparr>)"

definition GRD_WithDeletionGracePeriodSeconds :: "int \<Rightarrow> 'o grd_ac \<Rightarrow> 'o grd_ac" where
  "GRD_WithDeletionGracePeriodSeconds value = in_meta (\<lambda>m. m\<lparr>maDeletionGracePeriodSeconds := Some value\<rparr>)"

definition GRD_WithLabels :: "(string \<rightharpoonup> string) \<Rightarrow> 'o grd_ac \<Rightarrow> 'o grd_ac" where
  "GRD_WithLabels entries = in_meta (\<lambda>m. m\<lparr>maLabels := with_entries entries (maLabels m)\<rparr>)"

definition GRD_WithAnnotations :: "(string \<rightharpoonup> string) \<Rightarrow> 'o grd_ac \<Rightarrow> 'o grd_ac" where
  "GRD_WithAnnotations entries = in_meta (\<lambda>m. m\<lparr>maAnnotations := with_entries entries (maAnnotations m)\<rparr>)"

definition GRD_WithFinalizers :: "string list \<Rightarrow> 'o grd_ac \<Rightarrow> 'o grd_ac" where
  "GRD_WithFinalizers values = in_meta (\<lambda>m. m\<lparr>maFinalizers := maFinalizers m @ values\<rparr>)"

definition GRD_WithOwnerReferences :: "'o option list \<Rightarrow> 'o grd_ac \<Rightarrow> 'o grd_ac outcome" where
  "GRD_WithOwnerReferences values b =
    (let b1 = ensureObjectMetaApplyConfigurationExists b
     in (case append_values values (maOwnerReferences (the (gaMeta b1))) of
           Ret vs \<Rightarrow> Ret (in_meta (\<lambda>m. m\<lparr>maOwnerReferences := vs\<rparr>) b1)
         | Panic \<Rightarrow> Panic
         | Err e \<Rightarrow> Err e))"

definition GRD_WithSpec :: "spec_ac option \<Rightarrow> 'o grd_ac \<Rightarrow> 'o grd_ac" where
  "GRD_WithSpec value b = b\<lparr>gaSpec := value\<rparr>"

definition GRD_WithStatus :: "status_ac option \<Rightarrow> 'o grd_ac \<Rightarrow> 'o grd_ac" where
  "GRD_WithStatus value b = b\<lparr>gaStatus := value\<rparr>"

definition empty_grd_ac :: "'o grd_ac" where
  "empty_grd_ac = \<lparr>gaKind = None, gaAPIVersion = None, gaMeta = None, gaSpec = None, gaStatus = None\<rparr>"

definition GRD_ac :: "string \<Rightarrow> 'o grd_ac" where
  "GRD_ac name =
    (let b1 = GRD_WithName name empty_grd_ac;
         b2 = GRD_WithKind ''GrafanaResourceDefinition'' b1
     in GRD_WithAPIVersion ''kinds.grafana.com/v1'' b2)"

text \<open>Which configuration a kind has.\<close>

datatype ac_type = GRD_type_ac | Condition_type_ac | Names_type_ac | Spec_type_ac | Status_type_ac | Version_type_ac
  | Subresources_type_ac | Scale_type_ac

definition ForKind :: "string \<times> string \<times> string \<Rightarrow> ac_type option" where
  "ForKind kind =
    map_of [((''kinds.grafana.com'', ''v1'', ''GrafanaResourceDefinition''), GRD_type_ac),
            ((''kinds.grafana.com'', ''v1'', ''GrafanaResourceDefinitionCondition''), Condition_type_ac),
            ((''kinds.grafana.com'', ''v1'', ''GrafanaResourceDefinitionNames''), Names_type_ac),
            ((''kinds.grafana.com'', ''v1'', ''GrafanaResourceDefinitionSpec''), Spec_type_ac),
            ((''kinds.grafana.com'', ''v1'', ''GrafanaResourceDefinitionStatus''), Status_type_ac),
            ((''kinds.grafana.com'', ''v1'', ''GrafanaResourceDefinitionVersion''), Version_type_ac),
            ((''kinds.grafana.com'', ''v1'', ''GrafanaResourceSubresources''), Subresources_type_ac),
            ((''kinds.grafana.com'', ''v1'', ''GrafanaResourceSubresourceScale''), Scale_type_ac)] kind"

section \<open>The documents of configurations\<close>

definition omit_none :: "string \<Rightarrow> ('a \<Rightarrow> json) \<Rightarrow> 'a list \<Rightarrow> fields" where
  "omit_none k enc xs = omit_empty k enc (Some xs)"

definition marshal_names_ac :: "names_ac \<Rightarrow> json" where
  "marshal_names_ac n = JObject
    (omit_nil ''plural'' JString (naPlural n) @ omit_nil ''singular'' JString (naSingular n) @
     omit_none ''shortNames'' JString (naShortNames n) @ omit_nil ''kind'' JString (naKind n) @
     omit_nil ''listKind'' JString (naListKind n) @ omit_none ''categories'' JString (naCategories n))"

definition marshal_scale_ac :: "scale_ac \<Rightarrow> json" where
  "marshal_scale_ac s = JObject
    (omit_nil ''specReplicasPath'' JString (caSpecReplicasPath s) @
     omit_nil ''statusReplicasPath'' JString (caStatusReplicasPath s) @
     omit_nil ''labelSelectorPath'' JString (caLabelSelectorPath s))"

definition marshal_subresources_ac :: "subresources_ac \<Rightarrow> json" where
  "marshal_subresources_ac s = JObject
    (omit_nil ''status'' (\<lambda>_. JObject []) (uaStatus s) @ omit_nil ''scale'' marshal_scale_ac (uaScale s) @
     omit_nil ''history'' (\<lambda>_. JObject []) (uaHistory s) @ omit_nil ''ref'' (\<lambda>_. JObject []) (uaRef s))"

definition marshal_version_ac :: "version_ac \<Rightarrow> json" where
  "marshal_version_ac v = JObject
    (omit_nil ''name'' JString (vaName v) @ omit_nil ''served'' JBool (vaServed v) @ omit_nil ''storage'' JBool (vaStorage v) @
     omit_nil ''deprecated'' JBool (vaDeprecated v) @ omit_nil ''deprecationWarning'' JString (vaDeprecationWarning v) @
     omit_nil ''subresources'' marshal_subresources_ac (vaSubresources v))"

definition marshal_spec_ac :: "spec_ac \<Rightarrow> json" where
  "marshal_spec_ac s = JObject
    (omit_nil ''group'' JString (paGroup s) @ omit_nil ''names'' marshal_names_ac (paNames s) @
     omit_nil ''scope'' JString (paScope s) @ omit_none ''versions'' marshal_version_ac (paVersions s) @
     omit_nil ''preserveUnknownFields'' JBool (paPreserveUnknownFields s))"

definition marshal_condition_ac :: "json_env \<Rightarrow> condition_ac \<Rightarrow> json" where
  "marshal_condition_ac env c = JObject
    (omit_nil ''type'' JString (daType c) @ omit_nil ''status'' JString (daStatus c) @
     omit_nil ''lastTransitionTime'' (time_json env) (daLastTransitionTime c) @
     omit_nil ''reason'' JString (daReason c) @ omit_nil ''message'' JString (daMessage c))"

definition marshal_status_ac :: "json_env \<Rightarrow> status_ac \<Rightarrow> json" where
  "marshal_status_ac env s = JObject
    (omit_none ''conditions'' (marshal_condition_ac env) (taConditions s) @
     omit_nil ''acceptedNames'' marshal_names_ac (taAcceptedNames s) @
     omit_none ''storedVersions'' JString (taStoredVersions s))"

definition marshal_grd_ac :: "json_env \<Rightarrow> ('o meta_ac \<Rightarrow> json) \<Rightarrow> 'o grd_ac \<Rightarrow> json" where
  "marshal_grd_ac env metaJSON b = JObject
    (omit_nil ''kind'' JString (gaKind b) @ omit_nil ''apiVersion'' JString (gaAPIVersion b) @
     omit_nil ''metadata'' metaJSON (gaMeta b) @ omit_nil ''spec'' marshal_spec_ac (gaSpec b) @
     omit_nil ''status'' (marshal_status_ac env) (gaStatus b))"

section \<open>A definition as a configuration\<close>

text \<open>What a client writes to configure a given spec, with every builder.\<close>

definition configure_names :: "GrafanaResourceDefinitionNames \<Rightarrow> names_ac" where
  "configure_names n =
    Names_WithCategories (elems (Categories n)) (Names_WithListKind (ListKind n) (Names_WithKind (Kind n)
      (Names_WithShortNames (elems (ShortNames n)) (Names_WithSingular (Singular n) (Names_WithPlural (Plural n) Names_ac)))))"

definition configure_scale :: "GrafanaResourceSubresourceScale \<Rightarrow> scale_ac" where
  "configure_scale s =
    (let b = Scale_WithStatusReplicasPath (StatusReplicasPath s) (Scale_WithSpecReplicasPath (SpecReplicasPath s) Scale_ac)
     in case LabelSelectorPath s of None \<Rightarrow> b | Some p \<Rightarrow> Scale_WithLabelSelectorPath p b)"

definition if_set :: "('a \<Rightarrow> 'b \<Rightarrow> 'b) \<Rightarrow> 'a option \<Rightarrow> 'b \<Rightarrow> 'b" where
  "if_set f x b = (case x of None \<Rightarrow> b | Some v \<Rightarrow> f v b)"

definition configure_subresources :: "GrafanaResourceSubresources \<Rightarrow> subresources_ac" where
  "configure_subresources s =
    if_set Subresources_WithRef (subRef s) (if_set Subresources_WithHistory (subHistory s)
      (Subresources_WithScale (map_option configure_scale (subScale s))
        (if_set Subresources_WithStatus (subStatus s) Subresources_ac)))"

definition configure_version :: "GrafanaResourceDefinitionVersion \<Rightarrow> version_ac" where
  "configure_version v =
    Version_WithSubresources (map_option configure_subresources (vSubresources v))
      (if_set Version_WithDeprecationWarning (vDeprecationWarning v) (Version_WithDeprecated (vDeprecated v)
        (Version_WithStorage (vStorage v) (Version_WithServed (vServed v) (Version_WithName (vName v) Version_ac)))))"

definition configure_spec :: "GrafanaResourceDefinitionSpec \<Rightarrow> spec_ac outcome" where
  "configure_spec s =
    bind_outcome (Spec_WithVersions (map (Some \<circ> configure_version) (sVersions s))
        (Spec_WithScope (sScope s) (Spec_WithNames (Some (configure_names (sNames s))) (Spec_WithGroup (sGroup s) Spec_ac))))
      (\<lambda>b. Ret (Spec_WithPreserveUnknownFields (sPreserveUnknownFields s) b))"

lemma append_values_Some: "append_values (map Some vs) acc = Ret (acc @ vs)"
  by (induction vs arbitrary: acc) simp_all

lemma append_values_None: "None \<in> set vs \<Longrightarrow> append_values vs acc = Panic"
proof (induction vs arbitrary: acc)
  case (Cons v vs)
  then show ?case by (cases v) auto
qed simp

text \<open>Variadic builders panic exactly on a nil argument, and otherwise append in order.\<close>

lemma WithVersions_panics: "None \<in> set vs \<Longrightarrow> Spec_WithVersions vs b = Panic"
  by (simp add: Spec_WithVersions_def append_values_None)

lemma WithVersions_appends: "Spec_WithVersions (map Some vs) b = Ret (b\<lparr>paVersions := paVersions b @ vs\<rparr>)"
  by (simp add: Spec_WithVersions_def append_values_Some)

lemma WithConditions_appends: "Status_WithConditions (map Some cs) b = Ret (b\<lparr>taConditions := taConditions b @ cs\<rparr>)"
  by (simp add: Status_WithConditions_def append_values_Some)

lemma map_of_omit_none [simp]:
  "map_of (omit_none k e y) k' = (if k' = k \<and> y \<noteq> [] then Some (JArray (map e y)) else None)"
  "(m ++ map_of (omit_none k e y)) k' = (if k' = k \<and> y \<noteq> [] then Some (JArray (map e y)) else m k')"
  by (simp_all add: omit_none_def elems_def)

lemma names_decode: "unmarshal_Names (Some (marshal_names_ac (configure_names n))) = Some (stored_names n)"
  by (cases n) (auto simp: unmarshal_Names_def marshal_names_ac_def configure_names_def stored_names_def stored_slice_eq
      Names_ac_def Names_WithPlural_def Names_WithSingular_def Names_WithShortNames_def Names_WithKind_def
      Names_WithListKind_def Names_WithCategories_def)

lemma scale_decode: "unmarshal_Scale (Some (marshal_scale_ac (configure_scale s))) = Some s"
  by (cases s; cases "LabelSelectorPath s") (auto simp: unmarshal_Scale_def marshal_scale_ac_def configure_scale_def
      Scale_ac_def Scale_WithSpecReplicasPath_def Scale_WithStatusReplicasPath_def Scale_WithLabelSelectorPath_def)

lemma scale_ac_not_null [simp]: "marshal_scale_ac s \<noteq> JNull" "marshal_subresources_ac u \<noteq> JNull"
  by (simp_all add: marshal_scale_ac_def marshal_subresources_ac_def)

lemma subresources_decode: "unmarshal_Subresources (Some (marshal_subresources_ac (configure_subresources s))) = Some s"
  by (cases s) (auto simp: unmarshal_Subresources_def marshal_subresources_ac_def configure_subresources_def if_set_def
      Subresources_ac_def Subresources_WithStatus_def Subresources_WithScale_def Subresources_WithHistory_def
      Subresources_WithRef_def empty_struct_roundtrip to_pointer_inner scale_decode split: option.splits)

lemma version_decode: "unmarshal_Version (Some (marshal_version_ac (configure_version v))) = Some v"
  by (cases v; cases "vSubresources v") (auto simp: unmarshal_Version_def marshal_version_ac_def configure_version_def if_set_def Version_ac_def
      Version_WithName_def Version_WithServed_def Version_WithStorage_def Version_WithDeprecated_def
      Version_WithDeprecationWarning_def Version_WithSubresources_def to_pointer_inner subresources_decode
      split: option.splits)

definition configured_spec :: "GrafanaResourceDefinitionSpec \<Rightarrow> spec_ac" where
  "configured_spec s = \<lparr>paGroup = Some (sGroup s), paNames = Some (configure_names (sNames s)), paScope = Some (sScope s),
     paVersions = map configure_version (sVersions s), paPreserveUnknownFields = Some (sPreserveUnknownFields s)\<rparr>"

lemma configure_spec_eq: "configure_spec s = Ret (configured_spec s)"
proof -
  have "map (Some \<circ> configure_version) vs = map Some (map configure_version vs)" for vs by simp
  then show ?thesis
    by (simp only: configure_spec_def WithVersions_appends) (simp add: configured_spec_def Spec_ac_def Spec_WithGroup_def
      Spec_WithNames_def Spec_WithScope_def Spec_WithPreserveUnknownFields_def)
qed

lemma spec_decode:
  "unmarshal_Spec (Some (marshal_spec_ac (configured_spec s))) =
    Some (s\<lparr>sNames := stored_names (sNames s)\<rparr>, sVersions s = [])"
proof -
  have "those (map ((\<lambda>x. unmarshal_Version (Some x)) \<circ> (marshal_version_ac \<circ> configure_version)) vs) = Some vs" for vs
    by (induction vs) (simp_all add: version_decode)
  then show ?thesis
    by (cases s) (auto simp: unmarshal_Spec_def marshal_spec_ac_def configured_spec_def names_decode elems_def)
qed

text \<open>
  C39. Apply configurations lose nothing: the configuration that a client builds from a spec with all
  the builders is built without panic, and its document is decoded to that spec, with empty short
  names and categories as nil, and versions as nil if there are none.
\<close>

theorem configured_spec_decodes:
  "\<exists>b. configure_spec s = Ret b \<and>
    unmarshal_Spec (Some (marshal_spec_ac b)) = Some (s\<lparr>sNames := stored_names (sNames s)\<rparr>, sVersions s = [])"
  by (simp add: configure_spec_eq spec_decode)

end
