(* ===== verification/Client.thy ===== *)
theory Client
  imports Complex_Main Controllers ApplyConfig "HOL-Library.Word"
begin

text \<open>
  The generated client of definitions, \<open>client/clientset/clientset\<close>: each method is one request,
  which \<open>rest.Interface\<close> carries out. A method takes that interface as the argument \<open>rest\<close>, a
  function from the request to the answer; \<open>Into(result)\<close> and the error are the two sides of a sum.
  Durations are 64-bit words of nanoseconds, so that \<open>time.Duration(s) * time.Second\<close> wraps around.
\<close>

section \<open>Requests\<close>

record 'o list_options =
  loTimeoutSeconds :: "64 word option"
  loWatch :: bool
  loMore :: 'o

datatype 'o params = ListParams "'o list_options" | Params 'o

datatype 'o body = GRDBody GRD | OptionsBody 'o | DataBody string

record 'o rest_request =
  rqVerb :: string
  rqResource :: string
  rqName :: "string option"
  rqSubResource :: "string list"
  rqParams :: "'o params option"
  rqTimeout :: "64 word option"
  rqBody :: "'o body option"

definition new_request :: "string \<Rightarrow> 'o rest_request" where
  "new_request verb = \<lparr>rqVerb = verb, rqResource = ''grafanaresourcedefinitions'', rqName = None, rqSubResource = [],
     rqParams = None, rqTimeout = None, rqBody = None\<rparr>"

definition second :: "64 word" where "second = 1000000000"

definition list_timeout :: "'o list_options \<Rightarrow> 64 word" where
  "list_timeout opts = (case loTimeoutSeconds opts of None \<Rightarrow> 0 | Some s \<Rightarrow> s * second)"

section \<open>Methods\<close>

definition grds_Get :: "('o rest_request \<Rightarrow> go_error + GRD) \<Rightarrow> string \<Rightarrow> 'o \<Rightarrow> go_error + GRD" where
  "grds_Get rest name options = rest ((new_request ''GET'')\<lparr>rqName := Some name, rqParams := Some (Params options)\<rparr>)"

definition grds_List ::
  "('o rest_request \<Rightarrow> go_error + GrafanaResourceDefinitionSpec GrafanaResourceDefinitionList) \<Rightarrow> 'o list_options \<Rightarrow>
   go_error + GrafanaResourceDefinitionSpec GrafanaResourceDefinitionList" where
  "grds_List rest opts =
    rest ((new_request ''GET'')\<lparr>rqParams := Some (ListParams opts), rqTimeout := Some (list_timeout opts)\<rparr>)"

definition grds_Watch :: "('o rest_request \<Rightarrow> go_error + 'w) \<Rightarrow> 'o list_options \<Rightarrow> go_error + 'w" where
  "grds_Watch rest opts =
    rest ((new_request ''GET'')\<lparr>rqParams := Some (ListParams (opts\<lparr>loWatch := True\<rparr>)), rqTimeout := Some (list_timeout opts)\<rparr>)"

definition grds_Create :: "('o rest_request \<Rightarrow> go_error + GRD) \<Rightarrow> GRD \<Rightarrow> 'o \<Rightarrow> go_error + GRD" where
  "grds_Create rest grd opts = rest ((new_request ''POST'')\<lparr>rqParams := Some (Params opts), rqBody := Some (GRDBody grd)\<rparr>)"

definition grds_Update :: "('o rest_request \<Rightarrow> go_error + GRD) \<Rightarrow> GRD \<Rightarrow> 'o \<Rightarrow> go_error + GRD" where
  "grds_Update rest grd opts =
    rest ((new_request ''PUT'')\<lparr>rqName := Some (grd_name grd), rqParams := Some (Params opts), rqBody := Some (GRDBody grd)\<rparr>)"

definition grds_UpdateStatus :: "('o rest_request \<Rightarrow> go_error + GRD) \<Rightarrow> GRD \<Rightarrow> 'o \<Rightarrow> go_error + GRD" where
  "grds_UpdateStatus rest grd opts =
    rest ((new_request ''PUT'')\<lparr>rqName := Some (grd_name grd), rqSubResource := [''status''], rqParams := Some (Params opts),
      rqBody := Some (GRDBody grd)\<rparr>)"

definition grds_Delete :: "('o rest_request \<Rightarrow> go_error option) \<Rightarrow> string \<Rightarrow> 'o \<Rightarrow> go_error option" where
  "grds_Delete rest name opts = rest ((new_request ''DELETE'')\<lparr>rqName := Some name, rqBody := Some (OptionsBody opts)\<rparr>)"

definition grds_DeleteCollection ::
  "('o rest_request \<Rightarrow> go_error option) \<Rightarrow> 'o \<Rightarrow> 'o list_options \<Rightarrow> go_error option" where
  "grds_DeleteCollection rest opts listOpts =
    rest ((new_request ''DELETE'')\<lparr>rqParams := Some (ListParams listOpts), rqTimeout := Some (list_timeout listOpts),
      rqBody := Some (OptionsBody opts)\<rparr>)"

definition grds_Patch ::
  "('o rest_request \<Rightarrow> go_error + GRD) \<Rightarrow> string \<Rightarrow> string \<Rightarrow> string \<Rightarrow> 'o \<Rightarrow> string list \<Rightarrow> go_error + GRD" where
  "grds_Patch rest name pt data opts subresources =
    rest ((new_request (''PATCH '' @ pt))\<lparr>rqName := Some name, rqSubResource := subresources, rqParams := Some (Params opts),
      rqBody := Some (DataBody data)\<rparr>)"

text \<open>
  \<open>Apply\<close> and \<open>ApplyStatus\<close>: \<open>marshal\<close> is \<open>json.Marshal\<close>, \<open>toPatch\<close> is \<open>opts.ToPatchOptions\<close>. The name is a
  field of the embedded pointer to the metadata: reading it where there is none panics.
\<close>

definition apply_request ::
  "('m grd_ac \<Rightarrow> go_error + string) \<Rightarrow> ('o \<Rightarrow> 'o) \<Rightarrow> string list \<Rightarrow> 'm grd_ac option \<Rightarrow> 'o \<Rightarrow> 'o rest_request outcome" where
  "apply_request marshal toPatch subresources grd opts =
    (case grd of
       None \<Rightarrow> Err (PlainErr ''grafanaResourceDefinition provided to Apply must not be nil'')
     | Some c \<Rightarrow>
         let patchOpts = toPatch opts
         in (case marshal c of
               Inl err \<Rightarrow> Err err
             | Inr data \<Rightarrow>
                 (case gaMeta c of
                    None \<Rightarrow> Panic
                  | Some meta \<Rightarrow>
                      (case maName meta of
                         None \<Rightarrow> Err (PlainErr ''grafanaResourceDefinition.Name must be provided to Apply'')
                       | Some name \<Rightarrow>
                           Ret ((new_request ''PATCH application/apply-patch+yaml'')\<lparr>rqName := Some name,
                             rqSubResource := subresources, rqParams := Some (Params patchOpts),
                             rqBody := Some (DataBody data)\<rparr>)))))"

definition sent :: "('o rest_request \<Rightarrow> go_error + GRD) \<Rightarrow> 'o rest_request outcome \<Rightarrow> GRD outcome" where
  "sent rest r = bind_outcome r (\<lambda>q. case rest q of Inl err \<Rightarrow> Err err | Inr grd \<Rightarrow> Ret grd)"

definition grds_Apply where
  "grds_Apply rest marshal toPatch grd opts = sent rest (apply_request marshal toPatch [] grd opts)"

definition grds_ApplyStatus where
  "grds_ApplyStatus rest marshal toPatch grd opts = sent rest (apply_request marshal toPatch [''status''] grd opts)"

section \<open>The clientset\<close>

record 'q rest_config =
  rcUserAgent :: string
  rcRateLimiter :: "'q option"
  rcQPS :: rat
  rcBurst :: int
  rcGroupVersion :: "(string \<times> string) option"
  rcAPIPath :: string

definition setConfigDefaults :: "string \<Rightarrow> 'q rest_config \<Rightarrow> go_error + 'q rest_config" where
  "setConfigDefaults defaultUserAgent config =
    (let config1 = config\<lparr>rcGroupVersion := Some (''kinds.grafana.com'', ''v1''), rcAPIPath := ''/apis''\<rparr>
     in Inr (if rcUserAgent config1 = [] then config1\<lparr>rcUserAgent := defaultUserAgent\<rparr> else config1))"

definition kindsv1_NewForConfigAndClient ::
  "string \<Rightarrow> ('q rest_config \<Rightarrow> 'h \<Rightarrow> go_error + 'r) \<Rightarrow> 'q rest_config \<Rightarrow> 'h \<Rightarrow> go_error + 'r" where
  "kindsv1_NewForConfigAndClient defaultUserAgent restClientFor c h =
    (case setConfigDefaults defaultUserAgent c of Inl err \<Rightarrow> Inl err | Inr config \<Rightarrow> restClientFor config h)"

definition kindsv1_NewForConfig ::
  "string \<Rightarrow> ('q rest_config \<Rightarrow> go_error + 'h) \<Rightarrow> ('q rest_config \<Rightarrow> 'h \<Rightarrow> go_error + 'r) \<Rightarrow> 'q rest_config \<Rightarrow> go_error + 'r" where
  "kindsv1_NewForConfig defaultUserAgent httpClientFor restClientFor c =
    (case setConfigDefaults defaultUserAgent c of
       Inl err \<Rightarrow> Inl err
     | Inr config \<Rightarrow>
         (case httpClientFor config of
            Inl err \<Rightarrow> Inl err
          | Inr h \<Rightarrow> kindsv1_NewForConfigAndClient defaultUserAgent restClientFor config h))"

definition burst_required :: go_error where
  "burst_required = PlainErr
    ''burst is required to be greater than 0 when RateLimiter is not set and QPS is set to greater than 0''"

definition clientset_NewForConfigAndClient ::
  "string \<Rightarrow> (rat \<Rightarrow> int \<Rightarrow> 'q) \<Rightarrow> ('q rest_config \<Rightarrow> 'h \<Rightarrow> go_error + 'r) \<Rightarrow> ('q rest_config \<Rightarrow> 'h \<Rightarrow> go_error + 'd) \<Rightarrow>
   'q rest_config \<Rightarrow> 'h \<Rightarrow> go_error + 'r \<times> 'd" where
  "clientset_NewForConfigAndClient defaultUserAgent newLimiter restClientFor discoveryFor c httpClient =
    (if rcRateLimiter c = None \<and> rcQPS c > 0 \<and> rcBurst c \<le> 0 then Inl burst_required
     else
       let config = (if rcRateLimiter c = None \<and> rcQPS c > 0
                     then c\<lparr>rcRateLimiter := Some (newLimiter (rcQPS c) (rcBurst c))\<rparr> else c)
       in (case kindsv1_NewForConfigAndClient defaultUserAgent restClientFor config httpClient of
             Inl err \<Rightarrow> Inl err
           | Inr kinds \<Rightarrow>
               (case discoveryFor config httpClient of Inl err \<Rightarrow> Inl err | Inr disc \<Rightarrow> Inr (kinds, disc))))"

definition clientset_NewForConfig ::
  "string \<Rightarrow> (rat \<Rightarrow> int \<Rightarrow> 'q) \<Rightarrow> ('q rest_config \<Rightarrow> go_error + 'h) \<Rightarrow> ('q rest_config \<Rightarrow> 'h \<Rightarrow> go_error + 'r) \<Rightarrow>
   ('q rest_config \<Rightarrow> 'h \<Rightarrow> go_error + 'd) \<Rightarrow> 'q rest_config \<Rightarrow> go_error + 'r \<times> 'd" where
  "clientset_NewForConfig defaultUserAgent newLimiter httpClientFor restClientFor discoveryFor c =
    (let config = (if rcUserAgent c = [] then c\<lparr>rcUserAgent := defaultUserAgent\<rparr> else c)
     in (case httpClientFor config of
           Inl err \<Rightarrow> Inl err
         | Inr h \<Rightarrow> clientset_NewForConfigAndClient defaultUserAgent newLimiter restClientFor discoveryFor config h))"

text \<open>\<open>NewForConfigOrDie\<close> panics where \<open>NewForConfig\<close> returns an error: \<open>None\<close>. \<open>New\<close> wraps a given client.\<close>

definition clientset_NewForConfigOrDie where
  "clientset_NewForConfigOrDie defaultUserAgent newLimiter httpClientFor restClientFor discoveryFor c =
    (case clientset_NewForConfig defaultUserAgent newLimiter httpClientFor restClientFor discoveryFor c of
       Inl err \<Rightarrow> None
     | Inr cs \<Rightarrow> Some cs)"

definition kindsv1_NewForConfigOrDie where
  "kindsv1_NewForConfigOrDie defaultUserAgent httpClientFor restClientFor c =
    (case kindsv1_NewForConfig defaultUserAgent httpClientFor restClientFor c of Inl err \<Rightarrow> None | Inr client \<Rightarrow> Some client)"

definition kindsv1_New :: "'r \<Rightarrow> 'r" where "kindsv1_New c = c"

definition clientset_New :: "('r \<Rightarrow> 'd) \<Rightarrow> 'r \<Rightarrow> 'r \<times> 'd" where
  "clientset_New newDiscoveryClient c = (kindsv1_New c, newDiscoveryClient c)"

section \<open>Properties\<close>

text \<open>
  \<open>NewForConfigOrDie\<close> panics for a rate without a burst, whatever the clients answer.
\<close>

lemma or_die_panics:
  assumes "rcRateLimiter c = None" and "rcQPS c > 0" and "rcBurst c \<le> 0"
  shows "clientset_NewForConfigOrDie ua newLimiter httpClientFor restClientFor discoveryFor c = None"
  using assms
  by (simp add: clientset_NewForConfigOrDie_def clientset_NewForConfig_def clientset_NewForConfigAndClient_def Let_def
      split: sum.split)

text \<open>
  The two clients of a clientset share one rate limiter, and none is made when the configuration
  brings its own.
\<close>

lemma clients_share_limiter:
  assumes "clientset_NewForConfigAndClient ua newLimiter (\<lambda>cfg h. Inr cfg) (\<lambda>cfg h. Inr cfg) c h = Inr (kinds, disc)"
  shows "rcRateLimiter kinds = rcRateLimiter disc \<and>
    rcRateLimiter disc = (case rcRateLimiter c of Some q \<Rightarrow> Some q
       | None \<Rightarrow> if rcQPS c > 0 then Some (newLimiter (rcQPS c) (rcBurst c)) else None)"
  using assms
  by (auto simp: clientset_NewForConfigAndClient_def kindsv1_NewForConfigAndClient_def setConfigDefaults_def Let_def
      split: if_splits option.splits)

lemma sint_product:
  "sint (a * b :: 64 word) = sint a * sint b \<longleftrightarrow> - (2 ^ 63) \<le> sint a * sint b \<and> sint a * sint b < 2 ^ 63"
  by (simp add: sint_word_ariths signed_take_bit_int_eq_self_iff)

text \<open>
  The timeout of \<open>List\<close>, \<open>Watch\<close> and \<open>DeleteCollection\<close> is the number of seconds asked for,
  exactly when that number lies within 9223372036; beyond it the product with \<open>time.Second\<close> wraps
  around, and one second more already gives a negative timeout.
\<close>

theorem list_timeout_wraps:
  assumes "loTimeoutSeconds opts = Some s"
  shows "sint (list_timeout opts) = sint s * 1000000000 \<longleftrightarrow> \<bar>sint s\<bar> \<le> 9223372036"
    (is "?L \<longleftrightarrow> ?R")
proof -
  have "sint (list_timeout opts) = sint s * 1000000000 \<longleftrightarrow>
      - (2 ^ 63) \<le> sint s * 1000000000 \<and> sint s * 1000000000 < 2 ^ 63"
    using sint_product [of s second] by (simp add: list_timeout_def assms second_def)
  also have "\<dots> \<longleftrightarrow> \<bar>sint s\<bar> \<le> 9223372036" by auto
  finally show ?thesis .
qed

theorem list_timeout_wraps_witness:
  "sint (list_timeout \<lparr>loTimeoutSeconds = Some 9223372037, loWatch = False, loMore = ()\<rparr>) \<noteq> 9223372037000000000"
  using list_timeout_wraps [of "\<lparr>loTimeoutSeconds = Some 9223372037, loWatch = False, loMore = ()\<rparr>" 9223372037]
  by simp

lemma long_timeout_is_negative:
  "sint (list_timeout \<lparr>loTimeoutSeconds = Some 9223372037, loWatch = False, loMore = ()\<rparr>) < 0"
  by (simp add: list_timeout_def second_def)

text \<open>
  \<open>Apply\<close> with what the constructor and the builders make is sent, under the name given to the
  constructor, whatever is set in between; with a configuration that was made without the
  constructor, and whose metadata no builder has touched, it panics, although the code has an error
  for a missing name.
\<close>

theorem apply_needs_the_constructor:
  assumes "\<And>c. \<exists>data. marshal c = Inr data"
  shows "(\<exists>r. apply_request marshal toPatch subs (Some (GRD_WithStatus st (GRD_WithSpec sp (GRD_ac name)))) opts = Ret r \<and>
      rqName r = Some name \<and> rqSubResource r = subs \<and>
      rqBody r = Some (DataBody (projr (marshal (GRD_WithStatus st (GRD_WithSpec sp (GRD_ac name))))))) \<and>
    apply_request marshal toPatch subs (Some (GRD_WithStatus st (GRD_WithSpec sp (GRD_WithKind k empty_grd_ac)))) opts = Panic"
proof -
  obtain d1 d2 where "marshal (GRD_WithStatus st (GRD_WithSpec sp (GRD_ac name))) = Inr d1"
    "marshal (GRD_WithStatus st (GRD_WithSpec sp (GRD_WithKind k empty_grd_ac))) = Inr d2"
    using assms by meson
  then show ?thesis
    by (simp add: apply_request_def Let_def)
      (simp add: GRD_ac_def Let_def GRD_WithName_def GRD_WithKind_def GRD_WithAPIVersion_def GRD_WithSpec_def GRD_WithStatus_def
        in_meta_def ensureObjectMetaApplyConfigurationExists_def empty_grd_ac_def new_request_def)
qed

theorem apply_needs_the_constructor_witness:
  "apply_request (\<lambda>c. Inr ''{}'') id [] (Some (GRD_WithStatus None (GRD_WithSpec None (GRD_WithKind ''X'' (empty_grd_ac :: unit grd_ac))))) () = Panic"
  by (rule apply_needs_the_constructor [THEN conjunct2]) simp

end
