(* ===== verification/Startup.thy ===== *)
theory Startup
  imports Wiring Naming
begin

text \<open>
  Start and shutdown of the server: the three hooks that \<open>New\<close> in \<open>apiserver/apiserver.go\<close> registers,
  the \<open>Run\<close> methods of the seven controllers, and their workers, as goroutines that interleave.

  A goroutine is what it still has to do, \<open>go\<close>: a call that blocks or that other goroutines can see,
  and how the code goes on after it; where the call answers, the continuation is a function of the
  answer. Deferred calls are written out on every way to the end; logging is left out. A worker is
  \<open>wait.Until\<close> around \<open>runWorker\<close>, which is \<open>processNextWorkItem\<close> until it answers false.

  The queue is client-go's: a parameter \<open>gives\<close> says which answers \<open>Get\<close> may give after a history of
  the queue, and theorems name what they rely on. So are the syncs, by their outcomes, which other
  theories model. A panic in a worker passes \<open>HandleCrash\<close> and ends the process, unless
  \<open>ReallyCrash\<close> is off.
\<close>

section \<open>Goroutines\<close>

datatype informer = GRDInformer | APIServiceInformer

datatype channel = DiscoverySynced | SyncedInitialSet | DiscoveryReady

datatype go =
    StartInformers informer go
  | Spawn controller go go
  | CacheSync informer "bool \<Rightarrow> go"
  | PollSynced informer "bool \<Rightarrow> go"
  | PollDiscovery "bool \<Rightarrow> go"
  | Prepare go
  | CloseChannel channel go
  | StartWorker go
  | AwaitStop go
  | AwaitStopOr channel go
  | ShutDownQueue go
  | Ended "go_error option"

fun start_workers :: "nat \<Rightarrow> go \<Rightarrow> go" where
  "start_workers 0 k = k"
| "start_workers (Suc n) k = StartWorker (start_workers n k)"

subsection \<open>The controllers\<close>

definition naming_Run :: go where
  "naming_Run = CacheSync GRDInformer (\<lambda>ok.
     if \<not> ok then ShutDownQueue (Ended None)
     else StartWorker (AwaitStop (ShutDownQueue (Ended None))))"

definition establishing_Run :: go where
  "establishing_Run = CacheSync GRDInformer (\<lambda>ok.
     if \<not> ok then ShutDownQueue (Ended None)
     else StartWorker (AwaitStop (ShutDownQueue (Ended None))))"

definition approval_Run :: "nat \<Rightarrow> go" where
  "approval_Run workers = CacheSync GRDInformer (\<lambda>ok.
     if \<not> ok then ShutDownQueue (Ended None)
     else start_workers workers (AwaitStop (ShutDownQueue (Ended None))))"

definition finalizer_Run :: "nat \<Rightarrow> go" where
  "finalizer_Run workers = CacheSync GRDInformer (\<lambda>ok.
     if \<not> ok then ShutDownQueue (Ended None)
     else start_workers workers (AwaitStop (ShutDownQueue (Ended None))))"

text \<open>
  \<open>Prepare\<close> stands for the work that these two do themselves before they start workers: the pass
  over all versions (\<open>initial_sync\<close>) and the record of the services at start (\<open>record_at_start\<close>).
\<close>

definition registration_Run :: "nat \<Rightarrow> go" where
  "registration_Run workers = CacheSync GRDInformer (\<lambda>ok.
     if \<not> ok then ShutDownQueue (Ended None)
     else Prepare (CloseChannel SyncedInitialSet
       (start_workers workers (AwaitStop (ShutDownQueue (Ended None))))))"

definition autoregister_Run :: "nat \<Rightarrow> go" where
  "autoregister_Run workers = CacheSync APIServiceInformer (\<lambda>ok.
     if \<not> ok then ShutDownQueue (Ended None)
     else Prepare (start_workers workers (AwaitStop (ShutDownQueue (Ended None)))))"

text \<open>
  The condition that \<open>PollImmediateUntil\<close> polls never answers an error, so the error is
  \<open>ErrWaitTimeout\<close> or none, and the panic behind \<open>else if err != nil\<close> is not reached.
\<close>

definition discovery_Run :: "channel \<Rightarrow> go" where
  "discovery_Run synchedCh = CacheSync GRDInformer (\<lambda>ok.
     if \<not> ok then ShutDownQueue (Ended None)
     else PollDiscovery (\<lambda>ok.
       if \<not> ok then ShutDownQueue (Ended None)
       else CloseChannel synchedCh (StartWorker (AwaitStop (ShutDownQueue (Ended None))))))"

subsection \<open>The hooks\<close>

text \<open>\<open>registration\<close> says whether there is a cluster to register with (\<open>apiInformers != nil\<close>).\<close>

definition informers_hook :: "bool \<Rightarrow> go" where
  "informers_hook registration = StartInformers GRDInformer
     (if registration then StartInformers APIServiceInformer (Ended None) else Ended None)"

definition controllers_hook :: "bool \<Rightarrow> go" where
  "controllers_hook registration =
    (let rest = Spawn NamingC naming_Run (Spawn EstablishingC establishing_Run
           (Spawn ApiApprovalC (approval_Run 5) (Spawn FinalizingC (finalizer_Run 5)
           (Spawn DiscoveryC (discovery_Run DiscoverySynced)
           (AwaitStopOr DiscoverySynced (Ended None))))))
     in if registration
        then Spawn AutoRegistration (autoregister_Run 5) (Spawn GRDRegistration (registration_Run 5) rest)
        else rest)"

definition ErrWaitTimeout :: go_error where
  "ErrWaitTimeout = PlainErr ''timed out waiting for the condition''"

definition synced_hook :: go where
  "synced_hook = PollSynced GRDInformer (\<lambda>ok.
     if ok then CloseChannel DiscoveryReady (Ended None) else Ended (Some ErrWaitTimeout))"

section \<open>The system\<close>

datatype hook = InformersHook | ControllersHook | SyncedHook

datatype thread = HookT hook | RunT controller

datatype 'k queue_worker = Resting | Fetching | Syncing 'k | Gone

datatype 'k queue_event = QGot 'k | QOp "'k queue_op" | QShutDown

record 'k system =
  syThreads :: "thread \<Rightarrow> go option"
  syStopped :: bool
  syStarted :: "informer set"
  sySynced :: "informer set"
  syClosed :: "channel set"
  syPrepared :: "controller set"
  syWorkers :: "controller \<Rightarrow> 'k queue_worker list"
  syQueue :: "controller \<Rightarrow> 'k queue_event list"
  syCrashed :: bool

definition start_system :: "bool \<Rightarrow> 'k system" where
  "start_system registration = \<lparr>
     syThreads = [HookT InformersHook \<mapsto> informers_hook registration,
       HookT ControllersHook \<mapsto> controllers_hook registration, HookT SyncedHook \<mapsto> synced_hook],
     syStopped = False, syStarted = {}, sySynced = {}, syClosed = {}, syPrepared = {},
     syWorkers = (\<lambda>_. []), syQueue = (\<lambda>_. []), syCrashed = False\<rparr>"

definition note_queue :: "controller \<Rightarrow> 'k queue_event list \<Rightarrow> 'k system \<Rightarrow> 'k system" where
  "note_queue c es s = s\<lparr>syQueue := (syQueue s)(c := syQueue s c @ es)\<rparr>"

definition set_worker :: "controller \<Rightarrow> nat \<Rightarrow> 'k queue_worker \<Rightarrow> 'k system \<Rightarrow> 'k system" where
  "set_worker c i w s = s\<lparr>syWorkers := (syWorkers s)(c := (syWorkers s c)[i := w])\<rparr>"

text \<open>
  One call of a goroutine; workers and queue are those of its own controller. \<open>CacheSync\<close> and the polls answer false only when the server was stopped;
  a channel that is closed a second time panics.
\<close>

inductive move :: "thread \<Rightarrow> go \<Rightarrow> 'k system \<Rightarrow> go \<Rightarrow> 'k system \<Rightarrow> bool" where
  start: "move t (StartInformers i k) s k (s\<lparr>syStarted := insert i (syStarted s)\<rparr>)"
| spawn: "move t (Spawn c r k) s k (s\<lparr>syThreads := (syThreads s)(RunT c := Some r)\<rparr>)"
| cache: "i \<in> sySynced s \<Longrightarrow> move t (CacheSync i f) s (f True) s"
| cache_stopped: "syStopped s \<Longrightarrow> move t (CacheSync i f) s (f False) s"
| synced: "i \<in> sySynced s \<Longrightarrow> move t (PollSynced i f) s (f True) s"
| synced_stopped: "syStopped s \<Longrightarrow> move t (PollSynced i f) s (f False) s"
| discovery: "move t (PollDiscovery f) s (f True) s"
| discovery_stopped: "syStopped s \<Longrightarrow> move t (PollDiscovery f) s (f False) s"
| prepare: "move t (Prepare k) s k (s\<lparr>syPrepared := {c. t = RunT c} \<union> syPrepared s\<rparr>)"
| close: "move t (CloseChannel ch k) s k
    (if ch \<in> syClosed s then s\<lparr>syCrashed := True\<rparr> else s\<lparr>syClosed := insert ch (syClosed s)\<rparr>)"
| worker: "move t (StartWorker k) s k
    (s\<lparr>syWorkers := (\<lambda>c. if t = RunT c then syWorkers s c @ [Resting] else syWorkers s c)\<rparr>)"
| stop: "syStopped s \<Longrightarrow> move t (AwaitStop k) s k s"
| stop_or: "syStopped s \<or> ch \<in> syClosed s \<Longrightarrow> move t (AwaitStopOr ch k) s k s"
| shut_down: "move t (ShutDownQueue k) s k
    (s\<lparr>syQueue := (\<lambda>c. if t = RunT c then syQueue s c @ [QShutDown] else syQueue s c)\<rparr>)"

text \<open>
  The loops of a worker. \<open>wait.Until\<close> looks at the stop channel, then calls \<open>runWorker\<close>; that asks
  the queue, syncs the key it got with the queue operations of \<open>process_next\<close>, and returns when the
  queue was shut down.
\<close>

inductive work ::
  "('k queue_event list \<Rightarrow> 'k option \<Rightarrow> bool) \<Rightarrow> (controller \<Rightarrow> 'k \<Rightarrow> unit outcome \<Rightarrow> bool) \<Rightarrow> bool \<Rightarrow>
   controller \<Rightarrow> 'k system \<Rightarrow> 'k queue_worker \<Rightarrow> 'k queue_worker \<Rightarrow> 'k queue_event list \<Rightarrow> bool \<Rightarrow> bool"
  for gives sync reallyCrash where
  run: "\<not> syStopped s \<Longrightarrow> work gives sync reallyCrash c s Resting Fetching [] False"
| leave: "syStopped s \<Longrightarrow> work gives sync reallyCrash c s Resting Gone [] False"
| get: "gives (syQueue s c) (Some key) \<Longrightarrow> work gives sync reallyCrash c s Fetching (Syncing key) [QGot key] False"
| quit: "gives (syQueue s c) None \<Longrightarrow> work gives sync reallyCrash c s Fetching Resting [] False"
| sync: "sync c key r \<Longrightarrow> process_next (\<lambda>_. r) (Some key) = (Ret True, ops) \<Longrightarrow>
    work gives sync reallyCrash c s (Syncing key) Fetching (map QOp ops) False"
| panic: "sync c key r \<Longrightarrow> process_next (\<lambda>_. r) (Some key) = (Panic, ops) \<Longrightarrow>
    work gives sync reallyCrash c s (Syncing key) Resting (map QOp ops) reallyCrash"

text \<open>
  A step of the server: a goroutine or a worker goes on, the stop channel is closed, an informer
  that was started has synced, or an event handler uses a queue.
\<close>

inductive system_step ::
  "('k queue_event list \<Rightarrow> 'k option \<Rightarrow> bool) \<Rightarrow> (controller \<Rightarrow> 'k \<Rightarrow> unit outcome \<Rightarrow> bool) \<Rightarrow> bool \<Rightarrow>
   'k system \<Rightarrow> 'k system \<Rightarrow> bool"
  for gives sync reallyCrash where
  goroutine: "\<not> syCrashed s \<Longrightarrow> syThreads s t = Some g \<Longrightarrow> move t g s g' s' \<Longrightarrow>
    system_step gives sync reallyCrash s (s'\<lparr>syThreads := (syThreads s')(t := Some g')\<rparr>)"
| worker: "\<not> syCrashed s \<Longrightarrow> i < length (syWorkers s c) \<Longrightarrow>
    work gives sync reallyCrash c s (syWorkers s c ! i) w es crash \<Longrightarrow>
    system_step gives sync reallyCrash s ((set_worker c i w (note_queue c es s))\<lparr>syCrashed := crash\<rparr>)"
| stop: "\<not> syCrashed s \<Longrightarrow> system_step gives sync reallyCrash s (s\<lparr>syStopped := True\<rparr>)"
| informer: "\<not> syCrashed s \<Longrightarrow> i \<in> syStarted s \<Longrightarrow>
    system_step gives sync reallyCrash s (s\<lparr>sySynced := insert i (sySynced s)\<rparr>)"
| handler: "\<not> syCrashed s \<Longrightarrow> \<forall>key. e \<noteq> QDone key \<Longrightarrow>
    system_step gives sync reallyCrash s (note_queue c [QOp e] s)"

inductive system_reachable ::
  "('k queue_event list \<Rightarrow> 'k option \<Rightarrow> bool) \<Rightarrow> (controller \<Rightarrow> 'k \<Rightarrow> unit outcome \<Rightarrow> bool) \<Rightarrow> bool \<Rightarrow>
   bool \<Rightarrow> 'k system \<Rightarrow> bool"
  for gives sync reallyCrash registration where
  start: "system_reachable gives sync reallyCrash registration (start_system registration)"
| step: "system_reachable gives sync reallyCrash registration s \<Longrightarrow>
    system_step gives sync reallyCrash s s' \<Longrightarrow> system_reachable gives sync reallyCrash registration s'"

section \<open>Milestones\<close>

text \<open>
  Two questions about what a goroutine still has to do, whichever answers it gets: may it start
  a worker, end, or end without an error, without passing a milestone? How many workers does it start,
  how often does it close a channel, which goroutines does it spawn?
\<close>

datatype milestone =
    Synced informer
  | Prepared
  | Closed channel
  | StoppedOr channel
  | Spawned controller
  | ShutDown

datatype goal = AtWorker | AtEnd | AtSuccess

primrec skips :: "goal \<Rightarrow> milestone \<Rightarrow> go \<Rightarrow> bool" where
  "skips a m (StartInformers i k) = skips a m k"
| "skips a m (Spawn c r k) = (m \<noteq> Spawned c \<and> skips a m k)"
| "skips a m (CacheSync i f) = (m \<noteq> Synced i \<and> (skips a m \<circ> f) True \<or> (skips a m \<circ> f) False)"
| "skips a m (PollSynced i f) = (m \<noteq> Synced i \<and> (skips a m \<circ> f) True \<or> (skips a m \<circ> f) False)"
| "skips a m (PollDiscovery f) = ((skips a m \<circ> f) True \<or> (skips a m \<circ> f) False)"
| "skips a m (Prepare k) = (m \<noteq> Prepared \<and> skips a m k)"
| "skips a m (CloseChannel ch k) = (m \<noteq> Closed ch \<and> skips a m k)"
| "skips a m (StartWorker k) = (a = AtWorker \<or> skips a m k)"
| "skips a m (AwaitStop k) = skips a m k"
| "skips a m (AwaitStopOr ch k) = (m \<noteq> StoppedOr ch \<and> skips a m k)"
| "skips a m (ShutDownQueue k) = (m \<noteq> ShutDown \<and> skips a m k)"
| "skips a m (Ended e) = (a = AtEnd \<or> a = AtSuccess \<and> e = None)"

text \<open>When a milestone of a thread is reached.\<close>

fun reached :: "'k system \<Rightarrow> thread \<Rightarrow> milestone \<Rightarrow> bool" where
  "reached s t (Synced i) = (i \<in> sySynced s)"
| "reached s t Prepared = (\<forall>c. t = RunT c \<longrightarrow> c \<in> syPrepared s)"
| "reached s t (Closed ch) = (ch \<in> syClosed s)"
| "reached s t (StoppedOr ch) = (syStopped s \<or> ch \<in> syClosed s)"
| "reached s t (Spawned c) = (syThreads s (RunT c) \<noteq> None)"
| "reached s t ShutDown = (\<forall>c. t = RunT c \<longrightarrow> QShutDown \<in> set (syQueue s c))"

primrec workers_left :: "go \<Rightarrow> nat" where
  "workers_left (StartInformers i k) = workers_left k"
| "workers_left (Spawn c r k) = workers_left k"
| "workers_left (CacheSync i f) = max ((workers_left \<circ> f) True) ((workers_left \<circ> f) False)"
| "workers_left (PollSynced i f) = max ((workers_left \<circ> f) True) ((workers_left \<circ> f) False)"
| "workers_left (PollDiscovery f) = max ((workers_left \<circ> f) True) ((workers_left \<circ> f) False)"
| "workers_left (Prepare k) = workers_left k"
| "workers_left (CloseChannel ch k) = workers_left k"
| "workers_left (StartWorker k) = Suc (workers_left k)"
| "workers_left (AwaitStop k) = workers_left k"
| "workers_left (AwaitStopOr ch k) = workers_left k"
| "workers_left (ShutDownQueue k) = workers_left k"
| "workers_left (Ended e) = 0"

primrec closes_left :: "channel \<Rightarrow> go \<Rightarrow> nat" where
  "closes_left ch (StartInformers i k) = closes_left ch k"
| "closes_left ch (Spawn c r k) = closes_left ch k"
| "closes_left ch (CacheSync i f) = max ((closes_left ch \<circ> f) True) ((closes_left ch \<circ> f) False)"
| "closes_left ch (PollSynced i f) = max ((closes_left ch \<circ> f) True) ((closes_left ch \<circ> f) False)"
| "closes_left ch (PollDiscovery f) = max ((closes_left ch \<circ> f) True) ((closes_left ch \<circ> f) False)"
| "closes_left ch (Prepare k) = closes_left ch k"
| "closes_left ch (CloseChannel ch' k) = (if ch' = ch then Suc (closes_left ch k) else closes_left ch k)"
| "closes_left ch (StartWorker k) = closes_left ch k"
| "closes_left ch (AwaitStop k) = closes_left ch k"
| "closes_left ch (AwaitStopOr ch' k) = closes_left ch k"
| "closes_left ch (ShutDownQueue k) = closes_left ch k"
| "closes_left ch (Ended e) = 0"

primrec spawns_left :: "go \<Rightarrow> (controller \<times> go) list" where
  "spawns_left (StartInformers i k) = spawns_left k"
| "spawns_left (Spawn c r k) = (c, r) # spawns_left k"
| "spawns_left (CacheSync i f) = (spawns_left \<circ> f) True @ (spawns_left \<circ> f) False"
| "spawns_left (PollSynced i f) = (spawns_left \<circ> f) True @ (spawns_left \<circ> f) False"
| "spawns_left (PollDiscovery f) = (spawns_left \<circ> f) True @ (spawns_left \<circ> f) False"
| "spawns_left (Prepare k) = spawns_left k"
| "spawns_left (CloseChannel ch k) = spawns_left k"
| "spawns_left (StartWorker k) = spawns_left k"
| "spawns_left (AwaitStop k) = spawns_left k"
| "spawns_left (AwaitStopOr ch k) = spawns_left k"
| "spawns_left (ShutDownQueue k) = spawns_left k"
| "spawns_left (Ended e) = []"

text \<open>The goroutine that each thread starts as.\<close>

fun Run :: "controller \<Rightarrow> go" where
  "Run AutoRegistration = autoregister_Run 5"
| "Run GRDRegistration = registration_Run 5"
| "Run NamingC = naming_Run"
| "Run EstablishingC = establishing_Run"
| "Run ApiApprovalC = approval_Run 5"
| "Run FinalizingC = finalizer_Run 5"
| "Run DiscoveryC = discovery_Run DiscoverySynced"

fun root :: "bool \<Rightarrow> thread \<Rightarrow> go" where
  "root registration (HookT InformersHook) = informers_hook registration"
| "root registration (HookT ControllersHook) = controllers_hook registration"
| "root registration (HookT SyncedHook) = synced_hook"
| "root registration (RunT c) = Run c"

lemmas run_defs = naming_Run_def establishing_Run_def approval_Run_def finalizer_Run_def registration_Run_def
  autoregister_Run_def discovery_Run_def

lemmas hook_defs = informers_hook_def controllers_hook_def synced_hook_def

lemma start_workers_measures [simp]:
  "skips AtWorker m (start_workers n k) = (0 < n \<or> skips AtWorker m k)"
  "skips AtEnd m (start_workers n k) = skips AtEnd m k"
  "skips AtSuccess m (start_workers n k) = skips AtSuccess m k"
  "workers_left (start_workers n k) = n + workers_left k"
  "closes_left ch (start_workers n k) = closes_left ch k"
  "spawns_left (start_workers n k) = spawns_left k"
  by (induction n) auto

text \<open>What the roots say, computed once.\<close>

lemma run_workers: "workers_left (Run c) = (if c \<in> {NamingC, EstablishingC, DiscoveryC} then 1 else 5)"
  by (cases c) (simp_all add: run_defs)

lemma run_skips_worker:
  "skips AtWorker m (Run c) \<longleftrightarrow>
    m \<noteq> Synced (if c = AutoRegistration then APIServiceInformer else GRDInformer) \<and>
    (c \<in> {AutoRegistration, GRDRegistration} \<longrightarrow> m \<noteq> Prepared) \<and>
    (c = DiscoveryC \<longrightarrow> m \<noteq> Closed DiscoverySynced) \<and>
    (c = GRDRegistration \<longrightarrow> m \<noteq> Closed SyncedInitialSet)"
  by (cases c) (auto simp: run_defs)

lemma run_ends_shut_down: "\<not> skips AtEnd ShutDown (Run c)"
  by (cases c) (simp_all add: run_defs)

lemma run_spawns: "spawns_left (Run c) = []"
  by (cases c) (simp_all add: run_defs)

lemma root_closes:
  "closes_left ch (root registration t) =
    (if t = (case ch of DiscoverySynced \<Rightarrow> RunT DiscoveryC | SyncedInitialSet \<Rightarrow> RunT GRDRegistration
             | DiscoveryReady \<Rightarrow> HookT SyncedHook) then 1 else 0)"
proof (cases t)
  case (HookT h)
  then show ?thesis by (cases h) (simp_all add: hook_defs Let_def split: channel.split)
next
  case (RunT c)
  then show ?thesis by (cases c) (simp_all add: run_defs split: channel.split)
qed

lemma hook_spawns:
  "spawns_left (root registration (HookT h)) =
    (if h = ControllersHook then
       map (\<lambda>c. (c, Run c)) ((if registration then [AutoRegistration, GRDRegistration] else []) @
         [NamingC, EstablishingC, ApiApprovalC, FinalizingC, DiscoveryC]) else [])"
  by (cases h) (simp_all add: hook_defs Let_def)

lemma controllers_hook_ends:
  "skips AtSuccess m (controllers_hook registration) \<longleftrightarrow> m \<noteq> StoppedOr DiscoverySynced \<and>
    (\<forall>c. m = Spawned c \<longrightarrow> \<not> registration \<and> c \<in> {AutoRegistration, GRDRegistration})"
  by (cases m) (use controller.exhaust in \<open>auto simp: controllers_hook_def Let_def\<close>)

lemma synced_hook_ends: "skips AtSuccess m synced_hook \<longleftrightarrow> m \<noteq> Synced GRDInformer \<and> m \<noteq> Closed DiscoveryReady"
  by (auto simp: synced_hook_def ErrWaitTimeout_def)

section \<open>The invariant\<close>

inductive_cases moveE: "move t g s g' s'"

lemma note_queue_sel [simp]:
  "syThreads (note_queue c es s) = syThreads s" "syStopped (note_queue c es s) = syStopped s"
  "sySynced (note_queue c es s) = sySynced s" "syClosed (note_queue c es s) = syClosed s"
  "syPrepared (note_queue c es s) = syPrepared s" "syWorkers (note_queue c es s) = syWorkers s"
  "syStarted (note_queue c es s) = syStarted s" "syCrashed (note_queue c es s) = syCrashed s"
  "syQueue (note_queue c es s) c' = (if c' = c then syQueue s c @ es else syQueue s c')"
  by (simp_all add: note_queue_def)

lemma set_worker_sel [simp]:
  "syThreads (set_worker c i w s) = syThreads s" "syStopped (set_worker c i w s) = syStopped s"
  "sySynced (set_worker c i w s) = sySynced s" "syClosed (set_worker c i w s) = syClosed s"
  "syPrepared (set_worker c i w s) = syPrepared s" "syQueue (set_worker c i w s) = syQueue s"
  "syStarted (set_worker c i w s) = syStarted s" "syCrashed (set_worker c i w s) = syCrashed s"
  "syWorkers (set_worker c i w s) c' = (if c' = c then (syWorkers s c)[i := w] else syWorkers s c')"
  by (simp_all add: set_worker_def)

text \<open>What a call does to the measures of its goroutine, and that milestones stay reached.\<close>

lemma move_skips: "move t g s g' s' \<Longrightarrow> skips a m g' \<Longrightarrow> skips a m g \<or> reached s' t m"
  by (erule moveE; cases m) (auto split: if_splits)

lemma move_reached: "move t g s g' s' \<Longrightarrow> reached s t' m \<Longrightarrow> reached s' t' m"
  by (erule moveE; cases m) auto

lemma move_workers:
  "move t g s g' s' \<Longrightarrow> t = RunT c \<Longrightarrow>
    length (syWorkers s' c) + workers_left g' \<le> length (syWorkers s c) + workers_left g"
  by (erule moveE) (auto split: if_splits)

lemma move_other_workers: "move t g s g' s' \<Longrightarrow> t \<noteq> RunT c \<Longrightarrow> syWorkers s' c = syWorkers s c"
  by (erule moveE) auto

lemma move_new_worker:
  "move t g s g' s' \<Longrightarrow> syWorkers s' c \<noteq> syWorkers s c \<Longrightarrow>
    t = RunT c \<and> skips AtWorker m g \<and> syWorkers s' c = syWorkers s c @ [Resting]"
  by (erule moveE) (auto split: if_splits)

lemma move_closes: "move t g s g' s' \<Longrightarrow> closes_left ch g' \<le> closes_left ch g"
  by (erule moveE) auto

lemma move_closed:
  "move t g s g' s' \<Longrightarrow> syClosed s' = syClosed s \<or> (\<exists>ch. g = CloseChannel ch g' \<and> syClosed s' = insert ch (syClosed s))"
  by (erule moveE) auto

lemma move_crashes:
  "move t g s g' s' \<Longrightarrow> \<not> syCrashed s \<Longrightarrow> syCrashed s' \<Longrightarrow> \<exists>ch \<in> syClosed s. 0 < closes_left ch g"
  by (erule moveE) (auto split: if_splits)

lemma move_spawns:
  "move t g s g' s' \<Longrightarrow> set (spawns_left g') \<subseteq> set (spawns_left g) \<and>
    (distinct (map fst (spawns_left g)) \<longrightarrow> distinct (map fst (spawns_left g')))"
  by (erule moveE) (auto split: bool.splits)

lemma move_threads:
  "move t g s g' s' \<Longrightarrow> syThreads s' = syThreads s \<or>
    (\<exists>c r. g = Spawn c r g' \<and> syThreads s' = (syThreads s)(RunT c := Some r))"
  by (erule moveE) auto

definition thread_ok :: "bool \<Rightarrow> 'k system \<Rightarrow> thread \<Rightarrow> go \<Rightarrow> bool" where
  "thread_ok registration s t g \<longleftrightarrow>
    (\<forall>a m. skips a m g \<longrightarrow> \<not> skips a m (root registration t) \<longrightarrow> reached s t m) \<and>
    (\<forall>ch. closes_left ch g \<le> closes_left ch (root registration t)) \<and>
    (\<forall>c r. (c, r) \<in> set (spawns_left g) \<longrightarrow> t = HookT ControllersHook \<and> r = Run c \<and> syThreads s (RunT c) = None) \<and>
    distinct (map fst (spawns_left g))"

definition workers_ok :: "'k system \<Rightarrow> controller \<Rightarrow> bool" where
  "workers_ok s c \<longleftrightarrow>
    (syWorkers s c \<noteq> [] \<longrightarrow> (\<forall>m. skips AtWorker m (Run c) \<or> reached s (RunT c) m)) \<and>
    (case syThreads s (RunT c) of
       None \<Rightarrow> syWorkers s c = []
     | Some g \<Rightarrow> length (syWorkers s c) + workers_left g \<le> workers_left (Run c))"

definition closed_ok :: "bool \<Rightarrow> 'k system \<Rightarrow> bool" where
  "closed_ok registration s \<longleftrightarrow>
    (\<forall>ch \<in> syClosed s. \<forall>t. 0 < closes_left ch (root registration t) \<longrightarrow>
      (\<exists>g. syThreads s t = Some g \<and> closes_left ch g = 0))"

definition system_ok :: "bool \<Rightarrow> 'k system \<Rightarrow> bool" where
  "system_ok registration s \<longleftrightarrow>
    (\<forall>t g. syThreads s t = Some g \<longrightarrow> thread_ok registration s t g) \<and>
    (\<forall>c. workers_ok s c) \<and> closed_ok registration s"

lemma system_okD:
  assumes "system_ok registration s"
  shows "syThreads s t = Some g \<Longrightarrow> thread_ok registration s t g" "workers_ok s c" "closed_ok registration s"
  using assms by (auto simp: system_ok_def)

lemma thread_ok_root: "(\<And>c. syThreads s (RunT c) = None) \<Longrightarrow> thread_ok registration s t (root registration t)"
  by (cases t) (auto simp: thread_ok_def run_spawns hook_spawns)

lemma system_ok_start: "system_ok registration (start_system registration)"
proof -
  have ok: "thread_ok registration (start_system registration) t g" if "syThreads (start_system registration) t = Some g" for t g
  proof -
    have "g = root registration t"
      using that by (auto simp: start_system_def split: if_splits)
    then show ?thesis by (auto simp: start_system_def intro: thread_ok_root)
  qed
  have "workers_ok (start_system registration) c" "closed_ok registration (start_system registration)" for c
    by (auto simp: workers_ok_def closed_ok_def start_system_def)
  with ok show ?thesis unfolding system_ok_def by blast
qed

text \<open>Every step keeps it.\<close>

lemma system_ok_mono:
  assumes ok: "system_ok registration s" and same: "syThreads s' = syThreads s" "syClosed s' = syClosed s"
    and workers: "\<And>c. length (syWorkers s' c) = length (syWorkers s c)"
    and kept: "\<And>t m. reached s t m \<Longrightarrow> reached s' t m"
  shows "system_ok registration s'"
proof -
  have "thread_ok registration s' t g" if "syThreads s' t = Some g" for t g
    using system_okD(1) [OF ok, of t g] that kept by (auto simp: thread_ok_def same)
  moreover have "workers_ok s' c" for c
  proof -
    have "syWorkers s' c = [] \<longleftrightarrow> syWorkers s c = []" using workers [of c] by auto
    then show ?thesis
      using system_okD(2) [OF ok, of c] kept workers [of c]
      by (cases "syThreads s (RunT c)") (auto simp: workers_ok_def same)
  qed
  moreover have "closed_ok registration s'" using system_okD(3) [OF ok] by (simp add: closed_ok_def same)
  ultimately show ?thesis by (simp add: system_ok_def)
qed

lemma step_threads:
  assumes ok: "system_ok registration s" and thread: "syThreads s t = Some g" and move: "move t g s g' s'"
  shows "((syThreads s')(t := Some g')) u = Some h \<Longrightarrow>
      (u = t \<and> h = g') \<or> (u \<noteq> t \<and> syThreads s u = Some h) \<or> (\<exists>c. u = RunT c \<and> h = Run c)"
    and "syThreads s (RunT c) = None \<Longrightarrow> \<forall>r. g \<noteq> Spawn c r g' \<Longrightarrow> ((syThreads s')(t := Some g')) (RunT c) = None"
    and "g = Spawn c r g' \<Longrightarrow> t = HookT ControllersHook \<and> c \<notin> fst ` set (spawns_left g') \<and> syThreads s (RunT c) = None"
  using move_threads [OF move] system_okD(1) [OF ok thread] thread
  by (auto simp: thread_ok_def split: if_splits)

lemma thread_ok_move:
  assumes ok: "system_ok registration s" and thread: "syThreads s t = Some g" and move: "move t g s g' s'"
    and s2: "s2 = s'\<lparr>syThreads := (syThreads s')(t := Some g')\<rparr>" and h: "syThreads s2 u = Some h"
  shows "thread_ok registration s2 u h"
proof -
  note acting = system_okD(1) [OF ok thread, unfolded thread_ok_def]
  have up: "reached s2 v m" if "reached s' v m" for v m
    using that by (cases m) (auto simp: s2)
  have gone: "syThreads s2 (RunT c) = None" if "syThreads s (RunT c) = None" "\<forall>r. g \<noteq> Spawn c r g'" for c
    using step_threads(2) [OF ok thread move that] by (simp add: s2)
  consider "u = t" "h = g'" | "u \<noteq> t" "syThreads s u = Some h" | c where "u = RunT c" "h = Run c"
    using step_threads(1) [OF ok thread move] h by (auto simp: s2)
  then show ?thesis
  proof cases
    case 1
    have "reached s2 t m" if "skips a m g'" "\<not> skips a m (root registration t)" for a m
      using move_skips [OF move that(1)] move_reached [OF move] acting that(2) up by blast
    moreover have "closes_left ch g' \<le> closes_left ch (root registration t)" for ch
      using acting move_closes [OF move, of ch] le_trans by blast
    moreover have "t = HookT ControllersHook \<and> r = Run c \<and> syThreads s2 (RunT c) = None"
      if "(c, r) \<in> set (spawns_left g')" for c r
    proof -
      have "(c, r) \<in> set (spawns_left g)" using that move_spawns [OF move] by blast
      moreover have "g \<noteq> Spawn c r' g'" for r'
        using step_threads(3) [OF ok thread move, of c r'] that by force
      ultimately show ?thesis using acting gone by blast
    qed
    ultimately show ?thesis
      using 1 acting move_spawns [OF move] by (simp add: thread_ok_def)
  next
    case 2
    note old = system_okD(1) [OF ok 2(2), unfolded thread_ok_def]
    have "syThreads s2 (RunT c) = None" if "(c, r) \<in> set (spawns_left h)" for c r
    proof (rule gone)
      show "syThreads s (RunT c) = None" using old that by blast
      have "u = HookT ControllersHook" using old that by blast
      then show "\<forall>r. g \<noteq> Spawn c r g'" using 2(1) step_threads(3) [OF ok thread move, of c] by blast
    qed
    then show ?thesis
      using old move_reached [OF move] up unfolding thread_ok_def by blast
  next
    case 3
    then show ?thesis by (simp add: thread_ok_def run_spawns)
  qed
qed

lemma workers_ok_move:
  assumes ok: "system_ok registration s" and thread: "syThreads s t = Some g" and move: "move t g s g' s'"
    and s2: "s2 = s'\<lparr>syThreads := (syThreads s')(t := Some g')\<rparr>"
  shows "workers_ok s2 c"
proof -
  note old = system_okD(2) [OF ok, of c, unfolded workers_ok_def]
  have workers: "syWorkers s2 c = syWorkers s' c" by (simp add: s2)
  have up: "reached s2 u m" if "reached s u m" for u m
    using move_reached [OF move that] by (cases m) (auto simp: s2)
  have reached: "skips AtWorker m (Run c) \<or> reached s2 (RunT c) m" if "syWorkers s' c \<noteq> []" for m
  proof (cases "syWorkers s' c = syWorkers s c")
    case True
    then show ?thesis using that old up by auto
  next
    case False
    from move_new_worker [OF move this] have "t = RunT c" "skips AtWorker m g" by auto
    then show ?thesis using system_okD(1) [OF ok thread] up unfolding thread_ok_def by fastforce
  qed
  show ?thesis
  proof (cases "t = RunT c")
    case True
    then have "syThreads s2 (RunT c) = Some g'" by (simp add: s2)
    then show ?thesis
      using reached old move_workers [OF move True] thread True by (simp add: workers_ok_def workers)
  next
    case False
    from move_other_workers [OF move False] have same: "syWorkers s' c = syWorkers s c" .
    show ?thesis
    proof (cases "syThreads s2 (RunT c)")
      case None
      then have "syThreads s (RunT c) = None"
        using False move_threads [OF move] by (auto simp: s2 split: if_splits)
      then show ?thesis using None old same by (simp add: workers_ok_def workers)
    next
      case (Some h)
      then have "syThreads s (RunT c) = Some h \<or> (syThreads s (RunT c) = None \<and> h = Run c)"
        using step_threads(1) [OF ok thread move, of "RunT c" h] step_threads(3) [OF ok thread move, of c]
          move_threads [OF move] False by (auto simp: s2 split: if_splits)
      then show ?thesis
        using Some old same reached by (auto simp: workers_ok_def workers)
    qed
  qed
qed

lemma closed_ok_move:
  assumes ok: "system_ok registration s" and thread: "syThreads s t = Some g" and move: "move t g s g' s'"
    and s2: "s2 = s'\<lparr>syThreads := (syThreads s')(t := Some g')\<rparr>"
  shows "closed_ok registration s2"
  unfolding closed_ok_def
proof (intro ballI allI impI)
  fix ch u
  assume ch: "ch \<in> syClosed s2" and u: "0 < closes_left ch (root registration u)"
  show "\<exists>h. syThreads s2 u = Some h \<and> closes_left ch h = 0"
  proof (cases "ch \<in> syClosed s")
    case True
    then obtain h where h: "syThreads s u = Some h" "closes_left ch h = 0"
      using system_okD(3) [OF ok] u by (auto simp: closed_ok_def)
    show ?thesis
    proof (cases "u = t")
      case True
      then show ?thesis using h thread move_closes [OF move, of ch] by (simp add: s2)
    next
      case False
      have "syThreads s' u = Some h"
        using move_threads [OF move] system_okD(1) [OF ok thread] h by (auto simp: thread_ok_def)
      then show ?thesis using False h by (simp add: s2)
    qed
  next
    case False
    then have g: "g = CloseChannel ch g'" using ch move_closed [OF move] by (auto simp: s2)
    have "closes_left ch g \<le> closes_left ch (root registration t)"
      using system_okD(1) [OF ok thread] by (simp add: thread_ok_def)
    then have "closes_left ch g' = 0 \<and> u = t"
      using u by (simp add: g root_closes split: if_splits)
    then show ?thesis by (simp add: s2)
  qed
qed

lemma system_ok_step:
  assumes "system_step gives sync reallyCrash s s'" and ok: "system_ok registration s"
  shows "system_ok registration s'"
  using assms(1)
proof cases
  case (goroutine t g g' s1)
  note at = ok goroutine(3,4,1)
  show ?thesis
    unfolding system_ok_def using thread_ok_move [OF at] workers_ok_move [OF at] closed_ok_move [OF at] by blast
next
  case (worker i c w es crash)
  have "reached s' t m" if "reached s t m" for t m
    using that by (cases m) (auto simp: worker(1))
  then show ?thesis by (intro system_ok_mono [OF ok]) (auto simp: worker(1))
next
  case stop
  have "reached s' t m" if "reached s t m" for t m using that by (cases m) (auto simp: stop(1))
  then show ?thesis by (intro system_ok_mono [OF ok]) (auto simp: stop(1))
next
  case (informer i)
  have "reached s' t m" if "reached s t m" for t m using that by (cases m) (auto simp: informer(1))
  then show ?thesis by (intro system_ok_mono [OF ok]) (auto simp: informer(1))
next
  case (handler e c)
  have "reached s' t m" if "reached s t m" for t m using that by (cases m) (auto simp: handler(1))
  then show ?thesis by (intro system_ok_mono [OF ok]) (auto simp: handler(1))
qed

lemma moves_safely:
  assumes ok: "system_ok registration s" and g: "syThreads s t = Some g" and move: "move t g s g' s'"
    and "\<not> syCrashed s"
  shows "\<not> syCrashed s'"
proof
  assume "syCrashed s'"
  from move_crashes [OF move assms(4) this] obtain ch where ch: "ch \<in> syClosed s" "0 < closes_left ch g" by blast
  have "closes_left ch g \<le> closes_left ch (root registration t)"
    using system_okD(1) [OF ok g] by (simp add: thread_ok_def)
  with ch have "0 < closes_left ch (root registration t)" by simp
  then obtain h where "syThreads s t = Some h" "closes_left ch h = 0"
    using system_okD(3) [OF ok] ch(1) unfolding closed_ok_def by blast
  with ch(2) g show False by simp
qed

lemma reachable_ok: "system_reachable gives sync reallyCrash registration s \<Longrightarrow> system_ok registration s"
  by (induction rule: system_reachable.induct) (blast intro: system_ok_start system_ok_step)+

section \<open>Properties\<close>

text \<open>
  C28. Workers of a controller exist only after the informer it reads has synced, discovery
  has published every version once before its worker starts, and the registration controllers have
  done their first pass. Names are granted, definitions established and discovery written by one
  worker each, the others have at most five.
\<close>

theorem workers_start_synced_and_few:
  assumes "system_reachable gives sync reallyCrash registration s"
  shows "length (syWorkers s c) \<le> (if c \<in> {NamingC, EstablishingC, DiscoveryC} then 1 else 5) \<and>
    (syWorkers s c \<noteq> [] \<longrightarrow>
      (if c = AutoRegistration then APIServiceInformer else GRDInformer) \<in> sySynced s \<and>
      (c = DiscoveryC \<longrightarrow> DiscoverySynced \<in> syClosed s) \<and>
      (c \<in> {AutoRegistration, GRDRegistration} \<longrightarrow> c \<in> syPrepared s))"
proof -
  have ok: "workers_ok s c" using reachable_ok [OF assms] by (rule system_okD)
  have "length (syWorkers s c) \<le> workers_left (Run c)"
    using ok by (auto simp: workers_ok_def split: option.splits)
  moreover have "reached s (RunT c) m" if "syWorkers s c \<noteq> []" "\<not> skips AtWorker m (Run c)" for m
    using ok that unfolding workers_ok_def by blast
  from this [of "Synced (if c = AutoRegistration then APIServiceInformer else GRDInformer)"]
    this [of "Closed DiscoverySynced"] this [of Prepared]
  have "syWorkers s c \<noteq> [] \<longrightarrow>
      (if c = AutoRegistration then APIServiceInformer else GRDInformer) \<in> sySynced s \<and>
      (c = DiscoveryC \<longrightarrow> DiscoverySynced \<in> syClosed s) \<and>
      (c \<in> {AutoRegistration, GRDRegistration} \<longrightarrow> c \<in> syPrepared s)"
    unfolding run_skips_worker by auto
  ultimately show ?thesis by (simp only: run_workers)
qed

text \<open>
  C32. When the three hooks have ended without an error, the server is healthy: the informer has
  synced, every controller runs, and discovery was published, unless the server was stopped.
\<close>

theorem healthy_means_discovered:
  assumes reach: "system_reachable gives sync reallyCrash registration s"
    and "\<And>h. syThreads s (HookT h) = Some (Ended None)"
  shows "GRDInformer \<in> sySynced s \<and> DiscoveryReady \<in> syClosed s \<and> (syStopped s \<or> DiscoverySynced \<in> syClosed s) \<and>
    (\<forall>c. registration \<or> c \<notin> {AutoRegistration, GRDRegistration} \<longrightarrow> syThreads s (RunT c) \<noteq> None)"
proof -
  have "reached s (HookT h) m" if "\<not> skips AtSuccess m (root registration (HookT h))" for h m
    using system_okD(1) [OF reachable_ok [OF reach] assms(2), of h] that unfolding thread_ok_def by force
  note milestones = this [of _ SyncedHook, unfolded root.simps synced_hook_ends]
    this [of _ ControllersHook, unfolded root.simps controllers_hook_ends]
  from milestones(1) [of "Synced GRDInformer"] milestones(1) [of "Closed DiscoveryReady"]
    milestones(2) [of "StoppedOr DiscoverySynced"] milestones(2) [of "Spawned _"]
  show ?thesis by fastforce
qed

text \<open>
  Nothing in the start of the server panics: every channel is closed once, so that the process ends
  in a panic only if a sync panics.
\<close>

theorem only_syncs_crash:
  assumes "system_reachable gives sync reallyCrash registration s" and "syCrashed s"
  shows "reallyCrash \<and> (\<exists>c key. sync c key Panic)"
  using assms
proof (induction rule: system_reachable.induct)
  case start
  then show ?case by (simp add: start_system_def)
next
  case (step s s')
  from step.hyps(2) show ?case
  proof cases
    case (goroutine t g g' s1)
    have "\<not> syCrashed s1"
      by (rule moves_safely [OF reachable_ok [OF step.hyps(1)] goroutine(3,4,2)])
    then show ?thesis using step.prems goroutine(1) by simp
  next
    case (worker i c w es crash)
    then have crash using step.prems by simp
    with worker(4) show ?thesis
      by cases (auto simp: process_next_def split: outcome.splits)
  qed (use step.prems in simp_all)
qed

subsection \<open>Keys\<close>

text \<open>The keys that were taken from a queue and are not done.\<close>

definition in_progress :: "'k queue_event list \<Rightarrow> 'k set" where
  "in_progress h = foldl (\<lambda>ks e. case e of QGot k \<Rightarrow> insert k ks | QOp (QDone k) \<Rightarrow> ks - {k} | _ \<Rightarrow> ks) {} h"

lemma in_progress_simps [simp]:
  "in_progress [] = {}"
  "in_progress (h @ [QGot k]) = insert k (in_progress h)"
  "in_progress (h @ [QShutDown]) = in_progress h"
  by (simp_all add: in_progress_def)

lemma in_progress_other: "\<forall>k. e \<noteq> QDone k \<Longrightarrow> in_progress (h @ [QOp e]) = in_progress h"
  by (cases e) (simp_all add: in_progress_def)

lemma in_progress_synced:
  "process_next f (Some key) = (r, ops) \<Longrightarrow> in_progress (h @ map QOp ops) = in_progress h - {key}"
  by (auto simp: process_next_def in_progress_def split: outcome.splits)

definition keys_ok :: "'k system \<Rightarrow> bool" where
  "keys_ok s \<longleftrightarrow> (\<forall>c.
    (\<forall>k. k \<in> in_progress (syQueue s c) \<longleftrightarrow> Syncing k \<in> set (syWorkers s c)) \<and>
    (\<forall>k i j. i < length (syWorkers s c) \<longrightarrow> j < length (syWorkers s c) \<longrightarrow>
      syWorkers s c ! i = Syncing k \<longrightarrow> syWorkers s c ! j = Syncing k \<longrightarrow> i = j))"

lemma keys_ok_append:
  assumes "keys_ok s" and "\<And>c. syWorkers s' c = syWorkers s c \<or> syWorkers s' c = syWorkers s c @ [Resting]"
    and "\<And>c. in_progress (syQueue s' c) = in_progress (syQueue s c)"
  shows "keys_ok s'"
  unfolding keys_ok_def
proof (intro allI conjI impI)
  fix c k
  show "k \<in> in_progress (syQueue s' c) \<longleftrightarrow> Syncing k \<in> set (syWorkers s' c)"
    using assms(1) assms(2) [of c] assms(3) by (auto simp: keys_ok_def)
  fix i j
  assume "i < length (syWorkers s' c)" "j < length (syWorkers s' c)"
    "syWorkers s' c ! i = Syncing k" "syWorkers s' c ! j = Syncing k"
  with assms(2) [of c] have "i < length (syWorkers s c)" "j < length (syWorkers s c)"
    "syWorkers s c ! i = Syncing k" "syWorkers s c ! j = Syncing k"
    by (auto simp: nth_append less_Suc_eq split: if_splits)
  with assms(1) show "i = j" unfolding keys_ok_def by blast
qed

lemma move_keys:
  assumes "move t g s g' s'"
  shows "syWorkers s' c = syWorkers s c \<or> syWorkers s' c = syWorkers s c @ [Resting]"
    and "in_progress (syQueue s' c) = in_progress (syQueue s c)"
  using assms by (auto elim!: moveE split: if_splits)

lemma keys_ok_worker:
  assumes ok: "keys_ok s" and i: "i < length (syWorkers s c)"
    and workers: "\<And>d. syWorkers s' d = (if d = c then (syWorkers s c)[i := w] else syWorkers s d)"
    and others: "\<And>d. d \<noteq> c \<Longrightarrow> in_progress (syQueue s' d) = in_progress (syQueue s d)"
    and progress: "in_progress (syQueue s' c) =
      in_progress (syQueue s c) - {k. syWorkers s c ! i = Syncing k} \<union> {k. w = Syncing k}"
    and fresh: "\<And>k. w = Syncing k \<Longrightarrow> k \<notin> in_progress (syQueue s c)"
  shows "keys_ok s'"
proof -
  let ?ok = "\<lambda>d. (\<forall>k. k \<in> in_progress (syQueue s' d) \<longleftrightarrow> Syncing k \<in> set (syWorkers s' d)) \<and>
    (\<forall>k i j. i < length (syWorkers s' d) \<longrightarrow> j < length (syWorkers s' d) \<longrightarrow>
      syWorkers s' d ! i = Syncing k \<longrightarrow> syWorkers s' d ! j = Syncing k \<longrightarrow> i = j)"
  have free: "w = Syncing k \<Longrightarrow> j < length (syWorkers s c) \<Longrightarrow> syWorkers s c ! j \<noteq> Syncing k" for k j
    using ok fresh [of k] by (auto simp: keys_ok_def in_set_conv_nth)
  have single: "j < length (syWorkers s c) \<Longrightarrow> l < length (syWorkers s c) \<Longrightarrow> syWorkers s c ! j = Syncing k \<Longrightarrow>
      syWorkers s c ! l = Syncing k \<Longrightarrow> j = l" for j k l
    using ok unfolding keys_ok_def by blast
  have old: "k \<in> in_progress (syQueue s c) \<longleftrightarrow> (\<exists>j < length (syWorkers s c). syWorkers s c ! j = Syncing k)" for k
    using ok by (auto simp: keys_ok_def in_set_conv_nth)
  have "k \<in> in_progress (syQueue s' c) \<longleftrightarrow> Syncing k \<in> set ((syWorkers s c)[i := w])" for k
  proof -
    have "Syncing k \<in> set ((syWorkers s c)[i := w]) \<longleftrightarrow>
        w = Syncing k \<or> (\<exists>j < length (syWorkers s c). j \<noteq> i \<and> syWorkers s c ! j = Syncing k)"
      using i by (auto simp: in_set_conv_nth nth_list_update split: if_splits)
    then show ?thesis using i single by (auto simp: progress old)
  qed
  moreover have "a = b" if "a < length (syWorkers s c)" "b < length (syWorkers s c)"
    "(syWorkers s c)[i := w] ! a = Syncing k" "(syWorkers s c)[i := w] ! b = Syncing k" for a b k
  proof -
    have at: "if x = i then w = Syncing k else syWorkers s c ! x = Syncing k"
      if "x < length (syWorkers s c)" "(syWorkers s c)[i := w] ! x = Syncing k" for x
      using that by (auto simp: nth_list_update split: if_splits)
    from at [OF that(1,3)] at [OF that(2,4)] show ?thesis
      using single [OF that(1,2)] free [OF _ that(1)] free [OF _ that(2)] by (cases "a = i"; cases "b = i") auto
  qed
  ultimately have at_c: "?ok c" by (simp add: workers)
  have "?ok d" for d
  proof (cases "d = c")
    case True
    then show ?thesis using at_c by (rule ssubst)
  next
    case False
    then show ?thesis using ok [unfolded keys_ok_def, rule_format, of d] others [of d] by (simp add: workers)
  qed
  then show ?thesis unfolding keys_ok_def by (rule allI)
qed

text \<open>
  One worker per key: the queue of client-go never hands out a key that is being processed, and
  then no two workers of a controller sync the same key at the same time.
\<close>

theorem one_worker_per_key:
  assumes queue: "\<And>h key. gives h (Some key) \<Longrightarrow> key \<notin> in_progress h"
    and reach: "system_reachable gives sync reallyCrash registration s"
    and i: "i < length (syWorkers s c)" "syWorkers s c ! i = Syncing key"
    and j: "j < length (syWorkers s c)" "syWorkers s c ! j = Syncing key"
  shows "i = j"
proof -
  have "keys_ok s" using reach
  proof (induction rule: system_reachable.induct)
    case start
    then show ?case by (simp add: keys_ok_def start_system_def)
  next
    case (step s s')
    from step.hyps(2) show ?case
    proof cases
      case (goroutine t g g' s1)
      show ?thesis
        by (rule keys_ok_append [OF step.IH]) (use goroutine(1) move_keys [OF goroutine(4)] in simp_all)
    next
      case (worker i c w es crash)
      have "in_progress (syQueue s c @ es) = in_progress (syQueue s c) -
            {k. syWorkers s c ! i = Syncing k} \<union> {k. w = Syncing k} \<and>
          (\<forall>k. w = Syncing k \<longrightarrow> k \<notin> in_progress (syQueue s c))"
        using worker(4) by cases (auto simp: in_progress_synced dest: queue)
      then show ?thesis
        using worker(1,3) by (intro keys_ok_worker [OF step.IH, where i = i and c = c and w = w]) auto
    next
      case (handler e c)
      then show ?thesis by (intro keys_ok_append [OF step.IH]) (simp_all add: in_progress_other)
    qed (intro keys_ok_append [OF step.IH], simp_all)+
  qed
  then show ?thesis using i j unfolding keys_ok_def by blast
qed

subsection \<open>Shutdown\<close>

text \<open>A stopped server that can be reached and did not crash.\<close>

definition winding_down ::
  "('k queue_event list \<Rightarrow> 'k option \<Rightarrow> bool) \<Rightarrow> (controller \<Rightarrow> 'k \<Rightarrow> unit outcome \<Rightarrow> bool) \<Rightarrow> bool \<Rightarrow>
   bool \<Rightarrow> 'k system \<Rightarrow> bool" where
  "winding_down gives sync reallyCrash registration s \<longleftrightarrow>
    system_reachable gives sync reallyCrash registration s \<and> syStopped s \<and> \<not> syCrashed s"

abbreviation with_thread :: "'k system \<Rightarrow> thread \<Rightarrow> go \<Rightarrow> 'k system" where
  "with_thread s t g \<equiv> s\<lparr>syThreads := (syThreads s)(t := Some g)\<rparr>"

lemma move_flags: "move t g s g' s' \<Longrightarrow> syStopped s' = syStopped s"
  by (auto elim!: moveE split: if_splits)

lemma winding_move:
  assumes down: "winding_down gives sync reallyCrash registration s" and g: "syThreads s t = Some g"
    and move: "move t g s g' s'"
  shows "system_step gives sync reallyCrash s (with_thread s' t g')"
    and "winding_down gives sync reallyCrash registration (with_thread s' t g')"
proof -
  show step: "system_step gives sync reallyCrash s (with_thread s' t g')"
    using down g move by (intro system_step.goroutine) (auto simp: winding_down_def)
  have reach: "system_reachable gives sync reallyCrash registration s" using down by (simp add: winding_down_def)
  have "\<not> syCrashed s'"
    using moves_safely [OF reachable_ok [OF reach] g move] down by (simp add: winding_down_def)
  then show "winding_down gives sync reallyCrash registration (with_thread s' t g')"
    using down move_flags [OF move] system_reachable.step [OF reach step] by (simp add: winding_down_def)
qed

text \<open>A stopped goroutine is never blocked.\<close>

fun next_go :: "go \<Rightarrow> go" where
  "next_go (StartInformers i k) = k"
| "next_go (Spawn c r k) = k"
| "next_go (CacheSync i f) = f False"
| "next_go (PollSynced i f) = f False"
| "next_go (PollDiscovery f) = f False"
| "next_go (Prepare k) = k"
| "next_go (CloseChannel ch k) = k"
| "next_go (StartWorker k) = k"
| "next_go (AwaitStop k) = k"
| "next_go (AwaitStopOr ch k) = k"
| "next_go (ShutDownQueue k) = k"
| "next_go (Ended e) = Ended e"

lemma stopped_moves: "syStopped s \<Longrightarrow> (\<And>e. g \<noteq> Ended e) \<Longrightarrow> \<exists>s'. move t g s (next_go g) s'"
  by (cases g) (auto intro: move.intros)

lemma next_go_ends: "\<exists>n e. (next_go ^^ n) g = Ended e"
proof (induction g)
  case (Ended e)
  have "(next_go ^^ 0) (Ended e) = Ended e" by simp
  then show ?case by blast
qed (metis funpow_simps_right(2) comp_apply next_go.simps rangeI)+

text \<open>So a goroutine can be run to its end, and then all of them.\<close>

lemma goroutine_ends:
  assumes "winding_down gives sync reallyCrash registration s" and "syThreads s t = Some g" and "(next_go ^^ n) g = Ended e"
  shows "\<exists>s'. (system_step gives sync reallyCrash)\<^sup>*\<^sup>* s s' \<and> winding_down gives sync reallyCrash registration s' \<and>
    syThreads s' t = Some (Ended e) \<and>
    (\<forall>u. u \<noteq> t \<longrightarrow> syThreads s' u = syThreads s u \<or> (syThreads s u = None \<and> t = HookT ControllersHook))"
  using assms
proof (induction n arbitrary: s g)
  case 0
  then show ?case by auto
next
  case (Suc n)
  show ?case
  proof (cases "\<exists>e. g = Ended e")
    case True
    then have "(next_go ^^ m) g = g" for m by (induction m) auto
    with Suc.prems show ?thesis by (metis rtranclp.rtrancl_refl)
  next
    case False
    have ok: "system_ok registration s" using Suc.prems(1) reachable_ok by (auto simp: winding_down_def)
    from False Suc.prems(1) obtain s1 where move: "move t g s (next_go g) s1"
      using stopped_moves by (metis winding_down_def)
    let ?s = "with_thread s1 t (next_go g)"
    note step = winding_move [OF Suc.prems(1,2) move]
    have "(next_go ^^ n) (next_go g) = Ended e" using Suc.prems(3) by (simp add: funpow_swap1)
    from Suc.IH [OF step(2) _ this] obtain s' where s':
      "(system_step gives sync reallyCrash)\<^sup>*\<^sup>* ?s s'" "winding_down gives sync reallyCrash registration s'"
      "syThreads s' t = Some (Ended e)"
      "\<forall>u. u \<noteq> t \<longrightarrow> syThreads s' u = syThreads ?s u \<or> (syThreads ?s u = None \<and> t = HookT ControllersHook)"
      by auto
    have "syThreads ?s u = syThreads s u \<or> (syThreads s u = None \<and> t = HookT ControllersHook)" if "u \<noteq> t" for u
    proof (cases "syThreads s1 = syThreads s")
      case False
      then obtain c r where c: "g = Spawn c r (next_go g)" "syThreads s1 = (syThreads s)(RunT c := Some r)"
        using move_threads [OF move] by blast
      from step_threads(3) [OF ok Suc.prems(2) move this(1)] c(2) that show ?thesis by auto
    qed (use that in simp)
    with s' step(1) show ?thesis by (metis converse_rtranclp_into_rtranclp)
  qed
qed

definition all_threads :: "thread list" where
  "all_threads = map HookT [ControllersHook, InformersHook, SyncedHook] @
    map RunT [AutoRegistration, GRDRegistration, NamingC, EstablishingC, ApiApprovalC, FinalizingC, DiscoveryC]"

lemma all_threads: "t \<in> set all_threads"
  by (cases t; rename_tac x; case_tac x) (simp_all add: all_threads_def)

definition at_rest :: "'k system \<Rightarrow> thread \<Rightarrow> bool" where
  "at_rest s t \<longleftrightarrow> (\<forall>g. syThreads s t = Some g \<longrightarrow> (\<exists>e. g = Ended e))"

lemma goroutines_end:
  assumes "winding_down gives sync reallyCrash registration s" and "HookT ControllersHook \<in> set ts \<Longrightarrow> hd ts = HookT ControllersHook"
    and "distinct ts"
  shows "\<exists>s'. (system_step gives sync reallyCrash)\<^sup>*\<^sup>* s s' \<and> winding_down gives sync reallyCrash registration s' \<and>
    (\<forall>t \<in> set ts. at_rest s' t) \<and>
    (\<forall>t. at_rest s t \<longrightarrow> at_rest s' t \<or> (syThreads s t = None \<and> HookT ControllersHook \<in> set ts))"
  using assms
proof (induction ts arbitrary: s)
  case Nil
  then show ?case by auto
next
  case (Cons t ts)
  have no_hook: "HookT ControllersHook \<notin> set ts" using Cons.prems(2,3) by auto
  obtain s1 where s1: "(system_step gives sync reallyCrash)\<^sup>*\<^sup>* s s1" "winding_down gives sync reallyCrash registration s1"
    "at_rest s1 t"
    "\<forall>u. u \<noteq> t \<longrightarrow> syThreads s1 u = syThreads s u \<or> (syThreads s u = None \<and> t = HookT ControllersHook)"
  proof (cases "syThreads s t")
    case None
    then show ?thesis using that Cons.prems(1) by (fastforce simp: at_rest_def)
  next
    case (Some g)
    obtain n e where "(next_go ^^ n) g = Ended e" using next_go_ends by blast
    from goroutine_ends [OF Cons.prems(1) Some this] show ?thesis using that by (auto simp: at_rest_def)
  qed
  from Cons.IH [OF s1(2)] no_hook Cons.prems(3) obtain s' where s':
    "(system_step gives sync reallyCrash)\<^sup>*\<^sup>* s1 s'" "winding_down gives sync reallyCrash registration s'"
    "\<forall>t \<in> set ts. at_rest s' t" "\<forall>t. at_rest s1 t \<longrightarrow> at_rest s' t"
    by auto
  have "at_rest s' u \<or> (syThreads s u = None \<and> t = HookT ControllersHook)" if "at_rest s u" for u
  proof (cases "u = t")
    case True
    then show ?thesis using s1(3) s'(4) by blast
  next
    case False
    then have "syThreads s1 u = syThreads s u \<or> (syThreads s u = None \<and> t = HookT ControllersHook)" using s1(4) by blast
    moreover have "at_rest s1 u" if "syThreads s1 u = syThreads s u" using that \<open>at_rest s u\<close> by (simp add: at_rest_def)
    ultimately show ?thesis using s'(4) by blast
  qed
  moreover have "(system_step gives sync reallyCrash)\<^sup>*\<^sup>* s s'" using s1(1) s'(1) by simp
  moreover have "\<forall>u \<in> set (t # ts). at_rest s' u" using s1(3) s'(3,4) by simp
  ultimately show ?case using s'(2) by auto
qed

text \<open>
  What is left in a queue: \<open>backlog\<close> bounds how many keys it still hands out. A queue that was shut
  down answers at once, takes no new keys, and hands out those it has.
\<close>

definition shuts_down ::
  "('k queue_event list \<Rightarrow> 'k option \<Rightarrow> bool) \<Rightarrow> ('k queue_event list \<Rightarrow> nat) \<Rightarrow> bool" where
  "shuts_down gives backlog \<longleftrightarrow> (\<forall>h. QShutDown \<in> set h \<longrightarrow>
    (\<exists>answer. gives h answer) \<and>
    (\<forall>key. gives h (Some key) \<longrightarrow> backlog (h @ [QGot key]) < backlog h) \<and>
    (\<forall>e. backlog (h @ [QOp e]) \<le> backlog h))"

lemma backlog_ops:
  "shuts_down gives backlog \<Longrightarrow> QShutDown \<in> set h \<Longrightarrow> backlog (h @ map QOp ops) \<le> backlog h"
proof (induction ops rule: rev_induct)
  case (snoc e ops)
  then have "backlog ((h @ map QOp ops) @ [QOp e]) \<le> backlog (h @ map QOp ops)"
    unfolding shuts_down_def by (metis Un_iff set_append)
  with snoc show ?case by simp
qed simp

abbreviation worked :: "controller \<Rightarrow> nat \<Rightarrow> 'k queue_worker \<Rightarrow> 'k queue_event list \<Rightarrow> 'k system \<Rightarrow> 'k system" where
  "worked c i w es s \<equiv> (set_worker c i w (note_queue c es s))\<lparr>syCrashed := False\<rparr>"

lemma winding_work:
  assumes down: "winding_down gives sync reallyCrash registration s" and i: "i < length (syWorkers s c)"
    and work: "work gives sync reallyCrash c s (syWorkers s c ! i) w es False"
  shows "system_step gives sync reallyCrash s (worked c i w es s)"
    and "winding_down gives sync reallyCrash registration (worked c i w es s)"
proof -
  show "system_step gives sync reallyCrash s (worked c i w es s)"
    using down i work by (intro system_step.worker) (auto simp: winding_down_def)
  then show "winding_down gives sync reallyCrash registration (worked c i w es s)"
    using down by (auto simp: winding_down_def intro: system_reachable.step)
qed

lemma worker_leaves:
  assumes "shuts_down gives backlog" and returns: "\<And>c key. \<exists>r. sync c key r \<and> r \<noteq> Panic"
    and "winding_down gives sync reallyCrash registration s" and "QShutDown \<in> set (syQueue s c)"
    and "i < length (syWorkers s c)"
  shows "\<exists>s'. (system_step gives sync reallyCrash)\<^sup>*\<^sup>* s s' \<and> winding_down gives sync reallyCrash registration s' \<and>
    syThreads s' = syThreads s \<and> syWorkers s' = (syWorkers s)(c := (syWorkers s c)[i := Gone]) \<and>
    (\<forall>d. set (syQueue s d) \<subseteq> set (syQueue s' d))"
  using assms(3,4,5)
proof (induction "backlog (syQueue s c) * 3 + (case syWorkers s c ! i of Syncing k \<Rightarrow> 3 | Fetching \<Rightarrow> 2 | Resting \<Rightarrow> 1 | Gone \<Rightarrow> 0)"
    arbitrary: s rule: less_induct)
  case less
  let ?m = "\<lambda>s. backlog (syQueue s c) * 3 +
    (case syWorkers s c ! i of Syncing k \<Rightarrow> 3 | Fetching \<Rightarrow> 2 | Resting \<Rightarrow> 1 | Gone \<Rightarrow> (0::nat))"
  have further: ?case if work: "work gives sync reallyCrash c s (syWorkers s c ! i) w es False"
    and smaller: "?m (worked c i w es s) < ?m s" for w es
  proof -
    note step = winding_work [OF less.prems(1,3) work]
    from less.hyps [OF smaller step(2)] less.prems(2,3) obtain s' where
      "(system_step gives sync reallyCrash)\<^sup>*\<^sup>* (worked c i w es s) s'" "winding_down gives sync reallyCrash registration s'"
      "syThreads s' = syThreads s" "syWorkers s' = (syWorkers s)(c := (syWorkers s c)[i := Gone])"
      and queues: "\<forall>d. set (syQueue (worked c i w es s) d) \<subseteq> set (syQueue s' d)"
      by (auto simp: set_worker_def)
    moreover have "set (syQueue s d) \<subseteq> set (syQueue s' d)" for d
      using queues [rule_format, of d] by (cases "d = c") auto
    ultimately show ?thesis using step(1) by (metis converse_rtranclp_into_rtranclp)
  qed
  have stopped: "syStopped s" using less.prems(1) by (simp add: winding_down_def)
  show ?case
  proof (cases "syWorkers s c ! i")
    case Resting
    then show ?thesis using less.prems stopped by (intro further [of Gone "[]"]) (auto intro: work.leave)
  next
    case Fetching
    obtain answer where answer: "gives (syQueue s c) answer"
      using assms(1) less.prems(2) unfolding shuts_down_def by blast
    show ?thesis
    proof (cases answer)
      case None
      then show ?thesis
        using Fetching answer less.prems by (intro further [of Resting "[]"]) (auto intro: work.quit)
    next
      case (Some key)
      then have "backlog (syQueue s c @ [QGot key]) < backlog (syQueue s c)"
        using answer assms(1) less.prems(2) unfolding shuts_down_def by blast
      then show ?thesis
        using Fetching answer Some less.prems
        by (intro further [of "Syncing key" "[QGot key]"]) (auto intro: work.get)
    qed
  next
    case (Syncing key)
    obtain r where r: "sync c key r" "r \<noteq> Panic" using returns by blast
    then obtain ops where ops: "process_next (\<lambda>_. r) (Some key) = (Ret True, ops)"
      by (cases r) (auto simp: process_next_def)
    have "backlog (syQueue s c @ map QOp ops) \<le> backlog (syQueue s c)"
      by (rule backlog_ops [OF assms(1) less.prems(2)])
    then show ?thesis
      using Syncing r ops less.prems
      by (intro further [of Fetching "map QOp ops"]) (auto intro: work.sync)
  next
    case Gone
    then have "(syWorkers s)(c := (syWorkers s c)[i := Gone]) = syWorkers s"
      by (metis fun_upd_triv list_update_id)
    then show ?thesis using less.prems(1) by force
  qed
qed

lemma workers_leave:
  assumes "shuts_down gives backlog" and returns: "\<And>c key. \<exists>r. sync c key r \<and> r \<noteq> Panic"
    and "winding_down gives sync reallyCrash registration s"
    and "\<And>c i. (c, i) \<in> set ps \<Longrightarrow> QShutDown \<in> set (syQueue s c) \<and> i < length (syWorkers s c)"
  shows "\<exists>s'. (system_step gives sync reallyCrash)\<^sup>*\<^sup>* s s' \<and> winding_down gives sync reallyCrash registration s' \<and>
    syThreads s' = syThreads s \<and> (\<forall>c. length (syWorkers s' c) = length (syWorkers s c)) \<and>
    (\<forall>c i. (c, i) \<in> set ps \<longrightarrow> syWorkers s' c ! i = Gone) \<and>
    (\<forall>c i. syWorkers s c ! i = Gone \<longrightarrow> i < length (syWorkers s c) \<longrightarrow> syWorkers s' c ! i = Gone)"
  using assms(3,4)
proof (induction ps arbitrary: s)
  case Nil
  then show ?case by auto
next
  case (Cons p ps)
  obtain c i where p: "p = (c, i)" by force
  from worker_leaves [OF assms(1) returns Cons.prems(1)] Cons.prems(2) [of c i] p obtain s1 where s1:
    "(system_step gives sync reallyCrash)\<^sup>*\<^sup>* s s1" "winding_down gives sync reallyCrash registration s1"
    "syThreads s1 = syThreads s" "syWorkers s1 = (syWorkers s)(c := (syWorkers s c)[i := Gone])"
    "\<forall>d. set (syQueue s d) \<subseteq> set (syQueue s1 d)"
    by fastforce
  have "QShutDown \<in> set (syQueue s1 d) \<and> j < length (syWorkers s1 d)" if "(d, j) \<in> set ps" for d j
    using Cons.prems(2) [of d j] that s1(4,5) by auto
  from Cons.IH [OF s1(2) this] obtain s' where s':
    "(system_step gives sync reallyCrash)\<^sup>*\<^sup>* s1 s'" "winding_down gives sync reallyCrash registration s'"
    "syThreads s' = syThreads s1" "\<forall>c. length (syWorkers s' c) = length (syWorkers s1 c)"
    "\<forall>c i. (c, i) \<in> set ps \<longrightarrow> syWorkers s' c ! i = Gone"
    "\<forall>c i. syWorkers s1 c ! i = Gone \<longrightarrow> i < length (syWorkers s1 c) \<longrightarrow> syWorkers s' c ! i = Gone"
    by blast
  have "i < length (syWorkers s c)" using Cons.prems(2) [of c i] p by simp
  then have "syWorkers s' c ! i = Gone" using s'(6) s1(4) by simp
  moreover have "syWorkers s' d ! j = Gone" if "syWorkers s d ! j = Gone" "j < length (syWorkers s d)" for d j
    using that s'(6) [rule_format, of d j] s1(4) by (cases "d = c"; cases "j = i") auto
  moreover have "(system_step gives sync reallyCrash)\<^sup>*\<^sup>* s s'" using s1(1) s'(1) by simp
  moreover have "length (syWorkers s' d) = length (syWorkers s d)" for d using s'(4) s1(4) by simp
  ultimately show ?case using s'(2,3,5) s1(3) p by auto
qed

definition all_workers :: "'k system \<Rightarrow> (controller \<times> nat) list" where
  "all_workers s = concat (map (\<lambda>c. map (Pair c) [0..<length (syWorkers s c)])
    [AutoRegistration, GRDRegistration, NamingC, EstablishingC, ApiApprovalC, FinalizingC, DiscoveryC])"

lemma all_workers: "(c, i) \<in> set (all_workers s) \<longleftrightarrow> i < length (syWorkers s c)"
  by (cases c) (auto simp: all_workers_def)


section \<open>A start of the server\<close>

text \<open>The move of a goroutine that gets good answers, to compute runs with.\<close>

fun good_move :: "thread \<Rightarrow> go \<Rightarrow> 'k system \<Rightarrow> (go \<times> 'k system) option" where
  "good_move t (StartInformers i k) s = Some (k, s\<lparr>syStarted := insert i (syStarted s)\<rparr>)"
| "good_move t (Spawn c r k) s = Some (k, with_thread s (RunT c) r)"
| "good_move t (CacheSync i f) s = (if i \<in> sySynced s then Some (f True, s) else None)"
| "good_move t (PollSynced i f) s = (if i \<in> sySynced s then Some (f True, s) else None)"
| "good_move t (PollDiscovery f) s = Some (f True, s)"
| "good_move t (CloseChannel ch k) s =
    (if ch \<in> syClosed s then None else Some (k, s\<lparr>syClosed := insert ch (syClosed s)\<rparr>))"
| "good_move t (StartWorker k) s =
    Some (k, s\<lparr>syWorkers := (\<lambda>c. if t = RunT c then syWorkers s c @ [Resting] else syWorkers s c)\<rparr>)"
| "good_move t (AwaitStopOr ch k) s = (if ch \<in> syClosed s then Some (k, s) else None)"
| "good_move t _ s = None"

definition advance :: "thread \<Rightarrow> 'k system \<Rightarrow> 'k system option" where
  "advance t s = (if syCrashed s then None else case syThreads s t of
       None \<Rightarrow> None
     | Some g \<Rightarrow> (case good_move t g s of None \<Rightarrow> None | Some (g', s') \<Rightarrow> Some (with_thread s' t g')))"

lemma close_once: "ch \<notin> syClosed s \<Longrightarrow> move t (CloseChannel ch k) s k (s\<lparr>syClosed := insert ch (syClosed s)\<rparr>)"
  using move.close [of t ch k s] by simp

lemma good_move: "good_move t g s = Some (g', s') \<Longrightarrow> move t g s g' s'"
  by (cases g) (auto intro: move.start move.spawn move.cache move.synced move.discovery move.stop_or move.worker
      close_once split: if_splits)

lemma advance_reachable:
  assumes "system_reachable gives sync reallyCrash registration s" and "advance t s = Some s'"
  shows "system_reachable gives sync reallyCrash registration s'"
  using assms
  by (auto simp: advance_def split: if_splits option.splits intro!: system_reachable.step [OF assms(1)]
      system_step.goroutine good_move)

fun advances :: "thread list \<Rightarrow> 'k system \<Rightarrow> 'k system option" where
  "advances [] s = Some s"
| "advances (t # ts) s = (case advance t s of None \<Rightarrow> None | Some s' \<Rightarrow> advances ts s')"

lemma advances_reachable:
  "system_reachable gives sync reallyCrash registration s \<Longrightarrow> advances ts s = Some s' \<Longrightarrow>
    system_reachable gives sync reallyCrash registration s'"
  by (induction ts arbitrary: s) (auto split: option.splits intro: advance_reachable)

text \<open>The start without a cluster to register with, up to the end of the hooks.\<close>

definition synced_start :: "string system" where
  "synced_start = (start_system False)\<lparr>
     syThreads := [HookT InformersHook \<mapsto> Ended None, HookT ControllersHook \<mapsto> controllers_hook False,
       HookT SyncedHook \<mapsto> synced_hook],
     syStarted := {GRDInformer}, sySynced := {GRDInformer}\<rparr>"

lemma synced_start_reachable: "system_reachable gives sync reallyCrash False synced_start"
proof -
  let ?s = "(start_system False :: string system)\<lparr>syThreads := [HookT InformersHook \<mapsto> Ended None,
    HookT ControllersHook \<mapsto> controllers_hook False, HookT SyncedHook \<mapsto> synced_hook], syStarted := {GRDInformer}\<rparr>"
  have "advance (HookT InformersHook) (start_system False) = Some ?s"
    by (simp add: advance_def start_system_def informers_hook_def fun_upd_twist)
  from advance_reachable [OF system_reachable.start this]
  have "system_reachable gives sync reallyCrash False ?s" .
  from system_reachable.step [OF this system_step.informer [where i = GRDInformer]]
  show ?thesis by (simp add: start_system_def synced_start_def)
qed

definition healthy_start :: "string system" where
  "healthy_start = the (advances (replicate 5 (HookT ControllersHook) @
     [RunT NamingC, RunT NamingC, RunT DiscoveryC, RunT DiscoveryC, RunT DiscoveryC,
      HookT ControllersHook, HookT SyncedHook, HookT SyncedHook]) synced_start)"

lemmas start_defs = advance_def synced_start_def start_system_def run_defs hook_defs Let_def

lemma healthy_start:
  "advances (replicate 5 (HookT ControllersHook) @
     [RunT NamingC, RunT NamingC, RunT DiscoveryC, RunT DiscoveryC, RunT DiscoveryC,
      HookT ControllersHook, HookT SyncedHook, HookT SyncedHook]) synced_start = Some healthy_start"
  "syThreads healthy_start (HookT h) = Some (Ended None)"
  "syWorkers healthy_start c = (if c = NamingC then [Resting] else [])"
  "syQueue healthy_start c = []" "\<not> syStopped healthy_start" "\<not> syCrashed healthy_start"
  by (cases h; simp add: healthy_start_def start_defs eval_nat_numeral)+

lemma healthy_start_reachable: "system_reachable gives sync reallyCrash False healthy_start"
  by (rule advances_reachable [OF synced_start_reachable healthy_start(1)])

theorem workers_start_synced_and_few_witness:
  "GRDInformer \<in> sySynced healthy_start \<and> length (syWorkers healthy_start NamingC) = 1"
  using workers_start_synced_and_few [OF healthy_start_reachable [of "\<lambda>_ _. True" "\<lambda>_ _ _. True" True], of NamingC]
  by (simp add: healthy_start)

theorem healthy_means_discovered_witness:
  "DiscoverySynced \<in> syClosed healthy_start \<and> syThreads healthy_start (RunT FinalizingC) \<noteq> None"
  using healthy_means_discovered [OF healthy_start_reachable [of "\<lambda>_ _. True" "\<lambda>_ _ _. True" True] healthy_start(2)]
    healthy_start(5) by simp

subsection \<open>A queue\<close>

text \<open>A queue that hands out any key that waits and is not in progress.\<close>

definition note_event :: "'k list \<times> bool \<Rightarrow> 'k queue_event \<Rightarrow> 'k list \<times> bool" where
  "note_event q e = (case e of
       QGot k \<Rightarrow> (remove1 k (fst q), snd q)
     | QShutDown \<Rightarrow> (fst q, True)
     | QOp (QAdd k) \<Rightarrow> if snd q then q else (List.insert k (fst q), False)
     | QOp (QAddAfter k _) \<Rightarrow> if snd q then q else (List.insert k (fst q), False)
     | QOp (QAddRateLimited k) \<Rightarrow> if snd q then q else (List.insert k (fst q), False)
     | QOp _ \<Rightarrow> q)"

definition waiting :: "'k queue_event list \<Rightarrow> 'k list \<times> bool" where
  "waiting h = foldl note_event ([], False) h"

definition queue_gives :: "'k queue_event list \<Rightarrow> 'k option \<Rightarrow> bool" where
  "queue_gives h answer = (case answer of
       Some k \<Rightarrow> k \<in> set (fst (waiting h)) \<and> k \<notin> in_progress h
     | None \<Rightarrow> snd (waiting h) \<and> set (fst (waiting h)) \<subseteq> in_progress h)"

lemma waiting_shut_down: "snd (waiting h) \<longleftrightarrow> QShutDown \<in> set h"
  by (induction h rule: rev_induct)
    (auto simp: waiting_def note_event_def split: queue_event.splits queue_op.splits)

lemma queue_shuts_down: "shuts_down queue_gives (\<lambda>h. length (fst (waiting h)))"
  unfolding shuts_down_def
proof (intro allI impI conjI)
  fix h :: "'k queue_event list"
  assume "QShutDown \<in> set h"
  then have down: "snd (waiting h)" by (simp add: waiting_shut_down)
  show "\<exists>answer. queue_gives h answer"
  proof (cases "set (fst (waiting h)) \<subseteq> in_progress h")
    case True
    with down have "queue_gives h None" by (simp add: queue_gives_def)
    then show ?thesis by blast
  next
    case False
    then obtain k where "queue_gives h (Some k)" by (auto simp: queue_gives_def)
    then show ?thesis by blast
  qed
  show "length (fst (waiting (h @ [QGot key]))) < length (fst (waiting h))" if "queue_gives h (Some key)" for key
    using that by (auto simp: queue_gives_def waiting_def note_event_def length_remove1 dest: length_pos_if_in_set)
  show "length (fst (waiting (h @ [QOp e]))) \<le> length (fst (waiting h))" for e
    using down by (cases e) (simp_all add: waiting_def note_event_def)
qed


text \<open>A key arrives and the naming worker takes it.\<close>

definition naming_busy :: "string system" where
  "naming_busy = worked NamingC 0 (Syncing ''a'') [QGot ''a'']
     (worked NamingC 0 Fetching [] (note_queue NamingC [QOp (QAdd ''a'')] healthy_start))"

lemma naming_busy_reachable: "system_reachable queue_gives sync reallyCrash False naming_busy"
proof -
  let ?s1 = "note_queue NamingC [QOp (QAdd ''a'')] healthy_start"
  let ?s2 = "worked NamingC 0 Fetching [] ?s1"
  have "system_step queue_gives sync reallyCrash healthy_start ?s1"
    by (rule system_step.handler) (simp_all add: healthy_start)
  note s1 = system_reachable.step [OF healthy_start_reachable this]
  have "system_step queue_gives sync reallyCrash ?s1 ?s2"
    by (rule system_step.worker) (simp_all add: healthy_start work.run)
  note s2 = system_reachable.step [OF s1 this]
  have "queue_gives (syQueue ?s2 NamingC) (Some ''a'')"
    by (simp add: healthy_start queue_gives_def waiting_def note_event_def in_progress_def)
  then have "system_step queue_gives sync reallyCrash ?s2 naming_busy"
    unfolding naming_busy_def by (intro system_step.worker) (auto simp: healthy_start intro: work.get)
  from system_reachable.step [OF s2 this] show ?thesis .
qed

theorem one_worker_per_key_witness:
  "syWorkers naming_busy NamingC = [Syncing ''a''] \<and>
    (\<forall>i < 1. syWorkers naming_busy NamingC ! i = Syncing ''a'' \<longrightarrow> i = 0)"
proof -
  have workers: "syWorkers naming_busy NamingC = [Syncing ''a'']" by (simp add: naming_busy_def healthy_start)
  have "i = 0" if "i < 1" "syWorkers naming_busy NamingC ! i = Syncing ''a''" for i
    by (rule one_worker_per_key [where gives = queue_gives and s = naming_busy and c = NamingC and key = "''a''" and
          sync = "\<lambda>_ _ _. True" and reallyCrash = True and registration = False])
      (use that in \<open>simp_all add: workers naming_busy_reachable, simp add: queue_gives_def\<close>)
  then show ?thesis using workers by blast
qed

theorem only_syncs_crash_witness:
  "\<exists>s. system_reachable queue_gives (\<lambda>_ _ r. r = Panic) True False s \<and> syCrashed (s :: string system) \<and>
    (\<exists>(c :: controller) (key :: string). (\<lambda>_ _ r. r = Panic) c key (Panic :: unit outcome))"
proof -
  let ?s = "(set_worker NamingC 0 Resting (note_queue NamingC (map QOp [QDone ''a'']) naming_busy))\<lparr>syCrashed := True\<rparr>"
  have "work queue_gives (\<lambda>_ _ r. r = Panic) True NamingC naming_busy (Syncing ''a'') Resting (map QOp [QDone ''a'']) True"
    by (rule work.panic [where r = Panic]) (simp_all add: process_next_def)
  then have "system_step queue_gives (\<lambda>_ _ r. r = Panic) True naming_busy ?s"
    by (intro system_step.worker) (simp_all add: naming_busy_def healthy_start)
  from system_reachable.step [OF naming_busy_reachable this]
  have "system_reachable queue_gives (\<lambda>_ _ r. r = Panic) True False ?s" .
  moreover from only_syncs_crash [OF this] have "\<exists>(c :: controller) (key :: string). Panic = (Panic :: unit outcome)" by simp
  ultimately show ?thesis by (intro exI [of _ ?s]) auto
qed

subsection \<open>Why one naming worker\<close>

text \<open>
  Two syncs of the naming controller that read the same state, as two workers could, grant the same
  names to two definitions: \<open>accepted_names_disjoint\<close> of \<open>Naming\<close> needs the single worker.
\<close>

definition rival :: GRD where
  "rival = (sample_grd ''ds'' ''D'' ''g.io'')\<lparr>gMeta := (gMeta (sample_grd ''ds'' ''D'' ''g.io''))\<lparr>mName := ''other.g.io''\<rparr>\<rparr>"

lemma two_naming_syncs_clash:
  "\<exists>g h. g \<in> set (status_updates (fst (naming_sync (sample_env [sample_grd ''ds'' ''D'' ''g.io'', rival]) ''ds.g.io''))) \<and>
    h \<in> set (status_updates (fst (naming_sync (sample_env [sample_grd ''ds'' ''D'' ''g.io'', rival]) ''other.g.io''))) \<and>
    \<not> names_apart g h"
  by (simp add: rival_def names_apart_def naming_sync_def sample_env_def calculateNamesAndConditions_def
      getAcceptedNamesForGroup_def decide_names_def claim_name_def
      claim_short_names_def equalToAcceptedOrFresh_def sample_grd_def sample_names_def sample_meta_def
      empty_status_def empty_names_def cached_item_def resource_names_def kind_names_def Let_def)

end
