(* ===== verification/Scheme.thy ===== *)
theory Scheme
  imports Conversion
begin

text \<open>
  Registration of the API with a scheme of Kubernetes: \<open>apis/kinds/register.go\<close>,
  \<open>apis/kinds/v1/register.go\<close>, \<open>apis/kinds/install\<close>, the generated \<open>RegisterDefaults\<close> and
  \<open>RegisterConversions\<close>, \<open>clientset/scheme\<close>, and the small generated conversions that \<open>Conversion\<close>
  does not need.

  The scheme is \<open>apimachinery\<close>'s: a state with operations, the parameter \<open>scheme_ops\<close>; what the
  theorems rely on is named in \<open>keeps_conversions\<close>. A registered function takes \<open>interface{}\<close> values
  and asserts their types, so here it is a function on a sum of the Go types that panics on others.
\<close>

section \<open>The remaining generated conversions\<close>

definition autoConvert_v1_Condition_To_kinds_Condition ::
  "GrafanaResourceDefinitionCondition \<Rightarrow> GrafanaResourceDefinitionCondition \<Rightarrow> GrafanaResourceDefinitionCondition" where
  "autoConvert_v1_Condition_To_kinds_Condition inp out =
    out\<lparr>cType := cType inp, cStatus := cStatus inp, cLastTransitionTime := cLastTransitionTime inp,
        cReason := cReason inp, cMessage := cMessage inp\<rparr>"

definition autoConvert_kinds_Condition_To_v1_Condition ::
  "GrafanaResourceDefinitionCondition \<Rightarrow> GrafanaResourceDefinitionCondition \<Rightarrow> GrafanaResourceDefinitionCondition" where
  "autoConvert_kinds_Condition_To_v1_Condition inp out =
    out\<lparr>cType := cType inp, cStatus := cStatus inp, cLastTransitionTime := cLastTransitionTime inp,
        cReason := cReason inp, cMessage := cMessage inp\<rparr>"

definition autoConvert_v1_Version_To_kinds_Version ::
  "GrafanaResourceDefinitionVersion \<Rightarrow> GrafanaResourceDefinitionVersion \<Rightarrow> GrafanaResourceDefinitionVersion" where
  "autoConvert_v1_Version_To_kinds_Version inp out =
    out\<lparr>vName := vName inp, vServed := vServed inp, vStorage := vStorage inp, vDeprecated := vDeprecated inp,
        vDeprecationWarning := vDeprecationWarning inp, vSubresources := vSubresources inp\<rparr>"

definition autoConvert_kinds_Version_To_v1_Version ::
  "GrafanaResourceDefinitionVersion \<Rightarrow> GrafanaResourceDefinitionVersion \<Rightarrow> GrafanaResourceDefinitionVersion" where
  "autoConvert_kinds_Version_To_v1_Version inp out =
    out\<lparr>vName := vName inp, vServed := vServed inp, vStorage := vStorage inp, vDeprecated := vDeprecated inp,
        vDeprecationWarning := vDeprecationWarning inp, vSubresources := vSubresources inp\<rparr>"

definition autoConvert_v1_Scale_To_kinds_Scale ::
  "GrafanaResourceSubresourceScale \<Rightarrow> GrafanaResourceSubresourceScale \<Rightarrow> GrafanaResourceSubresourceScale" where
  "autoConvert_v1_Scale_To_kinds_Scale inp out =
    out\<lparr>SpecReplicasPath := SpecReplicasPath inp, StatusReplicasPath := StatusReplicasPath inp,
        LabelSelectorPath := LabelSelectorPath inp\<rparr>"

definition autoConvert_kinds_Scale_To_v1_Scale ::
  "GrafanaResourceSubresourceScale \<Rightarrow> GrafanaResourceSubresourceScale \<Rightarrow> GrafanaResourceSubresourceScale" where
  "autoConvert_kinds_Scale_To_v1_Scale inp out =
    out\<lparr>SpecReplicasPath := SpecReplicasPath inp, StatusReplicasPath := StatusReplicasPath inp,
        LabelSelectorPath := LabelSelectorPath inp\<rparr>"

definition autoConvert_v1_Subresources_To_kinds_Subresources ::
  "GrafanaResourceSubresources \<Rightarrow> GrafanaResourceSubresources \<Rightarrow> GrafanaResourceSubresources" where
  "autoConvert_v1_Subresources_To_kinds_Subresources inp out =
    out\<lparr>subStatus := subStatus inp, subScale := subScale inp, subHistory := subHistory inp, subRef := subRef inp\<rparr>"

text \<open>The structs without fields: nothing to assign.\<close>

definition autoConvert_v1_History_To_kinds_History :: "unit \<Rightarrow> unit \<Rightarrow> unit" where
  "autoConvert_v1_History_To_kinds_History inp out = out"

definition autoConvert_kinds_History_To_v1_History :: "unit \<Rightarrow> unit \<Rightarrow> unit" where
  "autoConvert_kinds_History_To_v1_History inp out = out"

definition autoConvert_v1_Ref_To_kinds_Ref :: "unit \<Rightarrow> unit \<Rightarrow> unit" where
  "autoConvert_v1_Ref_To_kinds_Ref inp out = out"

definition autoConvert_kinds_Ref_To_v1_Ref :: "unit \<Rightarrow> unit \<Rightarrow> unit" where
  "autoConvert_kinds_Ref_To_v1_Ref inp out = out"

definition autoConvert_v1_SubresourceStatus_To_kinds_SubresourceStatus :: "unit \<Rightarrow> unit \<Rightarrow> unit" where
  "autoConvert_v1_SubresourceStatus_To_kinds_SubresourceStatus inp out = out"

definition autoConvert_kinds_SubresourceStatus_To_v1_SubresourceStatus :: "unit \<Rightarrow> unit \<Rightarrow> unit" where
  "autoConvert_kinds_SubresourceStatus_To_v1_SubresourceStatus inp out = out"

lemmas small_conversion_defs =
  autoConvert_v1_Condition_To_kinds_Condition_def autoConvert_kinds_Condition_To_v1_Condition_def
  autoConvert_v1_Version_To_kinds_Version_def autoConvert_kinds_Version_To_v1_Version_def
  autoConvert_v1_Scale_To_kinds_Scale_def autoConvert_kinds_Scale_To_v1_Scale_def
  autoConvert_v1_Subresources_To_kinds_Subresources_def autoConvert_kinds_Subresources_To_v1_Subresources_def

section \<open>Go types and values\<close>

datatype go_package = V1 | Kinds

datatype go_struct =
    Definition_struct | List_struct | Condition_struct | Names_struct | Spec_struct | Status_struct | Version_struct
  | History_struct | Ref_struct | Scale_struct | SubresourceStatus_struct | Subresources_struct

type_synonym go_type = "go_package \<times> go_struct"

datatype api_value =
    V1_GRD GRD
  | Kinds_GRD kinds_GRD
  | V1_List "GrafanaResourceDefinitionSpec GrafanaResourceDefinitionList"
  | Kinds_List "kinds_GrafanaResourceDefinitionSpec GrafanaResourceDefinitionList"
  | V1_Spec GrafanaResourceDefinitionSpec
  | Kinds_Spec kinds_GrafanaResourceDefinitionSpec
  | Condition_value go_package GrafanaResourceDefinitionCondition
  | Names_value go_package GrafanaResourceDefinitionNames
  | Status_value go_package GrafanaResourceDefinitionStatus
  | Version_value go_package GrafanaResourceDefinitionVersion
  | Scale_value go_package GrafanaResourceSubresourceScale
  | Subresources_value go_package GrafanaResourceSubresources
  | History_value go_package unit
  | Ref_value go_package unit
  | SubresourceStatus_value go_package unit

fun type_of :: "api_value \<Rightarrow> go_type" where
  "type_of (V1_GRD _) = (V1, Definition_struct)"
| "type_of (Kinds_GRD _) = (Kinds, Definition_struct)"
| "type_of (V1_List _) = (V1, List_struct)"
| "type_of (Kinds_List _) = (Kinds, List_struct)"
| "type_of (V1_Spec _) = (V1, Spec_struct)"
| "type_of (Kinds_Spec _) = (Kinds, Spec_struct)"
| "type_of (Condition_value p _) = (p, Condition_struct)"
| "type_of (Names_value p _) = (p, Names_struct)"
| "type_of (Status_value p _) = (p, Status_struct)"
| "type_of (Version_value p _) = (p, Version_struct)"
| "type_of (Scale_value p _) = (p, Scale_struct)"
| "type_of (Subresources_value p _) = (p, Subresources_struct)"
| "type_of (History_value p _) = (p, History_struct)"
| "type_of (Ref_value p _) = (p, Ref_struct)"
| "type_of (SubresourceStatus_value p _) = (p, SubresourceStatus_struct)"

text \<open>A conversion of the table: input, output as it is, output as it becomes.\<close>

type_synonym conversion = "api_value \<Rightarrow> api_value \<Rightarrow> api_value outcome"

definition returned :: "('a \<Rightarrow> api_value) \<Rightarrow> go_error + 'a \<Rightarrow> api_value outcome" where
  "returned wrap r = (case r of Inl e \<Rightarrow> Err e | Inr x \<Rightarrow> Ret (wrap x))"

section \<open>Registration\<close>

record 's scheme_ops =
  soAddKnownTypes :: "string \<times> string \<Rightarrow> go_type list \<Rightarrow> 's \<Rightarrow> 's"
  soAddToGroupVersion :: "string \<times> string \<Rightarrow> 's \<Rightarrow> 's"
  soAddUnversionedTypes :: "string \<times> string \<Rightarrow> 's \<Rightarrow> 's"
  soAddGenerated :: "go_type \<times> go_type \<Rightarrow> conversion \<Rightarrow> 's \<Rightarrow> go_error + 's"
  soAddConversion :: "go_type \<times> go_type \<Rightarrow> conversion \<Rightarrow> 's \<Rightarrow> go_error + 's"
  soAddDefaulting :: "go_type \<Rightarrow> (api_value \<Rightarrow> api_value outcome) \<Rightarrow> 's \<Rightarrow> 's"
  soSetVersionPriority :: "(string \<times> string) list \<Rightarrow> 's \<Rightarrow> go_error + 's"
  soConversion :: "'s \<Rightarrow> go_type \<times> go_type \<Rightarrow> conversion option"

type_synonym 's registration = "'s \<Rightarrow> go_error + 's"

fun run_all :: "'s registration list \<Rightarrow> 's registration" where
  "run_all [] s = Inr s"
| "run_all (f # fs) s = (case f s of Inl err \<Rightarrow> Inl err | Inr s' \<Rightarrow> run_all fs s')"

definition GroupName :: string where "GroupName = ''kinds.grafana.com''"

definition kinds_SchemeGroupVersion :: "string \<times> string" where
  "kinds_SchemeGroupVersion = (GroupName, ''__internal'')"

definition v1_SchemeGroupVersion :: "string \<times> string" where
  "v1_SchemeGroupVersion = (GroupName, ''v1'')"

definition kinds_addKnownTypes :: "'s scheme_ops \<Rightarrow> 's registration" where
  "kinds_addKnownTypes ops s =
    Inr (soAddKnownTypes ops kinds_SchemeGroupVersion [(Kinds, Definition_struct), (Kinds, List_struct)] s)"

definition v1_addKnownTypes :: "'s scheme_ops \<Rightarrow> 's registration" where
  "v1_addKnownTypes ops s = Inr (soAddToGroupVersion ops v1_SchemeGroupVersion
    (soAddKnownTypes ops v1_SchemeGroupVersion [(V1, Definition_struct), (V1, List_struct)] s))"

definition RegisterDefaults :: "'s scheme_ops \<Rightarrow> 's registration" where
  "RegisterDefaults ops s = Inr
    (soAddDefaulting ops (V1, List_struct)
       (\<lambda>obj. case obj of V1_List l \<Rightarrow> Ret (V1_List (SetObjectDefaults_GrafanaResourceDefinitionList l)) | _ \<Rightarrow> Panic)
    (soAddDefaulting ops (V1, Definition_struct)
       (\<lambda>obj. case obj of V1_GRD g \<Rightarrow> Ret (V1_GRD (SetObjectDefaults_GrafanaResourceDefinition g)) | _ \<Rightarrow> Panic) s))"

definition addDefaultingFuncs :: "'s scheme_ops \<Rightarrow> 's registration" where
  "addDefaultingFuncs ops = RegisterDefaults ops"

datatype conversion_call =
    AddGeneratedConversionFunc go_type go_type conversion
  | AddConversionFunc go_type go_type conversion

text \<open>The calls in the order of the code; each returns from the function when it fails.\<close>

definition conversion_calls ::
  "(bool \<Rightarrow> go_error + bool option) \<Rightarrow> (bool option \<Rightarrow> go_error + bool) \<Rightarrow> conversion_call list" where
  "conversion_calls b2p p2b = [
     AddGeneratedConversionFunc (V1, Definition_struct) (Kinds, Definition_struct) (\<lambda>a b. case (a, b) of
       (V1_GRD x, Kinds_GRD out) \<Rightarrow> returned Kinds_GRD (Convert_v1_GRD_To_kinds_GRD b2p x out) | _ \<Rightarrow> Panic),
     AddGeneratedConversionFunc (Kinds, Definition_struct) (V1, Definition_struct) (\<lambda>a b. case (a, b) of
       (Kinds_GRD x, V1_GRD out) \<Rightarrow> returned (V1_GRD \<circ> snd) (Convert_kinds_GRD_To_v1_GRD p2b x out) | _ \<Rightarrow> Panic),
     AddGeneratedConversionFunc (V1, Condition_struct) (Kinds, Condition_struct) (\<lambda>a b. case (a, b) of
       (Condition_value V1 x, Condition_value Kinds out) \<Rightarrow> Ret (Condition_value Kinds (autoConvert_v1_Condition_To_kinds_Condition x out)) | _ \<Rightarrow> Panic),
     AddGeneratedConversionFunc (Kinds, Condition_struct) (V1, Condition_struct) (\<lambda>a b. case (a, b) of
       (Condition_value Kinds x, Condition_value V1 out) \<Rightarrow> Ret (Condition_value V1 (autoConvert_kinds_Condition_To_v1_Condition x out)) | _ \<Rightarrow> Panic),
     AddGeneratedConversionFunc (V1, List_struct) (Kinds, List_struct) (\<lambda>a b. case (a, b) of
       (V1_List x, Kinds_List out) \<Rightarrow> returned Kinds_List (autoConvert_v1_GRDList_To_kinds_GRDList b2p zero_kinds_grd x)
     | _ \<Rightarrow> Panic),
     AddGeneratedConversionFunc (Kinds, List_struct) (V1, List_struct) (\<lambda>a b. case (a, b) of
       (Kinds_List x, V1_List out) \<Rightarrow> returned V1_List (autoConvert_kinds_GRDList_To_v1_GRDList p2b zero_grd x)
     | _ \<Rightarrow> Panic),
     AddGeneratedConversionFunc (V1, Names_struct) (Kinds, Names_struct) (\<lambda>a b. case (a, b) of
       (Names_value V1 x, Names_value Kinds out) \<Rightarrow> Ret (Names_value Kinds (autoConvert_v1_Names_To_kinds_Names x out)) | _ \<Rightarrow> Panic),
     AddGeneratedConversionFunc (Kinds, Names_struct) (V1, Names_struct) (\<lambda>a b. case (a, b) of
       (Names_value Kinds x, Names_value V1 out) \<Rightarrow> Ret (Names_value V1 (autoConvert_kinds_Names_To_v1_Names x out)) | _ \<Rightarrow> Panic),
     AddGeneratedConversionFunc (V1, Spec_struct) (Kinds, Spec_struct) (\<lambda>a b. case (a, b) of
       (V1_Spec x, Kinds_Spec out) \<Rightarrow> returned Kinds_Spec (autoConvert_v1_Spec_To_kinds_Spec b2p x out) | _ \<Rightarrow> Panic),
     AddGeneratedConversionFunc (V1, Status_struct) (Kinds, Status_struct) (\<lambda>a b. case (a, b) of
       (Status_value V1 x, Status_value Kinds out) \<Rightarrow> Ret (Status_value Kinds (autoConvert_v1_Status_To_kinds_Status x out)) | _ \<Rightarrow> Panic),
     AddGeneratedConversionFunc (Kinds, Status_struct) (V1, Status_struct) (\<lambda>a b. case (a, b) of
       (Status_value Kinds x, Status_value V1 out) \<Rightarrow> Ret (Status_value V1 (autoConvert_kinds_Status_To_v1_Status x out)) | _ \<Rightarrow> Panic),
     AddGeneratedConversionFunc (V1, Version_struct) (Kinds, Version_struct) (\<lambda>a b. case (a, b) of
       (Version_value V1 x, Version_value Kinds out) \<Rightarrow> Ret (Version_value Kinds (autoConvert_v1_Version_To_kinds_Version x out)) | _ \<Rightarrow> Panic),
     AddGeneratedConversionFunc (Kinds, Version_struct) (V1, Version_struct) (\<lambda>a b. case (a, b) of
       (Version_value Kinds x, Version_value V1 out) \<Rightarrow> Ret (Version_value V1 (autoConvert_kinds_Version_To_v1_Version x out)) | _ \<Rightarrow> Panic),
     AddGeneratedConversionFunc (V1, History_struct) (Kinds, History_struct) (\<lambda>a b. case (a, b) of
       (History_value V1 x, History_value Kinds out) \<Rightarrow> Ret (History_value Kinds (autoConvert_v1_History_To_kinds_History x out)) | _ \<Rightarrow> Panic),
     AddGeneratedConversionFunc (Kinds, History_struct) (V1, History_struct) (\<lambda>a b. case (a, b) of
       (History_value Kinds x, History_value V1 out) \<Rightarrow> Ret (History_value V1 (autoConvert_kinds_History_To_v1_History x out)) | _ \<Rightarrow> Panic),
     AddGeneratedConversionFunc (V1, Ref_struct) (Kinds, Ref_struct) (\<lambda>a b. case (a, b) of
       (Ref_value V1 x, Ref_value Kinds out) \<Rightarrow> Ret (Ref_value Kinds (autoConvert_v1_Ref_To_kinds_Ref x out)) | _ \<Rightarrow> Panic),
     AddGeneratedConversionFunc (Kinds, Ref_struct) (V1, Ref_struct) (\<lambda>a b. case (a, b) of
       (Ref_value Kinds x, Ref_value V1 out) \<Rightarrow> Ret (Ref_value V1 (autoConvert_kinds_Ref_To_v1_Ref x out)) | _ \<Rightarrow> Panic),
     AddGeneratedConversionFunc (V1, Scale_struct) (Kinds, Scale_struct) (\<lambda>a b. case (a, b) of
       (Scale_value V1 x, Scale_value Kinds out) \<Rightarrow> Ret (Scale_value Kinds (autoConvert_v1_Scale_To_kinds_Scale x out)) | _ \<Rightarrow> Panic),
     AddGeneratedConversionFunc (Kinds, Scale_struct) (V1, Scale_struct) (\<lambda>a b. case (a, b) of
       (Scale_value Kinds x, Scale_value V1 out) \<Rightarrow> Ret (Scale_value V1 (autoConvert_kinds_Scale_To_v1_Scale x out)) | _ \<Rightarrow> Panic),
     AddGeneratedConversionFunc (V1, SubresourceStatus_struct) (Kinds, SubresourceStatus_struct) (\<lambda>a b. case (a, b) of
       (SubresourceStatus_value V1 x, SubresourceStatus_value Kinds out) \<Rightarrow> Ret (SubresourceStatus_value Kinds (autoConvert_v1_SubresourceStatus_To_kinds_SubresourceStatus x out)) | _ \<Rightarrow> Panic),
     AddGeneratedConversionFunc (Kinds, SubresourceStatus_struct) (V1, SubresourceStatus_struct) (\<lambda>a b. case (a, b) of
       (SubresourceStatus_value Kinds x, SubresourceStatus_value V1 out) \<Rightarrow> Ret (SubresourceStatus_value V1 (autoConvert_kinds_SubresourceStatus_To_v1_SubresourceStatus x out)) | _ \<Rightarrow> Panic),
     AddGeneratedConversionFunc (V1, Subresources_struct) (Kinds, Subresources_struct) (\<lambda>a b. case (a, b) of
       (Subresources_value V1 x, Subresources_value Kinds out) \<Rightarrow> Ret (Subresources_value Kinds (autoConvert_v1_Subresources_To_kinds_Subresources x out)) | _ \<Rightarrow> Panic),
     AddGeneratedConversionFunc (Kinds, Subresources_struct) (V1, Subresources_struct) (\<lambda>a b. case (a, b) of
       (Subresources_value Kinds x, Subresources_value V1 out) \<Rightarrow> Ret (Subresources_value V1 (autoConvert_kinds_Subresources_To_v1_Subresources x out)) | _ \<Rightarrow> Panic),
     AddConversionFunc (Kinds, Spec_struct) (V1, Spec_struct) (\<lambda>a b. case (a, b) of
       (Kinds_Spec x, V1_Spec out) \<Rightarrow> returned (V1_Spec \<circ> snd) (Convert_kinds_Spec_To_v1_Spec p2b x out) | _ \<Rightarrow> Panic)]"

fun do_call :: "'s scheme_ops \<Rightarrow> conversion_call \<Rightarrow> 's registration" where
  "do_call ops (AddGeneratedConversionFunc a b f) s = soAddGenerated ops (a, b) f s"
| "do_call ops (AddConversionFunc a b f) s = soAddConversion ops (a, b) f s"

definition RegisterConversions ::
  "(bool \<Rightarrow> go_error + bool option) \<Rightarrow> (bool option \<Rightarrow> go_error + bool) \<Rightarrow> 's scheme_ops \<Rightarrow> 's registration" where
  "RegisterConversions b2p p2b ops s = run_all (map (do_call ops) (conversion_calls b2p p2b)) s"

text \<open>
  The builders, as the initialisation of the packages leaves them: files are initialised in the
  order of their names, so the second registration of the defaults comes before the conversions.
\<close>

definition kinds_SchemeBuilder :: "'s scheme_ops \<Rightarrow> 's registration list" where
  "kinds_SchemeBuilder ops = [kinds_addKnownTypes ops]"

definition v1_SchemeBuilder ::
  "(bool \<Rightarrow> go_error + bool option) \<Rightarrow> (bool option \<Rightarrow> go_error + bool) \<Rightarrow> 's scheme_ops \<Rightarrow> 's registration list" where
  "v1_SchemeBuilder b2p p2b ops =
    [v1_addKnownTypes ops, addDefaultingFuncs ops] @ [addDefaultingFuncs ops] @ [RegisterConversions b2p p2b ops]"

definition must :: "go_error + 'a \<Rightarrow> 'a outcome" where
  "must r = (case r of Inl _ \<Rightarrow> Panic | Inr x \<Rightarrow> Ret x)"

definition Install ::
  "(bool \<Rightarrow> go_error + bool option) \<Rightarrow> (bool option \<Rightarrow> go_error + bool) \<Rightarrow> 's scheme_ops \<Rightarrow> 's \<Rightarrow> 's outcome" where
  "Install b2p p2b ops s =
    bind_outcome (must (run_all (kinds_SchemeBuilder ops) s)) (\<lambda>s.
    bind_outcome (must (run_all (v1_SchemeBuilder b2p p2b ops) s)) (\<lambda>s.
    must (soSetVersionPriority ops [v1_SchemeGroupVersion] s)))"

text \<open>The schemes of the server and of the generated client.\<close>

definition server_Scheme ::
  "(bool \<Rightarrow> go_error + bool option) \<Rightarrow> (bool option \<Rightarrow> go_error + bool) \<Rightarrow> 's scheme_ops \<Rightarrow> 's \<Rightarrow> 's outcome" where
  "server_Scheme b2p p2b ops NewScheme =
    bind_outcome (Install b2p p2b ops NewScheme) (\<lambda>s.
    Ret (soAddUnversionedTypes ops ([], ''v1'') (soAddToGroupVersion ops ([], ''v1'') s)))"

definition clientset_Scheme ::
  "(bool \<Rightarrow> go_error + bool option) \<Rightarrow> (bool option \<Rightarrow> go_error + bool) \<Rightarrow> 's scheme_ops \<Rightarrow> 's \<Rightarrow> 's outcome" where
  "clientset_Scheme b2p p2b ops NewScheme =
    must (run_all (v1_SchemeBuilder b2p p2b ops) (soAddToGroupVersion ops ([], ''v1'') NewScheme))"

section \<open>The table\<close>

text \<open>What the calls register.\<close>

fun call_entry :: "conversion_call \<Rightarrow> (go_type \<times> go_type) \<times> conversion" where
  "call_entry (AddGeneratedConversionFunc a b f) = ((a, b), f)"
| "call_entry (AddConversionFunc a b f) = ((a, b), f)"

definition conversion_table ::
  "(bool \<Rightarrow> go_error + bool option) \<Rightarrow> (bool option \<Rightarrow> go_error + bool) \<Rightarrow> ((go_type \<times> go_type) \<times> conversion) list" where
  "conversion_table b2p p2b = map call_entry (conversion_calls b2p p2b)"

lemma table_pairs:
  "map fst (conversion_table b2p p2b) = concat (map (\<lambda>t. if t = Spec_struct then [((V1, t), (Kinds, t))]
      else [((V1, t), (Kinds, t)), ((Kinds, t), (V1, t))])
    [Definition_struct, Condition_struct, List_struct, Names_struct, Spec_struct, Status_struct, Version_struct,
     History_struct, Ref_struct, Scale_struct, SubresourceStatus_struct, Subresources_struct]) @
    [((Kinds, Spec_struct), (V1, Spec_struct))]"
  by (simp add: conversion_table_def conversion_calls_def)

lemma table_complete: "((p, t), (q, u)) \<in> fst ` set (conversion_table b2p p2b) \<longleftrightarrow> t = u \<and> p \<noteq> q"
proof -
  have "fst ` set (conversion_table b2p p2b) = set (map fst (conversion_table b2p p2b))" by simp
  then show ?thesis unfolding table_pairs by (cases p; cases q; cases t; cases u) simp_all
qed

text \<open>A registered function is well typed on the types it is registered for.\<close>

definition well_typed :: "(go_type \<times> go_type) \<times> conversion \<Rightarrow> bool" where
  "well_typed e \<longleftrightarrow> (\<forall>a out. type_of a = fst (fst e) \<longrightarrow> type_of out = snd (fst e) \<longrightarrow>
    snd e a out \<noteq> Panic \<and> (\<forall>b. snd e a out = Ret b \<longrightarrow> type_of b = snd (fst e)))"

lemma type_of_iff:
  "type_of a = (V1, Definition_struct) \<longleftrightarrow> (\<exists>x. a = V1_GRD x)"
  "type_of a = (Kinds, Definition_struct) \<longleftrightarrow> (\<exists>x. a = Kinds_GRD x)"
  "type_of a = (V1, List_struct) \<longleftrightarrow> (\<exists>x. a = V1_List x)"
  "type_of a = (Kinds, List_struct) \<longleftrightarrow> (\<exists>x. a = Kinds_List x)"
  "type_of a = (V1, Spec_struct) \<longleftrightarrow> (\<exists>x. a = V1_Spec x)"
  "type_of a = (Kinds, Spec_struct) \<longleftrightarrow> (\<exists>x. a = Kinds_Spec x)"
  "type_of a = (p, Condition_struct) \<longleftrightarrow> (\<exists>x. a = Condition_value p x)"
  "type_of a = (p, Names_struct) \<longleftrightarrow> (\<exists>x. a = Names_value p x)"
  "type_of a = (p, Status_struct) \<longleftrightarrow> (\<exists>x. a = Status_value p x)"
  "type_of a = (p, Version_struct) \<longleftrightarrow> (\<exists>x. a = Version_value p x)"
  "type_of a = (p, Scale_struct) \<longleftrightarrow> (\<exists>x. a = Scale_value p x)"
  "type_of a = (p, Subresources_struct) \<longleftrightarrow> (\<exists>x. a = Subresources_value p x)"
  "type_of a = (p, History_struct) \<longleftrightarrow> (\<exists>x. a = History_value p x)"
  "type_of a = (p, Ref_struct) \<longleftrightarrow> (\<exists>x. a = Ref_value p x)"
  "type_of a = (p, SubresourceStatus_struct) \<longleftrightarrow> (\<exists>x. a = SubresourceStatus_value p x)"
  by (cases a; auto)+

lemma returned_typed:
  "returned wrap r \<noteq> Panic" "returned wrap r = Ret b \<longleftrightarrow> (\<exists>x. r = Inr x \<and> b = wrap x)"
  by (auto simp: returned_def split: sum.splits)

lemma table_typed: "list_all well_typed (conversion_table b2p p2b)"
  by (simp add: conversion_table_def conversion_calls_def well_typed_def type_of_iff)
    (auto simp: returned_typed)

text \<open>
  The registered conversions are complete and well typed: every struct of one package converts
  to the struct of the same name in the other, by exactly one function, and that function never fails
  a type assertion on values of the types it is registered for and answers a value of the right type.
\<close>

theorem conversions_complete_and_typed:
  "distinct (map fst (conversion_table b2p p2b)) \<and>
   (\<forall>p t q u. ((p, t), (q, u)) \<in> fst ` set (conversion_table b2p p2b) \<longleftrightarrow> t = u \<and> p \<noteq> q) \<and>
   list_all well_typed (conversion_table b2p p2b)"
  using table_complete table_typed by (simp add: table_pairs)

section \<open>An installed scheme\<close>

text \<open>
  What is asked of a scheme: a function that is registered for a pair of types that has none is the
  one that is found, and nothing else changes what is found.
\<close>

definition keeps_conversions :: "'s scheme_ops \<Rightarrow> bool" where
  "keeps_conversions ops \<longleftrightarrow>
    (\<forall>gv ts s. soConversion ops (soAddKnownTypes ops gv ts s) = soConversion ops s) \<and>
    (\<forall>gv s. soConversion ops (soAddToGroupVersion ops gv s) = soConversion ops s) \<and>
    (\<forall>gv s. soConversion ops (soAddUnversionedTypes ops gv s) = soConversion ops s) \<and>
    (\<forall>t f s. soConversion ops (soAddDefaulting ops t f s) = soConversion ops s) \<and>
    (\<forall>gvs s s'. soSetVersionPriority ops gvs s = Inr s' \<longrightarrow> soConversion ops s' = soConversion ops s) \<and>
    (\<forall>p f s s'. soConversion ops s p = None \<longrightarrow> soAddGenerated ops p f s = Inr s' \<longrightarrow>
      soConversion ops s' = (soConversion ops s)(p \<mapsto> f)) \<and>
    (\<forall>p f s s'. soConversion ops s p = None \<longrightarrow> soAddConversion ops p f s = Inr s' \<longrightarrow>
      soConversion ops s' = (soConversion ops s)(p \<mapsto> f))"

lemma keeps_conversionsD:
  assumes "keeps_conversions ops"
  shows "soConversion ops (soAddKnownTypes ops gv ts s) = soConversion ops s"
    and "soConversion ops (soAddToGroupVersion ops gv s) = soConversion ops s"
    and "soConversion ops (soAddDefaulting ops t d s) = soConversion ops s"
    and "soSetVersionPriority ops gvs s = Inr s' \<Longrightarrow> soConversion ops s' = soConversion ops s"
    and "soConversion ops s p = None \<Longrightarrow> soAddGenerated ops p f s = Inr s' \<Longrightarrow>
      soConversion ops s' = (soConversion ops s)(p \<mapsto> f)"
    and "soConversion ops s p = None \<Longrightarrow> soAddConversion ops p f s = Inr s' \<Longrightarrow>
      soConversion ops s' = (soConversion ops s)(p \<mapsto> f)"
proof -
  note laws = assms [unfolded keeps_conversions_def]
  show "soConversion ops (soAddKnownTypes ops gv ts s) = soConversion ops s" by (rule laws [THEN conjunct1, rule_format])
  show "soConversion ops (soAddToGroupVersion ops gv s) = soConversion ops s" by (rule laws [THEN conjunct2, THEN conjunct1, rule_format])
  show "soConversion ops (soAddDefaulting ops t d s) = soConversion ops s"
    by (rule laws [THEN conjunct2, THEN conjunct2, THEN conjunct2, THEN conjunct1, rule_format])
  show "soSetVersionPriority ops gvs s = Inr s' \<Longrightarrow> soConversion ops s' = soConversion ops s"
    by (rule laws [THEN conjunct2, THEN conjunct2, THEN conjunct2, THEN conjunct2, THEN conjunct1, rule_format])
  show "soConversion ops s p = None \<Longrightarrow> soAddGenerated ops p f s = Inr s' \<Longrightarrow>
      soConversion ops s' = (soConversion ops s)(p \<mapsto> f)"
    by (rule laws [THEN conjunct2, THEN conjunct2, THEN conjunct2, THEN conjunct2, THEN conjunct2, THEN conjunct1, rule_format])
  show "soConversion ops s p = None \<Longrightarrow> soAddConversion ops p f s = Inr s' \<Longrightarrow>
      soConversion ops s' = (soConversion ops s)(p \<mapsto> f)"
    by (rule laws [THEN conjunct2, THEN conjunct2, THEN conjunct2, THEN conjunct2, THEN conjunct2, THEN conjunct2, rule_format])
qed

definition registers :: "'s scheme_ops \<Rightarrow> 's registration \<Rightarrow> (go_type \<times> go_type) \<times> conversion \<Rightarrow> bool" where
  "registers ops r e \<longleftrightarrow> (\<forall>s s'. soConversion ops s (fst e) = None \<longrightarrow> r s = Inr s' \<longrightarrow>
    soConversion ops s' = (soConversion ops s)(fst e \<mapsto> snd e))"

lemma registers_run:
  assumes "list_all2 (registers ops) rs es" and "distinct (map fst es)" and "run_all rs s = Inr s'"
    and "\<And>e. e \<in> set es \<Longrightarrow> soConversion ops s (fst e) = None"
  shows "soConversion ops s' = soConversion ops s ++ map_of es"
  using assms
proof (induction rs es arbitrary: s rule: list_all2_induct)
  case (Cons r rs e es)
  obtain s1 where r: "r s = Inr s1" "run_all rs s1 = Inr s'"
    using Cons.prems(2) by (auto split: sum.splits)
  have s1: "soConversion ops s1 = (soConversion ops s)(fst e \<mapsto> snd e)"
    using Cons.hyps(1) Cons.prems(3) r(1) by (auto simp: registers_def)
  have "soConversion ops s1 (fst x) = None" if "x \<in> set es" for x
  proof -
    have "fst x \<noteq> fst e" using that Cons.prems(1) by (metis distinct.simps(2) imageI list.set_map list.simps(9))
    then show ?thesis using that Cons.prems(3) [of x] by (simp add: s1)
  qed
  then have "soConversion ops s' = soConversion ops s1 ++ map_of es"
    using Cons.IH [OF _ r(2)] Cons.prems(1) by simp
  moreover have "fst e \<notin> dom (map_of es)" using Cons.prems(1) by (simp add: dom_map_of_conv_image_fst)
  ultimately show ?case
    by (cases e) (simp add: s1 map_add_upd_left fun_eq_iff map_add_def split: option.split, force)
qed simp

lemma RegisterConversions_registers:
  assumes "keeps_conversions ops" and "RegisterConversions b2p p2b ops s = Inr s'"
    and "soConversion ops s = Map.empty"
  shows "soConversion ops s' = map_of (conversion_table b2p p2b)"
proof -
  have "registers ops (do_call ops c) (call_entry c)" for c
  proof (cases c)
    case (AddGeneratedConversionFunc a b f)
    then show ?thesis using keeps_conversionsD(5) [OF assms(1)] unfolding registers_def by simp
  next
    case (AddConversionFunc a b f)
    then show ?thesis using keeps_conversionsD(6) [OF assms(1)] unfolding registers_def by simp
  qed
  then have calls: "list_all2 (registers ops) (map (do_call ops) (conversion_calls b2p p2b)) (conversion_table b2p p2b)"
    by (simp add: conversion_table_def list_all2_map1 list_all2_map2 list_all2_same)
  have "distinct (map fst (conversion_table b2p p2b))" by (simp add: table_pairs)
  from registers_run [OF calls this assms(2) [unfolded RegisterConversions_def]] assms(3) show ?thesis by simp
qed

lemma must_Ret: "must r = Ret x \<longleftrightarrow> r = Inr x"
  by (simp add: must_def split: sum.split)

lemma Install_conversions:
  assumes ops: "keeps_conversions ops" and "Install b2p p2b ops s0 = Ret s" and fresh: "soConversion ops s0 = Map.empty"
  shows "soConversion ops s = map_of (conversion_table b2p p2b)"
proof -
  obtain s1 s2 where runs: "run_all (kinds_SchemeBuilder ops) s0 = Inr s1"
    "run_all (v1_SchemeBuilder b2p p2b ops) s1 = Inr s2" "soSetVersionPriority ops [v1_SchemeGroupVersion] s2 = Inr s"
    using assms(2) unfolding Install_def bind_outcome_Ret_iff must_Ret by blast
  note keep = keeps_conversionsD(1-3) [OF ops]
  have "soConversion ops s1 = Map.empty"
    using runs(1) fresh by (auto simp: kinds_SchemeBuilder_def kinds_addKnownTypes_def keep)
  moreover obtain s3 where "RegisterConversions b2p p2b ops s3 = Inr s2" "soConversion ops s3 = soConversion ops s1"
  proof (rule that)
    let ?defaults = "\<lambda>x. projr (RegisterDefaults ops x)"
    let ?s3 = "?defaults (?defaults (projr (v1_addKnownTypes ops s1)))"
    show "RegisterConversions b2p p2b ops ?s3 = Inr s2"
      using runs(2) by (cases "RegisterConversions b2p p2b ops ?s3")
        (simp_all add: v1_SchemeBuilder_def v1_addKnownTypes_def addDefaultingFuncs_def RegisterDefaults_def)
    show "soConversion ops ?s3 = soConversion ops s1"
      by (simp add: v1_addKnownTypes_def RegisterDefaults_def keep)
  qed
  ultimately have "soConversion ops s2 = map_of (conversion_table b2p p2b)"
    using RegisterConversions_registers [OF ops] by simp
  then show ?thesis using keeps_conversionsD(4) [OF ops runs(3)] by simp
qed


text \<open>A scheme that is the list of what was registered.\<close>

definition note_ops :: "((go_type \<times> go_type) \<times> conversion) list scheme_ops" where
  "note_ops = \<lparr>soAddKnownTypes = (\<lambda>_ _ s. s), soAddToGroupVersion = (\<lambda>_ s. s), soAddUnversionedTypes = (\<lambda>_ s. s),
     soAddGenerated = (\<lambda>p f s. Inr (s @ [(p, f)])), soAddConversion = (\<lambda>p f s. Inr (s @ [(p, f)])),
     soAddDefaulting = (\<lambda>_ _ s. s), soSetVersionPriority = (\<lambda>_ s. Inr s), soConversion = map_of\<rparr>"

lemma note_run: "run_all (map (do_call note_ops) cs) xs = Inr (xs @ map call_entry cs)"
proof (induction cs arbitrary: xs)
  case (Cons c cs)
  then show ?case by (cases c) (simp_all add: note_ops_def)
qed simp

lemma note_ops_keeps: "keeps_conversions note_ops"
  by (auto simp: keeps_conversions_def note_ops_def map_add_def fun_eq_iff split: option.split)


end
