(* ===== verification/GrRegistry.thy ===== *)
theory GrRegistry
  imports Handler "HOL-Library.Word"
begin

text \<open>
  The REST storage of the defined resources, \<open>pkg/registry/grafanaresource\<close>: the strategies of
  the resource and of its status (\<open>strategy.go\<close>, \<open>status_strategy.go\<close>), the streamer strategy
  and \<open>pkg/apihelpers/streamer.go\<close>, and \<open>storage.go\<close> with the scale subresource.

  An object is the content of an \<open>unstructured.Unstructured\<close>, a map of JSON values. The accessors
  of apimachinery that read and write nested fields and metadata are the fields of
  \<open>unstructured_api\<close>; \<open>Semantic.DeepEqual\<close> is a parameter. The type variable is the type of the
  managed fields.
\<close>

section \<open>Unstructured objects\<close>

datatype json =
    JNull
  | JBool bool
  | JInt "64 word"
  | JString string
  | JList "json list"
  | JMap "string \<Rightarrow> json option"

type_synonym unstructured_content = "string \<rightharpoonup> json"

record 'mf unstructured_api =
  uGetGeneration :: "unstructured_content \<Rightarrow> 64 word"
  uSetGeneration :: "64 word \<Rightarrow> unstructured_content \<Rightarrow> unstructured_content"
  uGetManagedFields :: "unstructured_content \<Rightarrow> 'mf"
  uSetManagedFields :: "'mf \<Rightarrow> unstructured_content \<Rightarrow> unstructured_content"
  uSetResourceVersion :: "string \<Rightarrow> unstructured_content \<Rightarrow> unstructured_content"
  uObjectMeta :: "unstructured_content \<Rightarrow> ObjectMeta"
  uAccessor :: "unstructured_content \<Rightarrow> go_error option"
  uNestedInt64 :: "unstructured_content \<Rightarrow> string list \<Rightarrow> go_error + 64 word \<times> bool"
  uNestedString :: "unstructured_content \<Rightarrow> string list \<Rightarrow> go_error + string \<times> bool"
  uSetNestedField :: "json \<Rightarrow> string list \<Rightarrow> unstructured_content \<Rightarrow> go_error + unstructured_content"

section \<open>strategy.go\<close>

record grafanaResourceStrategy =
  gsNamespaceScoped :: bool
  gsStatus :: bool
  gsScale :: bool
  gsRef :: bool
  gsHistory :: bool
  gsKind :: "string \<times> string \<times> string"

definition NewStrategy ::
  "bool \<Rightarrow> string \<times> string \<times> string \<Rightarrow> bool \<Rightarrow> bool \<Rightarrow> bool \<Rightarrow> bool \<Rightarrow> grafanaResourceStrategy" where
  "NewStrategy namespaceScoped kind st sc rf hi =
    \<lparr>gsNamespaceScoped = namespaceScoped, gsStatus = st, gsScale = sc, gsRef = rf, gsHistory = hi, gsKind = kind\<rparr>"

text \<open>The reset fields: for the version of the kind, the paths the strategy resets.\<close>

definition gv_string :: "string \<times> string \<times> string \<Rightarrow> string" where
  "gv_string gvk = (case gvk of (g, v, _) \<Rightarrow> if g = [] then v else g @ ''/'' @ v)"

definition gr_GetResetFields :: "grafanaResourceStrategy \<Rightarrow> (string \<times> string) list" where
  "gr_GetResetFields a = (if gsStatus a then [(gv_string (gsKind a), ''status'')] else [])"

definition gr_PrepareForCreate ::
  "'mf unstructured_api \<Rightarrow> grafanaResourceStrategy \<Rightarrow> unstructured_content \<Rightarrow> unstructured_content" where
  "gr_PrepareForCreate api a obj = uSetGeneration api 1 (if gsStatus a then obj(''status'' := None) else obj)"

definition copyNonMetadata :: "unstructured_content \<Rightarrow> unstructured_content" where
  "copyNonMetadata original = (\<lambda>key. if key = ''metadata'' then None else original key)"

text \<open>The part of \<open>PrepareForUpdate\<close> before the generation: the status of the old object stays.\<close>

definition keep_old_status :: "grafanaResourceStrategy \<Rightarrow> unstructured_content \<Rightarrow> unstructured_content \<Rightarrow> unstructured_content" where
  "keep_old_status a new old =
    (if gsStatus a then
       (case old ''status'' of
          Some s \<Rightarrow> new(''status'' \<mapsto> s)
        | None \<Rightarrow> if new ''status'' \<noteq> None then new(''status'' := None) else new)
     else new)"

definition gr_PrepareForUpdate ::
  "'mf unstructured_api \<Rightarrow> (unstructured_content \<Rightarrow> unstructured_content \<Rightarrow> bool) \<Rightarrow> grafanaResourceStrategy \<Rightarrow> unstructured_content \<Rightarrow> unstructured_content \<Rightarrow> unstructured_content" where
  "gr_PrepareForUpdate api deep_equal a obj old =
    (let new = keep_old_status a obj old
     in if \<not> deep_equal (copyNonMetadata new) (copyNonMetadata old)
        then uSetGeneration api (uGetGeneration api old + 1) new else new)"

definition gr_Validate :: "unstructured_content \<Rightarrow> string list" where "gr_Validate obj = []"
definition gr_ValidateUpdate :: "unstructured_content \<Rightarrow> unstructured_content \<Rightarrow> string list" where "gr_ValidateUpdate obj old = []"

definition objectMetaFieldsSet :: "ObjectMeta \<Rightarrow> bool \<Rightarrow> (string \<times> string) list" where
  "objectMetaFieldsSet objectMeta namespaceScoped =
    (if namespaceScoped
     then [(''metadata.name'', mName objectMeta), (''metadata.namespace'', mNamespace objectMeta)]
     else [(''metadata.name'', mName objectMeta)])"

definition gr_GetAttrs ::
  "'mf unstructured_api \<Rightarrow> grafanaResourceStrategy \<Rightarrow> unstructured_content \<Rightarrow>
   go_error + (string \<times> string) list \<times> (string \<times> string) list" where
  "gr_GetAttrs api a obj =
    (case uAccessor api obj of
       Some err \<Rightarrow> Inl err
     | None \<Rightarrow> Inr (mLabels (uObjectMeta api obj), objectMetaFieldsSet (uObjectMeta api obj) (gsNamespaceScoped a)))"

section \<open>status_strategy.go\<close>

definition statusStrategy_GetResetFields :: "grafanaResourceStrategy \<Rightarrow> (string \<times> string) list" where
  "statusStrategy_GetResetFields a = [(gv_string (gsKind a), ''spec'')]"

definition statusStrategy_PrepareForUpdate :: "'mf unstructured_api \<Rightarrow> unstructured_content \<Rightarrow> unstructured_content \<Rightarrow> unstructured_content" where
  "statusStrategy_PrepareForUpdate api obj old =
    (let status = obj ''status'';
         managedFields = uGetManagedFields api obj;
         new = uSetManagedFields api managedFields old
     in case status of Some s \<Rightarrow> new(''status'' \<mapsto> s) | None \<Rightarrow> new(''status'' := None))"

section \<open>storage.go: the storages\<close>

datatype rest_kind = GrafanaResourceREST | StatusREST_kind | ScaleREST_kind | StreamerREST

text \<open>Which of the storages of a version \<open>NewStorage\<close> sets; \<open>Scale\<close> stays nil whatever the strategy.\<close>

record GrafanaResourceStorage =
  gsGrafanaResource :: "rest_kind option"
  gsStatusREST :: "rest_kind option"
  gsScaleREST :: "rest_kind option"
  gsRefREST :: "rest_kind option"
  gsHistoryREST :: "rest_kind option"

definition gr_NewStorage :: "grafanaResourceStrategy \<Rightarrow> GrafanaResourceStorage" where
  "gr_NewStorage strategy =
    (let storage = \<lparr>gsGrafanaResource = Some GrafanaResourceREST, gsStatusREST = None, gsScaleREST = None,
                    gsRefREST = None, gsHistoryREST = None\<rparr>;
         s1 = (if gsStatus strategy then storage\<lparr>gsStatusREST := Some StatusREST_kind\<rparr> else storage);
         s2 = (if gsRef strategy then s1\<lparr>gsRefREST := Some StreamerREST\<rparr> else s1)
     in if gsHistory strategy then s2\<lparr>gsHistoryREST := Some StreamerREST\<rparr> else s2)"

text \<open>The strategy the handler builds for every version of a definition.\<close>

definition handler_strategy :: "GRD \<Rightarrow> string \<Rightarrow> grafanaResourceStrategy" where
  "handler_strategy grd v =
    NewStrategy (is_namespaced grd) (sGroup (gSpec grd), v, Kind (accepted grd)) True False True True"

section \<open>storage.go: the scale subresource\<close>

definition splitReplicasPath :: "string \<Rightarrow> string list" where
  "splitReplicasPath replicasPath = split_on CHR ''.'' (TrimPrefix replicasPath ''.'')"

record Scale =
  scName :: string
  scNamespace :: string
  scUID :: string
  scResourceVersion :: string
  scSpecReplicas :: "32 word"
  scStatusReplicas :: "32 word"
  scSelector :: string

record scale_paths =
  specReplicasPath :: string
  statusReplicasPath :: string
  labelSelectorPath :: string

text \<open>\<open>int32(specReplicas)\<close> truncates, as \<open>ucast\<close> to 32 bits does.\<close>

definition scaleFromGrafanaResource ::
  "'mf unstructured_api \<Rightarrow> unstructured_content \<Rightarrow> scale_paths \<Rightarrow> go_error + Scale \<times> bool" where
  "scaleFromGrafanaResource api cr p =
    (case uNestedInt64 api cr (splitReplicasPath (specReplicasPath p)) of
       Inl err \<Rightarrow> Inl err
     | Inr (r, foundSpecReplicas) \<Rightarrow>
         let specReplicas = (if \<not> foundSpecReplicas then 0 else r) in
         (case uNestedInt64 api cr (splitReplicasPath (statusReplicasPath p)) of
            Inl err \<Rightarrow> Inl err
          | Inr (s, found) \<Rightarrow>
              let statusReplicas = (if \<not> found then 0 else s) in
              (case (if length (labelSelectorPath p) > 0
                     then uNestedString api cr (splitReplicasPath (labelSelectorPath p))
                     else Inr ([], False)) of
                 Inl err \<Rightarrow> Inl err
               | Inr (labelSelector, _) \<Rightarrow>
                   let m = uObjectMeta api cr in
                   Inr (\<lparr>scName = mName m, scNamespace = mNamespace m, scUID = mUID m,
                         scResourceVersion = mResourceVersion m, scSpecReplicas = ucast specReplicas,
                         scStatusReplicas = ucast statusReplicas, scSelector = labelSelector\<rparr>,
                        foundSpecReplicas))))"

definition ScaleREST_Get ::
  "'mf unstructured_api \<Rightarrow> scale_paths \<Rightarrow> go_error + unstructured_content \<Rightarrow> go_error + Scale" where
  "ScaleREST_Get api p got =
    (case got of
       Inl err \<Rightarrow> Inl err
     | Inr cr \<Rightarrow>
         (case scaleFromGrafanaResource api cr p of
            Inl err \<Rightarrow> Inl err
          | Inr (scaleObject, replicasFound) \<Rightarrow>
              if \<not> replicasFound then Inl (PlainErr ''the spec replicas field does not exist'')
              else Inr scaleObject))"

definition invalidSpecReplicas :: "32 word" where "invalidSpecReplicas = - 2147483648"

text \<open>What the request's \<open>UpdatedObject\<close> can answer: an error, nil, another type, a \<open>Scale\<close>.\<close>

datatype 'mf updated = NilObject | OtherObject | ScaleObject Scale 'mf

text \<open>
  \<open>UpdatedObject\<close> of \<open>scaleUpdatedObjectInfo\<close>. \<open>toSubresource\<close> and \<open>toParent\<close> are the managed
  fields handler, \<open>request\<close> the client's update; the managed fields travel beside the \<open>Scale\<close>.
\<close>

definition scale_UpdatedObject ::
  "'mf unstructured_api \<Rightarrow> scale_paths \<Rightarrow> ('mf \<Rightarrow> go_error + 'mf) \<Rightarrow> ('mf \<Rightarrow> 'mf \<Rightarrow> go_error + 'mf) \<Rightarrow>
   (Scale \<Rightarrow> 'mf \<Rightarrow> go_error + 'mf updated) \<Rightarrow> unstructured_content \<Rightarrow> go_error + unstructured_content" where
  "scale_UpdatedObject api p toSubresource toParent request cr =
    (case scaleFromGrafanaResource api cr p of
       Inl err \<Rightarrow> Inl err
     | Inr (scale0, replicasFound) \<Rightarrow>
         let oldScale = (if \<not> replicasFound then scale0\<lparr>scSpecReplicas := invalidSpecReplicas\<rparr> else scale0) in
         (case toSubresource (uGetManagedFields api cr) of
            Inl err \<Rightarrow> Inl err
          | Inr scaleManagedFields \<Rightarrow>
              (case request oldScale scaleManagedFields of
                 Inl err \<Rightarrow> Inl err
               | Inr NilObject \<Rightarrow> Inl (PlainErr ''nil update passed to Scale'')
               | Inr OtherObject \<Rightarrow> Inl (PlainErr ''wrong object passed to Scale update'')
               | Inr (ScaleObject scale mf) \<Rightarrow>
                   if scSpecReplicas scale = invalidSpecReplicas
                   then Inl (PlainErr ''the spec replicas field cannot be empty'')
                   else
                     (case uSetNestedField api (JInt (scast (scSpecReplicas scale)))
                             (splitReplicasPath (specReplicasPath p)) cr of
                        Inl err \<Rightarrow> Inl err
                      | Inr cr1 \<Rightarrow>
                          let cr2 = (if length (scResourceVersion scale) \<noteq> 0
                                     then uSetResourceVersion api (scResourceVersion scale) cr1 else cr1) in
                          (case toParent (uGetManagedFields api cr) mf of
                             Inl err \<Rightarrow> Inl err
                           | Inr updatedEntries \<Rightarrow> Inr (uSetManagedFields api updatedEntries cr2))))))"

text \<open>The validations see the scales of the objects.\<close>

definition toScaleCreateValidation ::
  "'mf unstructured_api \<Rightarrow> scale_paths \<Rightarrow> (Scale \<Rightarrow> go_error option) \<Rightarrow> unstructured_content \<Rightarrow> go_error option" where
  "toScaleCreateValidation api p f obj =
    (case scaleFromGrafanaResource api obj p of Inl err \<Rightarrow> Some err | Inr (scale, _) \<Rightarrow> f scale)"

definition toScaleUpdateValidation ::
  "'mf unstructured_api \<Rightarrow> scale_paths \<Rightarrow> (Scale \<Rightarrow> Scale \<Rightarrow> go_error option) \<Rightarrow> unstructured_content \<Rightarrow> unstructured_content \<Rightarrow> go_error option" where
  "toScaleUpdateValidation api p f obj old =
    (case scaleFromGrafanaResource api obj p of
       Inl err \<Rightarrow> Some err
     | Inr (newScale, _) \<Rightarrow>
         (case scaleFromGrafanaResource api old p of Inl err \<Rightarrow> Some err | Inr (oldScale, _) \<Rightarrow> f newScale oldScale))"

text \<open>\<open>Update\<close>, for the answer of the store's \<open>Update\<close> with the object info above.\<close>

definition ScaleREST_Update ::
  "'mf unstructured_api \<Rightarrow> scale_paths \<Rightarrow> ((unstructured_content \<Rightarrow> go_error + unstructured_content) \<Rightarrow> go_error + unstructured_content) \<Rightarrow>
   (unstructured_content \<Rightarrow> go_error + unstructured_content) \<Rightarrow> go_error + Scale" where
  "ScaleREST_Update api p storeUpdate scaleObjInfo =
    (case storeUpdate scaleObjInfo of
       Inl err \<Rightarrow> Inl err
     | Inr cr \<Rightarrow>
         (case scaleFromGrafanaResource api cr p of Inl err \<Rightarrow> Inl err | Inr (newScale, _) \<Rightarrow> Inr newScale))"

section \<open>streamer.go\<close>

record 'r SubresourceStreamer =
  ssFn :: "(string \<Rightarrow> string \<Rightarrow> go_error + 'r) option"

definition SetInputStream :: "(string \<Rightarrow> string \<Rightarrow> go_error + 'r) \<Rightarrow> 'r SubresourceStreamer \<Rightarrow> 'r SubresourceStreamer" where
  "SetInputStream fn s = s\<lparr>ssFn := Some fn\<rparr>"

definition InputStream :: "'r SubresourceStreamer \<Rightarrow> string \<Rightarrow> string \<Rightarrow> go_error + 'r" where
  "InputStream s apiVersion acceptHeader =
    (case ssFn s of
       None \<Rightarrow> Inl (PlainErr ''subresource streamer not initialized with input stream function'')
     | Some fn \<Rightarrow> fn apiVersion acceptHeader)"

section \<open>Properties of the strategies\<close>

text \<open>The metadata accessors read and write \<open>metadata\<close> only.\<close>

definition metadata_only :: "'mf unstructured_api \<Rightarrow> bool" where
  "metadata_only api \<longleftrightarrow>
    (\<forall>n c k. k \<noteq> ''metadata'' \<longrightarrow> uSetGeneration api n c k = c k) \<and>
    (\<forall>n c. uGetGeneration api (uSetGeneration api n c) = n) \<and>
    (\<forall>c c'. c ''metadata'' = c' ''metadata'' \<longrightarrow> uGetGeneration api c = uGetGeneration api c') \<and>
    (\<forall>c c'. c ''metadata'' = c' ''metadata'' \<longrightarrow> uGetManagedFields api c = uGetManagedFields api c') \<and>
    (\<forall>m c k. k \<noteq> ''metadata'' \<longrightarrow> uSetManagedFields api m c k = c k) \<and>
    (\<forall>m c. uGetManagedFields api (uSetManagedFields api m c) = m \<and>
       uGetGeneration api (uSetManagedFields api m c) = uGetGeneration api c)"

lemma metadata_onlyD:
  assumes "metadata_only api"
  shows "k \<noteq> ''metadata'' \<Longrightarrow> uSetGeneration api n c k = c k"
    "uGetGeneration api (uSetGeneration api n c) = n"
    "c ''metadata'' = c' ''metadata'' \<Longrightarrow> uGetGeneration api c = uGetGeneration api c'"
    "c ''metadata'' = c' ''metadata'' \<Longrightarrow> uGetManagedFields api c = uGetManagedFields api c'"
    "k \<noteq> ''metadata'' \<Longrightarrow> uSetManagedFields api m c k = c k"
    "uGetManagedFields api (uSetManagedFields api m c) = m"
    "uGetGeneration api (uSetManagedFields api m c) = uGetGeneration api c"
proof -
  note a = assms [unfolded metadata_only_def]
  note rest = a [THEN conjunct2, THEN conjunct2, THEN conjunct2]
  show "k \<noteq> ''metadata'' \<Longrightarrow> uSetGeneration api n c k = c k" by (rule a [THEN conjunct1, rule_format])
  show "uGetGeneration api (uSetGeneration api n c) = n" by (rule a [THEN conjunct2, THEN conjunct1, rule_format])
  show "c ''metadata'' = c' ''metadata'' \<Longrightarrow> uGetGeneration api c = uGetGeneration api c'"
    by (rule a [THEN conjunct2, THEN conjunct2, THEN conjunct1, rule_format])
  show "c ''metadata'' = c' ''metadata'' \<Longrightarrow> uGetManagedFields api c = uGetManagedFields api c'"
    by (rule rest [THEN conjunct1, rule_format])
  show "k \<noteq> ''metadata'' \<Longrightarrow> uSetManagedFields api m c k = c k"
    by (rule rest [THEN conjunct2, THEN conjunct1, rule_format])
  show "uGetManagedFields api (uSetManagedFields api m c) = m"
    by (rule rest [THEN conjunct2, THEN conjunct2, rule_format, THEN conjunct1])
  show "uGetGeneration api (uSetManagedFields api m c) = uGetGeneration api c"
    by (rule rest [THEN conjunct2, THEN conjunct2, rule_format, THEN conjunct2])
qed

lemma keep_old_status_fields:
  "keep_old_status a new old k = (if gsStatus a \<and> k = ''status'' then old k else new k)"
  by (simp add: keep_old_status_def split: option.splits)

lemma PrepareForUpdate_fields:
  assumes "metadata_only api" and "k \<noteq> ''metadata''"
  shows "gr_PrepareForUpdate api eq a obj old k = (if gsStatus a \<and> k = ''status'' then old k else obj k)"
  using assms(2)
  by (auto simp: gr_PrepareForUpdate_def Let_def keep_old_status_fields metadata_onlyD(1) [OF assms(1)])

lemma PrepareForUpdate_generation:
  assumes "metadata_only api"
  shows "uGetGeneration api (gr_PrepareForUpdate api eq a obj old) =
    (if eq (copyNonMetadata (keep_old_status a obj old)) (copyNonMetadata old) then uGetGeneration api obj
     else uGetGeneration api old + 1)"
  using metadata_onlyD(3) [OF assms, of "keep_old_status a obj old" obj]
  by (simp add: gr_PrepareForUpdate_def Let_def keep_old_status_fields metadata_onlyD(2) [OF assms])

lemma status_PrepareForUpdate_fields:
  assumes "metadata_only api" and "k \<noteq> ''metadata''"
  shows "statusStrategy_PrepareForUpdate api obj old k = (if k = ''status'' then obj k else old k)"
  using metadata_onlyD(5) [OF assms]
  by (simp add: statusStrategy_PrepareForUpdate_def Let_def split: option.split)

lemma status_PrepareForUpdate_metadata:
  "statusStrategy_PrepareForUpdate api obj old ''metadata'' =
    uSetManagedFields api (uGetManagedFields api obj) old ''metadata''"
  by (simp add: statusStrategy_PrepareForUpdate_def Let_def split: option.split)

text \<open>
  C21. The resource strategy protects the status: on create it is removed and the generation is
  1, on update the status is the old object's whatever the request says (absent included), every
  other field outside the metadata is the request's, and the generation is one more than the old
  one when those fields changed and the request's own when at most the metadata and the status
  differ.
\<close>

theorem resource_strategy_protects_status:
  assumes "metadata_only api" and "gsStatus a" and "\<And>x y. eq x y = (x = y)"
  shows "gr_PrepareForCreate api a obj ''status'' = None \<and>
    uGetGeneration api (gr_PrepareForCreate api a obj) = 1 \<and>
    (\<forall>k. k \<notin> {''metadata'', ''status''} \<longrightarrow> gr_PrepareForCreate api a obj k = obj k \<and>
       gr_PrepareForUpdate api eq a obj old k = obj k) \<and>
    gr_PrepareForUpdate api eq a obj old ''status'' = old ''status'' \<and>
    uGetGeneration api (gr_PrepareForUpdate api eq a obj old) =
      (if \<forall>k. k \<notin> {''metadata'', ''status''} \<longrightarrow> obj k = old k
       then uGetGeneration api obj else uGetGeneration api old + 1)"
proof -
  have "(copyNonMetadata (keep_old_status a obj old) = copyNonMetadata old) \<longleftrightarrow>
      (\<forall>k. k \<notin> {''metadata'', ''status''} \<longrightarrow> obj k = old k)"
    using assms(2) by (simp add: copyNonMetadata_def keep_old_status_fields fun_eq_iff) blast
  then show ?thesis
    by (simp add: PrepareForUpdate_generation [OF assms(1)] PrepareForUpdate_fields [OF assms(1)] assms(2,3)
        gr_PrepareForCreate_def metadata_onlyD(1,2) [OF assms(1)])
qed

text \<open>A concrete accessor set: the metadata is a map with the generation and the managed fields.\<close>

definition meta_map :: "unstructured_content \<Rightarrow> unstructured_content" where
  "meta_map c = (case c ''metadata'' of Some (JMap m) \<Rightarrow> m | _ \<Rightarrow> Map.empty)"

fun nested :: "unstructured_content \<Rightarrow> string list \<Rightarrow> go_error + json option" where
  "nested c [] = Inr (Some (JMap c))"
| "nested c [k] = Inr (c k)"
| "nested c (k # ks) =
    (case c k of None \<Rightarrow> Inr None | Some (JMap m) \<Rightarrow> nested m ks | Some _ \<Rightarrow> Inl (PlainErr ''accessor error''))"

fun set_nested :: "json \<Rightarrow> string list \<Rightarrow> unstructured_content \<Rightarrow> go_error + unstructured_content" where
  "set_nested v [] c = Inr c"
| "set_nested v [k] c = Inr (c(k \<mapsto> v))"
| "set_nested v (k # ks) c =
    (case (case c k of None \<Rightarrow> Inr Map.empty | Some (JMap m) \<Rightarrow> Inr m | Some _ \<Rightarrow> Inl (PlainErr ''not a map'')) of
       Inl e \<Rightarrow> Inl e
     | Inr m \<Rightarrow> (case set_nested v ks m of Inl e \<Rightarrow> Inl e | Inr m' \<Rightarrow> Inr (c(k \<mapsto> JMap m'))))"

definition sample_api :: "bool unstructured_api" where
  "sample_api =
    \<lparr>uGetGeneration = (\<lambda>c. case meta_map c ''generation'' of Some (JInt w) \<Rightarrow> w | _ \<Rightarrow> 0),
     uSetGeneration = (\<lambda>n c. c(''metadata'' \<mapsto> JMap ((meta_map c)(''generation'' \<mapsto> JInt n)))),
     uGetManagedFields = (\<lambda>c. case meta_map c ''managedFields'' of Some (JBool b) \<Rightarrow> b | _ \<Rightarrow> False),
     uSetManagedFields = (\<lambda>b c. c(''metadata'' \<mapsto> JMap ((meta_map c)(''managedFields'' \<mapsto> JBool b)))),
     uSetResourceVersion = (\<lambda>s c. c(''metadata'' \<mapsto> JMap ((meta_map c)(''resourceVersion'' \<mapsto> JString s)))),
     uObjectMeta = (\<lambda>_. sample_meta ''a''), uAccessor = (\<lambda>_. None),
     uNestedInt64 = (\<lambda>c p. case nested c p of
        Inl e \<Rightarrow> Inl e | Inr None \<Rightarrow> Inr (0, False) | Inr (Some (JInt w)) \<Rightarrow> Inr (w, True)
      | Inr (Some _) \<Rightarrow> Inl (PlainErr ''accessor error'')),
     uNestedString = (\<lambda>c p. case nested c p of
        Inl e \<Rightarrow> Inl e | Inr None \<Rightarrow> Inr ([], False) | Inr (Some (JString w)) \<Rightarrow> Inr (w, True)
      | Inr (Some _) \<Rightarrow> Inl (PlainErr ''accessor error'')),
     uSetNestedField = set_nested\<rparr>"


lemma sample_metadata_only: "metadata_only sample_api"
  unfolding metadata_only_def by (simp add: sample_api_def meta_map_def)

definition sample_widget :: unstructured_content where
  "sample_widget = [''metadata'' \<mapsto> JMap [''generation'' \<mapsto> JInt 3],
     ''spec'' \<mapsto> JMap [''replicas'' \<mapsto> JInt 2], ''status'' \<mapsto> JString ''ready'']"

definition sample_strategy :: grafanaResourceStrategy where
  "sample_strategy = NewStrategy True (''g.io'', ''v1'', ''D'') True False True True"

theorem resource_strategy_protects_status_witness:
  "gr_PrepareForUpdate sample_api (=) sample_strategy (sample_widget(''status'' := None)) sample_widget ''status'' =
    Some (JString ''ready'')"
  using resource_strategy_protects_status [OF sample_metadata_only, of sample_strategy "(=)"
      "sample_widget(''status'' := None)" sample_widget]
  by (simp add: sample_strategy_def NewStrategy_def sample_widget_def)

text \<open>
  The writers of the two endpoints do not disturb each other: a status update keeps every
  field outside the status and the metadata, keeps the generation and takes the managed fields
  of the request, and a main update followed by a status update leaves the same object, outside
  the metadata, as the two in the other order.
\<close>

theorem status_and_main_updates_commute:
  assumes "metadata_only api" and "gsStatus a"
  shows "(\<forall>k. k \<noteq> ''metadata'' \<longrightarrow>
      statusStrategy_PrepareForUpdate api s old k = (if k = ''status'' then s k else old k) \<and>
      statusStrategy_PrepareForUpdate api s (gr_PrepareForUpdate api eq a obj old) k =
        gr_PrepareForUpdate api eq a obj (statusStrategy_PrepareForUpdate api s old) k) \<and>
    uGetGeneration api (statusStrategy_PrepareForUpdate api s old) = uGetGeneration api old \<and>
    uGetManagedFields api (statusStrategy_PrepareForUpdate api s old) = uGetManagedFields api s"
proof -
  let ?u = "statusStrategy_PrepareForUpdate api s old"
  let ?m = "uSetManagedFields api (uGetManagedFields api s) old"
  have m: "?u ''metadata'' = ?m ''metadata''" by (rule status_PrepareForUpdate_metadata)
  have "uGetGeneration api ?u = uGetGeneration api ?m" using assms(1) m by (rule metadata_onlyD(3))
  moreover have "uGetManagedFields api ?u = uGetManagedFields api ?m" using assms(1) m by (rule metadata_onlyD(4))
  ultimately show ?thesis
    by (simp add: metadata_onlyD(6,7) [OF assms(1)] status_PrepareForUpdate_fields [OF assms(1)]
        PrepareForUpdate_fields [OF assms(1)] assms(2))
qed

theorem status_and_main_updates_commute_witness:
  "statusStrategy_PrepareForUpdate sample_api [''status'' \<mapsto> JString ''busy'', ''spec'' \<mapsto> JNull] sample_widget ''spec'' =
    Some (JMap [''replicas'' \<mapsto> JInt 2])"
proof -
  have "gsStatus sample_strategy" by (simp add: sample_strategy_def NewStrategy_def)
  from status_and_main_updates_commute [OF sample_metadata_only this, of _ sample_widget] show ?thesis
    by (simp add: sample_widget_def)
qed

section \<open>Properties of the scale subresource\<close>

text \<open>What the nested accessors promise for the paths of a scale subresource.\<close>

definition nested_laws :: "'mf unstructured_api \<Rightarrow> scale_paths \<Rightarrow> bool" where
  "nested_laws api p \<longleftrightarrow>
    (let sp = splitReplicasPath (specReplicasPath p); st = splitReplicasPath (statusReplicasPath p) in
     (\<forall>v c c'. uSetNestedField api (JInt v) sp c = Inr c' \<longrightarrow>
        uNestedInt64 api c' sp = Inr (v, True) \<and> uNestedInt64 api c' st = uNestedInt64 api c st) \<and>
     (\<forall>s c path. path \<in> {sp, st} \<longrightarrow> uNestedInt64 api (uSetResourceVersion api s c) path = uNestedInt64 api c path) \<and>
     (\<forall>m c path. path \<in> {sp, st} \<longrightarrow> uNestedInt64 api (uSetManagedFields api m c) path = uNestedInt64 api c path))"

lemma scast_back: "(ucast (scast (n :: 32 word) :: 64 word) :: 32 word) = n"
  by (rule bit_word_eqI) (auto simp: bit_simps)

text \<open>
  A scale update writes exactly the replicas asked for: when the resource has a scale, the
  client's update answers a scale with \<open>n\<close> replicas and the managed fields convert, \<open>UpdatedObject\<close>
  answers an object whose scale has \<open>n\<close> replicas and the old status replicas; only the smallest
  32-bit integer, the marker of a missing value, is refused.
\<close>

theorem scale_update_sets_replicas:
  assumes "nested_laws api p" and "labelSelectorPath p = []"
    and "scaleFromGrafanaResource api cr p = Inr (old, True)"
    and "toSub (uGetManagedFields api cr) = Inr mf" and "request old mf = Inr (ScaleObject new mf')"
    and "toParent (uGetManagedFields api cr) mf' = Inr mf2"
    and "\<And>v. \<exists>c'. uSetNestedField api (JInt v) (splitReplicasPath (specReplicasPath p)) cr = Inr c'"
  shows "if scSpecReplicas new = invalidSpecReplicas
    then \<exists>e. scale_UpdatedObject api p toSub toParent request cr = Inl e
    else \<exists>cr' sc. scale_UpdatedObject api p toSub toParent request cr = Inr cr' \<and>
      scaleFromGrafanaResource api cr' p = Inr (sc, True) \<and>
      scSpecReplicas sc = scSpecReplicas new \<and> scStatusReplicas sc = scStatusReplicas old"
proof (cases "scSpecReplicas new = invalidSpecReplicas")
  case True
  then show ?thesis using assms(3-6) by (simp add: scale_UpdatedObject_def)
next
  case False
  let ?sp = "splitReplicasPath (specReplicasPath p)" and ?st = "splitReplicasPath (statusReplicasPath p)"
  let ?v = "scast (scSpecReplicas new) :: 64 word"
  obtain c1 where c1: "uSetNestedField api (JInt ?v) ?sp cr = Inr c1" using assms(7) by blast
  define c2 where "c2 = (if length (scResourceVersion new) \<noteq> 0
    then uSetResourceVersion api (scResourceVersion new) c1 else c1)"
  define c3 where "c3 = uSetManagedFields api mf2 c2"
  have res: "scale_UpdatedObject api p toSub toParent request cr = Inr c3"
    using assms(3-6) False c1 by (simp add: scale_UpdatedObject_def c2_def c3_def Let_def)
  have n1: "uNestedInt64 api c1 ?sp = Inr (?v, True)" "uNestedInt64 api c1 ?st = uNestedInt64 api cr ?st"
    by (rule assms(1) [unfolded nested_laws_def Let_def, THEN conjunct1, rule_format, OF c1, THEN conjunct1],
      rule assms(1) [unfolded nested_laws_def Let_def, THEN conjunct1, rule_format, OF c1, THEN conjunct2])
  have fr: "uNestedInt64 api c3 path = uNestedInt64 api c1 path" if "path \<in> {?sp, ?st}" for path
  proof -
    note l = assms(1) [unfolded nested_laws_def Let_def, THEN conjunct2]
    have "uNestedInt64 api c3 path = uNestedInt64 api c2 path"
      unfolding c3_def using that by (rule l [THEN conjunct2, rule_format])
    moreover have "uNestedInt64 api (uSetResourceVersion api r c) path = uNestedInt64 api c path" for r c
      using that by (rule l [THEN conjunct1, rule_format])
    ultimately show ?thesis by (simp add: c2_def)
  qed
  obtain s f where st: "uNestedInt64 api cr ?st = Inr (s, f)" and old: "scStatusReplicas old = ucast (if f then s else 0)"
    using assms(2,3) by (auto simp: scaleFromGrafanaResource_def Let_def split: sum.splits if_splits)
  have "scaleFromGrafanaResource api c3 p = Inr
     (\<lparr>scName = mName (uObjectMeta api c3), scNamespace = mNamespace (uObjectMeta api c3), scUID = mUID (uObjectMeta api c3),
       scResourceVersion = mResourceVersion (uObjectMeta api c3), scSpecReplicas = ucast ?v,
       scStatusReplicas = ucast (if f then s else 0), scSelector = []\<rparr>, True)"
    using fr [of ?sp] fr [of ?st] n1 st assms(2) by (simp add: scaleFromGrafanaResource_def Let_def)
  with res False old show ?thesis by (simp add: scast_back)
qed


definition sample_scale_paths :: scale_paths where
  "sample_scale_paths = \<lparr>specReplicasPath = ''.spec.replicas'', statusReplicasPath = ''.status.replicas'',
     labelSelectorPath = []\<rparr>"

lemma sample_paths_split:
  "splitReplicasPath (specReplicasPath sample_scale_paths) = [''spec'', ''replicas'']"
  "splitReplicasPath (statusReplicasPath sample_scale_paths) = [''status'', ''replicas'']"
  by (simp_all add: sample_scale_paths_def splitReplicasPath_def TrimPrefix_def HasPrefix_def)

lemma sample_nested_laws: "nested_laws sample_api sample_scale_paths"
  unfolding nested_laws_def Let_def sample_paths_split
  by (simp add: sample_api_def split: sum.splits option.splits json.splits)

definition sample_scalable :: unstructured_content where
  "sample_scalable = [''spec'' \<mapsto> JMap [''replicas'' \<mapsto> JInt 2], ''status'' \<mapsto> JMap [''replicas'' \<mapsto> JInt 1]]"

definition sample_scale :: Scale where
  "sample_scale = \<lparr>scName = ''a'', scNamespace = mNamespace (sample_meta ''a''), scUID = mUID (sample_meta ''a''),
     scResourceVersion = mResourceVersion (sample_meta ''a''), scSpecReplicas = 2, scStatusReplicas = 1, scSelector = []\<rparr>"

lemma sample_scale_of:
  "scaleFromGrafanaResource sample_api sample_scalable sample_scale_paths = Inr (sample_scale, True)"
  unfolding scaleFromGrafanaResource_def sample_paths_split
  by (simp add: sample_api_def sample_scalable_def sample_scale_def sample_scale_paths_def Let_def sample_meta_def)

theorem scale_update_sets_replicas_witness:
  "\<exists>cr' sc. scale_UpdatedObject sample_api sample_scale_paths Inr (\<lambda>_. Inr)
      (\<lambda>old mf. Inr (ScaleObject (old\<lparr>scSpecReplicas := 5\<rparr>) mf)) sample_scalable = Inr cr' \<and>
    scaleFromGrafanaResource sample_api cr' sample_scale_paths = Inr (sc, True) \<and>
    scSpecReplicas sc = 5 \<and> scStatusReplicas sc = 1"
proof -
  have set_ok: "\<exists>c'. uSetNestedField sample_api (JInt v) (splitReplicasPath (specReplicasPath sample_scale_paths))
      sample_scalable = Inr c'" for v
    unfolding sample_paths_split by (simp add: sample_api_def sample_scalable_def)
  have "labelSelectorPath sample_scale_paths = []" by (simp add: sample_scale_paths_def)
  from scale_update_sets_replicas [OF sample_nested_laws this sample_scale_of, of Inr _
      "\<lambda>old mf. Inr (ScaleObject (old\<lparr>scSpecReplicas := 5\<rparr>) mf)" "sample_scale\<lparr>scSpecReplicas := 5\<rparr>" _ "\<lambda>_. Inr",
      OF refl refl refl set_ok]
  show ?thesis by (simp add: sample_scale_def invalidSpecReplicas_def)
qed

lemma word_of_sint: "(word_of_int (sint r) :: 'a word) = (r :: 'a :: len word)"
  by transfer (simp add: take_bit_signed_take_bit)

lemma scale_spec_replicas:
  assumes "scaleFromGrafanaResource api cr p = Inr (sc, found)"
    and "uNestedInt64 api cr (splitReplicasPath (specReplicasPath p)) = Inr (r, True)"
  shows "scSpecReplicas sc = ucast r"
  using assms by (auto simp: scaleFromGrafanaResource_def Let_def split: sum.splits if_splits)



end
