(* ===== verification/Stores.thy ===== *)
theory Stores
  imports GrdRegistry GrRegistry
begin

text \<open>
  How the generic stores of Kubernetes are set up and used: the options of the file storage
  (\<open>storage/filepath/restoptions.go\<close>), the stores of definitions and of their status
  (\<open>registry/grafanaresourcedefinition/storage.go\<close>), the status endpoints of both registries, the
  fields that the strategies reset, and the predicates by which lists and watches select.

  A store is the record of what it is configured with; what it does is Kubernetes code, and the
  methods that only call it take the store's method as an argument.
\<close>

section \<open>Options of the file storage\<close>

record 'c rest_options =
  roType :: string
  roPrefix :: string
  roPaging :: bool
  roCodec :: 'c
  roGroupResource :: "string \<times> string"
  roDeleteCollectionWorkers :: int
  roGarbageCollection :: bool
  roResourcePrefix :: string
  roCountMetricPollPeriod :: int

text \<open>Zero and nil fields are left out; the decorator is \<open>NewStorage\<close> of \<open>FilePathStorage\<close>.\<close>

definition GetRESTOptions :: "string \<Rightarrow> 'c \<Rightarrow> string \<times> string \<Rightarrow> go_error + 'c rest_options" where
  "GetRESTOptions getter_path codec resource =
    Inr \<lparr>roType = ''custom'', roPrefix = getter_path, roPaging = False, roCodec = codec, roGroupResource = resource,
      roDeleteCollectionWorkers = 0, roGarbageCollection = False,
      roResourcePrefix = GetRESTOptions_ResourcePrefix getter_path resource,
      roCountMetricPollPeriod = 1000000000\<rparr>"

section \<open>The stores of definitions\<close>

datatype grd_strategy = MainStrategy | StatusStrategy

record grd_store =
  dsNew :: string
  dsNewList :: string
  dsQualifiedResource :: string
  dsSingularResource :: string
  dsCreate :: "grd_strategy option"
  dsUpdate :: "grd_strategy option"
  dsDelete :: "grd_strategy option"
  dsResetFields :: "grd_strategy option"

text \<open>\<open>complete\<close> is \<open>CompleteWithOptions\<close>, which fills in the storage or fails.\<close>

definition grd_NewREST :: "(grd_store \<Rightarrow> go_error + grd_store) \<Rightarrow> go_error + grd_store" where
  "grd_NewREST complete =
    (let store = \<lparr>dsNew = ''GrafanaResourceDefinition'', dsNewList = ''GrafanaResourceDefinitionList'',
           dsQualifiedResource = ''grafanaresourcedefinitions'', dsSingularResource = ''grafanaresourcedefinition'',
           dsCreate = Some MainStrategy, dsUpdate = Some MainStrategy, dsDelete = Some MainStrategy,
           dsResetFields = Some MainStrategy\<rparr>
     in complete store)"

definition grd_NewStatusREST :: "grd_store \<Rightarrow> grd_store" where
  "grd_NewStatusREST rest = rest\<lparr>dsCreate := None, dsDelete := None, dsUpdate := Some StatusStrategy,
     dsResetFields := Some StatusStrategy\<rparr>"

text \<open>The methods of the status endpoints: never create on update.\<close>

definition grd_StatusREST_Get :: "(string \<Rightarrow> 'o \<Rightarrow> 'r) \<Rightarrow> string \<Rightarrow> 'o \<Rightarrow> 'r" where
  "grd_StatusREST_Get store_Get name options = store_Get name options"

definition grd_StatusREST_Update :: "(string \<Rightarrow> 'i \<Rightarrow> bool \<Rightarrow> 'o \<Rightarrow> 'r) \<Rightarrow> string \<Rightarrow> 'i \<Rightarrow> bool \<Rightarrow> 'o \<Rightarrow> 'r" where
  "grd_StatusREST_Update store_Update name objInfo forceAllowCreate options = store_Update name objInfo False options"

definition gr_StatusREST_Get :: "(string \<Rightarrow> 'o \<Rightarrow> go_error + 'r) \<Rightarrow> string \<Rightarrow> 'o \<Rightarrow> go_error + 'r" where
  "gr_StatusREST_Get store_Get name options = (case store_Get name options of Inl err \<Rightarrow> Inl err | Inr obj \<Rightarrow> Inr obj)"

definition gr_StatusREST_Update :: "(string \<Rightarrow> 'i \<Rightarrow> bool \<Rightarrow> 'o \<Rightarrow> 'r) \<Rightarrow> string \<Rightarrow> 'i \<Rightarrow> bool \<Rightarrow> 'o \<Rightarrow> 'r" where
  "gr_StatusREST_Update store_Update name objInfo forceAllowCreate options = store_Update name objInfo False options"

section \<open>Reset fields\<close>

text \<open>The fields that are taken from the manager of fields, because the strategy resets them.\<close>

definition grd_GetResetFields :: "(string \<times> string list) list" where
  "grd_GetResetFields = [(''kinds.grafana.com/v1'', [''status''])]"

definition grd_status_GetResetFields :: "(string \<times> string list) list" where
  "grd_status_GetResetFields = [(''kinds.grafana.com/v1'', [''metadata'', ''spec''])]"

text \<open>Two definitions that differ at most in the named fields.\<close>

definition differ_in :: "string list \<Rightarrow> kinds_GRD \<Rightarrow> kinds_GRD \<Rightarrow> bool" where
  "differ_in fs a b \<longleftrightarrow> (''metadata'' \<in> set fs \<or> gMeta a = gMeta b) \<and> (''spec'' \<in> set fs \<or> gSpec a = gSpec b) \<and>
    (''status'' \<in> set fs \<or> gStatus a = gStatus b)"

definition reset_in :: "(string \<times> string list) list \<Rightarrow> string list" where
  "reset_in resets = (case map_of resets ''kinds.grafana.com/v1'' of None \<Rightarrow> [] | Some fs \<Rightarrow> fs)"

section \<open>Selection\<close>

record ('l, 'f, 'attrs) selection_predicate =
  spLabel :: 'l
  spField :: 'f
  spGetAttrs :: 'attrs

definition MatchGrafanaResourceDefinition ::
  "'l \<Rightarrow> 'f \<Rightarrow> ('l, 'f, kinds_GRD \<Rightarrow> (string \<times> string) list \<times> (string \<times> string) list) selection_predicate" where
  "MatchGrafanaResourceDefinition label field = \<lparr>spLabel = label, spField = field, spGetAttrs = grd_GetAttrs\<rparr>"

definition MatchGrafanaResourceDefinitionStorage ::
  "'mf unstructured_api \<Rightarrow> grafanaResourceStrategy \<Rightarrow> 'l \<Rightarrow> 'f \<Rightarrow>
   ('l, 'f, unstructured_content \<Rightarrow> go_error + (string \<times> string) list \<times> (string \<times> string) list) selection_predicate" where
  "MatchGrafanaResourceDefinitionStorage api a label field =
    \<lparr>spLabel = label, spField = field, spGetAttrs = gr_GetAttrs api a\<rparr>"

section \<open>Properties\<close>

text \<open>
  The status endpoint of definitions shares the store but can neither create nor delete, and its
  update goes through the status strategy.
\<close>

lemma status_endpoint_only_updates:
  assumes "\<And>s. complete s = Inr (s\<lparr>dsNew := dsNew s\<rparr>)" and "grd_NewREST complete = Inr rest"
  shows "dsCreate (grd_NewStatusREST rest) = None \<and> dsDelete (grd_NewStatusREST rest) = None \<and>
    dsUpdate (grd_NewStatusREST rest) = Some StatusStrategy \<and>
    dsQualifiedResource (grd_NewStatusREST rest) = dsQualifiedResource rest \<and> dsUpdate rest = Some MainStrategy"
  using assms by (auto simp: grd_NewREST_def grd_NewStatusREST_def Let_def)

text \<open>
  What the main strategy says it resets, it resets: updates that differ only there are the same
  update. The status strategy says it resets the metadata too, but the metadata of the request stays
  (the reset gets the new metadata twice), so two requests that differ only there store different objects.
\<close>

lemma reset_fields_are_discarded:
  "(differ_in (reset_in grd_GetResetFields) a b \<longrightarrow>
      grd_PrepareForUpdate eq a old = grd_PrepareForUpdate eq b old \<and> grd_PrepareForCreate a = grd_PrepareForCreate b) \<and>
   ((\<forall>m. reset m m = m) \<longrightarrow> gMeta a \<noteq> gMeta b \<longrightarrow>
      differ_in (reset_in grd_status_GetResetFields) a (b\<lparr>gStatus := gStatus a\<rparr>) \<and>
      grd_status_PrepareForUpdate reset a old \<noteq> grd_status_PrepareForUpdate reset (b\<lparr>gStatus := gStatus a\<rparr>) old)"
proof (intro conjI impI)
  assume "differ_in (reset_in grd_GetResetFields) a b"
  then have "gMeta a = gMeta b" "gSpec a = gSpec b"
    by (simp_all add: differ_in_def reset_in_def grd_GetResetFields_def)
  then have "a\<lparr>gStatus := s\<rparr> = b\<lparr>gStatus := s\<rparr>" for s by (simp add: GrafanaResourceDefinition.defs)
  then show "grd_PrepareForUpdate eq a old = grd_PrepareForUpdate eq b old" "grd_PrepareForCreate a = grd_PrepareForCreate b"
    using \<open>gMeta a = gMeta b\<close> by (simp_all add: grd_PrepareForUpdate_def grd_PrepareForCreate_def)
qed (auto simp: differ_in_def reset_in_def grd_status_GetResetFields_def grd_status_PrepareForUpdate_def
    dest: arg_cong [where f = gMeta])

end
