(* ===== verification/Adapters.thy ===== *)
theory Adapters
  imports GrRegistry FilePathStorage
begin

text \<open>
  The adapters between the defined resources and the machinery of Kubernetes: \<open>pkg/runtime\<close> (creator,
  typer, convertor, negotiated serializer), \<open>pkg/endpoints/request\<close>, the strategy of the streamed
  subresources (\<open>registry/grafanaresource/streamer_strategy.go\<close>) and their storage
  (\<open>SubresourceStreamerREST\<close> in \<open>registry/grafanaresource/storage.go\<close>).

  An object is its group, version and kind with a content. The codec of
  \<open>versioning.NewCodec\<close>, the key function of the generic store and the JSON serializers are Kubernetes
  code: parameters, with their documented laws where a theorem needs them.
\<close>

section \<open>Creator, typer and convertor\<close>

type_synonym gvk = "string \<times> string \<times> string"

record 'c runtime_object =
  roGVK :: gvk
  roContent :: 'c

definition objectCreator_New :: "'c \<Rightarrow> gvk \<Rightarrow> go_error + 'c runtime_object" where
  "objectCreator_New emptyContent gvr = Inr \<lparr>roGVK = gvr, roContent = emptyContent\<rparr>"

definition objectTyper_ObjectKinds :: "'c runtime_object \<Rightarrow> go_error + gvk list \<times> bool" where
  "objectTyper_ObjectKinds obj = Inr ([roGVK obj], False)"

definition objectTyper_Recognizes :: "gvk \<Rightarrow> bool" where
  "objectTyper_Recognizes gvk = True"

text \<open>\<open>out = in\<close> assigns the parameter: what the caller passed stays (the second component).\<close>

definition objectConvertor_Convert :: "'a \<Rightarrow> 'a \<Rightarrow> 'x \<Rightarrow> go_error option \<times> 'a" where
  "objectConvertor_Convert inp out context = (None, out)"

definition objectConvertor_ConvertToVersion :: "'c runtime_object \<Rightarrow> string \<times> string \<Rightarrow> go_error + 'c runtime_object" where
  "objectConvertor_ConvertToVersion inp gv = Inr inp"

definition objectConvertor_ConvertFieldLabel :: "gvk \<Rightarrow> string \<Rightarrow> string \<Rightarrow> go_error + string \<times> string" where
  "objectConvertor_ConvertFieldLabel gvk label value = Inr (label, value)"

section \<open>The negotiated serializer\<close>

text \<open>A serializer is named by how it is built: YAML or not, pretty or not, strict or not.\<close>

datatype serializer = JSONSerializer bool bool | YAMLSerializer bool

record serializer_info =
  siMediaType :: string
  siMediaTypeType :: string
  siMediaTypeSubType :: string
  siEncodesAsText :: bool
  siSerializer :: serializer
  siPrettySerializer :: "serializer option"
  siStrictSerializer :: "serializer option"
  siStreamSerializer :: "serializer option"

definition SupportedMediaTypes :: "serializer_info list" where
  "SupportedMediaTypes =
    [\<lparr>siMediaType = ''application/json'', siMediaTypeType = ''application'', siMediaTypeSubType = ''json'',
      siEncodesAsText = True, siSerializer = JSONSerializer False False, siPrettySerializer = Some (JSONSerializer True False),
      siStrictSerializer = Some (JSONSerializer False True), siStreamSerializer = Some (JSONSerializer False False)\<rparr>,
     \<lparr>siMediaType = ''application/yaml'', siMediaTypeType = ''application'', siMediaTypeSubType = ''yaml'',
      siEncodesAsText = True, siSerializer = YAMLSerializer False, siPrettySerializer = None,
      siStrictSerializer = Some (YAMLSerializer True), siStreamSerializer = None\<rparr>]"

text \<open>The serializers of the request scopes: all but protobuf.\<close>

definition standardSerializers :: "serializer_info list" where
  "standardSerializers = filter (\<lambda>s. siMediaType s \<noteq> ''application/vnd.kubernetes.protobuf'') SupportedMediaTypes"

text \<open>
  The arguments of \<open>versioning.NewCodec\<close> that matter: the encoder and the decoder, the convertor and
  the version to encode to. Both codecs ignore the serializer that was negotiated.
\<close>

datatype convertor = ObjectConvertor | SchemeConvertor

record versioning_codec =
  vcEncoder :: "string option"
  vcDecoder :: "string option"
  vcConvertor :: convertor
  vcVersion :: "string \<times> string"

definition EncoderForVersion :: "serializer \<Rightarrow> string \<times> string \<Rightarrow> versioning_codec" where
  "EncoderForVersion ser gv =
    \<lparr>vcEncoder = Some ''UnstructuredJSONScheme'', vcDecoder = None, vcConvertor = ObjectConvertor, vcVersion = gv\<rparr>"

definition DecoderToVersion :: "serializer \<Rightarrow> string \<times> string \<Rightarrow> versioning_codec" where
  "DecoderToVersion ser gv =
    \<lparr>vcEncoder = None, vcDecoder = Some ''UnstructuredJSONScheme'', vcConvertor = SchemeConvertor, vcVersion = gv\<rparr>"

text \<open>The conversion a codec applies before it encodes; that of the scheme is a parameter.\<close>

definition codec_convert ::
  "('c runtime_object \<Rightarrow> string \<times> string \<Rightarrow> go_error + 'c runtime_object) \<Rightarrow> versioning_codec \<Rightarrow>
   'c runtime_object \<Rightarrow> string \<times> string \<Rightarrow> go_error + 'c runtime_object" where
  "codec_convert schemeConvert codec =
    (case vcConvertor codec of
       ObjectConvertor \<Rightarrow> objectConvertor_ConvertToVersion
     | SchemeConvertor \<Rightarrow> schemeConvert)"

section \<open>The output media type of a request\<close>

text \<open>A context is the values put into it; the negotiation is a parameter.\<close>

definition WithOutputMediaType :: "('m option \<Rightarrow> 'ctx \<Rightarrow> 'ctx) \<Rightarrow> 'ctx \<Rightarrow> go_error + 'm \<Rightarrow> 'ctx" where
  "WithOutputMediaType withValue ctx negotiated =
    (case negotiated of Inl err \<Rightarrow> ctx | Inr outputMedia \<Rightarrow> withValue (Some outputMedia) ctx)"

definition OutputMediaTypeFrom :: "('ctx \<Rightarrow> 'm option) \<Rightarrow> 'ctx \<Rightarrow> 'm option" where
  "OutputMediaTypeFrom value ctx = value ctx"

section \<open>Streamed subresources\<close>

definition streamer_NamespaceScoped :: bool where "streamer_NamespaceScoped = True"
definition streamer_AllowCreateOnUpdate :: bool where "streamer_AllowCreateOnUpdate = False"
definition streamer_AllowUnconditionalUpdate :: bool where "streamer_AllowUnconditionalUpdate = False"
definition streamer_Validate :: "'r SubresourceStreamer \<Rightarrow> string list" where "streamer_Validate obj = []"
definition streamer_GetResetFields :: "(string \<times> string) list" where "streamer_GetResetFields = []"

text \<open>What \<open>NewSubresourceStreamerREST\<close> puts into its store, as far as \<open>Get\<close> reads it.\<close>

record 'r streamer_store =
  sstNewFunc :: "'r SubresourceStreamer"
  sstResource :: string
  sstSingular :: string
  sstNamespaceScoped :: bool

definition NewSubresourceStreamerREST :: "string \<Rightarrow> string \<Rightarrow> 'r streamer_store" where
  "NewSubresourceStreamerREST resource singularResource =
    \<lparr>sstNewFunc = \<lparr>ssFn = None\<rparr>, sstResource = resource, sstSingular = singularResource,
     sstNamespaceScoped = streamer_NamespaceScoped\<rparr>"

text \<open>
  \<open>Get\<close> of the store: the key function, chosen by the scope of the strategy, then the object of that
  key decoded into \<open>NewFunc()\<close>.
\<close>

definition SubresourceStreamerREST_Get ::
  "(bool \<Rightarrow> string \<Rightarrow> string \<Rightarrow> go_error + string) \<Rightarrow>
   ('r SubresourceStreamer \<Rightarrow> string \<Rightarrow> go_error + 'r SubresourceStreamer) \<Rightarrow>
   'r streamer_store \<Rightarrow> string \<Rightarrow> string \<Rightarrow> go_error + 'r SubresourceStreamer" where
  "SubresourceStreamerREST_Get keyFunc storageGet store namespace name =
    (case keyFunc (sstNamespaceScoped store) namespace name of
       Inl err \<Rightarrow> Inl err
     | Inr key \<Rightarrow> (case storageGet (sstNewFunc store) key of Inl err \<Rightarrow> Inl err | Inr obj \<Rightarrow> Inr obj))"

section \<open>Properties\<close>

text \<open>The creator makes what the typer reads back, in every version, and the typer recognizes it.\<close>

lemma creator_typer_roundtrip:
  "(case objectCreator_New c gvk of Inr obj \<Rightarrow> objectTyper_ObjectKinds obj | Inl e \<Rightarrow> Inl e) = Inr ([gvk], False)"
  "objectTyper_Recognizes gvk"
  by (simp_all add: objectCreator_New_def objectTyper_ObjectKinds_def objectTyper_Recognizes_def)

lemma standard_serializers_are_all: "standardSerializers = SupportedMediaTypes"
  by (simp add: standardSerializers_def SupportedMediaTypes_def)

lemma output_media_roundtrip:
  assumes "\<And>v c. value (withValue v c) = v"
  shows "OutputMediaTypeFrom value (WithOutputMediaType withValue ctx (Inr m)) = Some m"
  by (simp add: OutputMediaTypeFrom_def WithOutputMediaType_def assms)

text \<open>
  No conversion between the versions of a definition: an object that was created through one
  version is answered with that version on every other one. Whatever the version of the request,
  what the encoder of the response writes, if anything, is the stored object, label included. The
  argument \<open>written\<close> is \<open>versioning.NewCodec\<close>: a codec writes what its conversion to its version gives.
\<close>

theorem version_label_not_converted:
  assumes "\<And>x b. seEncode env x = Inr b \<Longrightarrow> seDecode env b = Inr x"
    and "\<And>rv x y. seSetRV env rv x = Inr y \<Longrightarrow> roGVK y = roGVK x"
    and "\<And>codec x y. written codec x = Inr y \<Longrightarrow> codec_convert schemeConvert codec x (vcVersion codec) = Inr y"
    and "Create env key obj st = (Inr out, st')"
  shows "Get env st' key [] False = Inr out \<and> roGVK out = roGVK obj \<and>
    (\<forall>y. written (EncoderForVersion ser gv) out = Inr y \<longrightarrow> y = out)"
proof -
  from create_reads_back [OF assms(1,4)] obtain rv where "seSetRV env rv obj = Inr out" "Get env st' key [] False = Inr out"
    by blast
  moreover have "y = out" if "written (EncoderForVersion ser gv) out = Inr y" for y
    using assms(3) [OF that] by (simp add: codec_convert_def EncoderForVersion_def objectConvertor_ConvertToVersion_def)
  ultimately show ?thesis using assms(2) by blast
qed

text \<open>
  The subresources \<open>ref\<close> and \<open>history\<close> never stream. The handler hands their requests to a storage
  whose strategy is namespaced, so that for a definition of cluster scope the key function refuses
  every request; where \<open>Get\<close> answers, the streamer has no source, because nothing sets one, and
  \<open>InputStream\<close> fails.
\<close>

theorem streams_never_deliver:
  assumes "handler_ServeHTTP env (Some ri) st = (Handle (GetResource k) ws, st')"
    and "k = RefStorage \<or> k = HistoryStorage" and "riIsResourceRequest ri"
    and "\<And>name. \<exists>err. keyFunc True [] name = Inl err"
    and "\<And>s key s'. storageGet s key = Inr s' \<Longrightarrow> ssFn s' = ssFn s"
  shows "\<exists>g. lister_get (he_lister env) (riResource ri @ ''.'' @ riAPIGroup ri) = Inr g \<and>
    (let got = SubresourceStreamerREST_Get keyFunc storageGet (NewSubresourceStreamerREST resource singular)
                 (riNamespace ri) (riName ri) in
     (\<not> is_namespaced g \<longrightarrow> (\<exists>err. got = Inl err)) \<and>
     (\<forall>s. got = Inr s \<longrightarrow> (\<exists>err. InputStream s apiVersion acceptHeader = Inl err)))"
proof -
  obtain g info where g: "lister_get (he_lister env) (riResource ri @ ''.'' @ riAPIGroup ri) = Inr g" "admitted ri g"
    using handler_reaches_dispatch [OF assms(1,3)] by auto
  let ?got = "SubresourceStreamerREST_Get keyFunc storageGet (NewSubresourceStreamerREST resource singular)
    (riNamespace ri) (riName ri)"
  have "\<exists>err. ?got = Inl err" if "\<not> is_namespaced g"
  proof -
    from g(2) that have "riNamespace ri = []" by (simp add: admitted_def)
    with assms(4) [of "riName ri"] show ?thesis
      by (auto simp: SubresourceStreamerREST_Get_def NewSubresourceStreamerREST_def streamer_NamespaceScoped_def)
  qed
  moreover have "\<exists>err. InputStream s apiVersion acceptHeader = Inl err" if "?got = Inr s" for s
  proof -
    from that obtain key where "storageGet \<lparr>ssFn = None\<rparr> key = Inr s"
      by (auto simp: SubresourceStreamerREST_Get_def NewSubresourceStreamerREST_def split: sum.splits)
    from assms(5) [OF this] show ?thesis by (simp add: InputStream_def)
  qed
  ultimately show ?thesis using g(1) by (auto simp: Let_def)
qed

section \<open>Witnesses\<close>

definition v1_widget :: "unit runtime_object" where
  "v1_widget = \<lparr>roGVK = (''g.io'', ''v1'', ''Widget''), roContent = ()\<rparr>"

definition widget_storage_env :: "unit runtime_object storage_env" where
  "widget_storage_env = \<lparr>seRoot = ''/d'', seGroup = ''g.io'',
     seEncode = (\<lambda>x. if x = v1_widget then Inr ''w'' else Inl (PlainErr ''encode'')),
     seDecode = (\<lambda>s. if s = ''w'' then Inr v1_widget else Inl (PlainErr ''decode'')), seNew = v1_widget, seZero = v1_widget,
     seObjectRV = (\<lambda>_. Inr 1), seSetRV = (\<lambda>_. Inr), seParseRV = (\<lambda>_. Inr 0), seKind = (\<lambda>_. UnstructuredObject),
     seSnowflake = (\<lambda>_. Inr 1), seFault = (\<lambda>_. None)\<rparr>"

definition widget_storage :: "unit runtime_object storage_state" where
  "widget_storage = \<lparr>ssFS = [(''/d'', DirEntry)], ssGenerated = 0, ssEvents = []\<rparr>"

lemma widget_created: "\<exists>st'. Create widget_storage_env ''/d/b'' v1_widget widget_storage = (Inr v1_widget, st')"
  by (simp add: Create_def key_file_def exists_path_def fs_lookup_def widget_storage_def sample_paths ensureDir_def
      getResourceVersion_def widget_storage_env_def writeFile_def os_WriteFile_def is_dir_def fs_put_def Get_def
      readFile_lookup validateMinimumResourceVersion_def notifyWatchers_def)

definition sample_written :: "versioning_codec \<Rightarrow> unit runtime_object \<Rightarrow> go_error + unit runtime_object" where
  "sample_written codec x = codec_convert (\<lambda>_ _. Inl (PlainErr ''x'')) codec x (vcVersion codec)"

theorem version_label_not_converted_witness:
  "\<exists>st'. Create widget_storage_env ''/d/b'' v1_widget widget_storage = (Inr v1_widget, st') \<and>
    sample_written (EncoderForVersion (JSONSerializer False False) (''g.io'', ''v2'')) v1_widget = Inr v1_widget"
proof -
  obtain st' where c: "Create widget_storage_env ''/d/b'' v1_widget widget_storage = (Inr v1_widget, st')"
    using widget_created by blast
  have e: "seEncode widget_storage_env x = Inr b \<Longrightarrow> seDecode widget_storage_env b = Inr x" for x b
    by (auto simp: widget_storage_env_def split: if_splits)
  have v: "seSetRV widget_storage_env rv x = Inr y \<Longrightarrow> roGVK y = roGVK x" for rv x y
    by (simp add: widget_storage_env_def)
  have w: "sample_written codec x = Inr y \<Longrightarrow> codec_convert (\<lambda>_ _. Inl (PlainErr ''x'')) codec x (vcVersion codec) = Inr y"
    for codec x y by (simp add: sample_written_def)
  obtain y where y: "sample_written (EncoderForVersion (JSONSerializer False False) (''g.io'', ''v2'')) v1_widget = Inr y"
    by (simp add: sample_written_def codec_convert_def EncoderForVersion_def objectConvertor_ConvertToVersion_def)
  have "y = v1_widget"
    using version_label_not_converted [where written = sample_written
        and schemeConvert = "\<lambda>_ _. Inl (PlainErr ''x'')" and ser = "JSONSerializer False False" and gv = "(''g.io'', ''v2'')",
        OF e _ w c] v y by blast
  with y c show ?thesis by blast
qed

definition streamed_sample :: GRD where
  "streamed_sample = (established_sample ''ds'')\<lparr>gSpec := (gSpec (established_sample ''ds''))\<lparr>sScope := ClusterScoped,
     sVersions := [(sample_version ''v1'' True True)\<lparr>vSubresources := Some \<lparr>subStatus = None, subScale = None, subHistory = None, subRef = Some ()\<rparr>\<rparr>]\<rparr>\<rparr>"

definition ref_request :: RequestInfo where
  "ref_request = (sample_request ''get'' ''ref'')\<lparr>riNamespace := []\<rparr>"

definition sample_keyFunc :: "bool \<Rightarrow> string \<Rightarrow> string \<Rightarrow> go_error + string" where
  "sample_keyFunc namespaced ns name =
    (if namespaced \<and> ns = [] then Inl (BadRequest ''Namespace parameter required.'') else Inr (ns @ ''/'' @ name))"

lemma streamed_request:
  "\<exists>ws st'. handler_ServeHTTP (sample_handler_env [streamed_sample]) (Some ref_request) NewGrafanaResourceDefinitionHandler =
    (Handle (GetResource RefStorage) ws, st')"
proof -
  have g: "lister_get (he_lister (sample_handler_env [streamed_sample])) ''ds.g.io'' = Inr streamed_sample"
    by (simp add: sample_handler_env_def streamed_sample_def)
  have s: "sVersions (gSpec streamed_sample) =
      [(sample_version ''v1'' True True)\<lparr>vSubresources := Some \<lparr>subStatus = None, subScale = None, subHistory = None, subRef = Some ()\<rparr>\<rparr>]"
    "\<not> is_namespaced streamed_sample" "IsGRDConditionTrue streamed_sample Established"
    "gStatus streamed_sample = gStatus (established_sample ''ds'')" "gMeta streamed_sample = gMeta (established_sample ''ds'')"
    using established_sample_sel(1) [of "''ds''"]
    by (simp_all add: streamed_sample_def is_namespaced_def ClusterScoped_def NamespaceScoped_def IsGRDConditionTrue_def
        IsGRDConditionPresentAndEqual_def)
  then show ?thesis
    using g
    by (simp add: handler_ServeHTTP_def ref_request_def sample_request_def Let_def getOrCreateServingInfoFor_def
        NewGrafanaResourceDefinitionHandler_def build_serving_info_def GetGRDStorageVersion_def HasServedGRDVersion_def
        hasServedGRDVersion_def GetSubresourcesForVersion_def dispatch_def serveRef_def has_sub_def sample_version_def
        sample_handler_env_def)
qed

theorem streams_never_deliver_witness:
  "\<exists>err. SubresourceStreamerREST_Get sample_keyFunc (\<lambda>s key. Inr s) (NewSubresourceStreamerREST ''ds'' ''d'')
     (riNamespace ref_request) (riName ref_request) = (Inl err :: go_error + unit SubresourceStreamer)"
proof -
  obtain ws st' where h: "handler_ServeHTTP (sample_handler_env [streamed_sample]) (Some ref_request)
      NewGrafanaResourceDefinitionHandler = (Handle (GetResource RefStorage) ws, st')"
    using streamed_request by blast
  have k: "\<exists>err. sample_keyFunc True [] name = Inl err" for name by (simp add: sample_keyFunc_def)
  have n: "\<not> is_namespaced streamed_sample"
    by (simp add: streamed_sample_def is_namespaced_def ClusterScoped_def NamespaceScoped_def)
  have l: "lister_get (he_lister (sample_handler_env [streamed_sample])) ''ds.g.io'' = Inr streamed_sample"
    by (simp add: sample_handler_env_def streamed_sample_def)
  have r: "riResource ref_request = ''ds''" "riAPIGroup ref_request = ''g.io''" "riIsResourceRequest ref_request"
    by (simp_all add: ref_request_def sample_request_def)
  show ?thesis
    using streams_never_deliver [where keyFunc = sample_keyFunc and storageGet = "\<lambda>s key. Inr s" and resource = "''ds''"
        and singular = "''d''" and apiVersion = "[]" and acceptHeader = "[]", OF h disjI1 [OF refl] r(3) k] n l
    by (auto simp: r(1,2) Let_def)
qed

end
