(* ===== verification/Scopes.thy ===== *)
theory Scopes
  imports Adapters GrdRegistry Conversion
begin

text \<open>
  The request scopes of a serving info, \<open>getOrCreateServingInfoFor\<close> and \<open>scopeWithFieldManager\<close> of
  \<open>apiserver/grafanaresource_handler.go\<close>: for every version of a definition one scope for the
  resource and one for its subresources, which the endpoints of Kubernetes work with. \<open>Handler\<close> has
  the rest of the serving info; here is what the loop over the versions puts into the scopes.

  A field manager is \<open>managedfields\<close>' own; its construction is the parameter \<open>he_field_manager\<close> of
  \<open>Handler\<close>, and a scope keeps what it was asked for. Codecs, authorizer, equivalent resources and
  the adapters of \<open>Adapters\<close> are the same in every scope and left out.
\<close>

section \<open>Scopes\<close>

record field_manager =
  fmKind :: gvk
  fmHub :: "string \<times> string"
  fmSubresource :: string
  fmResetFields :: "(string \<times> string) list"

record request_scope =
  scClusterScoped :: bool
  scSerializers :: "serializer_info list"
  scResource :: "string \<times> string \<times> string"
  scKind :: gvk
  scSubresource :: string
  scHub :: "string \<times> string"
  scMeta :: "string \<times> string"
  scTable :: resource_storage
  scMaxRequestBodyBytes :: int
  scFieldManager :: "field_manager option"

definition scopeWithFieldManager ::
  "handler_env \<Rightarrow> GRD \<Rightarrow> request_scope \<Rightarrow> (string \<times> string) list \<Rightarrow> string \<Rightarrow> go_error + request_scope" where
  "scopeWithFieldManager env grd reqScope resetFields subresource =
    (case he_field_manager env grd subresource of
       Some err \<Rightarrow> Inl err
     | None \<Rightarrow> Inr (reqScope\<lparr>scFieldManager := Some
         \<lparr>fmKind = scKind reqScope, fmHub = scHub reqScope, fmSubresource = subresource, fmResetFields = resetFields\<rparr>\<rparr>))"

definition new_scope :: "int \<Rightarrow> GRD \<Rightarrow> string \<Rightarrow> request_scope" where
  "new_scope maxRequestBodyBytes grd v =
    \<lparr>scClusterScoped = (sScope (gSpec grd) = ClusterScoped), scSerializers = standardSerializers,
     scResource = (sGroup (gSpec grd), v, Plural (accepted grd)),
     scKind = (sGroup (gSpec grd), v, Kind (accepted grd)), scSubresource = [],
     scHub = (sGroup (gSpec grd), v), scMeta = (''meta.k8s.io'', ''v1''), scTable = new_storage grd,
     scMaxRequestBodyBytes = maxRequestBodyBytes, scFieldManager = None\<rparr>"

text \<open>One pass of the loop: the scope of the resource and the one of the subresources.\<close>

definition version_scopes ::
  "handler_env \<Rightarrow> int \<Rightarrow> GRD \<Rightarrow> string \<Rightarrow> go_error + request_scope \<times> request_scope" where
  "version_scopes env maxRequestBodyBytes grd v =
    (case GetSubresourcesForVersion grd v of
       Inl _ \<Rightarrow> Inl (PlainErr ''the server could not properly serve the CR subresources'')
     | Inr subresources \<Rightarrow>
         (case scopeWithFieldManager env grd (new_scope maxRequestBodyBytes grd v)
                 (gr_GetResetFields (handler_strategy grd v)) [] of
            Inl err \<Rightarrow> Inl err
          | Inr reqScope \<Rightarrow>
              let statusScope = reqScope\<lparr>scSubresource := ''status'',
                    scClusterScoped := (sScope (gSpec grd) = ClusterScoped)\<rparr>
              in if has_sub subStatus subresources
                 then (case scopeWithFieldManager env grd statusScope
                              (statusStrategy_GetResetFields (handler_strategy grd v)) ''status'' of
                         Inl err \<Rightarrow> Inl err
                       | Inr s \<Rightarrow> Inr (reqScope, s))
                 else Inr (reqScope, statusScope)))"

fun scopes_loop ::
  "handler_env \<Rightarrow> int \<Rightarrow> GRD \<Rightarrow> GrafanaResourceDefinitionVersion list \<Rightarrow>
   (string \<times> request_scope \<times> request_scope) list \<Rightarrow> go_error + (string \<times> request_scope \<times> request_scope) list" where
  "scopes_loop env maxRequestBodyBytes grd [] scopes = Inr scopes"
| "scopes_loop env maxRequestBodyBytes grd (v # vs) scopes =
    (case version_scopes env maxRequestBodyBytes grd (vName v) of
       Inl err \<Rightarrow> Inl err
     | Inr s \<Rightarrow> scopes_loop env maxRequestBodyBytes grd vs ((vName v, s) # scopes))"

definition build_scopes :: "handler_env \<Rightarrow> int \<Rightarrow> GRD \<Rightarrow> go_error + (string \<times> request_scope \<times> request_scope) list" where
  "build_scopes env maxRequestBodyBytes grd = scopes_loop env maxRequestBodyBytes grd (sVersions (gSpec grd)) []"

text \<open>The scope that an endpoint gets: \<open>serveStatus\<close>, \<open>serveRef\<close> and \<open>serveHistory\<close> take the second.\<close>

fun storage_of :: "endpoint \<Rightarrow> storage_kind" where
  "storage_of (GetResource k) = k"
| "storage_of (ListResource w) = MainStorage"
| "storage_of CreateResource = MainStorage"
| "storage_of (UpdateResource k) = k"
| "storage_of (PatchResource k) = k"
| "storage_of DeleteResource = MainStorage"
| "storage_of DeleteCollection = MainStorage"

definition endpoint_scope ::
  "(string \<times> request_scope \<times> request_scope) list \<Rightarrow> RequestInfo \<Rightarrow> endpoint \<Rightarrow> request_scope option" where
  "endpoint_scope scopes ri ep =
    map_option (\<lambda>(requestScope, statusScope). if storage_of ep = MainStorage then requestScope else statusScope)
      (map_of scopes (riAPIVersion ri))"

section \<open>Properties\<close>

lemma version_scopes_Inr:
  assumes "version_scopes env maxBytes g v = Inr (req, stat)"
  shows "req = (new_scope maxBytes g v)\<lparr>scFieldManager := Some \<lparr>fmKind = (sGroup (gSpec g), v, Kind (accepted g)),
      fmHub = (sGroup (gSpec g), v), fmSubresource = [], fmResetFields = gr_GetResetFields (handler_strategy g v)\<rparr>\<rparr> \<and>
    scSubresource stat = ''status'' \<and> scResource stat = scResource req \<and> scKind stat = scKind req \<and>
    scTable stat = scTable req \<and> scClusterScoped stat = scClusterScoped req \<and>
    (\<forall>subs. GetSubresourcesForVersion g v = Inr subs \<longrightarrow> scFieldManager stat =
      (if has_sub subStatus subs then Some \<lparr>fmKind = scKind req, fmHub = scHub req, fmSubresource = ''status'',
          fmResetFields = statusStrategy_GetResetFields (handler_strategy g v)\<rparr>
       else scFieldManager req))"
  using assms
  by (auto simp: version_scopes_def scopeWithFieldManager_def new_scope_def Let_def
      split: sum.splits option.splits if_splits)

text \<open>The scopes are built exactly when the rest of the serving info is.\<close>

lemma scopes_loop_follows:
  "serving_loop env g vs info = Inr ret \<Longrightarrow> \<exists>scopes'. scopes_loop env maxBytes g vs scopes = Inr scopes' \<and>
    (\<forall>v. map_of scopes' v = (if v \<in> vName ` set vs
      then (case version_scopes env maxBytes g v of Inl _ \<Rightarrow> None | Inr s \<Rightarrow> Some s) else map_of scopes v)) \<and>
    (\<forall>v \<in> vName ` set vs. \<exists>s. version_scopes env maxBytes g v = Inr s)"
proof (induction vs arbitrary: info scopes)
  case (Cons w vs)
  from Cons.prems obtain subs info' where subs: "GetSubresourcesForVersion g (vName w) = Inr subs"
    "he_field_manager env g [] = None" "has_sub subStatus subs \<Longrightarrow> he_field_manager env g ''status'' = None"
    "serving_loop env g vs info' = Inr ret"
    by (auto simp: Let_def split: sum.splits option.splits if_splits)
  then obtain s where s: "version_scopes env maxBytes g (vName w) = Inr s"
    by (cases "has_sub subStatus subs") (simp_all add: version_scopes_def scopeWithFieldManager_def Let_def)
  from Cons.IH [OF subs(4), of "(vName w, s) # scopes"] s show ?case by fastforce
qed auto

text \<open>
  A request gets the scope of its version: when the serving info of a definition was built, every
  request that the handler hands to an endpoint finds a scope, its group, version, plural and kind are
  those that the definition was accepted with, and its storage is the one of that version. The scope of
  a subresource says \<open>status\<close>, for \<open>ref\<close> and \<open>history\<close> too.
\<close>

theorem requests_get_their_scope:
  assumes built: "build_serving_info env g = Inr info" and dispatched: "dispatch ri g info terminating = Handle ep ws"
  shows "\<exists>scopes sc. build_scopes env maxBytes g = Inr scopes \<and> endpoint_scope scopes ri ep = Some sc \<and>
    scResource sc = (sGroup (gSpec g), riAPIVersion ri, Plural (accepted g)) \<and>
    scKind sc = (sGroup (gSpec g), riAPIVersion ri, Kind (accepted g)) \<and>
    map_of (gi_storages info) (riAPIVersion ri) = Some (scTable sc) \<and>
    scSubresource sc = (if riSubresource ri = [] then [] else ''status'')"
proof -
  obtain v0 where loop: "serving_loop env g (sVersions (gSpec g))
      \<lparr>gi_spec = gSpec g, gi_acceptedNames = accepted g, gi_deprecated = [], gi_warnings = [], gi_storages = [],
       gi_storageVersion = v0\<rparr> = Inr info"
    using built by (auto simp: build_serving_info_def split: sum.splits)
  have "\<exists>subs. GetSubresourcesForVersion g (riAPIVersion ri) = Inr subs"
    using dispatched by (auto simp: dispatch_def Let_def split: sum.splits)
  then have listed: "riAPIVersion ri \<in> vName ` set (sVersions (gSpec g))"
    by (auto simp: GetSubresourcesForVersion_def find_Some_iff split: option.splits)
  from scopes_loop_follows [OF loop, of maxBytes "[]"] listed obtain scopes req stat where
    scopes: "build_scopes env maxBytes g = Inr scopes" "map_of scopes (riAPIVersion ri) = Some (req, stat)"
      "version_scopes env maxBytes g (riAPIVersion ri) = Inr (req, stat)"
    by (fastforce simp: build_scopes_def)
  note sel = version_scopes_Inr [OF scopes(3)]
  have "storage_of ep = MainStorage \<longleftrightarrow> riSubresource ri = []"
    using dispatched
    by (auto simp: dispatch_def serveStatus_def serveRef_def serveHistory_def serveResource_def verb_not_supported_def
        Let_def split: sum.splits if_splits option.splits)
  moreover have "map_of (gi_storages info) (riAPIVersion ri) = Some (new_storage g)"
    using build_serving_info_sel [OF built] listed by simp
  ultimately show ?thesis
    using scopes(1,2) sel by (auto simp: endpoint_scope_def new_scope_def)
qed

theorem requests_get_their_scope_witness:
  "\<exists>scopes sc. build_scopes (sample_handler_env [established_sample ''ds'']) 100 (established_sample ''ds'') = Inr scopes \<and>
    endpoint_scope scopes (sample_request ''get'' []) (GetResource MainStorage) = Some sc \<and>
    scKind sc = (sGroup (gSpec (established_sample ''ds'')), riAPIVersion (sample_request ''get'' []),
      Kind (accepted (established_sample ''ds'')))"
proof -
  have "dispatch (sample_request ''get'' []) (established_sample ''ds'') sample_info False = Handle (GetResource MainStorage) []"
    by (simp add: dispatch_def serveResource_def sample_request_def sample_info_def warnings_for_def
        GetSubresourcesForVersion_def sample_version_def)
  from requests_get_their_scope [OF sample_build this, of "[established_sample ''ds'']" 100] show ?thesis by blast
qed

text \<open>
  A definition whose scope is neither \<open>Namespaced\<close> nor \<open>Cluster\<close>, which no validation refuses, gets
  storages without namespaces and a namer for namespaced objects.
\<close>

lemma odd_scope_disagrees:
  assumes "sScope (gSpec g) \<notin> {NamespaceScoped, ClusterScoped}"
  shows "\<not> rsNamespaced (scTable (new_scope maxBytes g v)) \<and> \<not> scClusterScoped (new_scope maxBytes g v) \<and>
    grd_Validate (kinds_of p g) = []"
  using assms by (simp add: new_scope_def new_storage_def is_namespaced_def grd_Validate_def)

end
