(* ===== verification/Spec2Isabelle.thy ===== *)
theory Spec2Isabelle
  imports Lifecycle ApiRegistration WatchSet CertGen SyncMemory Published Informers Client Startup Scheme Stores Scopes
begin

text \<open>
  A verification library for grafana-apiserver, an API server that serves user-defined
  resource kinds: a user creates a \<open>GrafanaResourceDefinition\<close> (a fork of the
  CustomResourceDefinition of Kubernetes), controllers decide about its names and publish it,
  and a dynamic handler then serves objects of the kind out of a storage of JSON files.

  Parts, and the theory that models each (file names are under \<open>src/pkg\<close>):

  \<^item> \<open>Prelude\<close>: errors and outcomes of Go functions, slices that may be nil, packages \<open>strings\<close>,
    \<open>path\<close> and \<open>sort\<close>, the lister interface of the informers.
  \<^item> \<open>Kinds\<close>: the records of \<open>apis/kinds/v1/types.go\<close> and of the internal version
    \<open>apis/kinds/types.go\<close>. \<open>GrdHelpers\<close>: \<open>apihelpers/helpers.go\<close>, \<open>apis/kinds/helpers.go\<close>.
  \<^item> \<open>Conversion\<close>: defaulting and conversion between the two versions, with the aliasing of the
    versions slice. \<open>Scheme\<close>: what \<open>apis/kinds/install\<close> registers with a scheme.
  \<^item> \<open>DeepCopy\<close>: the generated deep copies on an explicit memory of cells. \<open>CacheSafety\<close> and
    \<open>SyncMemory\<close>: the syncs of the controllers on pointers into the shared cache.
  \<^item> \<open>Json\<close>: definitions as JSON documents. \<open>OpenAPI\<close>: the documents of \<open>client/openapi\<close>.
    \<open>Published\<close>: which definitions conform to them.
  \<^item> \<open>Controllers\<close>: the work queue loop all controllers share. \<open>Naming\<close>, \<open>Establish\<close>,
    \<open>ApiApproval\<close>, \<open>Finalizer\<close>: the controllers of the same names; a sync is a function from the
    lister, the clients and the clock to the updates sent and an outcome.
  \<^item> \<open>ApiRegistration\<close>: both controllers of \<open>controller/apiregistration\<close>.
  \<^item> \<open>Discovery\<close> and \<open>Handler\<close>: the discovery controller with its three HTTP handlers, and
    \<open>apiserver/grafanaresource_handler.go\<close> with its cache of serving infos. \<open>Scopes\<close>: the request
    scopes of a serving info.
  \<^item> \<open>FilePathStorage\<close>: \<open>storage/filepath\<close> on a model of the file system, resource versions as
    64-bit words. \<open>WatchSet\<close>: \<open>watchset.go\<close> as a transition system of goroutines, unbuffered
    channels and a lock.
  \<^item> \<open>GrdRegistry\<close> and \<open>GrRegistry\<close>: the strategies and storages of definitions and of defined
    resources, with the scale subresource at 32 and 64 bits. \<open>Stores\<close>: how the generic stores are
    set up. \<open>Adapters\<close>: \<open>pkg/runtime\<close>, \<open>endpoints/request\<close> and the streamed subresources.
  \<^item> \<open>CertGen\<close>: \<open>certgenerator\<close> on the same file system.
  \<^item> \<open>Informers\<close>, \<open>Client\<close>, \<open>ApplyConfig\<close>: the generated informer factory and lister, the typed
    client and clientset, and the apply configurations under \<open>client\<close>.
  \<^item> \<open>Wiring\<close>: \<open>cmd/server\<close> and \<open>apiserver/apiserver.go\<close>, from the options to the server. \<open>Startup\<close>:
    its hooks, the \<open>Run\<close> methods of the controllers and their workers, from start to shutdown, as a
    transition system.
  \<^item> \<open>Lifecycle\<close>: the life of one definition through registry, controllers, discovery and
    handler, as a step relation. This theory: properties that join discovery, handler and
    registry.

  Interaction. The controllers and the handler read definitions from listers fed by informers
  and write through clients; a model of each takes the lister as an argument and returns the
  updates, and \<open>Naming\<close>, \<open>Handler\<close> and \<open>Lifecycle\<close> close the loop with step relations in which
  the updates reach the lister and the events reach the event handlers. That a sync is one step there
  is justified twice: \<open>Startup\<close> shows which syncs run at the same time (names are granted by one worker),
  and \<open>SyncMemory\<close> that a sync leaves the cache it reads as it was. The registries call the file
  storage, which notifies the watch set. Interfaces are locales, interpreted on the model:
  the conditions of a definition as its clients use them (\<open>condition_store\<close>, for both versions),
  the copies of the struct types and of what points to them (\<open>copier\<close>, \<open>pointee\<close>, \<open>element\<close>), values
  that other writes do not change (\<open>stable_reader\<close>), the tables behind the discovery handlers
  (\<open>discovery_map\<close>), the registration of API services between the two controllers
  (\<open>auto_registration\<close>), the store as its callers see it (\<open>object_store\<close>), and what the steps of the
  watch set keep of a single watch (\<open>node_invariant\<close>).

  What the lemmas show. Per component: the behaviour of each operation on its branches, errors
  included; invariants of the states that persist (names of a group are disjoint, cached
  serving infos are current, the tables of the registration agree with their queue, watches
  deliver in order, informers are shared and run once, workers start after the caches have synced);
  agreement with a reference (\<open>discovery_sync\<close> with the expected tables, \<open>checkAPIService\<close> with the
  table of its comment, a watch with a cursor in a log, syncs on pointers with syncs on values);
  round trips (storage, certificates, conversions, JSON). Across components: a definition becomes
  served, Established is stable, serving does not panic, what is served has the published form.
  Several theorems state what the code does where that is not what it means to do; they are
  named after the behaviour, such as \<open>delete_reported_but_not_stored\<close>.

  Bounds and fuel. \<open>MaxUpdateAttempts\<close> is 30, as in the code; the update loop recurs on the
  attempts left. The finalizer polls every 5 seconds for a minute: \<open>fe_polls\<close> is the number of
  polls and the theorem that it finishes asks for the instances to go within them. Steps of a
  work queue handle one key each, so no fuel is needed elsewhere; a notification of the watch
  set may never return, and the theorems on it say when it does. Counters that only name things
  (ids of watches, generated keys) are unbounded; replicas, resource versions, generations and the
  timeouts of clients keep the width of the code where it matters.

  Parameters. Code outside the repository is an argument: codecs, the versioner, the snowflake
  generator, API clients, work queues, informers, schemes, the generic registry, the Kubernetes
  builders of admission and field managers, the comparison of version names, cryptography, clock and
  operating system faults, with the laws the theorems use as their hypotheses.

  Not modelled: command line flags and logging, the fake client (a test double), the descriptions of
  the OpenAPI documents, the parser in \<open>applyconfiguration/internal\<close> (it has no type of this API), and
  partial directories that a failed \<open>MkdirAll\<close> leaves.
\<close>

section \<open>Discovery, handler and storages of one definition\<close>

text \<open>
  The scale subresource is advertised but never served: for a version that declares
  \<open>scale\<close>, discovery lists \<open>plural/scale\<close> with \<open>get\<close>, \<open>patch\<close> and \<open>update\<close>, but the storage of that
  version has no scale endpoint and the handler hands no request for the subresource to a
  storage.
\<close>

theorem scale_advertised_never_served:
  assumes "GetSubresourcesForVersion g ver = Inr (Some subs)" and "subScale subs \<noteq> None"
    and "riSubresource ri = ''scale''"
  shows "(\<exists>r \<in> set (resources_of denv ver g). arName r = Plural (accepted g) @ ''/scale'' \<and>
      arKind r = ''Scale'' \<and> arVerbs r = status_verbs) \<and>
    gsScaleREST (gr_NewStorage (handler_strategy g ver)) = None \<and>
    (\<forall>ep ws. fst (handler_ServeHTTP env (Some ri) st) \<noteq> Handle ep ws)"
proof (intro conjI allI notI)
  show "\<exists>r \<in> set (resources_of denv ver g). arName r = Plural (accepted g) @ ''/scale'' \<and>
      arKind r = ''Scale'' \<and> arVerbs r = status_verbs"
    using assms(1,2) by (simp add: resources_of_def subs_of_def sub_resources_def has_sub_def sub_resource_def)
  show "gsScaleREST (gr_NewStorage (handler_strategy g ver)) = None"
    by (simp add: gr_NewStorage_def handler_strategy_def NewStrategy_def Let_def)
  fix ep ws
  assume h: "fst (handler_ServeHTTP env (Some ri) st) = Handle ep ws"
  then obtain st' where s: "handler_ServeHTTP env (Some ri) st = (Handle ep ws, st')" by (metis prod.collapse)
  then have "riIsResourceRequest ri"
    by (auto simp: handler_ServeHTTP_def Let_def split: if_splits)
  from handler_reaches_dispatch [OF s this] obtain d info
    where "dispatch ri d info (IsGRDConditionTrue d Terminating) = Handle ep ws" by auto
  from dispatch_Handle(2) [OF this] assms(3) show False by auto
qed

definition scalable_sample :: GRD where
  "scalable_sample = (established_sample ''ds'')\<lparr>gSpec := (gSpec (established_sample ''ds''))\<lparr>sVersions :=
     [(sample_version ''v1'' True True)\<lparr>vSubresources := Some (empty_subresources\<lparr>subScale :=
        Some \<lparr>SpecReplicasPath = ''.spec.replicas'', StatusReplicasPath = ''.status.replicas'', LabelSelectorPath = None\<rparr>\<rparr>)\<rparr>]\<rparr>\<rparr>"

theorem scale_advertised_never_served_witness:
  "fst (handler_ServeHTTP (sample_handler_env [scalable_sample]) (Some (sample_request ''get'' ''scale''))
     NewGrafanaResourceDefinitionHandler) \<noteq> Handle (GetResource MainStorage) []"
proof -
  have "\<exists>subs. GetSubresourcesForVersion scalable_sample ''v1'' = Inr (Some subs) \<and> subScale subs \<noteq> None"
    by (simp add: GetSubresourcesForVersion_def scalable_sample_def sample_version_def)
  then obtain subs where s: "GetSubresourcesForVersion scalable_sample ''v1'' = Inr (Some subs)" "subScale subs \<noteq> None"
    by blast
  have "riSubresource (sample_request ''get'' ''scale'') = ''scale''" by (simp add: sample_request_def)
  from scale_advertised_never_served [OF s this] show ?thesis by blast
qed

end
